(* ===== verification/Prelude.thy ===== *)
theory Prelude
  imports Complex_Main
begin

text \<open>
  Shared vocabulary of the development: instants and durations, relational tables as lists
  of rows with lookups and keyed updates, JSON values, string helpers, and the collections
  of rewrite rules the component theories extend.

  A table of the database is a list of rows. SQLAlchemy's \<open>query.filter(p).first()\<close> is
  \<open>find p\<close> (the first row in the table's order that satisfies the filter), \<open>.all()\<close> is
  \<open>filter p\<close>, \<open>.count()\<close> is \<open>count_rows p\<close>, and an attribute write on the row with primary
  key \<open>k\<close> is \<open>upd_key key k f\<close>.
\<close>

named_theorems row_simps \<open>lookups and updates of tables\<close>
named_theorems money_defs \<open>definitions of the money path\<close>
named_theorems kernel_defs \<open>definitions of the maintenance kernel\<close>

section \<open>Time\<close>

text \<open>
  An instant (\<open>datetime\<close>) and a duration (\<open>timedelta\<close>) are integers counting microseconds,
  the resolution of both Python types.
\<close>

type_synonym instant = int
type_synonym duration = int

definition seconds :: "int \<Rightarrow> duration" where
  "seconds n = n * 1000000"

definition minutes :: "int \<Rightarrow> duration" where
  "minutes n = seconds (60 * n)"

definition hours :: "int \<Rightarrow> duration" where
  "hours n = minutes (60 * n)"

definition days :: "int \<Rightarrow> duration" where
  "days n = hours (24 * n)"

lemmas time_units = seconds_def minutes_def hours_def days_def

text \<open>Midnight of the day of an instant: \<open>now.replace(hour=0, minute=0, second=0, microsecond=0)\<close>.\<close>

definition day_start :: "instant \<Rightarrow> instant" where
  "day_start t = t - t mod days 1"

lemma day_start_le: "day_start t \<le> t"
  by (simp add: day_start_def time_units)

lemma day_start_idem [simp]: "day_start (day_start t) = day_start t"
  by (simp add: day_start_def time_units mod_diff_eq [symmetric])

section \<open>Tables\<close>

text \<open>Primary keys (UUIDs), which the program only compares.\<close>

type_synonym uid = nat

definition count_rows :: "('r \<Rightarrow> bool) \<Rightarrow> 'r list \<Rightarrow> nat" where
  "count_rows p xs = length (filter p xs)"

definition upd_key :: "('r \<Rightarrow> 'k) \<Rightarrow> 'k \<Rightarrow> ('r \<Rightarrow> 'r) \<Rightarrow> 'r list \<Rightarrow> 'r list" where
  "upd_key key k f xs = map (\<lambda>r. if key r = k then f r else r) xs"

text \<open>\<open>UPDATE t SET \<dots> WHERE p\<close>: every row that satisfies \<open>p\<close>.\<close>

definition upd_where :: "('r \<Rightarrow> bool) \<Rightarrow> ('r \<Rightarrow> 'r) \<Rightarrow> 'r list \<Rightarrow> 'r list" where
  "upd_where p f xs = map (\<lambda>r. if p r then f r else r) xs"

lemma upd_key_Nil [simp]: "upd_key key k f [] = []"
  by (simp add: upd_key_def)

lemma upd_key_Cons [simp]:
  "upd_key key k f (x # xs) = (if key x = k then f x else x) # upd_key key k f xs"
  by (simp add: upd_key_def)

lemma upd_key_append [simp]: "upd_key key k f (xs @ ys) = upd_key key k f xs @ upd_key key k f ys"
  by (simp add: upd_key_def)

lemma length_upd_key [simp]: "length (upd_key key k f xs) = length xs"
  by (simp add: upd_key_def)

lemma map_key_upd_key:
  assumes "\<And>r. key r = k \<Longrightarrow> g (f r) = g r"
  shows "map g (upd_key key k f xs) = map g xs"
  using assms by (induction xs) auto

lemma set_upd_key:
  "r' \<in> set (upd_key key k f xs) \<longleftrightarrow>
    (\<exists>r \<in> set xs. r' = (if key r = k then f r else r))"
  unfolding upd_key_def set_map image_iff ..

lemma upd_key_keep: "y \<in> set xs \<Longrightarrow> key y \<noteq> k \<Longrightarrow> y \<in> set (upd_key key k f xs)"
  by (auto simp: set_upd_key)

lemma upd_key_hit: "y \<in> set xs \<Longrightarrow> key y = k \<Longrightarrow> f y \<in> set (upd_key key k f xs)"
  by (auto simp: set_upd_key)

lemma upd_key_no_match: "k \<notin> key ` set xs \<Longrightarrow> upd_key key k f xs = xs"
  by (induction xs) auto

lemma upd_key_id: "(\<And>r. key r = k \<Longrightarrow> f r = r) \<Longrightarrow> upd_key key k f xs = xs"
  by (induction xs) auto

lemma upd_key_twice:
  assumes "\<And>r. key r = k \<Longrightarrow> key (f r) = k"
  shows "upd_key key k g (upd_key key k f xs) = upd_key key k (\<lambda>r. g (f r)) xs"
  using assms by (induction xs) auto

lemma find_key_upd_key:
  assumes "\<And>r. key r = k \<Longrightarrow> key (f r) = k"
  shows "find (\<lambda>r. key r = k') (upd_key key k f xs) =
    (if k' = k then map_option f (find (\<lambda>r. key r = k) xs) else find (\<lambda>r. key r = k') xs)"
  using assms by (induction xs) auto

lemma find_upd_key_frame:
  assumes "\<And>r. key r = k \<Longrightarrow> \<not> p r" and "\<And>r. key r = k \<Longrightarrow> \<not> p (f r)"
  shows "find p (upd_key key k f xs) = find p xs"
  using assms by (induction xs) auto

text \<open>A filter that the update neither makes true nor false finds the updated row.\<close>

lemma find_upd_key_stable:
  assumes "\<And>r. key r = k \<Longrightarrow> p (f r) = p r"
  shows "find p (upd_key key k f xs) = map_option (\<lambda>r. if key r = k then f r else r) (find p xs)"
  using assms by (induction xs) auto

lemma find_SomeD: "find p xs = Some r \<Longrightarrow> r \<in> set xs \<and> p r"
  by (metis find_Some_iff nth_mem)

lemma find_append [row_simps]:
  "find p (xs @ ys) = (case find p xs of None \<Rightarrow> find p ys | Some r \<Rightarrow> Some r)"
  by (induction xs) auto

lemma find_distinct_key:
  assumes "distinct (map key xs)" and "r \<in> set xs"
  shows "find (\<lambda>s. key s = key r) xs = Some r"
  using assms
proof (induction xs)
  case Nil
  then show ?case by simp
next
  case (Cons x xs)
  then show ?case by (cases "r = x") (auto dest: imageI [of r "set xs" key])
qed

lemma find_unique:
  assumes "r \<in> set xs" and "p r" and "\<And>s. s \<in> set xs \<Longrightarrow> p s \<Longrightarrow> s = r"
  shows "find p xs = Some r"
proof (cases "find p xs")
  case None
  with assms(1,2) show ?thesis by (auto simp: find_None_iff)
next
  case (Some s)
  then have "s \<in> set xs \<and> p s" by (rule find_SomeD)
  with assms(3) have "s = r" by blast
  with Some show ?thesis by simp
qed

lemma find_filter_None: "filter p xs = [] \<Longrightarrow> find p xs = None"
  by (simp add: filter_empty_conv find_None_iff)

text \<open>
  The workhorse of the accounting proofs: with distinct keys, updating one row changes a
  column sum by the change of that row.
\<close>

lemma sum_upd_key:
  fixes g :: "'r \<Rightarrow> int"
  assumes "distinct (map key xs)" and "r \<in> set xs" and "key r = k"
  shows "sum_list (map g (upd_key key k f xs)) = sum_list (map g xs) - g r + g (f r)"
  using assms
proof (induction xs)
  case Nil
  then show ?case by simp
next
  case (Cons x xs)
  show ?case
  proof (cases "x = r")
    case True
    with Cons.prems have "k \<notin> key ` set xs" by auto
    with True Cons.prems(3) show ?thesis by (simp add: upd_key_no_match)
  next
    case False
    with Cons.prems have "r \<in> set xs" and "key x \<noteq> k" by auto
    with Cons show ?thesis by simp
  qed
qed

lemma sum_upd_key_none:
  fixes g :: "'r \<Rightarrow> int"
  assumes "\<And>r. r \<in> set xs \<Longrightarrow> key r = k \<Longrightarrow> g (f r) = g r"
  shows "sum_list (map g (upd_key key k f xs)) = sum_list (map g xs)"
  using assms by (induction xs) auto

lemma upd_where_all [simp]:
  "(\<And>r. r \<in> set xs \<Longrightarrow> \<not> p r) \<Longrightarrow> upd_where p f xs = xs"
  by (induction xs) (auto simp: upd_where_def)

lemma length_upd_where [simp]: "length (upd_where p f xs) = length xs"
  by (simp add: upd_where_def)

lemma set_upd_where:
  "r' \<in> set (upd_where p f xs) \<longleftrightarrow> (\<exists>r \<in> set xs. r' = (if p r then f r else r))"
  unfolding upd_where_def set_map image_iff ..

lemma sum_nonneg_filter:
  fixes g :: "'r \<Rightarrow> int"
  assumes "\<And>r. r \<in> set xs \<Longrightarrow> 0 \<le> g r"
  shows "0 \<le> sum_list (map g (filter p xs))"
  using assms by (induction xs) auto

lemma sum_filter_member_le:
  fixes g :: "'r \<Rightarrow> int"
  assumes "\<And>r. r \<in> set xs \<Longrightarrow> 0 \<le> g r" and "r \<in> set xs" and "p r"
  shows "g r \<le> sum_list (map g (filter p xs))"
  using assms
proof (induction xs)
  case Nil
  then show ?case by simp
next
  case (Cons x xs)
  from Cons.prems(1) have "0 \<le> sum_list (map g (filter p xs))"
    by (intro sum_nonneg_filter) auto
  with Cons show ?case by (cases "x = r") force+
qed

lemma sum_list_strict:
  fixes f g :: "'a \<Rightarrow> int"
  assumes "\<And>x. x \<in> set xs \<Longrightarrow> f x \<le> g x" and "y \<in> set xs" and "f y < g y"
  shows "sum_list (map f xs) < sum_list (map g xs)"
  using assms
proof (induction xs)
  case (Cons x xs)
  have le: "sum_list (map f xs) \<le> sum_list (map g xs)" using Cons.prems(1) by (intro sum_list_mono) simp
  have fx: "f x \<le> g x" using Cons.prems(1) by simp
  show ?case
  proof (cases "y = x")
    case True
    with le Cons.prems(3) show ?thesis by simp
  next
    case False
    with Cons have "sum_list (map f xs) < sum_list (map g xs)" by simp
    with fx show ?thesis by simp
  qed
qed simp

text \<open>A filtered sum as a sum over the whole table.\<close>

lemma sum_filter_if:
  fixes g :: "'r \<Rightarrow> int"
  shows "sum_list (map g (filter p xs)) = sum_list (map (\<lambda>r. if p r then g r else 0) xs)"
  by (induction xs) auto

section \<open>Transition systems\<close>

text \<open>
  A program as a relation between states: \<open>invariant_system\<close> is its initial states, steps and a
  property every step keeps; \<open>simulation\<close> adds an abstract relation the steps refine.
\<close>

locale invariant_system =
  fixes init :: "'s \<Rightarrow> bool"
    and step :: "'s \<Rightarrow> 's \<Rightarrow> bool"
    and inv :: "'s \<Rightarrow> bool"
  assumes init_inv: "init s \<Longrightarrow> inv s"
    and step_inv: "inv s \<Longrightarrow> step s s' \<Longrightarrow> inv s'"
begin

lemma run_inv:
  assumes "step\<^sup>*\<^sup>* s s'" and "inv s"
  shows "inv s'"
  using assms by (induction rule: rtranclp_induct) (auto intro: step_inv)

lemma reachable_inv: "init s \<Longrightarrow> step\<^sup>*\<^sup>* s s' \<Longrightarrow> inv s'"
  by (rule run_inv) (auto intro: init_inv)

end

locale simulation = invariant_system init step inv
  for init step and inv :: "'s \<Rightarrow> bool" +
  fixes abs :: "'s \<Rightarrow> 'a"
    and astep :: "'a \<Rightarrow> 'a \<Rightarrow> bool"
  assumes step_sim: "inv s \<Longrightarrow> step s s' \<Longrightarrow> astep\<^sup>*\<^sup>* (abs s) (abs s')"
begin

lemma run_sim:
  assumes "step\<^sup>*\<^sup>* s s'" and "inv s"
  shows "astep\<^sup>*\<^sup>* (abs s) (abs s')"
  using assms
proof (induction rule: rtranclp_induct)
  case (step s' s'')
  from step.hyps(1) step.prems have "inv s'" by (rule run_inv)
  with step show ?case by (meson rtranclp_trans step_sim)
qed simp

end

section \<open>Results that may be errors\<close>

text \<open>A call that may raise is a sum, \<open>Inl\<close> the exception; \<open>bindE\<close> sequences two of them.\<close>

definition bindE :: "'e + 'a \<Rightarrow> ('a \<Rightarrow> 'e + 'b) \<Rightarrow> 'e + 'b" where
  "bindE r k = (case r of Inl e \<Rightarrow> Inl e | Inr x \<Rightarrow> k x)"

lemma bindE_simps [simp]: "bindE (Inl e) k = Inl e" "bindE (Inr x) k = k x"
  by (simp_all add: bindE_def)

lemma bindE_Inr: "bindE r k = Inr y \<longleftrightarrow> (\<exists>x. r = Inr x \<and> k x = Inr y)"
  by (cases r) auto

lemma bindE_Inl: "bindE r k = Inl e \<longleftrightarrow> r = Inl e \<or> (\<exists>x. r = Inr x \<and> k x = Inl e)"
  by (cases r) auto

text \<open>\<open>if not p: raise e\<close>.\<close>

definition guardE :: "bool \<Rightarrow> 'e \<Rightarrow> 'e + unit" where
  "guardE p e = (if p then Inr () else Inl e)"

lemma guardE_Inr [simp]: "guardE p e = Inr u \<longleftrightarrow> p"
  by (simp add: guardE_def)

lemma guardE_Inl [simp]: "guardE p e = Inl e' \<longleftrightarrow> \<not> p \<and> e' = e"
  by (auto simp: guardE_def)

text \<open>\<open>if x is None: raise e\<close>.\<close>

definition needE :: "'a option \<Rightarrow> 'e \<Rightarrow> 'e + 'a" where
  "needE x e = (case x of None \<Rightarrow> Inl e | Some y \<Rightarrow> Inr y)"

lemma needE_Inr [simp]: "needE x e = Inr y \<longleftrightarrow> x = Some y"
  by (cases x) (auto simp: needE_def)

lemma needE_Inl [simp]: "needE x e = Inl e' \<longleftrightarrow> x = None \<and> e' = e"
  by (cases x) (auto simp: needE_def)

lemma needE_simps [simp]: "needE None e = Inl e" "needE (Some y) e = Inr y"
  by (simp_all add: needE_def)

text \<open>Change of the error type, for a caller with a wider vocabulary of exceptions.\<close>

definition mapE :: "('e \<Rightarrow> 'f) \<Rightarrow> 'e + 'a \<Rightarrow> 'f + 'a" where
  "mapE f r = (case r of Inl e \<Rightarrow> Inl (f e) | Inr x \<Rightarrow> Inr x)"

lemma mapE_Inr [simp]: "mapE f r = Inr x \<longleftrightarrow> r = Inr x"
  by (cases r) (auto simp: mapE_def)

lemma mapE_simps [simp]: "mapE f (Inl e) = Inl (f e)" "mapE f (Inr x) = Inr x"
  by (simp_all add: mapE_def)

lemma mapE_Inl: "mapE f r = Inl e' \<longleftrightarrow> (\<exists>e. r = Inl e \<and> e' = f e)"
  by (cases r) auto

text \<open>A loop whose body may raise, over one uncommitted state.\<close>

fun foldE :: "('a \<Rightarrow> 's \<Rightarrow> 'e + 's) \<Rightarrow> 'a list \<Rightarrow> 's \<Rightarrow> 'e + 's" where
  "foldE f [] s = Inr s"
| "foldE f (x # xs) s = bindE (f x s) (foldE f xs)"

lemma foldE_invariant:
  assumes "foldE f xs s = Inr s'" and "P s" and "\<And>x s s'. x \<in> set xs \<Longrightarrow> P s \<Longrightarrow> f x s = Inr s' \<Longrightarrow> P s'"
  shows "P s'"
  using assms by (induction xs arbitrary: s) (auto simp: bindE_Inr)

section \<open>JSON values and strings\<close>

text \<open>
  JSON documents as Python holds them (dict, list, str, int, float, bool, None). A finite
  float carries its repr text, because nothing in the program computes with it; the
  non-finite values are the ones the program tests for. An object is its list of items in
  insertion order; Python keeps its keys distinct.
\<close>

datatype json =
    JNull
  | JBool bool
  | JInt int
  | JFloat string
  | JNaN
  | JInf bool
  | JStr string
  | JArr "json list"
  | JObj "(string \<times> json) list"

definition jget :: "(string \<times> json) list \<Rightarrow> string \<Rightarrow> json option" where
  "jget kvs k = map_of kvs k"

text \<open>\<open>d[k] = v\<close>: overwrite in place, or append a new key.\<close>

definition jset :: "string \<Rightarrow> json \<Rightarrow> (string \<times> json) list \<Rightarrow> (string \<times> json) list" where
  "jset k v kvs = (if k \<in> fst ` set kvs then upd_key fst k (\<lambda>_. (k, v)) kvs else kvs @ [(k, v)])"

lemma map_of_upd_key_pair:
  "map_of (upd_key fst k (\<lambda>_. (k, v)) kvs) k' =
    (if k' = k then (if k \<in> fst ` set kvs then Some v else None) else map_of kvs k')"
  by (induction kvs) force+

lemma jget_jset: "jget (jset k v kvs) k' = (if k' = k then Some v else jget kvs k')"
proof (cases "k \<in> fst ` set kvs")
  case True
  then show ?thesis by (simp add: jget_def jset_def map_of_upd_key_pair)
next
  case False
  then have "map_of kvs k = None" by (simp add: map_of_eq_None_iff)
  with False show ?thesis
    by (auto simp: jget_def jset_def map_add_def split: option.splits)
qed

lemma distinct_jset: "distinct (map fst kvs) \<Longrightarrow> distinct (map fst (jset k v kvs))"
  by (auto simp: jset_def map_key_upd_key)

text \<open>Python truthiness of a JSON value.\<close>

fun json_truthy :: "json \<Rightarrow> bool" where
  "json_truthy JNull = False"
| "json_truthy (JBool b) = b"
| "json_truthy (JInt n) = (n \<noteq> 0)"
| "json_truthy (JFloat r) = (r \<noteq> ''0.0'' \<and> r \<noteq> ''-0.0'')"
| "json_truthy (JStr s) = (s \<noteq> [])"
| "json_truthy (JArr xs) = (xs \<noteq> [])"
| "json_truthy (JObj kvs) = (kvs \<noteq> [])"
| "json_truthy _ = True"

text \<open>\<open>s.lower()\<close> on ASCII letters.\<close>

definition lower_char :: "char \<Rightarrow> char" where
  "lower_char c = (let n = of_char c :: nat in if 65 \<le> n \<and> n \<le> 90 then char_of (n + 32) else c)"

definition lower :: "string \<Rightarrow> string" where
  "lower s = map lower_char s"

definition starts_with :: "string \<Rightarrow> string \<Rightarrow> bool" where
  "starts_with p s \<longleftrightarrow> take (length p) s = p"

lemma starts_with_append [simp]: "starts_with p (p @ s)"
  by (simp add: starts_with_def)

text \<open>\<open>sep.join(parts)\<close>.\<close>

fun join :: "string \<Rightarrow> string list \<Rightarrow> string" where
  "join sep [] = []"
| "join sep [x] = x"
| "join sep (x # y # xs) = x @ sep @ join sep (y # xs)"

end
