(* ===== verification/TaskContract.thy ===== *)
theory TaskContract
  imports Prelude "HOL-Library.Char_ord" "HOL-Library.List_Lexorder" "HOL-Library.Multiset"
begin

text \<open>
  \<open>services/registry/app/task_contract.py\<close>: the task status machine shared by every handler,
  the canonical JSON text behind \<open>input_hash\<close>, and the request schemas' field constraints.
  The locale \<open>status_machine\<close> states what a table of allowed transitions promises; the task
  statuses here and the escrow approvals of theory \<open>Approvals\<close> interpret it.
\<close>

section \<open>Status machines\<close>

locale status_machine =
  fixes allowed :: "'s \<Rightarrow> 's list"
    and terminal :: "'s \<Rightarrow> bool"
  assumes terminal_no_exit: "terminal s \<Longrightarrow> allowed s = []"
    and no_self_loop: "s \<notin> set (allowed s)"
    and live_moves: "\<not> terminal s \<Longrightarrow> allowed s \<noteq> []"
begin

inductive path :: "'s \<Rightarrow> 's list \<Rightarrow> bool" where
  stop: "path s []"
| move: "t \<in> set (allowed s) \<Longrightarrow> path t ts \<Longrightarrow> path s (t # ts)"

inductive_cases path_ConsE: "path s (t # ts)"

lemma terminal_path: "terminal s \<Longrightarrow> path s ts \<Longrightarrow> ts = []"
  by (cases ts) (auto elim!: path_ConsE dest: terminal_no_exit)

lemma path_last_terminal:
  assumes "path s (ts @ t # us)" and "terminal t"
  shows "us = []"
  using assms
proof (induction ts arbitrary: s)
  case Nil
  then show ?case by (auto elim!: path_ConsE dest: terminal_path)
next
  case (Cons u ts)
  then show ?case by (auto elim!: path_ConsE)
qed

lemma live_exit: "\<not> terminal s \<Longrightarrow> \<exists>t. path s [t]"
  by (metis live_moves list.set_intros(1) move neq_Nil_conv stop)

end

section \<open>The task status machine\<close>

datatype task_status =
    TS_INITIATED | TS_IN_PROGRESS | TS_COMPLETED | TS_FAILED | TS_TIMEOUT | TS_REFUNDED

definition task_allowed :: "task_status \<Rightarrow> task_status list" where
  "task_allowed s = (case s of
      TS_INITIATED \<Rightarrow> [TS_IN_PROGRESS, TS_FAILED, TS_TIMEOUT]
    | TS_IN_PROGRESS \<Rightarrow> [TS_COMPLETED, TS_FAILED, TS_TIMEOUT]
    | TS_COMPLETED \<Rightarrow> []
    | TS_FAILED \<Rightarrow> []
    | TS_TIMEOUT \<Rightarrow> []
    | TS_REFUNDED \<Rightarrow> [])"

text \<open>The message of a refused transition names both statuses and the allowed set.\<close>

datatype 's transition_error = InvalidTransition 's 's "'s list"

definition validate_state_transition ::
  "task_status \<Rightarrow> task_status \<Rightarrow> bool \<times> task_status transition_error option" where
  "validate_state_transition cur new =
    (let allowed = task_allowed cur
     in if new \<in> set allowed then (True, None)
        else (False, Some (InvalidTransition cur new allowed)))"

definition status_value :: "task_status \<Rightarrow> string" where
  "status_value s = (case s of
      TS_INITIATED \<Rightarrow> ''initiated''
    | TS_IN_PROGRESS \<Rightarrow> ''in_progress''
    | TS_COMPLETED \<Rightarrow> ''completed''
    | TS_FAILED \<Rightarrow> ''failed''
    | TS_TIMEOUT \<Rightarrow> ''timeout''
    | TS_REFUNDED \<Rightarrow> ''refunded'')"

definition all_task_statuses :: "task_status list" where
  "all_task_statuses = [TS_INITIATED, TS_IN_PROGRESS, TS_COMPLETED, TS_FAILED, TS_TIMEOUT, TS_REFUNDED]"

text \<open>\<open>TaskStatus(text)\<close>: the member with that value, or a \<open>ValueError\<close>.\<close>

definition parse_status :: "string \<Rightarrow> task_status option" where
  "parse_status v = find (\<lambda>s. status_value s = v) all_task_statuses"

datatype status_update_error =
    InvalidStatusValue string
  | BadTransition "task_status transition_error"

definition validate_task_status_update ::
  "string \<Rightarrow> string \<Rightarrow> bool \<times> status_update_error option" where
  "validate_task_status_update cur new =
    (case parse_status cur of
       None \<Rightarrow> (False, Some (InvalidStatusValue cur))
     | Some c \<Rightarrow>
         (case parse_status new of
            None \<Rightarrow> (False, Some (InvalidStatusValue new))
          | Some n \<Rightarrow>
              (case validate_state_transition c n of
                 (ok, err) \<Rightarrow> (ok, map_option BadTransition err))))"

definition get_allowed_statuses :: "string \<Rightarrow> string list" where
  "get_allowed_statuses cur =
    (case parse_status cur of None \<Rightarrow> [] | Some c \<Rightarrow> map status_value (task_allowed c))"

definition task_terminal :: "task_status \<Rightarrow> bool" where
  "task_terminal s \<longleftrightarrow> s \<noteq> TS_INITIATED \<and> s \<noteq> TS_IN_PROGRESS"

interpretation task_machine: status_machine task_allowed task_terminal
  by unfold_locales (auto simp: task_allowed_def task_terminal_def split: task_status.splits)

lemma validate_ok_iff [simp]:
  "fst (validate_state_transition cur new) \<longleftrightarrow> new \<in> set (task_allowed cur)"
  by (simp add: validate_state_transition_def Let_def)

lemma validate_split:
  "validate_state_transition cur new =
    (if new \<in> set (task_allowed cur) then (True, None)
     else (False, Some (InvalidTransition cur new (task_allowed cur))))"
  by (simp add: validate_state_transition_def Let_def)

lemma parse_status_value [simp]: "parse_status (status_value s) = Some s"
  by (cases s) (simp_all add: parse_status_def all_task_statuses_def status_value_def)

lemma parse_status_Some: "parse_status v = Some s \<Longrightarrow> v = status_value s"
  by (auto simp: parse_status_def dest: find_SomeD)

lemma status_value_inj: "status_value s = status_value t \<Longrightarrow> s = t"
  by (metis parse_status_value option.inject)

section \<open>Canonical JSON\<close>

datatype value_error = NaNNotAllowed | InfinityNotAllowed

fun sanitize_for_json :: "json \<Rightarrow> value_error + json"
  and sanitize_list :: "json list \<Rightarrow> value_error + json list"
  and sanitize_items :: "(string \<times> json) list \<Rightarrow> value_error + (string \<times> json) list"
where
  "sanitize_for_json (JObj kvs) =
    (case sanitize_items kvs of Inl e \<Rightarrow> Inl e | Inr kvs' \<Rightarrow> Inr (JObj kvs'))"
| "sanitize_for_json (JArr xs) =
    (case sanitize_list xs of Inl e \<Rightarrow> Inl e | Inr xs' \<Rightarrow> Inr (JArr xs'))"
| "sanitize_for_json JNaN = Inl NaNNotAllowed"
| "sanitize_for_json (JInf b) = Inl InfinityNotAllowed"
| "sanitize_for_json (JFloat r) = Inr (JFloat r)"
| "sanitize_for_json (JStr s) = Inr (JStr s)"
| "sanitize_for_json JNull = Inr JNull"
| "sanitize_for_json (JInt n) = Inr (JInt n)"
| "sanitize_for_json (JBool b) = Inr (JBool b)"
| "sanitize_list [] = Inr []"
| "sanitize_list (x # xs) =
    (case sanitize_for_json x of
       Inl e \<Rightarrow> Inl e
     | Inr x' \<Rightarrow> (case sanitize_list xs of Inl e \<Rightarrow> Inl e | Inr xs' \<Rightarrow> Inr (x' # xs')))"
| "sanitize_items [] = Inr []"
| "sanitize_items ((k, v) # kvs) =
    (case sanitize_for_json v of
       Inl e \<Rightarrow> Inl e
     | Inr v' \<Rightarrow> (case sanitize_items kvs of Inl e \<Rightarrow> Inl e | Inr kvs' \<Rightarrow> Inr ((k, v') # kvs')))"

definition digit_char :: "nat \<Rightarrow> char" where
  "digit_char n = char_of (if n < 10 then 48 + n else 87 + n)"

fun show_nat :: "nat \<Rightarrow> string" where
  "show_nat n = (if n < 10 then [digit_char n] else show_nat (n div 10) @ [digit_char (n mod 10)])"

declare show_nat.simps [simp del]

definition show_int :: "int \<Rightarrow> string" where
  "show_int n = (if n < 0 then CHR ''-'' # show_nat (nat (- n)) else show_nat (nat n))"

text \<open>
  String escapes of \<open>json.dumps(\<dots>, ensure_ascii=False)\<close>: quote, backslash, the five short
  escapes, and four lowercase hex digits for the other control characters. The backslash is
  character 92.
\<close>

definition esc_char :: "char \<Rightarrow> string" where
  "esc_char c =
    (let n = of_char c :: nat; bs = char_of (92 :: nat) in
     if n = 34 then [bs, CHR 0x22]
     else if n = 92 then [bs, bs]
     else if n = 8 then [bs, CHR ''b'']
     else if n = 12 then [bs, CHR ''f'']
     else if n = 10 then [bs, CHR ''n'']
     else if n = 13 then [bs, CHR ''r'']
     else if n = 9 then [bs, CHR ''t'']
     else if n < 32 then [bs, CHR ''u'', CHR ''0'', CHR ''0'', digit_char (n div 16), digit_char (n mod 16)]
     else [c])"

definition json_quote :: "string \<Rightarrow> string" where
  "json_quote s = CHR 0x22 # concat (map esc_char s) @ [CHR 0x22]"

text \<open>
  \<open>json.dumps(obj, sort_keys=True, ensure_ascii=False, separators=(",", ":"))\<close> on a sanitised
  value. Sorting the items of an object by key is stable and keys are distinct.
\<close>

fun dumps_json :: "json \<Rightarrow> string"
  and dumps_items :: "(string \<times> json) list \<Rightarrow> (string \<times> string) list"
  and dumps_list :: "json list \<Rightarrow> string list"
where
  "dumps_json JNull = ''null''"
| "dumps_json (JBool b) = (if b then ''true'' else ''false'')"
| "dumps_json (JInt n) = show_int n"
| "dumps_json (JFloat r) = r"
| "dumps_json JNaN = ''NaN''"
| "dumps_json (JInf b) = (if b then ''Infinity'' else ''-Infinity'')"
| "dumps_json (JStr s) = json_quote s"
| "dumps_json (JArr xs) = ''['' @ join '','' (dumps_list xs) @ '']''"
| "dumps_json (JObj kvs) =
    ''{'' @ join '','' (map (\<lambda>(k, s). json_quote k @ '':'' @ s) (sort_key fst (dumps_items kvs))) @ ''}''"
| "dumps_items [] = []"
| "dumps_items ((k, v) # kvs) = (k, dumps_json v) # dumps_items kvs"
| "dumps_list [] = []"
| "dumps_list (x # xs) = dumps_json x # dumps_list xs"

definition canonicalize_json :: "json \<Rightarrow> value_error + string" where
  "canonicalize_json data =
    (case sanitize_for_json data of Inl e \<Rightarrow> Inl e | Inr j \<Rightarrow> Inr (dumps_json j))"

text \<open>\<open>sha\<close> is \<open>hashlib.sha256(\<dots>).hexdigest()\<close>; nothing below depends on which hash it is.\<close>

definition compute_input_hash :: "(string \<Rightarrow> string) \<Rightarrow> json \<Rightarrow> value_error + string" where
  "compute_input_hash sha data =
    (case canonicalize_json data of Inl e \<Rightarrow> Inl e | Inr s \<Rightarrow> Inr (sha s))"

text \<open>The same logical value: the items of every object, at any depth, in any order.\<close>

inductive json_same :: "json \<Rightarrow> json \<Rightarrow> bool" where
  same_refl: "json_same j j"
| same_arr: "list_all2 json_same xs ys \<Longrightarrow> json_same (JArr xs) (JArr ys)"
| same_obj: "list_all2 (\<lambda>p q. fst p = fst q \<and> json_same (snd p) (snd q)) kvs kvs' \<Longrightarrow>
    mset kvs' = mset kvs'' \<Longrightarrow> distinct (map fst kvs'') \<Longrightarrow>
    json_same (JObj kvs) (JObj kvs'')"

text \<open>A value is finite when no float in it is NaN or infinite.\<close>

fun json_finite :: "json \<Rightarrow> bool" where
  "json_finite JNaN = False"
| "json_finite (JInf b) = False"
| "json_finite (JArr xs) = list_all json_finite xs"
| "json_finite (JObj kvs) = list_all (\<lambda>p. json_finite (snd p)) kvs"
| "json_finite j = True"

lemma sanitize_finite:
  "(json_finite j \<longrightarrow> sanitize_for_json j = Inr j) \<and> (\<not> json_finite j \<longrightarrow> (\<exists>e. sanitize_for_json j = Inl e))"
  "(list_all json_finite xs \<longrightarrow> sanitize_list xs = Inr xs) \<and>
   (\<not> list_all json_finite xs \<longrightarrow> (\<exists>e. sanitize_list xs = Inl e))"
  "(list_all (\<lambda>p. json_finite (snd p)) kvs \<longrightarrow> sanitize_items kvs = Inr kvs) \<and>
   (\<not> list_all (\<lambda>p. json_finite (snd p)) kvs \<longrightarrow> (\<exists>e. sanitize_items kvs = Inl e))"
  by (induction j and xs and kvs rule: sanitize_for_json_sanitize_list_sanitize_items.induct) auto

lemma canonicalize_finite: "json_finite j \<Longrightarrow> canonicalize_json j = Inr (dumps_json j)"
  using sanitize_finite(1) [of j] by (auto simp: canonicalize_json_def)

lemma canonicalize_Inr_iff: "(\<exists>s. canonicalize_json j = Inr s) \<longleftrightarrow> json_finite j"
  using sanitize_finite(1) [of j] by (cases "json_finite j") (auto simp: canonicalize_json_def)

lemma dumps_items_map: "dumps_items kvs = map (\<lambda>p. (fst p, dumps_json (snd p))) kvs"
  by (induction kvs) auto

lemma dumps_list_map: "dumps_list xs = map dumps_json xs"
  by (induction xs) auto

text \<open>Sorting by a key that is distinct on the list only depends on the list's elements.\<close>

lemma sort_key_mset_cong:
  fixes f :: "'a \<Rightarrow> 'b::linorder"
  assumes m: "mset xs = mset ys" and d: "distinct (map f ys)"
  shows "sort_key f xs = sort_key f ys"
proof (rule map_sorted_distinct_set_unique [of f])
  have st: "set xs = set ys" using m by (rule mset_eq_setD)
  have inj: "inj_on f (set ys)" using d by (simp add: distinct_map)
  show "inj_on f (set (sort_key f xs) \<union> set (sort_key f ys))" using inj st by simp
  have dx: "distinct (map f xs)" using d m by (metis mset_eq_imp_distinct_iff mset_map)
  show "distinct (map f (sort_key f xs))" using dx by (metis mset_eq_imp_distinct_iff mset_map mset_sort)
  show "distinct (map f (sort_key f ys))" using d by (metis mset_eq_imp_distinct_iff mset_map mset_sort)
  show "set (sort_key f xs) = set (sort_key f ys)" using st by simp
qed simp_all

lemma json_same_keys:
  "list_all2 (\<lambda>p q. fst p = fst q \<and> R (snd p) (snd q)) kvs kvs' \<Longrightarrow> map fst kvs = map fst kvs'"
  by (induction rule: list_all2_induct) auto

lemma json_same_dumps: "json_same a b \<Longrightarrow> dumps_json a = dumps_json b \<and> json_finite a = json_finite b"
proof (induction rule: json_same.induct)
  case (same_refl j)
  then show ?case by simp
next
  case (same_arr xs ys)
  then have "map dumps_json xs = map dumps_json ys \<and> list_all json_finite xs = list_all json_finite ys"
    by (induction rule: list_all2_induct) auto
  then show ?case by (simp add: dumps_list_map)
next
  case (same_obj kvs kvs' kvs'')
  let ?d = "map (\<lambda>p. (fst p, dumps_json (snd p)))"
  from same_obj.IH have eq: "?d kvs = ?d kvs' \<and>
      list_all (\<lambda>p. json_finite (snd p)) kvs = list_all (\<lambda>p. json_finite (snd p)) kvs'"
    by (induction rule: list_all2_induct) auto
  have "mset (?d kvs') = mset (?d kvs'')" using same_obj.hyps(1) by simp
  moreover have "distinct (map fst (?d kvs''))" using same_obj.hyps(2) by (simp add: comp_def)
  ultimately have "sort_key fst (?d kvs') = sort_key fst (?d kvs'')" by (rule sort_key_mset_cong)
  moreover have "list_all (\<lambda>p. json_finite (snd p)) kvs' = list_all (\<lambda>p. json_finite (snd p)) kvs''"
    using same_obj.hyps(1) by (metis (no_types, lifting) list_all_iff mset_eq_setD)
  ultimately show ?case using eq by (simp add: dumps_items_map)
qed

section \<open>Request schemas\<close>

text \<open>The pydantic field constraints: character classes, lengths and numeric ranges.\<close>

definition is_lower :: "char \<Rightarrow> bool" where
  "is_lower c \<longleftrightarrow> CHR ''a'' \<le> c \<and> c \<le> CHR ''z''"

definition is_upper :: "char \<Rightarrow> bool" where
  "is_upper c \<longleftrightarrow> CHR ''A'' \<le> c \<and> c \<le> CHR ''Z''"

definition is_digit :: "char \<Rightarrow> bool" where
  "is_digit c \<longleftrightarrow> CHR ''0'' \<le> c \<and> c \<le> CHR ''9''"

definition capability_name_ok :: "string \<Rightarrow> bool" where
  "capability_name_ok s \<longleftrightarrow> 1 \<le> length s \<and> length s \<le> 128 \<and>
    list_all (\<lambda>c. is_lower c \<or> is_upper c \<or> is_digit c \<or> c = CHR ''_'' \<or> c = CHR ''-'') s"

definition uuid_text_ok :: "string \<Rightarrow> bool" where
  "uuid_text_ok s \<longleftrightarrow> length s = 36 \<and>
    list_all (\<lambda>c. is_digit c \<or> CHR ''a'' \<le> c \<and> c \<le> CHR ''f'' \<or> c = CHR ''-'') s"

definition currency_text_ok :: "string \<Rightarrow> bool" where
  "currency_text_ok s \<longleftrightarrow> s = ''credits'' \<or> s = ''usdc''"

record payment_params =
  pp_max_budget :: int
  pp_currency :: string
  pp_escrow_session_id :: "string option"

definition payment_params_ok :: "payment_params \<Rightarrow> bool" where
  "payment_params_ok p \<longleftrightarrow> 0 \<le> pp_max_budget p \<and> pp_max_budget p \<le> 1000000 \<and>
    currency_text_ok (pp_currency p)"

record execute_params =
  ep_capability :: string
  ep_input :: "(string \<times> json) list"
  ep_payment :: payment_params
  ep_timeout_seconds :: "int option"

definition execute_params_ok :: "execute_params \<Rightarrow> bool" where
  "execute_params_ok e \<longleftrightarrow> capability_name_ok (ep_capability e) \<and> payment_params_ok (ep_payment e) \<and>
    (case ep_timeout_seconds e of None \<Rightarrow> True | Some t \<Rightarrow> 1 \<le> t \<and> t \<le> 3600)"

record task_create_request =
  tcr_caller :: string
  tcr_callee :: string
  tcr_capability :: string
  tcr_input :: "(string \<times> json) list"
  tcr_max_budget :: int
  tcr_currency :: string
  tcr_timeout_seconds :: int
  tcr_parent_span :: "string option"

definition task_create_request_ok :: "task_create_request \<Rightarrow> bool" where
  "task_create_request_ok r \<longleftrightarrow>
    uuid_text_ok (tcr_caller r) \<and> uuid_text_ok (tcr_callee r) \<and>
    capability_name_ok (tcr_capability r) \<and>
    0 \<le> tcr_max_budget r \<and> tcr_max_budget r \<le> 1000000 \<and>
    currency_text_ok (tcr_currency r) \<and>
    1 \<le> tcr_timeout_seconds r \<and> tcr_timeout_seconds r \<le> 3600 \<and>
    (case tcr_parent_span r of None \<Rightarrow> True | Some s \<Rightarrow> uuid_text_ok s) \<and>
    (case canonicalize_json (JObj (tcr_input r)) of Inl _ \<Rightarrow> False | Inr _ \<Rightarrow> True)"

definition task_fail_request_ok :: "string \<Rightarrow> bool" where
  "task_fail_request_ok msg \<longleftrightarrow> 1 \<le> length msg \<and> length msg \<le> 1024"

lemma create_request_hashable:
  "task_create_request_ok r \<Longrightarrow> \<exists>h. compute_input_hash sha (JObj (tcr_input r)) = Inr h"
  by (auto simp: task_create_request_ok_def compute_input_hash_def split: sum.splits)

section \<open>Properties\<close>

text \<open>
  the input hash does not depend on the order in which a client writes the keys of the
  objects in its request, at any nesting depth: two requests with the same logical content and
  no NaN or infinity get the same hash, and a request that contains one gets none.
\<close>

theorem input_hash_key_order:
  assumes "json_same a b"
  shows "(if json_finite a
      then compute_input_hash sha a = Inr (sha (dumps_json a)) \<and>
        compute_input_hash sha b = compute_input_hash sha a
      else \<exists>e e'. compute_input_hash sha a = Inl e \<and> compute_input_hash sha b = Inl e')"
proof (cases "json_finite a")
  case True
  with json_same_dumps [OF assms] show ?thesis
    by (simp add: compute_input_hash_def canonicalize_finite)
next
  case False
  with json_same_dumps [OF assms] sanitize_finite(1) [of a] sanitize_finite(1) [of b]
  obtain e e' where "sanitize_for_json a = Inl e" and "sanitize_for_json b = Inl e'" by auto
  with False show ?thesis by (simp add: compute_input_hash_def canonicalize_json_def)
qed

theorem input_hash_key_order_witness:
  "compute_input_hash id (JObj [(''b'', JInt 12), (''a'', JObj [(''y'', JNull), (''x'', JStr ''q'')])]) =
     compute_input_hash id (JObj [(''a'', JObj [(''x'', JStr ''q''), (''y'', JNull)]), (''b'', JInt 12)])"
proof -
  have inner: "json_same (JObj [(''y'', JNull), (''x'', JStr ''q'')]) (JObj [(''x'', JStr ''q''), (''y'', JNull)])"
    by (rule same_obj [where kvs' = "[(''y'', JNull), (''x'', JStr ''q'')]"]) (auto intro: same_refl)
  have "json_same (JObj [(''b'', JInt 12), (''a'', JObj [(''y'', JNull), (''x'', JStr ''q'')])])
     (JObj [(''a'', JObj [(''x'', JStr ''q''), (''y'', JNull)]), (''b'', JInt 12)])"
    by (rule same_obj [where kvs' = "[(''b'', JInt 12), (''a'', JObj [(''x'', JStr ''q''), (''y'', JNull)])]"])
      (auto intro: same_refl inner)
  from input_hash_key_order [OF this, of id] show ?thesis by simp
qed

end
