(* ===== verification/MoneyDb.thy ===== *)
theory MoneyDb
  imports TaskContract
begin

text \<open>
  The rows of the money path and the database behaviour every service relies on: the ORM
  classes of \<open>services/payment/app/models.py\<close> (and their twins in the registry and worker),
  the triggers of \<open>services/registry/init-db\<close> (platform fee and balance transfer, daily
  spending, spending cap) and the CHECK and UNIQUE constraints.

  Money columns: credits are integers; USDC columns are \<open>Numeric(20, 6)\<close> and are held here
  as integers counting millionths. The code converts them with \<open>float(\<dots>)\<close> around one
  addition or comparison and stores the result back into six decimals; the model computes
  exactly in millionths.
\<close>


datatype owner_type = OWNER_USER | OWNER_AGENT
datatype currency = CREDITS | USDC
datatype txn_status = XS_PENDING | XS_COMPLETED | XS_FAILED | XS_CANCELLED
datatype txn_type = XT_PAYMENT | XT_REFERRAL_REWARD | XT_WITHDRAW | XT_DEPOSIT | XT_REFUND
datatype agent_status = AG_ACTIVE | AG_INACTIVE | AG_UNVERIFIED | AG_BANNED | AG_SUSPENDED
datatype approval_status = AP_PENDING | AP_APPROVED | AP_DENIED
datatype span_status = SP_SUCCESS | SP_FAILED | SP_TIMEOUT

text \<open>Who is calling: a user, or an agent (by its own token or a scoped one).\<close>

datatype principal = PUser uid | PAgent uid

record capability =
  c_name :: string
  c_price :: "int option"
  c_input_schema :: "json option"
  c_output_schema :: "json option"

record agent =
  a_id :: uid
  a_user_id :: "uid option"
  a_name :: string
  a_caps :: "capability list"
  a_status :: agent_status
  a_timeout_count :: int
  a_total_completed :: int
  a_total_failed :: int
  a_total_timeout :: int
  a_success_rate :: rat
  a_avg_response_ms :: int
  a_total_volume :: int
  a_tier :: string
  a_rep_updated_at :: "instant option"
  a_is_online :: bool
  a_last_seen_at :: "instant option"

record wallet =
  w_id :: uid
  w_owner_type :: owner_type
  w_owner :: uid
  w_bal_credits :: int
  w_bal_usdc :: int
  w_res_credits :: int
  w_res_usdc :: int
  w_cap :: int
  w_daily_spent :: int
  w_daily_reset_at :: instant
  w_auto_approve :: "int option"
  w_whitelist :: "string list option"

record task =
  t_id :: uid
  t_trace :: uid
  t_span :: uid
  t_parent_span :: "uid option"
  t_caller :: uid
  t_callee :: uid
  t_capability :: string
  t_input :: "(string \<times> json) list"
  t_input_hash :: string
  t_escrow :: int
  t_currency :: currency
  t_status :: task_status
  t_timeout_at :: instant
  t_created_at :: instant
  t_completed_at :: "instant option"
  t_refund_at :: "instant option"
  t_error :: "string option"
  t_output :: "json option"
  t_retry_of :: "uid option"

record txn =
  x_id :: uid
  x_from :: "uid option"
  x_to :: "uid option"
  x_amount :: int
  x_currency :: currency
  x_status :: txn_status
  x_type :: txn_type
  x_task :: "uid option"
  x_fee :: int
  x_fee_rate :: int \<comment> \<open>ten-thousandths: the column is \<open>Numeric(5, 4)\<close>\<close>
  x_extra :: "(string \<times> json) list"
  x_idem :: "string option"
  x_created_at :: instant
  x_completed_at :: "instant option"

record span =
  s_trace :: uid
  s_span :: uid
  s_parent :: "uid option"
  s_agent :: uid
  s_event :: string
  s_capability :: string
  s_duration_ms :: "int option"
  s_status :: span_status
  s_credits_used :: "int option"
  s_extra :: "(string \<times> json) list"

record approval =
  p_id :: uid
  p_agent :: uid
  p_user :: uid
  p_amount :: int
  p_currency :: currency
  p_description :: string
  p_callback :: "string option"
  p_status :: approval_status
  p_created_at :: instant
  p_responded_at :: "instant option"
  p_task :: "uid option"
  p_expires_at :: "instant option"
  p_approved_at :: "instant option"
  p_denied_at :: "instant option"

record mdb =
  db_wallets :: "wallet list"
  db_agents :: "agent list"
  db_tasks :: "task list"
  db_txns :: "txn list"
  db_spans :: "span list"
  db_approvals :: "approval list"
  db_spending :: "((uid \<times> instant) \<times> int) list" \<comment> \<open>\<open>daily_spending\<close>, unique on wallet and date\<close>

section \<open>Lookups and row writes\<close>

definition get_wallet :: "mdb \<Rightarrow> uid \<Rightarrow> wallet option" where
  "get_wallet d i = find (\<lambda>w. w_id w = i) (db_wallets d)"

definition agent_wallet :: "mdb \<Rightarrow> uid \<Rightarrow> wallet option" where
  "agent_wallet d ag = find (\<lambda>w. w_owner_type w = OWNER_AGENT \<and> w_owner w = ag) (db_wallets d)"

definition get_agent :: "mdb \<Rightarrow> uid \<Rightarrow> agent option" where
  "get_agent d i = find (\<lambda>a. a_id a = i) (db_agents d)"

definition get_task :: "mdb \<Rightarrow> uid \<Rightarrow> task option" where
  "get_task d i = find (\<lambda>t. t_id t = i) (db_tasks d)"

definition get_txn :: "mdb \<Rightarrow> uid \<Rightarrow> txn option" where
  "get_txn d i = find (\<lambda>x. x_id x = i) (db_txns d)"

definition pending_txn :: "mdb \<Rightarrow> uid \<Rightarrow> txn option" where
  "pending_txn d tid = find (\<lambda>x. x_task x = Some tid \<and> x_status x = XS_PENDING) (db_txns d)"

definition set_wallet :: "uid \<Rightarrow> (wallet \<Rightarrow> wallet) \<Rightarrow> mdb \<Rightarrow> mdb" where
  "set_wallet i f d = d\<lparr>db_wallets := upd_key w_id i f (db_wallets d)\<rparr>"

definition set_task :: "uid \<Rightarrow> (task \<Rightarrow> task) \<Rightarrow> mdb \<Rightarrow> mdb" where
  "set_task i f d = d\<lparr>db_tasks := upd_key t_id i f (db_tasks d)\<rparr>"

definition set_txn :: "uid \<Rightarrow> (txn \<Rightarrow> txn) \<Rightarrow> mdb \<Rightarrow> mdb" where
  "set_txn i f d = d\<lparr>db_txns := upd_key x_id i f (db_txns d)\<rparr>"

definition set_agent :: "uid \<Rightarrow> (agent \<Rightarrow> agent) \<Rightarrow> mdb \<Rightarrow> mdb" where
  "set_agent i f d = d\<lparr>db_agents := upd_key a_id i f (db_agents d)\<rparr>"

definition add_span :: "span \<Rightarrow> mdb \<Rightarrow> mdb" where
  "add_span s d = d\<lparr>db_spans := db_spans d @ [s]\<rparr>"

text \<open>Balance and reservation columns of one currency, in that currency's stored unit.\<close>

definition unit_of :: "currency \<Rightarrow> int" where
  "unit_of c = (case c of CREDITS \<Rightarrow> 1 | USDC \<Rightarrow> 1000000)"

definition bal :: "currency \<Rightarrow> wallet \<Rightarrow> int" where
  "bal c w = (case c of CREDITS \<Rightarrow> w_bal_credits w | USDC \<Rightarrow> w_bal_usdc w)"

definition res :: "currency \<Rightarrow> wallet \<Rightarrow> int" where
  "res c w = (case c of CREDITS \<Rightarrow> w_res_credits w | USDC \<Rightarrow> w_res_usdc w)"

definition add_bal :: "currency \<Rightarrow> int \<Rightarrow> wallet \<Rightarrow> wallet" where
  "add_bal c n w = (case c of
      CREDITS \<Rightarrow> w\<lparr>w_bal_credits := w_bal_credits w + n\<rparr>
    | USDC \<Rightarrow> w\<lparr>w_bal_usdc := w_bal_usdc w + n * 1000000\<rparr>)"

definition add_res :: "currency \<Rightarrow> int \<Rightarrow> wallet \<Rightarrow> wallet" where
  "add_res c n w = (case c of
      CREDITS \<Rightarrow> w\<lparr>w_res_credits := w_res_credits w + n\<rparr>
    | USDC \<Rightarrow> w\<lparr>w_res_usdc := w_res_usdc w + n * 1000000\<rparr>)"

section \<open>Constraints and triggers\<close>

text \<open>
  What the database can answer instead of accepting a write: a violated CHECK or UNIQUE
  constraint (\<open>IntegrityError\<close>), or an exception raised by a trigger.
\<close>

datatype db_error = IntegrityError | SpendingCapExceeded uid

definition wallet_checks :: "wallet \<Rightarrow> bool" where
  "wallet_checks w \<longleftrightarrow> 0 \<le> w_bal_credits w \<and> 0 \<le> w_bal_usdc w \<and> 0 \<le> w_res_credits w \<and> 0 \<le> w_res_usdc w"

text \<open>The wallet CHECKs are immediate: every UPDATE statement is checked.\<close>

definition write_wallet :: "uid \<Rightarrow> (wallet \<Rightarrow> wallet) \<Rightarrow> mdb \<Rightarrow> db_error + mdb" where
  "write_wallet i f d =
    (let d' = set_wallet i f d in
     if list_all wallet_checks (filter (\<lambda>w. w_id w = i) (db_wallets d')) then Inr d' else Inl IntegrityError)"

definition platform_wallet_id :: uid where
  "platform_wallet_id = 1"

text \<open>The platform fee of a payment (\<open>02-platform-fee.sql\<close>).\<close>

definition fee_of :: "txn \<Rightarrow> int" where
  "fee_of x =
    (if x_type x = XT_PAYMENT \<and> 0 < x_fee_rate x \<and> 1 < x_amount x
     then min (x_amount x - 1) (max 1 (x_amount x * x_fee_rate x div 10000))
     else 0)"

text \<open>\<open>update_wallet_balances\<close>: payer, payee, platform, as three UPDATE statements.\<close>

definition update_wallet_balances :: "txn \<Rightarrow> mdb \<Rightarrow> db_error + mdb" where
  "update_wallet_balances x d =
    bindE (case x_from x of None \<Rightarrow> Inr d
           | Some i \<Rightarrow> write_wallet i (add_bal (x_currency x) (- x_amount x)) d)
    (\<lambda>d1. bindE (case x_to x of None \<Rightarrow> Inr d1
           | Some j \<Rightarrow> write_wallet j (add_bal (x_currency x) (x_amount x - fee_of x)) d1)
    (\<lambda>d2. if 0 < fee_of x
          then write_wallet platform_wallet_id (add_bal (x_currency x) (fee_of x)) d2
          else Inr d2))"

text \<open>
  \<open>update_daily_spending\<close>: upsert of the payer's row for today, then the wallet's own counter.
\<close>

definition add_spending :: "uid \<Rightarrow> instant \<Rightarrow> int \<Rightarrow> ((uid \<times> instant) \<times> int) list \<Rightarrow> ((uid \<times> instant) \<times> int) list" where
  "add_spending i today n rows =
    (if (i, today) \<in> fst ` set rows then upd_key fst (i, today) (\<lambda>(k, a). (k, a + n)) rows
     else rows @ [((i, today), n)])"

definition update_daily_spending :: "instant \<Rightarrow> txn \<Rightarrow> mdb \<Rightarrow> mdb" where
  "update_daily_spending today x d =
    (case x_from x of
       None \<Rightarrow> d
     | Some i \<Rightarrow> set_wallet i (\<lambda>w. w\<lparr>w_daily_spent := w_daily_spent w + x_amount x\<rparr>)
                 (d\<lparr>db_spending := add_spending i today (x_amount x) (db_spending d)\<rparr>))"

text \<open>
  \<open>UPDATE transactions\<close> with the new row: when the status flips to completed the BEFORE
  trigger stamps the fee and moves the balances and the AFTER trigger books the spending.
\<close>

definition update_txn :: "instant \<Rightarrow> txn \<Rightarrow> mdb \<Rightarrow> db_error + mdb" where
  "update_txn today x d =
    (case get_txn d (x_id x) of
       None \<Rightarrow> Inr d
     | Some old \<Rightarrow>
         if x_amount x < 0 then Inl IntegrityError
         else if x_status x = XS_COMPLETED \<and> x_status old \<noteq> XS_COMPLETED
         then bindE (update_wallet_balances x d)
                (\<lambda>d1. Inr (update_daily_spending today x (set_txn (x_id x) (\<lambda>_. x\<lparr>x_fee := fee_of x\<rparr>) d1)))
         else Inr (set_txn (x_id x) (\<lambda>_. x) d))"

text \<open>
  \<open>check_spending_cap\<close> (\<open>14-spending-cap-fix.sql\<close>). With no \<open>daily_spending\<close> row of today,
  \<open>SELECT COALESCE(amount, 0) INTO spent_today\<close> leaves the variable NULL, the comparison is
  NULL and the exception is not raised; a missing wallet row does the same.
\<close>

definition spent_today :: "mdb \<Rightarrow> uid \<Rightarrow> instant \<Rightarrow> int option" where
  "spent_today d i today = map_of (db_spending d) (i, today)"

definition check_spending_cap :: "mdb \<Rightarrow> instant \<Rightarrow> txn \<Rightarrow> db_error + unit" where
  "check_spending_cap d today x =
    (case x_from x of
       None \<Rightarrow> Inr ()
     | Some i \<Rightarrow>
         (case (get_wallet d i, spent_today d i today) of
            (Some w, Some spent) \<Rightarrow>
              if spent + (w_res_credits w - x_amount x) + x_amount x > w_cap w
              then Inl (SpendingCapExceeded i) else Inr ()
          | _ \<Rightarrow> Inr ()))"

text \<open>
  \<open>INSERT INTO transactions\<close>: the cap trigger, then the CHECK, the primary key and the UNIQUE
  idempotency key; \<open>INSERT INTO task_sessions\<close> has its primary key.
\<close>

definition insert_txn :: "instant \<Rightarrow> txn \<Rightarrow> mdb \<Rightarrow> db_error + mdb" where
  "insert_txn today x d =
    bindE (check_spending_cap d today x)
    (\<lambda>_. if x_amount x < 0 then Inl IntegrityError
         else if list_ex (\<lambda>y. x_id y = x_id x) (db_txns d) then Inl IntegrityError
         else if x_idem x \<noteq> None \<and> list_ex (\<lambda>y. x_idem y = x_idem x) (db_txns d) then Inl IntegrityError
         else Inr (d\<lparr>db_txns := db_txns d @ [x]\<rparr>))"

definition insert_task :: "task \<Rightarrow> mdb \<Rightarrow> db_error + mdb" where
  "insert_task t d =
    (if list_ex (\<lambda>u. t_id u = t_id t) (db_tasks d) then Inl IntegrityError
     else Inr (d\<lparr>db_tasks := db_tasks d @ [t]\<rparr>))"

text \<open>\<open>reset_daily_spending()\<close>: counters to zero, rows older than thirty days deleted.\<close>

definition reset_daily_spending :: "instant \<Rightarrow> mdb \<Rightarrow> mdb" where
  "reset_daily_spending now d =
    d\<lparr>db_wallets := map (\<lambda>w. w\<lparr>w_daily_spent := 0, w_daily_reset_at := now\<rparr>) (db_wallets d),
      db_spending := filter (\<lambda>r. snd (fst r) \<ge> day_start now - days 30) (db_spending d)\<rparr>"

section \<open>Facts\<close>

lemmas currency_cases = bal_def res_def add_bal_def add_res_def unit_of_def

lemma add_bal_frame [simp]:
  "w_id (add_bal c n w) = w_id w" "w_owner_type (add_bal c n w) = w_owner_type w"
  "w_owner (add_bal c n w) = w_owner w" "w_cap (add_bal c n w) = w_cap w"
  "w_res_credits (add_bal c n w) = w_res_credits w" "w_res_usdc (add_bal c n w) = w_res_usdc w"
  "w_daily_spent (add_bal c n w) = w_daily_spent w" "res c' (add_bal c n w) = res c' w"
  by (cases c; cases c'; simp add: currency_cases)+

lemma add_res_frame [simp]:
  "w_id (add_res c n w) = w_id w" "w_owner_type (add_res c n w) = w_owner_type w"
  "w_owner (add_res c n w) = w_owner w" "w_cap (add_res c n w) = w_cap w"
  "w_bal_credits (add_res c n w) = w_bal_credits w" "w_bal_usdc (add_res c n w) = w_bal_usdc w"
  "w_daily_spent (add_res c n w) = w_daily_spent w" "bal c' (add_res c n w) = bal c' w"
  by (cases c; cases c'; simp add: currency_cases)+

lemma bal_add_bal [simp]: "bal c' (add_bal c n w) = bal c' w + (if c' = c then n * unit_of c else 0)"
  by (cases c; cases c') (simp_all add: currency_cases)

lemma res_add_res [simp]: "res c' (add_res c n w) = res c' w + (if c' = c then n * unit_of c else 0)"
  by (cases c; cases c') (simp_all add: currency_cases)

lemma daily_spent_frame [simp]:
  "bal c (w\<lparr>w_daily_spent := n\<rparr>) = bal c w" "res c (w\<lparr>w_daily_spent := n\<rparr>) = res c w"
  by (cases c; simp add: currency_cases)+

lemma all_currency: "(\<forall>c. P c) \<longleftrightarrow> P CREDITS \<and> P USDC"
  by (metis currency.exhaust)

lemma wallet_checks_iff: "wallet_checks w \<longleftrightarrow> (\<forall>c. 0 \<le> bal c w \<and> 0 \<le> res c w)"
  by (auto simp: wallet_checks_def all_currency currency_cases)

lemma unit_pos [simp]: "0 < unit_of c" "0 \<le> unit_of c"
  by (cases c; simp add: unit_of_def)+

lemma mdb_frames [simp]:
  "db_tasks (set_wallet i f d) = db_tasks d" "db_txns (set_wallet i f d) = db_txns d"
  "db_agents (set_wallet i f d) = db_agents d" "db_approvals (set_wallet i f d) = db_approvals d"
  "db_spending (set_wallet i f d) = db_spending d" "db_spans (set_wallet i f d) = db_spans d"
  "db_wallets (set_task i g d) = db_wallets d" "db_txns (set_task i g d) = db_txns d"
  "db_agents (set_task i g d) = db_agents d" "db_approvals (set_task i g d) = db_approvals d"
  "db_spending (set_task i g d) = db_spending d" "db_spans (set_task i g d) = db_spans d"
  "db_wallets (set_txn i h d) = db_wallets d" "db_tasks (set_txn i h d) = db_tasks d"
  "db_agents (set_txn i h d) = db_agents d" "db_approvals (set_txn i h d) = db_approvals d"
  "db_spending (set_txn i h d) = db_spending d" "db_spans (set_txn i h d) = db_spans d"
  "db_wallets (add_span s d) = db_wallets d" "db_tasks (add_span s d) = db_tasks d"
  "db_txns (add_span s d) = db_txns d" "db_agents (add_span s d) = db_agents d"
  "db_approvals (add_span s d) = db_approvals d" "db_spending (add_span s d) = db_spending d"
  "db_wallets (set_agent i a d) = db_wallets d" "db_tasks (set_agent i a d) = db_tasks d"
  "db_txns (set_agent i a d) = db_txns d" "db_approvals (set_agent i a d) = db_approvals d"
  "db_spending (set_agent i a d) = db_spending d"
  by (simp_all add: set_wallet_def set_task_def set_txn_def add_span_def set_agent_def)

lemma db_write_simps:
  "db_wallets (set_wallet i f d) = upd_key w_id i f (db_wallets d)"
  "db_tasks (set_task i g d) = upd_key t_id i g (db_tasks d)"
  "db_txns (set_txn i h d) = upd_key x_id i h (db_txns d)"
  "db_agents (set_agent i a d) = upd_key a_id i a (db_agents d)"
  "db_spans (add_span s d) = db_spans d @ [s]"
  by (simp_all add: set_wallet_def set_task_def set_txn_def add_span_def set_agent_def)

lemma write_wallet_eq:
  assumes "\<And>w. w_id (f w) = w_id w"
  shows "write_wallet i f d =
    (if \<forall>w \<in> set (db_wallets d). w_id w = i \<longrightarrow> wallet_checks (f w)
     then Inr (set_wallet i f d) else Inl IntegrityError)"
  using assms by (auto simp: write_wallet_def Let_def list_all_iff db_write_simps set_upd_key)

text \<open>The fee never eats the whole payment and is never negative.\<close>

lemma fee_bounds: "0 \<le> x_amount x \<Longrightarrow> 0 \<le> fee_of x \<and> (0 < x_amount x \<longrightarrow> fee_of x < x_amount x)"
  by (auto simp: fee_of_def)

lemma fee_le_amount: "0 \<le> x_amount x \<Longrightarrow> fee_of x \<le> x_amount x"
  using fee_bounds [of x] by (auto simp: fee_of_def)

end
