(* ===== verification/TaskService.thy ===== *)
theory TaskService
  imports MoneyDb
begin

text \<open>
  \<open>services/registry/app/task_service.py\<close>: the task lifecycle with its escrow. Each function
  is one database transaction on the rows it locks; a raised exception leaves the database as
  it was, so an operation returns \<open>Inl\<close> of the exception or \<open>Inr\<close> of the committed database
  and the task.

  Readings of the clock and fresh UUIDs are supplied by the caller: \<open>clk n\<close> is the n-th
  reading inside the call and \<open>fresh n\<close> the n-th \<open>uuid4()\<close>. \<open>schema_ok\<close> is
  \<open>jsonschema.validate\<close> (a third-party package): whether an instance satisfies a schema.
\<close>

datatype escrow_msg =
    UnsupportedCurrency string
  | IdempotencyKeyReused
  | CalleeNotFound
  | CalleeNotActive agent_status
  | NoCapability string
  | InputValidationFailed
  | InsufficientBudget int int
  | CallerWalletNotFound
  | InsufficientAvailable currency int int
  | ExceedsSpendingCap int int int int
  | ConcurrentConflict
  | TaskNotFound
  | OnlyCalleeCanStart
  | TransitionRefused "task_status transition_error option"
  | AlreadyTimedOut
  | OnlyCalleeCanConfirm
  | CalleeWalletNotFound
  | PendingTxnMissing
  | OutputValidationFailed
  | ReservedUnderflowOnConfirm currency
  | ReservedUnderflowOnRefund currency
  | OnlyFailedOrTimeout task_status
  | ErrorMessageReserved
  | OnlyCalleeCanFail
  | OnlyCallerCanCancel
  | NotCancelable task_status

datatype task_exc = EscrowError escrow_msg | DbError db_error | ValueError value_error

section \<open>Creation with escrow\<close>

definition find_capability :: "agent \<Rightarrow> string \<Rightarrow> capability option" where
  "find_capability callee name = find (\<lambda>c. c_name c = name) (a_caps callee)"

definition validate_capability ::
  "(json \<Rightarrow> json \<Rightarrow> bool) \<Rightarrow> agent \<Rightarrow> string \<Rightarrow> json \<Rightarrow> task_exc + capability" where
  "validate_capability schema_ok callee name input_data =
    bindE (needE (find_capability callee name) (EscrowError (NoCapability name)))
    (\<lambda>cap. case c_input_schema cap of
        None \<Rightarrow> Inr cap
      | Some schema \<Rightarrow>
          if json_truthy schema \<and> \<not> schema_ok input_data schema
          then Inl (EscrowError InputValidationFailed) else Inr cap)"

text \<open>\<open>int(capability.get("price", 0))\<close>.\<close>

definition price_of :: "capability \<Rightarrow> int" where
  "price_of cap = (case c_price cap of None \<Rightarrow> 0 | Some p \<Rightarrow> p)"

record create_args =
  ca_callee :: uid
  ca_capability :: string
  ca_input :: "(string \<times> json) list"
  ca_max_budget :: int
  ca_currency :: string
  ca_timeout_seconds :: int
  ca_parent_span :: "uid option"
  ca_retry_of :: "uid option"
  ca_idem_key :: "string option"

definition parse_currency :: "string \<Rightarrow> currency option" where
  "parse_currency s =
    (if lower s = ''credits'' then Some CREDITS else if lower s = ''usdc'' then Some USDC else None)"

text \<open>The request fingerprint stored with the transaction; \<open>show_id\<close> is \<open>str(uuid)\<close>.\<close>

definition request_fingerprint ::
  "(string \<Rightarrow> string) \<Rightarrow> (uid \<Rightarrow> string) \<Rightarrow> create_args \<Rightarrow> value_error + string" where
  "request_fingerprint sha show_id c =
    compute_input_hash sha (JObj
      [(''callee_agent_id'', JStr (show_id (ca_callee c))),
       (''capability'', JStr (ca_capability c)),
       (''max_budget'', JInt (ca_max_budget c)),
       (''currency'', JStr (lower (ca_currency c))),
       (''input'', JObj (ca_input c))])"

definition key_given :: "string option \<Rightarrow> bool" where
  "key_given k \<longleftrightarrow> (case k of None \<Rightarrow> False | Some s \<Rightarrow> s \<noteq> [])"

definition txn_by_key :: "mdb \<Rightarrow> string option \<Rightarrow> txn option" where
  "txn_by_key d k = find (\<lambda>x. x_idem x = k) (db_txns d)"

definition task_of_txn :: "mdb \<Rightarrow> txn \<Rightarrow> task option" where
  "task_of_txn d x = (case x_task x of None \<Rightarrow> None | Some i \<Rightarrow> get_task d i)"

text \<open>
  The short circuit for a known \<open>Idempotency-Key\<close>: \<open>Inr (Some (task, txn))\<close> returns the cached
  pair, \<open>Inr None\<close> goes on to create, a stored fingerprint that differs is refused.
\<close>

definition idempotent_hit ::
  "mdb \<Rightarrow> create_args \<Rightarrow> string \<Rightarrow> task_exc + (task \<times> txn) option" where
  "idempotent_hit d c request_hash =
    (if \<not> key_given (ca_idem_key c) then Inr None
     else case txn_by_key d (ca_idem_key c) of
       None \<Rightarrow> Inr None
     | Some x \<Rightarrow>
         (case jget (x_extra x) ''request_hash'' of
            Some h \<Rightarrow>
              if json_truthy h \<and> h \<noteq> JStr request_hash then Inl (EscrowError IdempotencyKeyReused)
              else Inr (map_option (\<lambda>t. (t, x)) (task_of_txn d x))
          | None \<Rightarrow> Inr (map_option (\<lambda>t. (t, x)) (task_of_txn d x))))"

text \<open>The funds check and reservation on the locked caller wallet.\<close>

definition reserve_check :: "currency \<Rightarrow> int \<Rightarrow> wallet \<Rightarrow> task_exc + unit" where
  "reserve_check cur price w =
    (case cur of
       CREDITS \<Rightarrow>
         (let available = w_bal_credits w - w_res_credits w in
          if available < price then Inl (EscrowError (InsufficientAvailable CREDITS price available))
          else if w_daily_spent w + w_res_credits w + price > w_cap w
          then Inl (EscrowError (ExceedsSpendingCap (w_daily_spent w) (w_res_credits w) (w_cap w) price))
          else Inr ())
     | USDC \<Rightarrow>
         (let available = w_bal_usdc w - w_res_usdc w in
          if available < price * 1000000 then Inl (EscrowError (InsufficientAvailable USDC price available))
          else Inr ()))"

definition new_task ::
  "(nat \<Rightarrow> instant) \<Rightarrow> (nat \<Rightarrow> uid) \<Rightarrow> uid \<Rightarrow> create_args \<Rightarrow> currency \<Rightarrow> int \<Rightarrow> string \<Rightarrow> task" where
  "new_task clk fresh caller c cur price input_hash =
    \<lparr>t_id = fresh 2, t_trace = fresh 0, t_span = fresh 1, t_parent_span = ca_parent_span c,
     t_caller = caller, t_callee = ca_callee c, t_capability = ca_capability c,
     t_input = ca_input c, t_input_hash = input_hash, t_escrow = price, t_currency = cur,
     t_status = TS_INITIATED, t_timeout_at = clk 0 + seconds (ca_timeout_seconds c),
     t_created_at = clk 1, t_completed_at = None, t_refund_at = None, t_error = None,
     t_output = None, t_retry_of = ca_retry_of c\<rparr>"

definition new_txn ::
  "(nat \<Rightarrow> instant) \<Rightarrow> (nat \<Rightarrow> uid) \<Rightarrow> uid \<Rightarrow> create_args \<Rightarrow> currency \<Rightarrow> int \<Rightarrow> string \<Rightarrow> string \<Rightarrow> txn" where
  "new_txn clk fresh from_id c cur price input_hash request_hash =
    \<lparr>x_id = fresh 3, x_from = Some from_id, x_to = None, x_amount = price, x_currency = cur,
     x_status = XS_PENDING, x_type = XT_PAYMENT, x_task = Some (fresh 2), x_fee = 0, x_fee_rate = 250,
     x_extra = [(''input_hash'', JStr input_hash), (''request_hash'', JStr request_hash)],
     x_idem = ca_idem_key c, x_created_at = clk 1, x_completed_at = None\<rparr>"

definition created_span :: "task \<Rightarrow> span" where
  "created_span t =
    \<lparr>s_trace = t_trace t, s_span = t_span t, s_parent = t_parent_span t, s_agent = t_caller t,
     s_event = ''task_created'', s_capability = t_capability t, s_duration_ms = None,
     s_status = SP_SUCCESS, s_credits_used = None, s_extra = [(''input_hash'', JStr (t_input_hash t))]\<rparr>"

text \<open>The one commit of the creation: reservation, task, transaction and span, or nothing.\<close>

definition commit_creation ::
  "instant \<Rightarrow> wallet \<Rightarrow> task \<Rightarrow> txn \<Rightarrow> mdb \<Rightarrow> db_error + mdb" where
  "commit_creation today w t x d =
    bindE (write_wallet (w_id w) (add_res (t_currency t) (t_escrow t)) d)
    (\<lambda>d1. bindE (insert_task t d1)
    (\<lambda>d2. bindE (insert_txn today x d2)
    (\<lambda>d3. Inr (add_span (created_span t) d3))))"

text \<open>
  Another request that committed first with the same key: nothing of this one was applied, and
  the winner's task is returned when its fingerprint agrees.
\<close>

definition recover_conflict ::
  "mdb \<Rightarrow> create_args \<Rightarrow> string \<Rightarrow> task_exc + (mdb \<times> task \<times> txn)" where
  "recover_conflict d c request_hash =
    (if \<not> key_given (ca_idem_key c) then Inl (DbError IntegrityError)
     else case txn_by_key d (ca_idem_key c) of
       None \<Rightarrow> Inl (EscrowError ConcurrentConflict)
     | Some x \<Rightarrow>
         (case task_of_txn d x of
            None \<Rightarrow> Inl (EscrowError ConcurrentConflict)
          | Some t \<Rightarrow>
              if jget (x_extra x) ''request_hash'' \<in> {None, Some JNull, Some (JStr request_hash)}
              then Inr (d, t, x) else Inl (EscrowError IdempotencyKeyReused)))"

text \<open>
  \<open>create_task_with_escrow\<close>. The reads happen on \<open>d\<close>; the commit meets \<open>d'\<close>, the rows other
  sessions may have committed in between (the caller's wallet row is locked, so it is the same
  in both). Without interleaving \<open>d' = d\<close>.
\<close>

definition create_task_with_escrow ::
  "(json \<Rightarrow> json \<Rightarrow> bool) \<Rightarrow> (string \<Rightarrow> string) \<Rightarrow> (uid \<Rightarrow> string) \<Rightarrow> (nat \<Rightarrow> instant) \<Rightarrow> (nat \<Rightarrow> uid) \<Rightarrow>
   mdb \<Rightarrow> mdb \<Rightarrow> uid \<Rightarrow> create_args \<Rightarrow> task_exc + (mdb \<times> task \<times> txn)" where
  "create_task_with_escrow schema_ok sha show_id clk fresh d d' caller c =
    bindE (needE (parse_currency (ca_currency c)) (EscrowError (UnsupportedCurrency (lower (ca_currency c)))))
    (\<lambda>cur. bindE (mapE ValueError (request_fingerprint sha show_id c))
    (\<lambda>request_hash. bindE (idempotent_hit d c request_hash)
    (\<lambda>hit. case hit of
       Some (t, x) \<Rightarrow> Inr (d', t, x)
     | None \<Rightarrow>
    bindE (needE (get_agent d (ca_callee c)) (EscrowError CalleeNotFound))
    (\<lambda>callee. bindE (guardE (a_status callee \<in> {AG_ACTIVE, AG_UNVERIFIED})
                      (EscrowError (CalleeNotActive (a_status callee))))
    (\<lambda>_. bindE (validate_capability schema_ok callee (ca_capability c) (JObj (ca_input c)))
    (\<lambda>cap. let price = price_of cap in
    bindE (guardE (price \<le> ca_max_budget c) (EscrowError (InsufficientBudget price (ca_max_budget c))))
    (\<lambda>_. bindE (needE (agent_wallet d caller) (EscrowError CallerWalletNotFound))
    (\<lambda>w. bindE (reserve_check cur price w)
    (\<lambda>_. bindE (mapE ValueError (compute_input_hash sha (JObj (ca_input c))))
    (\<lambda>input_hash.
      let t = new_task clk fresh caller c cur price input_hash;
          x = new_txn clk fresh (w_id w) c cur price input_hash request_hash
      in case commit_creation (day_start (clk 1)) w t x d' of
           Inr d1 \<Rightarrow> Inr (d1, t, x)
         | Inl IntegrityError \<Rightarrow> recover_conflict d' c request_hash
         | Inl e \<Rightarrow> Inl (DbError e)))))))))))"

section \<open>Start\<close>

definition task_span ::
  "task \<Rightarrow> uid \<Rightarrow> uid \<Rightarrow> string \<Rightarrow> int option \<Rightarrow> span_status \<Rightarrow> int option \<Rightarrow> (string \<times> json) list \<Rightarrow> span" where
  "task_span t new_span ag event duration st credits extra =
    \<lparr>s_trace = t_trace t, s_span = new_span, s_parent = Some (t_span t), s_agent = ag,
     s_event = event, s_capability = t_capability t, s_duration_ms = duration,
     s_status = st, s_credits_used = credits, s_extra = extra\<rparr>"

definition start_task ::
  "(nat \<Rightarrow> instant) \<Rightarrow> (nat \<Rightarrow> uid) \<Rightarrow> mdb \<Rightarrow> uid \<Rightarrow> uid \<Rightarrow> task_exc + (mdb \<times> task)" where
  "start_task clk fresh d task_id callee =
    bindE (needE (get_task d task_id) (EscrowError TaskNotFound))
    (\<lambda>t. bindE (guardE (t_callee t = callee) (EscrowError OnlyCalleeCanStart))
    (\<lambda>_. if t_status t = TS_IN_PROGRESS then Inr (d, t)
         else case validate_state_transition (t_status t) TS_IN_PROGRESS of
           (ok, err) \<Rightarrow>
         bindE (guardE ok (EscrowError (TransitionRefused err)))
    (\<lambda>_. bindE (guardE (clk 0 \<le> t_timeout_at t) (EscrowError AlreadyTimedOut))
    (\<lambda>_. let t' = t\<lparr>t_status := TS_IN_PROGRESS\<rparr> in
         Inr (add_span (task_span t (fresh 0) callee ''task_started'' None SP_SUCCESS None [])
                (set_task task_id (\<lambda>_. t') d), t')))))"

section \<open>Confirmation\<close>

text \<open>\<open>int((b - a).total_seconds() * 1000)\<close>: truncation towards zero.\<close>

definition ms_between :: "instant \<Rightarrow> instant \<Rightarrow> int" where
  "ms_between a b = (if a \<le> b then (b - a) div 1000 else - ((a - b) div 1000))"

text \<open>The mirror of the reservation: refuse an underflow, else release.\<close>

definition release_reserved ::
  "(currency \<Rightarrow> escrow_msg) \<Rightarrow> task \<Rightarrow> wallet \<Rightarrow> task_exc + (wallet \<Rightarrow> wallet)" where
  "release_reserved msg t w =
    (if res (t_currency t) w < t_escrow t * unit_of (t_currency t)
     then Inl (EscrowError (msg (t_currency t)))
     else Inr (add_res (t_currency t) (- t_escrow t)))"

definition output_ok :: "(json \<Rightarrow> json \<Rightarrow> bool) \<Rightarrow> agent \<Rightarrow> string \<Rightarrow> json \<Rightarrow> bool" where
  "output_ok schema_ok callee name outp =
    (case find_capability callee name of
       None \<Rightarrow> True
     | Some cap \<Rightarrow>
         (case c_output_schema cap of
            None \<Rightarrow> True
          | Some schema \<Rightarrow> json_truthy schema \<longrightarrow> schema_ok outp schema))"

definition confirm_task_completion ::
  "(json \<Rightarrow> json \<Rightarrow> bool) \<Rightarrow> (nat \<Rightarrow> instant) \<Rightarrow> (nat \<Rightarrow> uid) \<Rightarrow> mdb \<Rightarrow> agent \<Rightarrow> uid \<Rightarrow> json \<Rightarrow>
   task_exc + (mdb \<times> task)" where
  "confirm_task_completion schema_ok clk fresh d callee task_id outp =
    bindE (needE (get_task d task_id) (EscrowError TaskNotFound))
    (\<lambda>t. bindE (guardE (t_callee t = a_id callee) (EscrowError OnlyCalleeCanConfirm))
    (\<lambda>_. if t_status t = TS_COMPLETED then Inr (d, t)
         else case validate_state_transition (t_status t) TS_COMPLETED of
           (ok, err) \<Rightarrow>
         bindE (guardE ok (EscrowError (TransitionRefused err)))
    (\<lambda>_. bindE (needE (agent_wallet d (a_id callee)) (EscrowError CalleeWalletNotFound))
    (\<lambda>cw. bindE (needE (agent_wallet d (t_caller t)) (EscrowError CallerWalletNotFound))
    (\<lambda>w. bindE (needE (pending_txn d task_id) (EscrowError PendingTxnMissing))
    (\<lambda>x. bindE (guardE (output_ok schema_ok callee (t_capability t) outp) (EscrowError OutputValidationFailed))
    (\<lambda>_. bindE (release_reserved ReservedUnderflowOnConfirm t w)
    (\<lambda>release.
      let t' = t\<lparr>t_status := TS_COMPLETED, t_completed_at := Some (clk 0), t_output := Some outp\<rparr>;
          x' = x\<lparr>x_to := Some (w_id cw), x_status := XS_COMPLETED, x_completed_at := Some (clk 1)\<rparr>;
          sp = task_span t (fresh 0) (a_id callee) ''task_completed'' (Some (ms_between (t_created_at t) (clk 2)))
                 SP_SUCCESS (Some (t_escrow t)) []
      in bindE (mapE DbError (write_wallet (w_id w) release d))
         (\<lambda>d1. bindE (mapE DbError (update_txn (day_start (clk 1)) x' (set_task task_id (\<lambda>_. t') d1)))
         (\<lambda>d2. Inr (add_span sp d2, t')))))))))))"

section \<open>Failure, timeout, cancellation: one refund\<close>

definition canceled_by_caller :: string where
  "canceled_by_caller = ''canceled_by_caller''"

definition refund_locked ::
  "(nat \<Rightarrow> instant) \<Rightarrow> (nat \<Rightarrow> uid) \<Rightarrow> mdb \<Rightarrow> task \<Rightarrow> task_status \<Rightarrow> string \<Rightarrow> task_exc + (mdb \<times> task)" where
  "refund_locked clk fresh d t new_status error_message =
    (case validate_state_transition (t_status t) new_status of
      (ok, err) \<Rightarrow>
     bindE (guardE ok (EscrowError (TransitionRefused err)))
     (\<lambda>_. bindE
       (case (pending_txn d (t_id t), agent_wallet d (t_caller t)) of
          (Some x, Some w) \<Rightarrow>
            bindE (release_reserved ReservedUnderflowOnRefund t w)
            (\<lambda>release. bindE (mapE DbError (write_wallet (w_id w) release d))
            (\<lambda>d1. mapE DbError (update_txn (day_start (clk 0))
                     (x\<lparr>x_status := XS_CANCELLED, x_completed_at := Some (clk 0)\<rparr>) d1)))
        | _ \<Rightarrow> Inr d)
     (\<lambda>d2.
       let t' = t\<lparr>t_status := new_status, t_error := Some error_message, t_completed_at := Some (clk 1),
                  t_refund_at := (if new_status = TS_TIMEOUT then Some (clk 2) else t_refund_at t)\<rparr>;
           sp = task_span t (fresh 0) (t_callee t) (''task_'' @ status_value new_status)
                  (Some (ms_between (t_created_at t) (clk 3)))
                  (if new_status = TS_TIMEOUT then SP_TIMEOUT else SP_FAILED) None
                  [(''error_message'', JStr error_message)]
       in Inr (add_span sp (set_task (t_id t) (\<lambda>_. t') d2), t'))))"

definition fail_task_with_refund ::
  "(nat \<Rightarrow> instant) \<Rightarrow> (nat \<Rightarrow> uid) \<Rightarrow> mdb \<Rightarrow> uid \<Rightarrow> string \<Rightarrow> uid option \<Rightarrow> task_status \<Rightarrow> task_exc + (mdb \<times> task)" where
  "fail_task_with_refund clk fresh d task_id error_message callee new_status =
    bindE (guardE (new_status \<in> {TS_FAILED, TS_TIMEOUT}) (EscrowError (OnlyFailedOrTimeout new_status)))
    (\<lambda>_. bindE (guardE (error_message \<noteq> canceled_by_caller) (EscrowError ErrorMessageReserved))
    (\<lambda>_. bindE (needE (get_task d task_id) (EscrowError TaskNotFound))
    (\<lambda>t. bindE (guardE (callee = None \<or> callee = Some (t_callee t)) (EscrowError OnlyCalleeCanFail))
    (\<lambda>_. if t_status t \<in> {TS_FAILED, TS_TIMEOUT, TS_REFUNDED} then Inr (d, t)
         else refund_locked clk fresh d t new_status error_message))))"

definition cancel_task_with_refund ::
  "(nat \<Rightarrow> instant) \<Rightarrow> (nat \<Rightarrow> uid) \<Rightarrow> mdb \<Rightarrow> uid \<Rightarrow> uid \<Rightarrow> task_exc + (mdb \<times> task)" where
  "cancel_task_with_refund clk fresh d task_id caller =
    bindE (needE (get_task d task_id) (EscrowError TaskNotFound))
    (\<lambda>t. bindE (guardE (t_caller t = caller) (EscrowError OnlyCallerCanCancel))
    (\<lambda>_. if t_status t = TS_FAILED \<and> t_error t = Some canceled_by_caller then Inr (d, t)
         else if t_status t \<noteq> TS_INITIATED then Inl (EscrowError (NotCancelable (t_status t)))
         else refund_locked clk fresh d t TS_FAILED canceled_by_caller))"

end
