(* ===== verification/EscrowInvariants.thy ===== *)
theory EscrowInvariants
  imports TaskService
begin

text \<open>
  The accounting invariant of the money path and its preservation by every operation of
  theory \<open>TaskService\<close>. \<open>escrow_ok\<close> says that the \<open>reserved_*\<close> columns of every wallet are
  the sum of the escrows of the live tasks that wallet pays for, and that live tasks and pending
  task payments are in one-to-one correspondence; \<open>solvent\<close> says that no wallet reserves more
  than it holds. The relation \<open>wallet_shift\<close> describes an operation by what it adds to the
  balance and the reservation of each wallet, whatever columns else it writes.
\<close>

section \<open>The invariant\<close>

definition live :: "task_status \<Rightarrow> bool" where
  "live s \<longleftrightarrow> s = TS_INITIATED \<or> s = TS_IN_PROGRESS"

definition payer :: "mdb \<Rightarrow> task \<Rightarrow> uid option" where
  "payer d t = map_option w_id (agent_wallet d (t_caller t))"

text \<open>What a task reserves on wallet \<open>i\<close> in currency \<open>c\<close>, and the sum over all tasks.\<close>

definition claim_of :: "mdb \<Rightarrow> currency \<Rightarrow> uid \<Rightarrow> task \<Rightarrow> int" where
  "claim_of d c i t =
    (if live (t_status t) \<and> t_currency t = c \<and> payer d t = Some i then t_escrow t * unit_of c else 0)"

definition claims :: "mdb \<Rightarrow> currency \<Rightarrow> uid \<Rightarrow> int" where
  "claims d c i = sum_list (map (claim_of d c i) (db_tasks d))"

definition pends :: "uid \<Rightarrow> txn \<Rightarrow> bool" where
  "pends tid x \<longleftrightarrow> x_task x = Some tid \<and> x_status x = XS_PENDING"

definition backs :: "mdb \<Rightarrow> txn \<Rightarrow> task \<Rightarrow> bool" where
  "backs d x t \<longleftrightarrow> x_amount x = t_escrow t \<and> x_currency x = t_currency t \<and> x_type x = XT_PAYMENT \<and>
    x_fee_rate x = 250 \<and> x_to x = None \<and> x_from x = payer d t \<and> payer d t \<noteq> None"

definition keys_ok :: "mdb \<Rightarrow> bool" where
  "keys_ok d \<longleftrightarrow> distinct (map w_id (db_wallets d)) \<and> distinct (map t_id (db_tasks d)) \<and>
    distinct (map x_id (db_txns d))"

definition reserved_ok :: "mdb \<Rightarrow> bool" where
  "reserved_ok d \<longleftrightarrow> (\<forall>w \<in> set (db_wallets d). \<forall>c. res c w = claims d c (w_id w))"

definition backed :: "mdb \<Rightarrow> bool" where
  "backed d \<longleftrightarrow>
    (\<forall>t \<in> set (db_tasks d). 0 \<le> t_escrow t \<and> (live (t_status t) \<longrightarrow> (\<exists>x \<in> set (db_txns d). pends (t_id t) x))) \<and>
    (\<forall>x \<in> set (db_txns d). \<forall>tid. pends tid x \<longrightarrow>
       (\<exists>t \<in> set (db_tasks d). t_id t = tid \<and> live (t_status t) \<and> backs d x t)) \<and>
    (\<forall>x \<in> set (db_txns d). \<forall>y \<in> set (db_txns d). \<forall>tid. pends tid x \<longrightarrow> pends tid y \<longrightarrow> x_id x = x_id y)"

definition escrow_ok :: "mdb \<Rightarrow> bool" where
  "escrow_ok d \<longleftrightarrow> keys_ok d \<and> reserved_ok d \<and> backed d"

definition solvent :: "mdb \<Rightarrow> bool" where
  "solvent d \<longleftrightarrow> (\<forall>w \<in> set (db_wallets d). \<forall>c. 0 \<le> res c w \<and> res c w \<le> bal c w)"

definition total_balance :: "currency \<Rightarrow> mdb \<Rightarrow> int" where
  "total_balance c d = sum_list (map (bal c) (db_wallets d))"

section \<open>Operations as shifts of the wallet columns\<close>

definition same_owner :: "wallet \<Rightarrow> wallet \<Rightarrow> bool" where
  "same_owner v v' \<longleftrightarrow> w_id v' = w_id v \<and> w_owner_type v' = w_owner_type v \<and> w_owner v' = w_owner v"

definition wallet_shift ::
  "(currency \<Rightarrow> uid \<Rightarrow> int) \<Rightarrow> (currency \<Rightarrow> uid \<Rightarrow> int) \<Rightarrow> mdb \<Rightarrow> mdb \<Rightarrow> bool" where
  "wallet_shift \<rho> \<beta> d d' \<longleftrightarrow> list_all2 (\<lambda>v v'. same_owner v v' \<and>
     (\<forall>c. res c v' = res c v + \<rho> c (w_id v) \<and> bal c v' = bal c v + \<beta> c (w_id v)))
     (db_wallets d) (db_wallets d')"

text \<open>A shift of one wallet in one currency.\<close>

definition on_wallet :: "currency \<Rightarrow> uid \<Rightarrow> int \<Rightarrow> currency \<Rightarrow> uid \<Rightarrow> int" where
  "on_wallet c i n = (\<lambda>c' i'. if c' = c \<and> i' = i then n * unit_of c else 0)"

definition no_shift :: "currency \<Rightarrow> uid \<Rightarrow> int" where
  "no_shift = (\<lambda>_ _. 0)"

lemma on_wallet_zero [simp]: "on_wallet c i 0 = no_shift"
  by (intro ext) (simp add: on_wallet_def no_shift_def)

lemma same_owner_refl [simp]: "same_owner v v"
  by (simp add: same_owner_def)

lemma wallet_shift_refl: "db_wallets d' = db_wallets d \<Longrightarrow> wallet_shift no_shift no_shift d d'"
  by (simp add: wallet_shift_def no_shift_def list_all2_same)

lemma wallet_shift_trans:
  assumes "wallet_shift \<rho> \<beta> d1 d2" and "wallet_shift \<rho>' \<beta>' d2 d3"
  shows "wallet_shift (\<lambda>c i. \<rho> c i + \<rho>' c i) (\<lambda>c i. \<beta> c i + \<beta>' c i) d1 d3"
  using assms unfolding wallet_shift_def
  by (rule list_all2_trans [rotated]) (auto simp: same_owner_def)

lemma wallet_shift_add_res: "wallet_shift (on_wallet c i n) no_shift d (set_wallet i (add_res c n) d)"
  by (simp add: wallet_shift_def db_write_simps upd_key_def list.rel_map list_all2_same
      same_owner_def on_wallet_def no_shift_def)

lemma wallet_shift_add_bal: "wallet_shift no_shift (on_wallet c i n) d (set_wallet i (add_bal c n) d)"
  by (simp add: wallet_shift_def db_write_simps upd_key_def list.rel_map list_all2_same
      same_owner_def on_wallet_def no_shift_def)

lemma wallet_shift_cong:
  "wallet_shift \<rho> \<beta> d d' \<Longrightarrow> (\<And>c i. \<rho> c i = \<rho>' c i) \<Longrightarrow> (\<And>c i. \<beta> c i = \<beta>' c i) \<Longrightarrow>
    db_wallets e = db_wallets d \<Longrightarrow> db_wallets e' = db_wallets d' \<Longrightarrow> wallet_shift \<rho>' \<beta>' e e'"
  by (simp add: wallet_shift_def)

lemma wallet_shift_owner:
  "wallet_shift \<rho> \<beta> d d' \<Longrightarrow>
    map (\<lambda>w. (w_id w, w_owner_type w, w_owner w)) (db_wallets d') =
    map (\<lambda>w. (w_id w, w_owner_type w, w_owner w)) (db_wallets d)"
  unfolding wallet_shift_def by (induction rule: list_all2_induct) (auto simp: same_owner_def)

lemma wallet_shift_ids: "wallet_shift \<rho> \<beta> d d' \<Longrightarrow> map w_id (db_wallets d') = map w_id (db_wallets d)"
  unfolding wallet_shift_def by (induction rule: list_all2_induct) (auto simp: same_owner_def)

lemma wallet_shift_member:
  assumes "wallet_shift \<rho> \<beta> d d'" and "w' \<in> set (db_wallets d')"
  obtains w where "w \<in> set (db_wallets d)" and "w_id w = w_id w'"
    and "\<And>c. res c w' = res c w + \<rho> c (w_id w')" and "\<And>c. bal c w' = bal c w + \<beta> c (w_id w')"
proof -
  from assms obtain k where "k < length (db_wallets d')" and "w' = db_wallets d' ! k"
    and "length (db_wallets d) = length (db_wallets d')"
    by (auto simp: in_set_conv_nth wallet_shift_def dest: list_all2_lengthD)
  with assms(1) show thesis
    by (intro that [of "db_wallets d ! k"]) (auto simp: wallet_shift_def list_all2_conv_all_nth same_owner_def)
qed

lemma payer_by_owner:
  "payer d t = map_option fst (find (\<lambda>k. fst (snd k) = OWNER_AGENT \<and> snd (snd k) = t_caller t)
      (map (\<lambda>w. (w_id w, w_owner_type w, w_owner w)) (db_wallets d)))"
proof -
  have "map_option w_id (find (\<lambda>w. w_owner_type w = OWNER_AGENT \<and> w_owner w = a) ws) =
    map_option fst (find (\<lambda>k. fst (snd k) = OWNER_AGENT \<and> snd (snd k) = a)
      (map (\<lambda>w. (w_id w, w_owner_type w, w_owner w)) ws))" for a ws
    by (induction ws) auto
  then show ?thesis by (simp add: payer_def agent_wallet_def)
qed

lemma payer_shift: "wallet_shift \<rho> \<beta> d d' \<Longrightarrow> payer d' t = payer d t"
  by (simp add: payer_by_owner wallet_shift_owner)

lemma payer_same_wallets: "db_wallets d' = db_wallets d \<Longrightarrow> payer d' = payer d"
  by (auto simp: payer_def agent_wallet_def)

lemma total_shift:
  assumes "wallet_shift \<rho> \<beta> d d'"
  shows "total_balance c d' = total_balance c d + sum_list (map (\<beta> c) (map w_id (db_wallets d)))"
  using assms unfolding wallet_shift_def total_balance_def
  by (induction rule: list_all2_induct) (auto simp: same_owner_def)

lemma sum_on_wallet:
  "distinct ids \<Longrightarrow> sum_list (map (on_wallet c i n c') ids) = (if c' = c \<and> i \<in> set ids then n * unit_of c else 0)"
  by (induction ids) (auto simp: on_wallet_def)

lemma solvent_shift:
  assumes "solvent d" and "wallet_shift \<rho> \<beta> d d'"
    and "\<And>w c. w \<in> set (db_wallets d) \<Longrightarrow> 0 \<le> res c w + \<rho> c (w_id w) \<and> res c w + \<rho> c (w_id w) \<le> bal c w + \<beta> c (w_id w)"
  shows "solvent d'"
  unfolding solvent_def
proof (intro ballI allI)
  fix w' c assume "w' \<in> set (db_wallets d')"
  with assms(2) obtain w where "w \<in> set (db_wallets d)" and "w_id w = w_id w'"
    and "res c w' = res c w + \<rho> c (w_id w')" and "bal c w' = bal c w + \<beta> c (w_id w')"
    by (metis wallet_shift_member)
  with assms(3) [of w c] show "0 \<le> res c w' \<and> res c w' \<le> bal c w'" by simp
qed

section \<open>The four kinds of step on the accounts\<close>

lemma claim_of_cong:
  "payer d' t = payer d t \<Longrightarrow> claim_of d' c i t = claim_of d c i t"
  by (simp add: claim_of_def)

lemma payer_status [simp]: "payer d (t\<lparr>t_status := s\<rparr>) = payer d t"
  by (simp add: payer_def)

lemma claims_cong:
  "db_tasks d' = db_tasks d \<Longrightarrow> (\<And>t. payer d' t = payer d t) \<Longrightarrow> claims d' c i = claims d c i"
  by (simp add: claims_def claim_of_def [abs_def])

lemma claims_update:
  assumes "distinct (map t_id (db_tasks d))" and "t \<in> set (db_tasks d)"
    and "db_tasks d' = upd_key t_id (t_id t) (\<lambda>_. t') (db_tasks d)" and "\<And>u. payer d' u = payer d u"
  shows "claims d' c i = claims d c i - claim_of d c i t + claim_of d c i t'"
proof -
  have "claims d' c i = sum_list (map (claim_of d c i) (upd_key t_id (t_id t) (\<lambda>_. t') (db_tasks d)))"
    using assms(3,4) by (simp add: claims_def claim_of_def [abs_def])
  with assms(1,2) show ?thesis by (simp add: claims_def sum_upd_key)
qed

lemma claim_of_nonneg: "0 \<le> t_escrow t \<Longrightarrow> 0 \<le> claim_of d c i t"
  by (simp add: claim_of_def)

lemma claim_le_claims:
  assumes "backed d" and "t \<in> set (db_tasks d)"
  shows "claim_of d c i t \<le> claims d c i"
proof -
  have "filter (\<lambda>_. True) (db_tasks d) = db_tasks d" by simp
  then show ?thesis
    using sum_filter_member_le [of "db_tasks d" "claim_of d c i" t "\<lambda>_. True"] assms
    by (simp add: claims_def backed_def claim_of_nonneg)
qed

lemma keys_okD:
  "keys_ok d \<Longrightarrow> t \<in> set (db_tasks d) \<Longrightarrow> u \<in> set (db_tasks d) \<Longrightarrow> t_id t = t_id u \<Longrightarrow> t = u"
  "keys_ok d \<Longrightarrow> x \<in> set (db_txns d) \<Longrightarrow> y \<in> set (db_txns d) \<Longrightarrow> x_id x = x_id y \<Longrightarrow> x = y"
  "keys_ok d \<Longrightarrow> v \<in> set (db_wallets d) \<Longrightarrow> w \<in> set (db_wallets d) \<Longrightarrow> w_id v = w_id w \<Longrightarrow> v = w"
  by (auto simp: keys_ok_def distinct_map inj_on_def)

lemma backed_nonneg: "backed d \<Longrightarrow> t \<in> set (db_tasks d) \<Longrightarrow> 0 \<le> t_escrow t"
  by (simp add: backed_def)

lemma backed_live:
  assumes "backed d" and "t \<in> set (db_tasks d)" and "live (t_status t)"
  obtains x where "x \<in> set (db_txns d)" and "pends (t_id t) x"
  using assms unfolding backed_def by blast

lemma backed_pend:
  assumes "backed d" and "x \<in> set (db_txns d)" and "pends tid x"
  obtains t where "t \<in> set (db_tasks d)" and "t_id t = tid" and "live (t_status t)" and "backs d x t"
  using assms unfolding backed_def by blast

lemma backed_unique:
  "backed d \<Longrightarrow> x \<in> set (db_txns d) \<Longrightarrow> y \<in> set (db_txns d) \<Longrightarrow> pends tid x \<Longrightarrow> pends tid y \<Longrightarrow> x_id x = x_id y"
  unfolding backed_def by blast

lemma reserved_ok_shift:
  assumes "reserved_ok d" and "wallet_shift \<rho> \<beta> d d'"
    and "\<And>c i. claims d' c i = claims d c i + \<rho> c i"
  shows "reserved_ok d'"
  unfolding reserved_ok_def
proof (intro ballI allI)
  fix w' c assume "w' \<in> set (db_wallets d')"
  with assms(2) obtain w where "w \<in> set (db_wallets d)" and "w_id w = w_id w'"
    and "res c w' = res c w + \<rho> c (w_id w')"
    by (metis wallet_shift_member)
  with assms(1,3) show "res c w' = claims d' c (w_id w')"
    by (simp add: reserved_ok_def)
qed

lemma backs_cong: "payer d' t = payer d t \<Longrightarrow> backs d' x t = backs d x t"
  by (simp add: backs_def)

text \<open>Money moves, tasks and task payments do not.\<close>

lemma escrow_ok_frame:
  assumes ok: "escrow_ok d" and shift: "wallet_shift no_shift \<beta> d d'"
    and tasks: "db_tasks d' = db_tasks d" and dist: "distinct (map x_id (db_txns d'))"
    and txns: "\<And>x. x_task x \<noteq> None \<Longrightarrow> x \<in> set (db_txns d') \<longleftrightarrow> x \<in> set (db_txns d)"
  shows "escrow_ok d'"
proof -
  have pay: "payer d' t = payer d t" for t by (rule payer_shift [OF shift])
  have "keys_ok d'"
    using ok dist tasks wallet_shift_ids [OF shift] by (simp add: escrow_ok_def keys_ok_def)
  moreover have "reserved_ok d'"
    using ok shift by (auto simp: escrow_ok_def no_shift_def claims_cong [OF tasks pay] intro: reserved_ok_shift)
  moreover have same: "pends tid x \<Longrightarrow> x \<in> set (db_txns d') \<longleftrightarrow> x \<in> set (db_txns d)" for tid x
    using txns by (simp add: pends_def)
  have bk: "backed d" using ok by (simp add: escrow_ok_def)
  have "backed d'"
    unfolding backed_def tasks backs_cong [OF pay]
  proof (intro conjI ballI allI impI)
    fix t assume "t \<in> set (db_tasks d)"
    with bk show "0 \<le> t_escrow t" by (rule backed_nonneg)
    assume "live (t_status t)"
    with bk \<open>t \<in> set (db_tasks d)\<close> show "\<exists>x \<in> set (db_txns d'). pends (t_id t) x"
      by (metis backed_live same)
  next
    fix x tid assume "x \<in> set (db_txns d')" "pends tid x"
    with bk show "\<exists>t \<in> set (db_tasks d). t_id t = tid \<and> live (t_status t) \<and> backs d x t"
      by (metis backed_pend same)
  next
    fix x y tid assume "x \<in> set (db_txns d')" "y \<in> set (db_txns d')" "pends tid x" "pends tid y"
    with bk show "x_id x = x_id y" by (metis backed_unique same)
  qed
  ultimately show ?thesis by (simp add: escrow_ok_def)
qed

text \<open>A live task stays live (the callee starts it).\<close>

lemma escrow_ok_restatus:
  assumes ok: "escrow_ok d" and mem: "t \<in> set (db_tasks d)" and "live (t_status t)"
    and wallets: "db_wallets d' = db_wallets d" and txns: "db_txns d' = db_txns d"
    and tasks: "db_tasks d' = upd_key t_id (t_id t) (\<lambda>_. t\<lparr>t_status := s\<rparr>) (db_tasks d)" and "live s"
  shows "escrow_ok d'"
proof -
  have pay: "payer d' u = payer d u" for u by (simp add: payer_same_wallets [OF wallets])
  have keys: "keys_ok d" using ok by (simp add: escrow_ok_def)
  have "keys_ok d'"
    using keys wallets txns by (simp add: keys_ok_def tasks map_key_upd_key)
  moreover have "claims d' c i = claims d c i" for c i
    using claims_update [OF _ mem tasks pay] keys assms(3,7)
    by (simp add: keys_ok_def claim_of_def)
  then have "reserved_ok d'"
    using ok reserved_ok_shift [OF _ wallet_shift_refl [OF wallets]] by (simp add: escrow_ok_def no_shift_def)
  moreover have "backed d'"
    unfolding backed_def
  proof (intro conjI ballI allI impI)
    fix u assume u: "u \<in> set (db_tasks d')"
    then obtain v where v: "v \<in> set (db_tasks d)" "t_id u = t_id v" "t_escrow u = t_escrow v"
      "live (t_status u) \<Longrightarrow> live (t_status v)"
      using mem assms(3) by (auto simp: tasks set_upd_key split: if_splits)
    then show "0 \<le> t_escrow u" using ok by (simp add: escrow_ok_def backed_def)
    assume "live (t_status u)"
    with v ok show "\<exists>x \<in> set (db_txns d'). pends (t_id u) x"
      by (auto simp: escrow_ok_def backed_def txns)
  next
    fix x tid assume x: "x \<in> set (db_txns d')" "pends tid x"
    with ok obtain v where v: "v \<in> set (db_tasks d)" "t_id v = tid" "live (t_status v)" "backs d x v"
      by (auto simp: escrow_ok_def txns elim: backed_pend)
    show "\<exists>u \<in> set (db_tasks d'). t_id u = tid \<and> live (t_status u) \<and> backs d' x u"
    proof (cases "t_id v = t_id t")
      case True
      with keys v mem have "v = t" by (simp add: keys_okD)
      with v assms(7) show ?thesis
        by (intro bexI [of _ "t\<lparr>t_status := s\<rparr>"])
           (auto simp: tasks backs_def pay intro: upd_key_hit [of t _ t_id, where f = "\<lambda>_. t\<lparr>t_status := s\<rparr>"] mem)
    next
      case False
      with v show ?thesis
        by (intro bexI [of _ v]) (auto simp: tasks backs_def pay intro: upd_key_keep)
    qed
  next
    fix y z tid assume "y \<in> set (db_txns d')" "z \<in> set (db_txns d')" "pends tid y" "pends tid z"
    with ok show "x_id y = x_id z" unfolding escrow_ok_def txns by (metis backed_unique)
  qed
  ultimately show ?thesis by (simp add: escrow_ok_def)
qed

text \<open>A live task ends: its reservation is released and its pending payment leaves that state.\<close>

lemma escrow_ok_end:
  assumes ok: "escrow_ok d" and t: "t \<in> set (db_tasks d)" and lv: "live (t_status t)"
    and x: "x \<in> set (db_txns d)" and px: "pends (t_id t) x" and pay: "payer d t = Some i"
    and shift: "wallet_shift (on_wallet (t_currency t) i (- t_escrow t)) \<beta> d d'"
    and tasks: "db_tasks d' = upd_key t_id (t_id t) (\<lambda>_. t') (db_tasks d)"
    and t': "t_id t' = t_id t" "t_escrow t' = t_escrow t" "\<not> live (t_status t')"
    and txns: "db_txns d' = upd_key x_id (x_id x) (\<lambda>_. x') (db_txns d)"
    and x': "x_id x' = x_id x" "x_status x' \<noteq> XS_PENDING"
  shows "escrow_ok d'"
proof -
  have keys: "keys_ok d" and bk: "backed d" and rs: "reserved_ok d"
    using ok by (simp_all add: escrow_ok_def)
  have pay': "payer d' u = payer d u" for u by (rule payer_shift [OF shift])
  have "keys_ok d'"
    using keys wallet_shift_ids [OF shift] t' x' by (simp add: keys_ok_def tasks txns map_key_upd_key)
  moreover have "claims d' c j = claims d c j + on_wallet (t_currency t) i (- t_escrow t) c j" for c j
    using claims_update [OF _ t tasks pay'] keys lv t'(3) pay
    by (simp add: keys_ok_def claim_of_def on_wallet_def)
  then have "reserved_ok d'" by (rule reserved_ok_shift [OF rs shift])
  moreover have "backed d'"
    unfolding backed_def
  proof (intro conjI ballI allI impI)
    fix u assume "u \<in> set (db_tasks d')"
    then obtain v where v: "v \<in> set (db_tasks d)" "u = (if t_id v = t_id t then t' else v)"
      by (auto simp: tasks set_upd_key)
    then show "0 \<le> t_escrow u" using bk t t' by (auto simp: backed_def)
    assume "live (t_status u)"
    with v t' have u: "u = v" "t_id v \<noteq> t_id t" by (auto split: if_splits)
    with v bk \<open>live (t_status u)\<close> obtain y where y: "y \<in> set (db_txns d)" "pends (t_id u) y"
      by (auto simp: backed_def)
    with px u x keys have "x_id y \<noteq> x_id x" by (metis keys_okD(2) pends_def option.inject)
    with y show "\<exists>y \<in> set (db_txns d'). pends (t_id u) y"
      by (auto simp: txns intro: upd_key_keep)
  next
    fix y tid assume y: "y \<in> set (db_txns d')" "pends tid y"
    with x' have y': "y \<in> set (db_txns d)" "x_id y \<noteq> x_id x"
      by (auto simp: txns set_upd_key pends_def split: if_splits)
    from backed_pend [OF bk y'(1) y(2)]
    obtain u where u: "u \<in> set (db_tasks d)" "t_id u = tid" "live (t_status u)" "backs d y u" .
    have "tid \<noteq> t_id t" using backed_unique [OF bk y'(1) x _ px] y(2) y'(2) by blast
    with u show "\<exists>u \<in> set (db_tasks d'). t_id u = tid \<and> live (t_status u) \<and> backs d' y u"
      by (auto simp: tasks set_upd_key backs_cong [OF pay'] intro!: bexI [of _ u])
  next
    fix y z tid assume "y \<in> set (db_txns d')" "z \<in> set (db_txns d')" "pends tid y" "pends tid z"
    with x' have "y \<in> set (db_txns d)" "z \<in> set (db_txns d)"
      by (auto simp: txns set_upd_key pends_def split: if_splits)
    then show "x_id y = x_id z"
      using \<open>pends tid y\<close> \<open>pends tid z\<close> by (intro backed_unique [OF bk, of y z tid])
  qed
  ultimately show ?thesis by (simp add: escrow_ok_def)
qed

text \<open>A task is created: its price is reserved and its payment waits.\<close>

lemma escrow_ok_hold:
  assumes ok: "escrow_ok d" and pay: "payer d t = Some i" and lv: "live (t_status t)" and pos: "0 \<le> t_escrow t"
    and shift: "wallet_shift (on_wallet (t_currency t) i (t_escrow t)) \<beta> d d'"
    and tasks: "db_tasks d' = db_tasks d @ [t]" and new_t: "\<And>u. u \<in> set (db_tasks d) \<Longrightarrow> t_id u \<noteq> t_id t"
    and txns: "db_txns d' = db_txns d @ [x]" and new_x: "\<And>y. y \<in> set (db_txns d) \<Longrightarrow> x_id y \<noteq> x_id x"
    and x: "pends (t_id t) x" "backs d x t"
  shows "escrow_ok d'"
proof -
  have keys: "keys_ok d" and bk: "backed d" and rs: "reserved_ok d"
    using ok by (simp_all add: escrow_ok_def)
  have pay': "payer d' u = payer d u" for u by (rule payer_shift [OF shift])
  have "keys_ok d'"
    using keys wallet_shift_ids [OF shift] new_t new_x
    by (auto simp: keys_ok_def tasks txns dest: sym)
  moreover have "claims d' c j = claims d c j + on_wallet (t_currency t) i (t_escrow t) c j" for c j
    using lv pay by (simp add: claims_def tasks claim_of_def [abs_def] pay' on_wallet_def)
  then have "reserved_ok d'" by (rule reserved_ok_shift [OF rs shift])
  moreover have fresh: "y \<in> set (db_txns d) \<Longrightarrow> \<not> pends (t_id t) y" for y
    using bk new_t unfolding backed_def by blast
  have "backed d'"
    unfolding backed_def
  proof (intro conjI ballI allI impI)
    fix u assume "u \<in> set (db_tasks d')"
    then show "0 \<le> t_escrow u" using bk pos by (auto simp: backed_def tasks)
    assume "live (t_status u)"
    with \<open>u \<in> set (db_tasks d')\<close> show "\<exists>y \<in> set (db_txns d'). pends (t_id u) y"
      using bk x by (auto simp: backed_def tasks txns)
  next
    fix y tid assume "y \<in> set (db_txns d')" "pends tid y"
    then consider "y = x" "tid = t_id t" | "y \<in> set (db_txns d)"
      using x(1) by (auto simp: txns pends_def)
    then show "\<exists>u \<in> set (db_tasks d'). t_id u = tid \<and> live (t_status u) \<and> backs d' y u"
    proof cases
      case 1
      with x(2) lv show ?thesis by (auto simp: tasks backs_cong [OF pay'])
    next
      case 2
      with bk \<open>pends tid y\<close> show ?thesis
        by (auto simp: tasks backs_cong [OF pay'] elim: backed_pend)
    qed
  next
    fix y z tid assume "y \<in> set (db_txns d')" "z \<in> set (db_txns d')" "pends tid y" "pends tid z"
    moreover have "tid = t_id t" if "pends tid x" for tid using that x(1) by (simp add: pends_def)
    ultimately show "x_id y = x_id z"
      using fresh x(1) unfolding txns set_append by (metis Un_iff backed_unique [OF bk] empty_iff list.set(1,2) insert_iff)
  qed
  ultimately show ?thesis by (simp add: escrow_ok_def)
qed

section \<open>What the row writes do\<close>

lemma agent_wallet_mem: "agent_wallet d a = Some w \<Longrightarrow> w \<in> set (db_wallets d)"
  by (auto simp: agent_wallet_def dest: find_SomeD)

lemma get_task_mem: "get_task d i = Some t \<Longrightarrow> t \<in> set (db_tasks d) \<and> t_id t = i"
  by (auto simp: get_task_def dest: find_SomeD)

lemma pending_txn_mem: "pending_txn d i = Some x \<Longrightarrow> x \<in> set (db_txns d) \<and> pends i x"
  by (auto simp: pending_txn_def pends_def dest: find_SomeD)

lemma pending_txn_exists: "x \<in> set (db_txns d) \<Longrightarrow> pends i x \<Longrightarrow> \<exists>y. pending_txn d i = Some y"
  by (auto simp: pending_txn_def pends_def find_None_iff simp flip: not_None_eq)

lemma get_txn_mem:
  "keys_ok d \<Longrightarrow> x \<in> set (db_txns d) \<Longrightarrow> get_txn d (x_id x) = Some x"
  by (simp add: get_txn_def keys_ok_def find_distinct_key)

lemma write_wallet_Inr:
  "(\<And>w. w_id (f w) = w_id w) \<Longrightarrow> write_wallet i f d = Inr d' \<Longrightarrow> d' = set_wallet i f d"
  by (simp add: write_wallet_eq split: if_splits)

text \<open>What a completed transaction adds to each balance.\<close>

definition payment_shift :: "txn \<Rightarrow> currency \<Rightarrow> uid \<Rightarrow> int" where
  "payment_shift x c i =
    (case x_from x of None \<Rightarrow> 0 | Some p \<Rightarrow> on_wallet (x_currency x) p (- x_amount x) c i) +
    (case x_to x of None \<Rightarrow> 0 | Some q \<Rightarrow> on_wallet (x_currency x) q (x_amount x - fee_of x) c i) +
    on_wallet (x_currency x) platform_wallet_id (fee_of x) c i"

lemma fee_nonneg: "0 \<le> fee_of x \<or> fee_of x = 0"
  by (auto simp: fee_of_def)

lemma wallet_shift_optional:
  assumes "(case k of None \<Rightarrow> Inr d | Some i \<Rightarrow> write_wallet i (add_bal c n) d) = Inr d'"
  shows "wallet_shift no_shift (\<lambda>c' i'. case k of None \<Rightarrow> 0 | Some i \<Rightarrow> on_wallet c i n c' i') d d' \<and>
    db_tasks d' = db_tasks d \<and> db_txns d' = db_txns d \<and> db_agents d' = db_agents d"
proof (cases k)
  case None
  with assms wallet_shift_refl [of d d] show ?thesis by (simp add: no_shift_def)
next
  case (Some i)
  with assms have "d' = set_wallet i (add_bal c n) d" by (auto dest: write_wallet_Inr [rotated])
  with Some wallet_shift_add_bal [of c i n d] show ?thesis by simp
qed

lemma wallet_shift_sum:
  "wallet_shift no_shift \<beta> d1 d2 \<Longrightarrow> wallet_shift no_shift \<gamma> d2 d3 \<Longrightarrow>
    wallet_shift no_shift (\<lambda>c i. \<beta> c i + \<gamma> c i) d1 d3"
  by (drule (1) wallet_shift_trans) (simp add: no_shift_def)

lemma update_wallet_balances_shift:
  assumes "update_wallet_balances x d = Inr d'" and "0 \<le> fee_of x"
  shows "wallet_shift no_shift (payment_shift x) d d' \<and> db_tasks d' = db_tasks d \<and>
    db_txns d' = db_txns d \<and> db_agents d' = db_agents d"
proof -
  from assms(1) obtain d1 d2 where
    1: "(case x_from x of None \<Rightarrow> Inr d | Some i \<Rightarrow> write_wallet i (add_bal (x_currency x) (- x_amount x)) d) = Inr d1" and
    2: "(case x_to x of None \<Rightarrow> Inr d1 | Some j \<Rightarrow> write_wallet j (add_bal (x_currency x) (x_amount x - fee_of x)) d1) = Inr d2" and
    3: "(if 0 < fee_of x then write_wallet platform_wallet_id (add_bal (x_currency x) (fee_of x)) d2 else Inr d2) = Inr d'"
    unfolding update_wallet_balances_def bindE_Inr by blast
  have 4: "wallet_shift no_shift (on_wallet (x_currency x) platform_wallet_id (fee_of x)) d2 d' \<and>
    db_tasks d' = db_tasks d2 \<and> db_txns d' = db_txns d2 \<and> db_agents d' = db_agents d2"
  proof (cases "0 < fee_of x")
    case True
    with 3 have "d' = set_wallet platform_wallet_id (add_bal (x_currency x) (fee_of x)) d2"
      by (auto dest: write_wallet_Inr [rotated])
    then show ?thesis by (simp add: wallet_shift_add_bal)
  next
    case False
    with assms(2) have "fee_of x = 0" by simp
    with 3 wallet_shift_refl [of d2 d2] show ?thesis by simp
  qed
  note a = wallet_shift_optional [OF 1] and b = wallet_shift_optional [OF 2]
  from a b 4 have "wallet_shift no_shift (\<lambda>c i.
      (case x_from x of None \<Rightarrow> 0 | Some p \<Rightarrow> on_wallet (x_currency x) p (- x_amount x) c i) +
      (case x_to x of None \<Rightarrow> 0 | Some q \<Rightarrow> on_wallet (x_currency x) q (x_amount x - fee_of x) c i) +
      on_wallet (x_currency x) platform_wallet_id (fee_of x) c i) d d'"
    by (intro wallet_shift_sum [of _ d d2 _ d'] wallet_shift_sum [of _ d d1]) simp_all
  with a b 4 show ?thesis by (simp add: payment_shift_def [abs_def])
qed

lemma update_daily_spending_shift:
  "wallet_shift no_shift no_shift d (update_daily_spending today x d) \<and>
    db_tasks (update_daily_spending today x d) = db_tasks d \<and>
    db_txns (update_daily_spending today x d) = db_txns d"
proof (cases "x_from x")
  case None
  then show ?thesis by (simp add: update_daily_spending_def wallet_shift_refl)
next
  case (Some i)
  then show ?thesis
    by (simp add: update_daily_spending_def wallet_shift_def db_write_simps upd_key_def list.rel_map
        list_all2_same no_shift_def same_owner_def)
qed

lemma update_txn_completed:
  assumes "update_txn today y d = Inr d'" and "get_txn d (x_id y) = Some old"
    and "x_status y = XS_COMPLETED" and "x_status old \<noteq> XS_COMPLETED"
  shows "wallet_shift no_shift (payment_shift y) d d' \<and> db_tasks d' = db_tasks d \<and>
    db_txns d' = upd_key x_id (x_id y) (\<lambda>_. y\<lparr>x_fee := fee_of y\<rparr>) (db_txns d) \<and> 0 \<le> x_amount y"
proof -
  from assms obtain d1 where pos: "0 \<le> x_amount y" and d1: "update_wallet_balances y d = Inr d1"
    and d': "d' = update_daily_spending today y (set_txn (x_id y) (\<lambda>_. y\<lparr>x_fee := fee_of y\<rparr>) d1)"
    by (auto simp: update_txn_def bindE_Inr split: if_splits)
  have "0 \<le> fee_of y" using pos by (simp add: fee_bounds)
  note s = update_wallet_balances_shift [OF d1 this]
  let ?d2 = "set_txn (x_id y) (\<lambda>_. y\<lparr>x_fee := fee_of y\<rparr>) d1"
  have "wallet_shift no_shift (payment_shift y) d ?d2"
    using s by (auto intro: wallet_shift_cong)
  with update_daily_spending_shift [of ?d2 today y]
  have "wallet_shift no_shift (\<lambda>c i. payment_shift y c i + no_shift c i) d d'"
    unfolding d' by (blast intro: wallet_shift_sum)
  with s pos update_daily_spending_shift [of ?d2 today y] show ?thesis
    by (simp add: no_shift_def d' db_write_simps)
qed

lemma update_txn_other:
  "update_txn today y d = Inr d' \<Longrightarrow> get_txn d (x_id y) = Some old \<Longrightarrow> x_status y \<noteq> XS_COMPLETED \<Longrightarrow>
    d' = set_txn (x_id y) (\<lambda>_. y) d"
  by (auto simp: update_txn_def split: if_splits)

end
