(* ===== verification/EscrowBook.thy ===== *)
theory EscrowBook
  imports EscrowInvariants
begin

text \<open>
  The abstract specification of the money path: a book of accounts. An account holds a balance,
  a task holds part of it, and a step holds, settles, releases, transfers or deposits. Theory
  \<open>MoneySystem\<close> shows that the services refine it.
\<close>

section \<open>The escrow book\<close>

record book =
  bk_bal :: "currency \<Rightarrow> uid \<Rightarrow> int"
  bk_holds :: "(uid \<times> uid \<times> currency \<times> int) list" \<comment> \<open>task, account, currency, amount\<close>

definition hold_amount :: "currency \<Rightarrow> uid \<Rightarrow> uid \<times> uid \<times> currency \<times> int \<Rightarrow> int" where
  "hold_amount c i h = (case h of (_, j, c', n) \<Rightarrow> if c' = c \<and> j = i then n * unit_of c else 0)"

definition held :: "book \<Rightarrow> currency \<Rightarrow> uid \<Rightarrow> int" where
  "held b c i = sum_list (map (hold_amount c i) (bk_holds b))"

definition add_to :: "(currency \<Rightarrow> uid \<Rightarrow> int) \<Rightarrow> book \<Rightarrow> book" where
  "add_to \<mu> b = b\<lparr>bk_bal := \<lambda>c i. bk_bal b c i + \<mu> c i\<rparr>"

definition drop_hold :: "uid \<Rightarrow> book \<Rightarrow> book" where
  "drop_hold tid b = b\<lparr>bk_holds := filter (\<lambda>h. fst h \<noteq> tid) (bk_holds b)\<rparr>"

text \<open>A movement takes at most \<open>n\<close> from account \<open>i\<close> and nothing from any other.\<close>

definition draws :: "(currency \<Rightarrow> uid \<Rightarrow> int) \<Rightarrow> currency \<Rightarrow> uid \<Rightarrow> int \<Rightarrow> bool" where
  "draws \<mu> c i n \<longleftrightarrow> (\<forall>c' j. on_wallet c i (- n) c' j \<le> \<mu> c' j)"

inductive book_step :: "book \<Rightarrow> book \<Rightarrow> bool" where
  hold: "0 \<le> n \<Longrightarrow> held b c i + n * unit_of c \<le> bk_bal b c i \<Longrightarrow> tid \<notin> fst ` set (bk_holds b) \<Longrightarrow>
    book_step b (b\<lparr>bk_holds := bk_holds b @ [(tid, i, c, n)]\<rparr>)"
| release: "(tid, i, c, n) \<in> set (bk_holds b) \<Longrightarrow> book_step b (drop_hold tid b)"
| settle: "(tid, i, c, n) \<in> set (bk_holds b) \<Longrightarrow> draws \<mu> c i n \<Longrightarrow> book_step b (add_to \<mu> (drop_hold tid b))"
| transfer: "held b c i + n * unit_of c \<le> bk_bal b c i \<Longrightarrow> draws \<mu> c i n \<Longrightarrow> book_step b (add_to \<mu> b)"
| deposit: "(\<And>c i. 0 \<le> \<mu> c i) \<Longrightarrow> book_step b (add_to \<mu> b)"

text \<open>The promise of the book: distinct holds, none negative, and every account covers its holds.\<close>

definition covered :: "book \<Rightarrow> bool" where
  "covered b \<longleftrightarrow> distinct (map fst (bk_holds b)) \<and> (\<forall>(_, _, _, n) \<in> set (bk_holds b). 0 \<le> n) \<and>
    (\<forall>c i. held b c i \<le> bk_bal b c i)"

lemma held_drop:
  assumes "distinct (map fst hs)" and "(tid, i, c, n) \<in> set hs"
  shows "sum_list (map (hold_amount c' j) (filter (\<lambda>h. fst h \<noteq> tid) hs)) =
    sum_list (map (hold_amount c' j) hs) - on_wallet c i n c' j"
  using assms
proof (induction hs)
  case (Cons h hs)
  show ?case
  proof (cases "h = (tid, i, c, n)")
    case True
    with Cons.prems(1) have "filter (\<lambda>h. fst h \<noteq> tid) hs = hs" by (auto simp: filter_id_conv)
    with True show ?thesis by (auto simp: hold_amount_def on_wallet_def)
  next
    case False
    with Cons.prems have "(tid, i, c, n) \<in> set hs" by simp
    moreover from this Cons.prems(1) have "fst h \<noteq> tid" by (cases h) (auto simp: rev_image_eqI)
    ultimately show ?thesis using Cons by simp
  qed
qed simp

lemma held_drop_hold:
  "covered b \<Longrightarrow> (tid, i, c, n) \<in> set (bk_holds b) \<Longrightarrow>
    held (drop_hold tid b) c' j = held b c' j - on_wallet c i n c' j"
  by (simp add: held_def drop_hold_def covered_def held_drop)

lemma held_add_to [simp]: "held (add_to \<mu> b) = held b"
  by (intro ext) (simp add: held_def add_to_def)

lemma drop_hold_simps [simp]:
  "bk_bal (drop_hold tid b) = bk_bal b" "bk_holds (add_to \<mu> b) = bk_holds b"
  "set (bk_holds (drop_hold tid b)) = {h \<in> set (bk_holds b). fst h \<noteq> tid}"
  "bk_bal (add_to \<mu> b) c i = bk_bal b c i + \<mu> c i"
  by (auto simp: drop_hold_def add_to_def)

lemma distinct_drop_hold: "covered b \<Longrightarrow> distinct (map fst (bk_holds (drop_hold tid b)))"
  by (auto simp: covered_def drop_hold_def intro: distinct_map_filter)

lemma on_wallet_nonneg: "0 \<le> n \<Longrightarrow> 0 \<le> on_wallet c i n c' j"
  by (simp add: on_wallet_def)

lemma on_wallet_minus: "on_wallet c i (- n) c' j = - on_wallet c i n c' j"
  by (simp add: on_wallet_def)

lemma covered_step:
  assumes "covered b" and "book_step b b'"
  shows "covered b'"
  using assms(2,1)
proof cases
  case (hold n c i tid)
  have "held b' c' j = held b c' j + on_wallet c i n c' j" for c' j
    by (simp add: hold(1) held_def hold_amount_def on_wallet_def)
  with hold assms(1) show ?thesis by (auto simp: covered_def on_wallet_def split: if_splits)
next
  case (release tid i c n)
  have "0 \<le> n" using release(2) assms(1) by (auto simp: covered_def)
  then have "held b' c' j \<le> bk_bal b c' j" for c' j
    using held_drop_hold [OF assms(1) release(2), of c' j] assms(1) on_wallet_nonneg [of n c i c' j]
    by (simp add: release(1) covered_def) (smt (verit))
  then show ?thesis using assms(1) distinct_drop_hold [OF assms(1), of tid]
    by (auto simp: covered_def release(1))
next
  case (settle tid i c n \<mu>)
  have "held b c' j - on_wallet c i n c' j \<le> bk_bal b c' j + \<mu> c' j" for c' j
    using settle(3) assms(1) unfolding draws_def covered_def on_wallet_minus by (smt (verit))
  then have "held b' c' j \<le> bk_bal b' c' j" for c' j
    using held_drop_hold [OF assms(1) settle(2), of c' j] by (simp add: settle(1))
  then show ?thesis using assms(1) distinct_drop_hold [OF assms(1), of tid]
    by (auto simp: covered_def settle(1))
next
  case (transfer c i n \<mu>)
  have "held b c' j \<le> bk_bal b c' j + \<mu> c' j" for c' j
  proof (cases "c' = c \<and> j = i")
    case True
    moreover have "- (n * unit_of c) \<le> \<mu> c i"
      using transfer(3) unfolding draws_def by (auto simp: on_wallet_def dest!: spec [of _ c] spec [of _ i])
    ultimately show ?thesis using transfer(2) by simp
  next
    case False
    then have "0 \<le> \<mu> c' j" using transfer(3) unfolding draws_def by (auto simp: on_wallet_def dest!: spec [of _ c'] spec [of _ j])
    with assms(1) show ?thesis by (simp add: covered_def add_increasing2)
  qed
  with assms(1) show ?thesis by (auto simp: covered_def transfer(1))
next
  case (deposit \<mu>)
  with assms(1) show ?thesis by (auto simp: covered_def add_increasing2)
qed

interpretation escrow_book: invariant_system "\<lambda>b. bk_holds b = [] \<and> (\<forall>c i. 0 \<le> bk_bal b c i)" book_step covered
proof
  fix b :: book assume "bk_holds b = [] \<and> (\<forall>c i. 0 \<le> bk_bal b c i)"
  then show "covered b" by (simp add: covered_def held_def)
qed (rule covered_step)

end
