(* ===== verification/TaskSafety.thy ===== *)
theory TaskSafety
  imports EscrowInvariants
begin

text \<open>
  Every operation of \<open>task_service.py\<close> preserves the accounting invariant of theory
  \<open>EscrowInvariants\<close> and solvency; what each does to the balances; that a completion and a
  refund cannot fail on the accounts; and the idempotency of creation.
\<close>

section \<open>Inversion of the operations\<close>

lemma escrow_okD:
  "escrow_ok d \<Longrightarrow> keys_ok d" "escrow_ok d \<Longrightarrow> backed d" "escrow_ok d \<Longrightarrow> reserved_ok d"
  by (simp_all add: escrow_ok_def)

lemma live_iff_allowed: "live s \<longleftrightarrow> task_allowed s \<noteq> []"
  by (cases s) (simp_all add: live_def task_allowed_def)

lemma allowed_live: "n \<in> set (task_allowed s) \<Longrightarrow> live s"
  by (cases s) (simp_all add: live_def task_allowed_def)

lemma start_task_Inr:
  assumes "start_task clk fresh d i ag = Inr (d', t')"
  shows "(d' = d \<and> get_task d i = Some t' \<and> t_status t' = TS_IN_PROGRESS) \<or>
    (\<exists>t sp. get_task d i = Some t \<and> t_callee t = ag \<and> t_status t = TS_INITIATED \<and> clk 0 \<le> t_timeout_at t \<and>
       t' = t\<lparr>t_status := TS_IN_PROGRESS\<rparr> \<and> d' = add_span sp (set_task i (\<lambda>_. t') d))"
proof -
  have ini: "TS_IN_PROGRESS \<in> set (task_allowed s) \<Longrightarrow> s = TS_INITIATED" for s
    by (cases s) (simp_all add: task_allowed_def)
  from assms show ?thesis
    by (auto simp: start_task_def bindE_Inr Let_def validate_split split: if_splits dest: ini)
qed

lemma confirm_Inr:
  assumes "confirm_task_completion schema_ok clk fresh d callee i outp = Inr (d', t')"
  shows "(d' = d \<and> get_task d i = Some t' \<and> t_status t' = TS_COMPLETED) \<or>
    (\<exists>t cw w x release d1 d2 sp. get_task d i = Some t \<and> t_callee t = a_id callee \<and> t_status t = TS_IN_PROGRESS \<and>
       agent_wallet d (a_id callee) = Some cw \<and> agent_wallet d (t_caller t) = Some w \<and>
       pending_txn d i = Some x \<and> output_ok schema_ok callee (t_capability t) outp \<and>
       release_reserved ReservedUnderflowOnConfirm t w = Inr release \<and>
       t' = t\<lparr>t_status := TS_COMPLETED, t_completed_at := Some (clk 0), t_output := Some outp\<rparr> \<and>
       write_wallet (w_id w) release d = Inr d1 \<and>
       update_txn (day_start (clk 1))
         (x\<lparr>x_to := Some (w_id cw), x_status := XS_COMPLETED, x_completed_at := Some (clk 1)\<rparr>)
         (set_task i (\<lambda>_. t') d1) = Inr d2 \<and> d' = add_span sp d2)"
proof -
  have inp: "TS_COMPLETED \<in> set (task_allowed s) \<Longrightarrow> s = TS_IN_PROGRESS" for s
    by (cases s) (simp_all add: task_allowed_def)
  from assms obtain t where t: "get_task d i = Some t" "t_callee t = a_id callee"
    by (auto simp: confirm_task_completion_def bindE_Inr)
  show ?thesis
  proof (cases "t_status t = TS_COMPLETED")
    case True
    with assms t show ?thesis by (simp add: confirm_task_completion_def guardE_def)
  next
    case False
    with assms t have ok: "TS_COMPLETED \<in> set (task_allowed (t_status t))"
      by (auto simp: confirm_task_completion_def guardE_def validate_split split: if_splits)
    from assms t False ok show ?thesis
      unfolding confirm_task_completion_def validate_split
      apply (simp add: bindE_Inr Let_def guardE_def inp [OF ok] split del: if_split)
      apply (elim exE conjE)
      apply (simp add: inp [OF ok] split: if_splits)
      apply auto
      done
  qed
qed

lemma refund_Inr:
  assumes "refund_locked clk fresh d t s msg = Inr (d', t')"
  shows "s \<in> set (task_allowed (t_status t)) \<and> t_id t' = t_id t \<and> t_escrow t' = t_escrow t \<and> t_caller t' = t_caller t \<and>
    t_status t' = s \<and> t_error t' = Some msg \<and>
    (\<exists>d2 sp. d' = add_span sp (set_task (t_id t) (\<lambda>_. t') d2) \<and>
      (case (pending_txn d (t_id t), agent_wallet d (t_caller t)) of
         (Some x, Some w) \<Rightarrow> \<exists>release d1. release_reserved ReservedUnderflowOnRefund t w = Inr release \<and>
            write_wallet (w_id w) release d = Inr d1 \<and>
            update_txn (day_start (clk 0)) (x\<lparr>x_status := XS_CANCELLED, x_completed_at := Some (clk 0)\<rparr>) d1 = Inr d2
       | _ \<Rightarrow> d2 = d))"
  using assms unfolding refund_locked_def validate_split bindE_Inr Let_def
  by (auto split: if_splits option.splits simp: bindE_Inr)

section \<open>Preservation\<close>

lemma escrow_ok_add_span [simp]: "escrow_ok (add_span sp d) = escrow_ok d"
  by (simp add: escrow_ok_def keys_ok_def reserved_ok_def backed_def claims_def claim_of_def [abs_def]
      payer_same_wallets [of "add_span sp d" d] backs_def)

lemma escrow_ok_set_agent [simp]: "escrow_ok (set_agent i f d) = escrow_ok d"
  by (simp add: escrow_ok_def keys_ok_def reserved_ok_def backed_def claims_def claim_of_def [abs_def]
      payer_same_wallets [of "set_agent i f d" d] backs_def)

lemma solvent_set_agent [simp]: "solvent (set_agent i f d) = solvent d"
  by (simp add: solvent_def)

lemma solvent_add_span [simp]: "solvent (add_span sp d) = solvent d"
  by (simp add: solvent_def)

lemma total_add_span [simp]: "total_balance c (add_span sp d) = total_balance c d"
  by (simp add: total_balance_def)

lemma solvent_same_wallets: "db_wallets d' = db_wallets d \<Longrightarrow> solvent d' = solvent d"
  by (simp add: solvent_def)

lemma payer_of_wallet: "agent_wallet d (t_caller t) = Some w \<Longrightarrow> payer d t = Some (w_id w)"
  by (simp add: payer_def)

text \<open>In an accounted state the payer of a live task reserves at least its escrow.\<close>

lemma live_task_reserved:
  assumes "escrow_ok d" and "t \<in> set (db_tasks d)" and "live (t_status t)" and "agent_wallet d (t_caller t) = Some w"
  shows "t_escrow t * unit_of (t_currency t) \<le> res (t_currency t) w"
proof -
  have "claim_of d (t_currency t) (w_id w) t = t_escrow t * unit_of (t_currency t)"
    using assms(3,4) by (simp add: claim_of_def payer_of_wallet)
  moreover have "claim_of d (t_currency t) (w_id w) t \<le> claims d (t_currency t) (w_id w)"
    using assms(1,2) by (intro claim_le_claims) (auto dest: escrow_okD)
  moreover have "res (t_currency t) w = claims d (t_currency t) (w_id w)"
    using assms(1,4) agent_wallet_mem by (auto simp: escrow_ok_def reserved_ok_def)
  ultimately show ?thesis by simp
qed

lemma live_task_backing:
  assumes "escrow_ok d" and "t \<in> set (db_tasks d)" and "live (t_status t)"
  obtains x w where "pending_txn d (t_id t) = Some x" and "x \<in> set (db_txns d)" and "pends (t_id t) x"
    and "backs d x t" and "agent_wallet d (t_caller t) = Some w"
proof -
  from assms obtain y where "y \<in> set (db_txns d)" and "pends (t_id t) y"
    by (metis backed_live escrow_okD(2))
  then obtain x where x: "pending_txn d (t_id t) = Some x" by (metis pending_txn_exists)
  then have px: "x \<in> set (db_txns d)" "pends (t_id t) x" by (auto dest: pending_txn_mem)
  with assms obtain u where "u \<in> set (db_tasks d)" "t_id u = t_id t" "backs d x u"
    by (metis backed_pend escrow_okD(2))
  with assms have "backs d x t" by (metis escrow_okD(1) keys_okD(1))
  moreover from this obtain w where "agent_wallet d (t_caller t) = Some w"
    by (auto simp: backs_def payer_def)
  ultimately show thesis using that x px by blast
qed

lemma start_task_preserves:
  assumes ok: "escrow_ok d" and sv: "solvent d" and run: "start_task clk fresh d i ag = Inr (d', t')"
  shows "escrow_ok d' \<and> solvent d'"
  using start_task_Inr [OF run]
proof (elim disjE conjE exE)
  assume "d' = d"
  with ok sv show ?thesis by simp
next
  fix t sp assume t: "get_task d i = Some t" "t_status t = TS_INITIATED" "t' = t\<lparr>t_status := TS_IN_PROGRESS\<rparr>"
    and d': "d' = add_span sp (set_task i (\<lambda>_. t') d)"
  from t have mem: "t \<in> set (db_tasks d)" and i: "i = t_id t" by (auto dest: get_task_mem)
  have "escrow_ok (set_task i (\<lambda>_. t') d)"
    by (rule escrow_ok_restatus [OF ok mem, where s = TS_IN_PROGRESS])
       (simp_all add: t i live_def db_write_simps)
  with sv show ?thesis by (simp add: d' solvent_same_wallets [of "set_task i (\<lambda>_. t') d" d])
qed

lemma release_reserved_Inr:
  "release_reserved msg t w = Inr f \<longleftrightarrow>
    f = add_res (t_currency t) (- t_escrow t) \<and> t_escrow t * unit_of (t_currency t) \<le> res (t_currency t) w"
  by (auto simp: release_reserved_def)

lemma release_solvent:
  assumes ok: "escrow_ok d" and sv: "solvent d" and mem: "t \<in> set (db_tasks d)" and lv: "live (t_status t)"
    and w: "agent_wallet d (t_caller t) = Some w"
    and shift: "wallet_shift (on_wallet (t_currency t) (w_id w) (- t_escrow t)) \<beta> d d'"
    and low: "\<And>c i. on_wallet (t_currency t) (w_id w) (- t_escrow t) c i \<le> \<beta> c i"
  shows "solvent d'"
proof (rule solvent_shift [OF sv shift])
  fix v c assume v: "v \<in> set (db_wallets d)"
  have "0 \<le> res c v + on_wallet (t_currency t) (w_id w) (- t_escrow t) c (w_id v)"
  proof (cases "c = t_currency t \<and> w_id v = w_id w")
    case True
    with v w ok have "v = w" by (meson agent_wallet_mem escrow_okD(1) keys_okD(3))
    with live_task_reserved [OF ok mem lv w] True show ?thesis by (simp add: on_wallet_def)
  next
    case False
    with sv v show ?thesis by (auto simp: on_wallet_def solvent_def)
  qed
  moreover have "res c v \<le> bal c v" using sv v by (simp add: solvent_def)
  ultimately show "0 \<le> res c v + on_wallet (t_currency t) (w_id w) (- t_escrow t) c (w_id v) \<and>
    res c v + on_wallet (t_currency t) (w_id w) (- t_escrow t) c (w_id v) \<le> bal c v + \<beta> c (w_id v)"
    using low [of c "w_id v"] by linarith
qed

text \<open>The writes of a refund, whoever makes them: reservation back, payment closed, task ended.\<close>

lemma refund_writes_preserve:
  assumes ok: "escrow_ok d" and sv: "solvent d" and mem: "t \<in> set (db_tasks d)" and lv: "live (t_status t)"
    and x: "x \<in> set (db_txns d)" "pends (t_id t) x" and w: "agent_wallet d (t_caller t) = Some w"
    and y: "x_id y = x_id x" "x_status y \<noteq> XS_PENDING"
    and t': "t_id t' = t_id t" "t_escrow t' = t_escrow t" "\<not> live (t_status t')"
    and e: "e = set_task (t_id t) (\<lambda>_. t') (set_txn (x_id x) (\<lambda>_. y)
      (set_wallet (w_id w) (add_res (t_currency t) (- t_escrow t)) d))"
  shows "escrow_ok e \<and> solvent e \<and> wallet_shift (on_wallet (t_currency t) (w_id w) (- t_escrow t)) no_shift d e"
proof -
  have shift: "wallet_shift (on_wallet (t_currency t) (w_id w) (- t_escrow t)) no_shift d e"
    by (rule wallet_shift_cong [OF wallet_shift_add_res]) (simp_all add: e)
  have "escrow_ok e"
    by (rule escrow_ok_end [OF ok mem lv x payer_of_wallet [OF w] shift, where t' = t' and x' = y])
       (use y t' in \<open>simp_all add: e db_write_simps\<close>)
  moreover have "solvent e"
    by (rule release_solvent [OF ok sv mem lv w shift])
       (use backed_nonneg [OF escrow_okD(2) [OF ok] mem] in \<open>simp add: on_wallet_def no_shift_def\<close>)
  ultimately show ?thesis using shift by blast
qed

lemma refund_preserves:
  assumes ok: "escrow_ok d" and sv: "solvent d" and mem: "t \<in> set (db_tasks d)"
    and s: "\<not> live s" and run: "refund_locked clk fresh d t s msg = Inr (d', t')"
  shows "escrow_ok d' \<and> solvent d' \<and>
    (\<exists>i. payer d t = Some i \<and> wallet_shift (on_wallet (t_currency t) i (- t_escrow t)) no_shift d d')"
proof -
  note inv = refund_Inr [OF run]
  then have lv: "live (t_status t)" by (auto dest: allowed_live)
  from live_task_backing [OF ok mem lv]
  obtain x w where x: "pending_txn d (t_id t) = Some x" "x \<in> set (db_txns d)" "pends (t_id t) x"
    and bk: "backs d x t" and w: "agent_wallet d (t_caller t) = Some w" .
  let ?y = "x\<lparr>x_status := XS_CANCELLED, x_completed_at := Some (clk 0)\<rparr>"
  from inv x w obtain release d1 d2 sp where r: "release_reserved ReservedUnderflowOnRefund t w = Inr release"
    and d1: "write_wallet (w_id w) release d = Inr d1" and d2: "update_txn (day_start (clk 0)) ?y d1 = Inr d2"
    and d': "d' = add_span sp (set_task (t_id t) (\<lambda>_. t') d2)"
    by auto
  from r have rel: "release = add_res (t_currency t) (- t_escrow t)" by (simp add: release_reserved_Inr)
  with d1 have d1': "d1 = set_wallet (w_id w) (add_res (t_currency t) (- t_escrow t)) d"
    by (auto dest: write_wallet_Inr [rotated])
  have "get_txn d1 (x_id ?y) = Some x"
    using get_txn_mem [OF escrow_okD(1) [OF ok] x(2)] by (simp add: d1' get_txn_def)
  with d2 have d2': "d2 = set_txn (x_id x) (\<lambda>_. ?y) d1" by (auto dest: update_txn_other)
  let ?e = "set_task (t_id t) (\<lambda>_. t') d2"
  have e: "escrow_ok ?e \<and> solvent ?e \<and> wallet_shift (on_wallet (t_currency t) (w_id w) (- t_escrow t)) no_shift d ?e"
    by (rule refund_writes_preserve [OF ok sv mem lv x(2,3) w, of ?y t'])
       (use inv s in \<open>simp_all add: d1' d2'\<close>)
  then have "wallet_shift (on_wallet (t_currency t) (w_id w) (- t_escrow t)) no_shift d d'"
    by (auto simp: d' intro: wallet_shift_cong)
  with e payer_of_wallet [OF w] show ?thesis by (simp add: d')
qed

lemma payment_shift_lower:
  assumes "0 \<le> x_amount x" and "x_from x = Some p"
  shows "on_wallet (x_currency x) p (- x_amount x) c i \<le> payment_shift x c i"
proof -
  have "0 \<le> (case x_to x of None \<Rightarrow> 0 | Some q \<Rightarrow> on_wallet (x_currency x) q (x_amount x - fee_of x) c i)"
    using fee_le_amount [OF assms(1)] by (auto simp: on_wallet_def split: option.split)
  moreover have "0 \<le> on_wallet (x_currency x) platform_wallet_id (fee_of x) c i"
    using fee_bounds [OF assms(1)] by (simp add: on_wallet_def)
  ultimately show ?thesis using assms(2) by (simp add: payment_shift_def)
qed

lemma confirm_preserves:
  assumes ok: "escrow_ok d" and sv: "solvent d"
    and run: "confirm_task_completion schema_ok clk fresh d callee i outp = Inr (d', t')"
  shows "escrow_ok d' \<and> solvent d' \<and>
    ((d' = d \<and> get_task d i = Some t' \<and> t_status t' = TS_COMPLETED) \<or>
     (\<exists>t w cw x. get_task d i = Some t \<and> agent_wallet d (a_id callee) = Some cw \<and>
       agent_wallet d (t_caller t) = Some w \<and> t_status t = TS_IN_PROGRESS \<and>
       x_from x = Some (w_id w) \<and> x_to x = Some (w_id cw) \<and> x_amount x = t_escrow t \<and>
       x_currency x = t_currency t \<and> x_type x = XT_PAYMENT \<and> x_fee_rate x = 250 \<and>
       wallet_shift (on_wallet (t_currency t) (w_id w) (- t_escrow t)) (payment_shift x) d d'))"
  using confirm_Inr [OF run]
proof (elim disjE conjE exE)
  assume "d' = d" "get_task d i = Some t'" "t_status t' = TS_COMPLETED"
  with ok sv show ?thesis by simp
next
  fix t cw w x release d1 d2 sp
  assume t: "get_task d i = Some t" "t_status t = TS_IN_PROGRESS"
    and cw: "agent_wallet d (a_id callee) = Some cw" and w: "agent_wallet d (t_caller t) = Some w"
    and x: "pending_txn d i = Some x" and r: "release_reserved ReservedUnderflowOnConfirm t w = Inr release"
    and t': "t' = t\<lparr>t_status := TS_COMPLETED, t_completed_at := Some (clk 0), t_output := Some outp\<rparr>"
    and d1: "write_wallet (w_id w) release d = Inr d1"
    and d2: "update_txn (day_start (clk 1))
      (x\<lparr>x_to := Some (w_id cw), x_status := XS_COMPLETED, x_completed_at := Some (clk 1)\<rparr>)
      (set_task i (\<lambda>_. t') d1) = Inr d2"
    and d': "d' = add_span sp d2"
  let ?y = "x\<lparr>x_to := Some (w_id cw), x_status := XS_COMPLETED, x_completed_at := Some (clk 1)\<rparr>"
  from t have mem: "t \<in> set (db_tasks d)" and i: "i = t_id t" and lv: "live (t_status t)"
    by (auto dest: get_task_mem simp: live_def)
  from x i have px: "x \<in> set (db_txns d)" "pends (t_id t) x" by (auto dest: pending_txn_mem)
  have bk: "backs d x t" using backed_pend [OF escrow_okD(2) [OF ok] px] ok mem
    by (metis escrow_okD(1) keys_okD(1))
  then have y: "x_amount ?y = t_escrow t" "x_currency ?y = t_currency t" "x_from ?y = Some (w_id w)" "x_type ?y = XT_PAYMENT"
    "x_fee_rate ?y = 250"
    using w by (simp_all add: backs_def payer_of_wallet)
  from r have rel: "release = add_res (t_currency t) (- t_escrow t)" by (simp add: release_reserved_Inr)
  with d1 have d1': "d1 = set_wallet (w_id w) (add_res (t_currency t) (- t_escrow t)) d"
    by (auto dest: write_wallet_Inr [rotated])
  let ?e = "set_task i (\<lambda>_. t') d1"
  have old: "get_txn ?e (x_id ?y) = Some x"
    using get_txn_mem [OF escrow_okD(1) [OF ok] px(1)] by (simp add: d1' get_txn_def)
  note u = update_txn_completed [OF d2 old]
  have sh1: "wallet_shift (on_wallet (t_currency t) (w_id w) (- t_escrow t)) no_shift d ?e"
    by (rule wallet_shift_cong [OF wallet_shift_add_res]) (simp_all add: d1')
  have "wallet_shift no_shift (payment_shift ?y) ?e d2" using u px by (simp add: pends_def)
  from wallet_shift_trans [OF sh1 this]
  have shift: "wallet_shift (on_wallet (t_currency t) (w_id w) (- t_escrow t)) (payment_shift ?y) d d2"
    by (simp add: no_shift_def)
  have txns: "db_txns d2 = upd_key x_id (x_id x) (\<lambda>_. ?y\<lparr>x_fee := fee_of ?y\<rparr>) (db_txns d)"
    and tasks: "db_tasks d2 = upd_key t_id (t_id t) (\<lambda>_. t') (db_tasks d)" and pos: "0 \<le> t_escrow t"
    using u px y by (simp_all add: d1' db_write_simps pends_def i)
  have "escrow_ok d2"
    by (rule escrow_ok_end [OF ok mem lv px payer_of_wallet [OF w] shift tasks _ _ _ txns])
       (simp_all add: t' live_def)
  moreover have "solvent d2"
    by (rule release_solvent [OF ok sv mem lv w shift])
       (use payment_shift_lower [of ?y "w_id w"] y pos in simp)
  moreover have "wallet_shift (on_wallet (t_currency t) (w_id w) (- t_escrow t)) (payment_shift ?y) d d'"
    using shift by (auto simp: d' intro: wallet_shift_cong)
  moreover have "x_to ?y = Some (w_id cw)" by simp
  ultimately show ?thesis using t cw w y unfolding d' escrow_ok_add_span solvent_add_span by blast
qed

lemma create_Inr:
  assumes "create_task_with_escrow schema_ok sha show_id clk fresh d d' caller c = Inr (d'', t, x)"
  shows "(d'' = d' \<and> key_given (ca_idem_key c)) \<or>
    (\<exists>cur w price ih rh. agent_wallet d caller = Some w \<and> reserve_check cur price w = Inr () \<and>
       t = new_task clk fresh caller c cur price ih \<and> x = new_txn clk fresh (w_id w) c cur price ih rh \<and>
       price \<le> ca_max_budget c \<and> commit_creation (day_start (clk 1)) w t x d' = Inr d'')"
proof -
  from assms obtain cur rh hit where cur: "parse_currency (ca_currency c) = Some cur"
    and rh: "request_fingerprint sha show_id c = Inr rh" and hit: "idempotent_hit d c rh = Inr hit"
    by (auto simp: create_task_with_escrow_def bindE_Inr)
  show ?thesis
  proof (cases hit)
    case (Some p)
    with hit have "key_given (ca_idem_key c)" by (auto simp: idempotent_hit_def split: if_splits)
    with assms cur rh hit Some show ?thesis
      by (auto simp: create_task_with_escrow_def split: prod.splits)
  next
    case None
    from assms None cur rh hit obtain callee cap w ih where
      w: "agent_wallet d caller = Some w" and
      rc: "reserve_check cur (price_of cap) w = Inr ()" and
      bud: "price_of cap \<le> ca_max_budget c" and
      fin: "(let t = new_task clk fresh caller c cur (price_of cap) ih;
          x = new_txn clk fresh (w_id w) c cur (price_of cap) ih rh
        in case commit_creation (day_start (clk 1)) w t x d' of
           Inr d1 \<Rightarrow> Inr (d1, t, x)
         | Inl IntegrityError \<Rightarrow> recover_conflict d' c rh
         | Inl e \<Rightarrow> Inl (DbError e)) = Inr (d'', t, x)"
      apply (simp add: create_task_with_escrow_def bindE_Inr Let_def del: One_nat_def)
      apply (elim exE conjE)
      apply (rule that)
      apply (assumption | simp add: Let_def del: One_nat_def)+
      done
    have rec: "recover_conflict d' c rh = Inr (d'', t, x) \<Longrightarrow> d'' = d' \<and> key_given (ca_idem_key c)"
      by (auto simp: recover_conflict_def split: if_splits option.splits)
    from w rc bud fin rec show ?thesis
      by (auto simp: Let_def split: sum.splits db_error.splits simp del: One_nat_def)
  qed
qed

lemma commit_creation_Inr:
  assumes "commit_creation today w t x d = Inr d'"
  shows "d' = add_span (created_span t)
      ((set_wallet (w_id w) (add_res (t_currency t) (t_escrow t)) d)\<lparr>db_tasks := db_tasks d @ [t], db_txns := db_txns d @ [x]\<rparr>) \<and>
    (\<forall>u \<in> set (db_tasks d). t_id u \<noteq> t_id t) \<and> (\<forall>y \<in> set (db_txns d). x_id y \<noteq> x_id x) \<and> 0 \<le> x_amount x"
proof -
  from assms obtain d1 d2 d3 where d1: "write_wallet (w_id w) (add_res (t_currency t) (t_escrow t)) d = Inr d1"
    and d2: "insert_task t d1 = Inr d2" and d3: "insert_txn today x d2 = Inr d3" and d': "d' = add_span (created_span t) d3"
    by (auto simp: commit_creation_def bindE_Inr)
  from d1 have e1: "d1 = set_wallet (w_id w) (add_res (t_currency t) (t_escrow t)) d"
    by (auto dest: write_wallet_Inr [rotated])
  from d2 have e2: "d2 = d1\<lparr>db_tasks := db_tasks d1 @ [t]\<rparr>" and f2: "\<forall>u \<in> set (db_tasks d1). t_id u \<noteq> t_id t"
    by (auto simp: insert_task_def list_ex_iff split: if_splits)
  from d3 have e3: "d3 = d2\<lparr>db_txns := db_txns d2 @ [x]\<rparr>" and f3: "\<forall>y \<in> set (db_txns d2). x_id y \<noteq> x_id x"
    and pos: "0 \<le> x_amount x"
    by (auto simp: insert_txn_def bindE_Inr list_ex_iff split: if_splits)
  from e1 e2 e3 f2 f3 pos d' show ?thesis by simp
qed

lemma reserve_check_Inr:
  "reserve_check cur price w = Inr () \<Longrightarrow> res cur w + price * unit_of cur \<le> bal cur w"
  by (cases cur) (auto simp: reserve_check_def Let_def currency_cases split: if_splits)

lemma create_preserves:
  assumes ok: "escrow_ok d'" and sv: "solvent d'" and lock: "agent_wallet d caller = agent_wallet d' caller"
    and run: "create_task_with_escrow schema_ok sha show_id clk fresh d d' caller c = Inr (d'', t, x)"
  shows "escrow_ok d'' \<and> solvent d'' \<and>
    (d'' = d' \<or> (\<exists>w. agent_wallet d' caller = Some w \<and> t_caller t = caller \<and> live (t_status t) \<and>
       wallet_shift (on_wallet (t_currency t) (w_id w) (t_escrow t)) no_shift d' d'' \<and> t_escrow t \<le> ca_max_budget c \<and>
       db_tasks d'' = db_tasks d' @ [t] \<and> (\<forall>u \<in> set (db_tasks d'). t_id u \<noteq> t_id t) \<and> 0 \<le> t_escrow t))"
  using create_Inr [OF run]
proof (elim disjE conjE exE)
  assume "d'' = d'"
  with ok sv show ?thesis by simp
next
  fix cur w price ih rh
  assume w: "agent_wallet d caller = Some w" and rc: "reserve_check cur price w = Inr ()"
    and t: "t = new_task clk fresh caller c cur price ih" and x: "x = new_txn clk fresh (w_id w) c cur price ih rh"
    and bud: "price \<le> ca_max_budget c"
    and com: "commit_creation (day_start (clk 1)) w t x d' = Inr d''"
  note cc = commit_creation_Inr [OF com]
  let ?e = "(set_wallet (w_id w) (add_res (t_currency t) (t_escrow t)) d')
      \<lparr>db_tasks := db_tasks d' @ [t], db_txns := db_txns d' @ [x]\<rparr>"
  from w lock have w': "agent_wallet d' caller = Some w" by simp
  then have wm: "w \<in> set (db_wallets d')" by (rule agent_wallet_mem)
  have tp: "t_caller t = caller" "t_currency t = cur" "t_escrow t = price" "live (t_status t)" "t_id t = fresh 2"
    by (simp_all add: t new_task_def live_def)
  have pay: "payer d' t = Some (w_id w)" using w' tp by (simp add: payer_def)
  have pos: "0 \<le> price" using cc by (simp add: x new_txn_def)
  have shift: "wallet_shift (on_wallet (t_currency t) (w_id w) (t_escrow t)) no_shift d' ?e"
    by (rule wallet_shift_cong [OF wallet_shift_add_res]) simp_all
  have "escrow_ok ?e"
  proof (rule escrow_ok_hold [OF ok pay tp(4) _ shift, where x = x])
    show "pends (t_id t) x" by (simp add: tp x new_txn_def pends_def)
    show "backs d' x t" using pay by (simp add: tp x new_txn_def backs_def)
  qed (use cc pos tp in simp_all)
  moreover have "solvent ?e"
  proof (rule solvent_shift [OF sv shift])
    fix v cu assume v: "v \<in> set (db_wallets d')"
    show "0 \<le> res cu v + on_wallet (t_currency t) (w_id w) (t_escrow t) cu (w_id v) \<and>
      res cu v + on_wallet (t_currency t) (w_id w) (t_escrow t) cu (w_id v) \<le> bal cu v + no_shift cu (w_id v)"
    proof (cases "cu = cur \<and> w_id v = w_id w")
      case True
      with v wm ok have "v = w" by (meson escrow_okD(1) keys_okD(3))
      with True sv v reserve_check_Inr [OF rc] pos show ?thesis
        by (simp add: on_wallet_def no_shift_def solvent_def tp)
    next
      case False
      with sv v show ?thesis by (auto simp: on_wallet_def no_shift_def solvent_def tp)
    qed
  qed
  moreover have "wallet_shift (on_wallet (t_currency t) (w_id w) (t_escrow t)) no_shift d' d''"
    using shift cc by (auto intro: wallet_shift_cong)
  ultimately show ?thesis using cc w' tp bud pos by auto
qed

lemma fail_preserves:
  assumes "escrow_ok d" and "solvent d" and "fail_task_with_refund clk fresh d i msg callee s = Inr (d', t')"
  shows "escrow_ok d' \<and> solvent d' \<and> (d' = d \<or> (\<exists>t j. get_task d i = Some t \<and> payer d t = Some j \<and>
    wallet_shift (on_wallet (t_currency t) j (- t_escrow t)) no_shift d d'))"
proof -
  from assms(3) obtain t where t: "get_task d i = Some t" "s \<in> {TS_FAILED, TS_TIMEOUT}"
    and r: "(t_status t \<in> {TS_FAILED, TS_TIMEOUT, TS_REFUNDED} \<and> d' = d) \<or> refund_locked clk fresh d t s msg = Inr (d', t')"
    by (auto simp: fail_task_with_refund_def bindE_Inr split: if_splits)
  from t have "t \<in> set (db_tasks d)" "\<not> live s" by (auto dest: get_task_mem simp: live_def)
  with r t(1) assms(1,2) show ?thesis by (auto dest: refund_preserves)
qed

lemma cancel_preserves:
  assumes "escrow_ok d" and "solvent d" and "cancel_task_with_refund clk fresh d i caller = Inr (d', t')"
  shows "escrow_ok d' \<and> solvent d' \<and> (d' = d \<or> (\<exists>t j. get_task d i = Some t \<and> payer d t = Some j \<and>
    wallet_shift (on_wallet (t_currency t) j (- t_escrow t)) no_shift d d'))"
proof -
  from assms(3) obtain t where t: "get_task d i = Some t"
    and r: "d' = d \<or> refund_locked clk fresh d t TS_FAILED canceled_by_caller = Inr (d', t')"
    by (auto simp: cancel_task_with_refund_def bindE_Inr split: if_splits)
  from t have "t \<in> set (db_tasks d)" by (auto dest: get_task_mem)
  with r t(1) assms(1,2) show ?thesis by (auto dest: refund_preserves simp: live_def)
qed

section \<open>What happens to the task table\<close>

lemma write_wallet_tasks: "write_wallet i f d = Inr d' \<Longrightarrow> db_tasks d' = db_tasks d"
  by (auto simp: write_wallet_def Let_def split: if_splits)

lemma update_wallet_balances_tasks: "update_wallet_balances x d = Inr d' \<Longrightarrow> db_tasks d' = db_tasks d"
  by (auto simp: update_wallet_balances_def bindE_Inr dest!: write_wallet_tasks split: option.splits if_splits)

lemma update_txn_tasks: "update_txn today x d = Inr d' \<Longrightarrow> db_tasks d' = db_tasks d"
  by (auto simp: update_txn_def bindE_Inr update_daily_spending_def dest!: update_wallet_balances_tasks
      split: option.splits if_splits)

lemma refund_tasks:
  assumes "refund_locked clk fresh d t s msg = Inr (d', t')"
  shows "db_tasks d' = upd_key t_id (t_id t) (\<lambda>_. t') (db_tasks d)"
proof -
  note inv = refund_Inr [OF assms]
  have "\<exists>d2 sp. d' = add_span sp (set_task (t_id t) (\<lambda>_. t') d2) \<and> db_tasks d2 = db_tasks d"
  proof (cases "pending_txn d (t_id t) = None \<or> agent_wallet d (t_caller t) = None")
    case True
    with inv show ?thesis by (auto split: option.splits)
  next
    case False
    then obtain x w where "pending_txn d (t_id t) = Some x" "agent_wallet d (t_caller t) = Some w" by auto
    with inv show ?thesis by (auto dest!: write_wallet_tasks update_txn_tasks)
  qed
  then show ?thesis by (auto simp: db_write_simps)
qed

lemma confirm_tasks:
  assumes "confirm_task_completion schema_ok clk fresh d callee i outp = Inr (d', t')"
  shows "d' = d \<or> (db_tasks d' = upd_key t_id i (\<lambda>_. t') (db_tasks d) \<and> t_id t' = i \<and> \<not> live (t_status t'))"
  using confirm_Inr [OF assms]
  by (auto dest!: write_wallet_tasks update_txn_tasks get_task_mem simp: db_write_simps live_def)

section \<open>No accounting failure\<close>

lemma solvent_wallet_checks: "solvent d \<Longrightarrow> w \<in> set (db_wallets d) \<Longrightarrow> wallet_checks w"
  by (auto simp: solvent_def wallet_checks_iff intro: order_trans)

lemma write_wallet_ok:
  "(\<And>w. w_id (f w) = w_id w) \<Longrightarrow> (\<And>w. w \<in> set (db_wallets d) \<Longrightarrow> w_id w = i \<Longrightarrow> wallet_checks (f w)) \<Longrightarrow>
    write_wallet i f d = Inr (set_wallet i f d)"
  by (simp add: write_wallet_eq)

definition nonneg :: "mdb \<Rightarrow> bool" where
  "nonneg d \<longleftrightarrow> (\<forall>w \<in> set (db_wallets d). wallet_checks w)"

lemma nonneg_set_wallet:
  "nonneg d \<Longrightarrow> (\<And>w. w \<in> set (db_wallets d) \<Longrightarrow> w_id w = i \<Longrightarrow> wallet_checks (f w)) \<Longrightarrow> nonneg (set_wallet i f d)"
  by (auto simp: nonneg_def db_write_simps set_upd_key)

lemma wallet_checks_add_bal: "wallet_checks w \<Longrightarrow> 0 \<le> n \<Longrightarrow> wallet_checks (add_bal c n w)"
  by (simp add: wallet_checks_iff)

lemma credit_ok:
  assumes "nonneg d" and "0 \<le> n"
  shows "\<exists>d'. write_wallet i (add_bal c n) d = Inr d' \<and> nonneg d'"
proof -
  have "write_wallet i (add_bal c n) d = Inr (set_wallet i (add_bal c n) d)"
    using assms by (intro write_wallet_ok) (auto simp: nonneg_def wallet_checks_add_bal)
  moreover have "nonneg (set_wallet i (add_bal c n) d)"
    using assms by (intro nonneg_set_wallet) (auto simp: nonneg_def wallet_checks_add_bal)
  ultimately show ?thesis by blast
qed

text \<open>The balance trigger accepts a payment whose payer holds the amount.\<close>

lemma update_wallet_balances_ok:
  assumes nn: "nonneg d" and frm: "x_from x = Some p" and dest: "x_to x = Some q" and pos: "0 \<le> x_amount x"
    and funds: "\<And>w. w \<in> set (db_wallets d) \<Longrightarrow> w_id w = p \<Longrightarrow>
      x_amount x * unit_of (x_currency x) \<le> bal (x_currency x) w"
  shows "\<exists>d'. update_wallet_balances x d = Inr d'"
proof -
  let ?c = "x_currency x"
  have pay: "wallet_checks (add_bal ?c (- x_amount x) w)" if "w \<in> set (db_wallets d)" "w_id w = p" for w
    using that nn funds [OF that] by (auto simp: nonneg_def wallet_checks_iff)
  let ?d1 = "set_wallet p (add_bal ?c (- x_amount x)) d"
  have 1: "write_wallet p (add_bal ?c (- x_amount x)) d = Inr ?d1" using pay by (intro write_wallet_ok) simp_all
  have "nonneg ?d1" using nn pay by (rule nonneg_set_wallet)
  then obtain d2 where 2: "write_wallet q (add_bal ?c (x_amount x - fee_of x)) ?d1 = Inr d2" "nonneg d2"
    using credit_ok [of ?d1 "x_amount x - fee_of x" q ?c] fee_le_amount [OF pos] by auto
  obtain d3 where 3: "write_wallet platform_wallet_id (add_bal ?c (fee_of x)) d2 = Inr d3"
    using credit_ok [OF 2(2)] fee_bounds [OF pos] by blast
  show ?thesis using 1 2 3 frm dest by (auto simp: update_wallet_balances_def)
qed

lemma release_reserved_ok:
  assumes "escrow_ok d" and "solvent d" and "t \<in> set (db_tasks d)" and "live (t_status t)"
    and "agent_wallet d (t_caller t) = Some w"
  shows "release_reserved msg t w = Inr (add_res (t_currency t) (- t_escrow t))"
    and "write_wallet (w_id w) (add_res (t_currency t) (- t_escrow t)) d =
      Inr (set_wallet (w_id w) (add_res (t_currency t) (- t_escrow t)) d)"
proof -
  note le = live_task_reserved [OF assms(1,3,4,5)]
  show "release_reserved msg t w = Inr (add_res (t_currency t) (- t_escrow t))"
    using le by (simp add: release_reserved_Inr)
  show "write_wallet (w_id w) (add_res (t_currency t) (- t_escrow t)) d =
      Inr (set_wallet (w_id w) (add_res (t_currency t) (- t_escrow t)) d)"
  proof (rule write_wallet_ok)
    fix v assume v: "v \<in> set (db_wallets d)" "w_id v = w_id w"
    with assms(1,5) have "v = w" by (meson agent_wallet_mem escrow_okD(1) keys_okD(3))
    with le v assms(2) show "wallet_checks (add_res (t_currency t) (- t_escrow t) v)"
      by (auto simp: wallet_checks_iff dest!: solvent_wallet_checks)
  qed simp
qed

lemma confirm_never_stuck:
  assumes ok: "escrow_ok d" and sv: "solvent d" and t: "get_task d i = Some t" "t_status t = TS_IN_PROGRESS"
    and callee: "t_callee t = a_id callee" and cw: "agent_wallet d (a_id callee) = Some cw"
    and out: "output_ok schema_ok callee (t_capability t) outp"
  shows "\<exists>d' t'. confirm_task_completion schema_ok clk fresh d callee i outp = Inr (d', t')"
proof -
  from t have mem: "t \<in> set (db_tasks d)" and i: "t_id t = i" and lv: "live (t_status t)"
    by (auto dest: get_task_mem simp: live_def)
  from live_task_backing [OF ok mem lv] i
  obtain x w where x: "pending_txn d i = Some x" "x \<in> set (db_txns d)" "pends i x"
    and bk: "backs d x t" and w: "agent_wallet d (t_caller t) = Some w" by auto
  note rel = release_reserved_ok [OF ok sv mem lv w]
  let ?d1 = "set_wallet (w_id w) (add_res (t_currency t) (- t_escrow t)) d"
  let ?t' = "t\<lparr>t_status := TS_COMPLETED, t_completed_at := Some (clk 0), t_output := Some outp\<rparr>"
  let ?e = "set_task i (\<lambda>_. ?t') ?d1"
  let ?y = "x\<lparr>x_to := Some (w_id cw), x_status := XS_COMPLETED, x_completed_at := Some (clk 1)\<rparr>"
  have y: "x_amount ?y = t_escrow t" "x_currency ?y = t_currency t" "x_from ?y = Some (w_id w)"
    using bk w by (simp_all add: backs_def payer_of_wallet)
  have pos: "0 \<le> t_escrow t" by (rule backed_nonneg [OF escrow_okD(2) [OF ok] mem])
  have wm: "w \<in> set (db_wallets d)" using w by (rule agent_wallet_mem)
  have old: "get_txn ?e (x_id ?y) = Some x"
    using get_txn_mem [OF escrow_okD(1) [OF ok] x(2)] by (simp add: get_txn_def)
  have "\<exists>d2. update_wallet_balances ?y ?e = Inr d2"
  proof (rule update_wallet_balances_ok)
    show "nonneg ?e" unfolding nonneg_def
    proof
      fix v assume "v \<in> set (db_wallets ?e)"
      then obtain u where u: "u \<in> set (db_wallets d)"
        "v = (if w_id u = w_id w then add_res (t_currency t) (- t_escrow t) u else u)"
        by (auto simp: db_write_simps set_upd_key)
      show "wallet_checks v"
      proof (cases "w_id u = w_id w")
        case True
        with u wm ok have "u = w" by (meson escrow_okD(1) keys_okD(3))
        with u live_task_reserved [OF ok mem lv w] solvent_wallet_checks [OF sv wm]
        show ?thesis by (simp add: wallet_checks_iff)
      next
        case False
        with u show ?thesis using solvent_wallet_checks [OF sv] by simp
      qed
    qed
  next
    fix v assume "v \<in> set (db_wallets ?e)" "w_id v = w_id w"
    then obtain u where u: "u \<in> set (db_wallets d)" "w_id u = w_id w" "bal (t_currency t) v = bal (t_currency t) u"
      by (auto simp: db_write_simps set_upd_key split: if_splits)
    with wm ok have "u = w" by (meson escrow_okD(1) keys_okD(3))
    with u live_task_reserved [OF ok mem lv w] sv wm y
    show "x_amount ?y * unit_of (x_currency ?y) \<le> bal (x_currency ?y) v"
      by (auto simp: solvent_def intro: order_trans)
  qed (use y pos in simp_all)
  then obtain d2 where "update_wallet_balances ?y ?e = Inr d2" ..
  with old x(3) pos y have "\<exists>d3. update_txn (day_start (clk 1)) ?y ?e = Inr d3"
    by (auto simp: update_txn_def pends_def)
  then obtain d3 where d3: "update_txn (day_start (clk 1)) ?y ?e = Inr d3" ..
  have allowed: "TS_COMPLETED \<in> set (task_allowed TS_IN_PROGRESS)" by (simp add: task_allowed_def)
  show ?thesis
    using t callee cw w x(1) out rel d3 allowed
    by (simp add: confirm_task_completion_def validate_split guardE_def Let_def del: One_nat_def)
qed

lemma refund_never_stuck:
  assumes ok: "escrow_ok d" and sv: "solvent d" and mem: "t \<in> set (db_tasks d)"
    and allowed: "s \<in> set (task_allowed (t_status t))"
  shows "\<exists>d' t'. refund_locked clk fresh d t s msg = Inr (d', t')"
proof -
  have lv: "live (t_status t)" using allowed by (rule allowed_live)
  from live_task_backing [OF ok mem lv]
  obtain x w where x: "pending_txn d (t_id t) = Some x" "x \<in> set (db_txns d)"
    and bk: "backs d x t" and w: "agent_wallet d (t_caller t) = Some w" .
  note rel = release_reserved_ok [OF ok sv mem lv w]
  let ?d1 = "set_wallet (w_id w) (add_res (t_currency t) (- t_escrow t)) d"
  let ?y = "x\<lparr>x_status := XS_CANCELLED, x_completed_at := Some (clk 0)\<rparr>"
  have "get_txn ?d1 (x_id ?y) = Some x"
    using get_txn_mem [OF escrow_okD(1) [OF ok] x(2)] by (simp add: get_txn_def)
  moreover have "0 \<le> x_amount x" using bk backed_nonneg [OF escrow_okD(2) [OF ok] mem] by (simp add: backs_def)
  ultimately have "\<exists>d2. update_txn (day_start (clk 0)) ?y ?d1 = Inr d2" by (simp add: update_txn_def)
  then obtain d2 where "update_txn (day_start (clk 0)) ?y ?d1 = Inr d2" ..
  with x w rel allowed show ?thesis
    by (simp add: refund_locked_def validate_split guardE_def Let_def)
qed

end
