(* ===== verification/Payments.thy ===== *)
theory Payments
  imports TaskSafety
begin

text \<open>
  Direct payments and wallet settings of the payment service
  (\<open>services/payment/app/api/routes/transactions.py\<close> and \<open>wallets.py\<close>). A route is one
  database transaction; an \<open>HTTPException\<close> is \<open>Inl\<close> of its reason, and the reason has the
  status code the route answers with.
\<close>

datatype pay_error =
    SourceWalletNotFound
  | NoAccessToSource
  | DestinationWalletNotFound
  | SameWallet
  | AmountNotPositive
  | InsufficientCredits int int
  | OverDailyCap int
  | InsufficientUsdc int int
  | TransactionNotFound
  | NotPending txn_status
  | SettlesThroughTask
  | WalletsNotFound
  | WalletNotFound
  | NoAccess
  | NotDevelopment
  | BadCurrency
  | DatabaseRefused db_error

definition http_status :: "pay_error \<Rightarrow> nat" where
  "http_status e = (case e of
      SourceWalletNotFound \<Rightarrow> 404 | DestinationWalletNotFound \<Rightarrow> 404 | TransactionNotFound \<Rightarrow> 404
    | WalletsNotFound \<Rightarrow> 404 | WalletNotFound \<Rightarrow> 404
    | NoAccessToSource \<Rightarrow> 403 | NoAccess \<Rightarrow> 403 | NotDevelopment \<Rightarrow> 403
    | DatabaseRefused _ \<Rightarrow> 500
    | _ \<Rightarrow> 400)"

section \<open>Ownership and the spending rule\<close>

definition wallet_owned_by :: "mdb \<Rightarrow> wallet \<Rightarrow> principal \<Rightarrow> bool" where
  "wallet_owned_by d w p =
    (case w_owner_type w of
       OWNER_USER \<Rightarrow> (case p of PUser u \<Rightarrow> w_owner w = u | PAgent _ \<Rightarrow> False)
     | OWNER_AGENT \<Rightarrow>
         (case p of
            PAgent a \<Rightarrow> w_owner w = a
          | PUser u \<Rightarrow> find (\<lambda>ag. a_id ag = w_owner w \<and> a_user_id ag = Some u) (db_agents d) \<noteq> None))"

definition check_can_spend :: "wallet \<Rightarrow> int \<Rightarrow> currency \<Rightarrow> pay_error + unit" where
  "check_can_spend w amount cur =
    bindE (guardE (0 < amount) AmountNotPositive)
    (\<lambda>_. case cur of
       CREDITS \<Rightarrow>
         (let available = w_bal_credits w - w_res_credits w in
          if available < amount then Inl (InsufficientCredits amount available)
          else if w_daily_spent w + w_res_credits w + amount > w_cap w then Inl (OverDailyCap (w_cap w))
          else Inr ())
     | USDC \<Rightarrow>
         (let available = w_bal_usdc w - w_res_usdc w in
          if available < amount * 1000000 then Inl (InsufficientUsdc amount available) else Inr ()))"

section \<open>Direct payments\<close>

record payment_req =
  pr_from :: uid
  pr_to :: uid
  pr_amount :: int
  pr_currency :: currency

definition direct_txn :: "uid \<Rightarrow> instant \<Rightarrow> wallet \<Rightarrow> wallet \<Rightarrow> payment_req \<Rightarrow> txn" where
  "direct_txn new_id now fw tw r =
    \<lparr>x_id = new_id, x_from = Some (w_id fw), x_to = Some (w_id tw), x_amount = pr_amount r,
     x_currency = pr_currency r, x_status = XS_PENDING, x_type = XT_PAYMENT, x_task = None, x_fee = 0,
     x_fee_rate = 250, x_extra = [], x_idem = None, x_created_at = now, x_completed_at = None\<rparr>"

definition create_transaction ::
  "uid \<Rightarrow> instant \<Rightarrow> mdb \<Rightarrow> principal \<Rightarrow> payment_req \<Rightarrow> pay_error + (mdb \<times> uid)" where
  "create_transaction new_id now d p r =
    bindE (needE (get_wallet d (pr_from r)) SourceWalletNotFound)
    (\<lambda>fw. bindE (guardE (wallet_owned_by d fw p) NoAccessToSource)
    (\<lambda>_. bindE (needE (get_wallet d (pr_to r)) DestinationWalletNotFound)
    (\<lambda>tw. bindE (guardE (w_id fw \<noteq> w_id tw) SameWallet)
    (\<lambda>_. bindE (check_can_spend fw (pr_amount r) (pr_currency r))
    (\<lambda>_. bindE (mapE DatabaseRefused (insert_txn (day_start now) (direct_txn new_id now fw tw r) d))
    (\<lambda>d'. Inr (d', new_id)))))))"

text \<open>
  \<open>confirm_transaction\<close>: the row locks make the lookups and the commit one step; only a pending
  row that belongs to no task and names both wallets is settled here.
\<close>

definition confirm_transaction :: "instant \<Rightarrow> mdb \<Rightarrow> uid \<Rightarrow> uid \<Rightarrow> pay_error + mdb" where
  "confirm_transaction now d user xid =
    bindE (needE (get_txn d xid) TransactionNotFound)
    (\<lambda>x. bindE (guardE (x_status x = XS_PENDING) (NotPending (x_status x)))
    (\<lambda>_. case (x_task x, x_from x, x_to x) of
       (None, Some f, Some t) \<Rightarrow>
         (case (get_wallet d f, get_wallet d t) of
            (Some fw, Some tw) \<Rightarrow>
              bindE (guardE (wallet_owned_by d fw (PUser user)) NoAccessToSource)
              (\<lambda>_. bindE (check_can_spend fw (x_amount x) (x_currency x))
              (\<lambda>_. mapE DatabaseRefused
                (update_txn (day_start now) (x\<lparr>x_status := XS_COMPLETED, x_completed_at := Some now\<rparr>) d)))
          | _ \<Rightarrow> Inl WalletsNotFound)
     | _ \<Rightarrow> Inl SettlesThroughTask))"

record txn_filter =
  tf_wallet :: "uid option"
  tf_status :: "txn_status option"
  tf_type :: "txn_type option"
  tf_currency :: "currency option"
  tf_start :: "instant option"
  tf_end :: "instant option"
  tf_skip :: nat
  tf_limit :: nat

text \<open>The wallets of a user and of the user's agents.\<close>

definition user_wallet_ids :: "mdb \<Rightarrow> uid \<Rightarrow> uid list" where
  "user_wallet_ids d user =
    map w_id (filter (\<lambda>w. w_owner_type w = OWNER_USER \<and> w_owner w = user) (db_wallets d)) @
    map w_id (filter (\<lambda>w. w_owner_type w = OWNER_AGENT \<and>
      w_owner w \<in> set (map a_id (filter (\<lambda>a. a_user_id a = Some user) (db_agents d)))) (db_wallets d))"

definition touches :: "uid list \<Rightarrow> txn \<Rightarrow> bool" where
  "touches ids x \<longleftrightarrow> (case x_from x of None \<Rightarrow> False | Some i \<Rightarrow> i \<in> set ids) \<or>
    (case x_to x of None \<Rightarrow> False | Some i \<Rightarrow> i \<in> set ids)"

definition passes :: "'a option \<Rightarrow> ('a \<Rightarrow> bool) \<Rightarrow> bool" where
  "passes f p = (case f of None \<Rightarrow> True | Some v \<Rightarrow> p v)"

definition list_transactions :: "mdb \<Rightarrow> uid \<Rightarrow> txn_filter \<Rightarrow> pay_error + txn list" where
  "list_transactions d user f =
    bindE (case tf_wallet f of
        Some i \<Rightarrow>
          bindE (needE (get_wallet d i) WalletNotFound)
          (\<lambda>w. bindE (guardE (wallet_owned_by d w (PUser user)) NoAccess) (\<lambda>_. Inr [i]))
      | None \<Rightarrow> Inr (user_wallet_ids d user))
    (\<lambda>ids. Inr (take (tf_limit f) (drop (tf_skip f)
      (sort_key (\<lambda>x. - x_created_at x)
        (filter (\<lambda>x. touches ids x \<and> passes (tf_status f) (\<lambda>v. x_status x = v) \<and>
           passes (tf_type f) (\<lambda>v. x_type x = v) \<and> passes (tf_currency f) (\<lambda>v. x_currency x = v) \<and>
           passes (tf_start f) (\<lambda>v. v \<le> x_created_at x) \<and> passes (tf_end f) (\<lambda>v. x_created_at x \<le> v))
          (db_txns d))))))"

section \<open>Wallets\<close>

definition list_wallets :: "mdb \<Rightarrow> uid \<Rightarrow> wallet list" where
  "list_wallets d user =
    (case find (\<lambda>w. w_owner_type w = OWNER_USER \<and> w_owner w = user) (db_wallets d) of None \<Rightarrow> [] | Some w \<Rightarrow> [w]) @
    concat (map (\<lambda>w. map (\<lambda>_. w) (filter (\<lambda>a. a_id a = w_owner w \<and> a_user_id a = Some user) (db_agents d)))
      (filter (\<lambda>w. w_owner_type w = OWNER_AGENT) (db_wallets d)))"

definition get_wallet_balance :: "mdb \<Rightarrow> uid \<Rightarrow> uid \<Rightarrow> pay_error + wallet" where
  "get_wallet_balance d user i =
    bindE (needE (get_wallet d i) WalletNotFound)
    (\<lambda>w. bindE (guardE (wallet_owned_by d w (PUser user)) NoAccess) (\<lambda>_. Inr w))"

text \<open>
  \<open>PUT /wallets/{id}\<close>: only the fields present in the request are set. An explicit null is
  \<open>Some None\<close>; the \<open>spending_cap\<close> column does not accept it.
\<close>

record wallet_update =
  wu_cap :: "int option option"
  wu_auto_approve :: "int option option"
  wu_whitelist :: "string list option option"

definition apply_wallet_update :: "wallet_update \<Rightarrow> wallet \<Rightarrow> wallet" where
  "apply_wallet_update u w =
    w\<lparr>w_cap := (case wu_cap u of Some (Some c) \<Rightarrow> c | _ \<Rightarrow> w_cap w),
      w_auto_approve := (case wu_auto_approve u of None \<Rightarrow> w_auto_approve w | Some v \<Rightarrow> v),
      w_whitelist := (case wu_whitelist u of None \<Rightarrow> w_whitelist w | Some v \<Rightarrow> v)\<rparr>"

definition update_wallet :: "mdb \<Rightarrow> uid \<Rightarrow> uid \<Rightarrow> wallet_update \<Rightarrow> pay_error + mdb" where
  "update_wallet d user i u =
    bindE (needE (get_wallet d i) WalletNotFound)
    (\<lambda>w. bindE (guardE (wallet_owned_by d w (PUser user)) NoAccess)
    (\<lambda>_. if wu_cap u = Some None then Inl (DatabaseRefused IntegrityError)
         else Inr (set_wallet i (apply_wallet_update u) d)))"

definition fund_wallet_dev :: "string \<Rightarrow> mdb \<Rightarrow> uid \<Rightarrow> uid \<Rightarrow> int option \<Rightarrow> string \<Rightarrow> pay_error + mdb" where
  "fund_wallet_dev environment d user i amount cur =
    bindE (guardE (lower environment = ''development'') NotDevelopment)
    (\<lambda>_. bindE (guardE (case amount of None \<Rightarrow> False | Some n \<Rightarrow> n \<noteq> 0 \<and> 0 < n) AmountNotPositive)
    (\<lambda>_. bindE (guardE (cur = ''credits'' \<or> cur = ''usdc'') BadCurrency)
    (\<lambda>_. bindE (guardE (case get_wallet d i of None \<Rightarrow> True | Some w \<Rightarrow> wallet_owned_by d w (PUser user)) NoAccess)
    (\<lambda>_. bindE (needE (get_wallet d i) WalletNotFound)
    (\<lambda>_. mapE DatabaseRefused
       (write_wallet i (add_bal (if cur = ''credits'' then CREDITS else USDC) (case amount of None \<Rightarrow> 0 | Some n \<Rightarrow> n)) d))))))"

section \<open>Preservation of the accounts\<close>

lemma get_wallet_mem: "get_wallet d i = Some w \<Longrightarrow> w \<in> set (db_wallets d) \<and> w_id w = i"
  by (auto simp: get_wallet_def dest: find_SomeD)

lemma insert_txn_Inr:
  "insert_txn today x d = Inr d' \<Longrightarrow>
    d' = d\<lparr>db_txns := db_txns d @ [x]\<rparr> \<and> 0 \<le> x_amount x \<and> (\<forall>y \<in> set (db_txns d). x_id y \<noteq> x_id x)"
  by (auto simp: insert_txn_def bindE_Inr list_ex_iff split: if_splits)

lemma create_transaction_preserves:
  assumes ok: "escrow_ok d" and sv: "solvent d" and run: "create_transaction new_id now d p r = Inr (d', i)"
  shows "escrow_ok d' \<and> solvent d' \<and> db_wallets d' = db_wallets d"
proof -
  from run obtain fw tw where ins: "insert_txn (day_start now) (direct_txn new_id now fw tw r) d = Inr d'"
    by (auto simp: create_transaction_def bindE_Inr)
  note d' = insert_txn_Inr [OF ins]
  let ?x = "direct_txn new_id now fw tw r"
  have none: "x_task ?x = None" by (simp add: direct_txn_def)
  have "escrow_ok d'"
  proof (rule escrow_ok_frame [OF ok])
    show "wallet_shift no_shift no_shift d d'" using d' by (simp add: wallet_shift_refl)
    show "distinct (map x_id (db_txns d'))"
      using d' ok by (auto simp: escrow_ok_def keys_ok_def)
    show "x \<in> set (db_txns d') \<longleftrightarrow> x \<in> set (db_txns d)" if "x_task x \<noteq> None" for x
      using that none d' by auto
  qed (use d' in simp)
  with d' sv show ?thesis by (simp add: solvent_def)
qed

lemma check_can_spend_Inr:
  "check_can_spend w n c = Inr u \<Longrightarrow> 0 < n \<and> n * unit_of c \<le> bal c w - res c w \<and>
    (c = CREDITS \<longrightarrow> w_daily_spent w + w_res_credits w + n \<le> w_cap w)"
  by (cases c) (auto simp: check_can_spend_def bindE_Inr Let_def currency_cases split: if_splits)

lemma confirm_transaction_Inr:
  assumes "confirm_transaction now d user xid = Inr d'"
  shows "\<exists>x f t fw tw. get_txn d xid = Some x \<and> x_status x = XS_PENDING \<and> x_task x = None \<and> x_from x = Some f \<and>
    x_to x = Some t \<and> get_wallet d f = Some fw \<and> get_wallet d t = Some tw \<and> wallet_owned_by d fw (PUser user) \<and>
    check_can_spend fw (x_amount x) (x_currency x) = Inr () \<and>
    update_txn (day_start now) (x\<lparr>x_status := XS_COMPLETED, x_completed_at := Some now\<rparr>) d = Inr d'"
  using assms by (auto simp: confirm_transaction_def bindE_Inr split: option.splits)

lemma get_txn_id: "get_txn d i = Some x \<Longrightarrow> x \<in> set (db_txns d) \<and> x_id x = i"
  by (auto simp: get_txn_def dest: find_SomeD)

lemma confirm_transaction_preserves:
  assumes ok: "escrow_ok d" and sv: "solvent d" and run: "confirm_transaction now d user xid = Inr d'"
  shows "escrow_ok d' \<and> solvent d'"
proof -
  from confirm_transaction_Inr [OF run] obtain x f t fw tw where
    x: "get_txn d xid = Some x" "x_status x = XS_PENDING" "x_task x = None" "x_from x = Some f"
    and fw: "get_wallet d f = Some fw" and spend: "check_can_spend fw (x_amount x) (x_currency x) = Inr ()"
    and up: "update_txn (day_start now) (x\<lparr>x_status := XS_COMPLETED, x_completed_at := Some now\<rparr>) d = Inr d'"
    by blast
  let ?y = "x\<lparr>x_status := XS_COMPLETED, x_completed_at := Some now\<rparr>"
  have id: "x_id x = xid" "x \<in> set (db_txns d)" using x(1) by (auto dest: get_txn_id)
  have u: "wallet_shift no_shift (payment_shift ?y) d d'" "db_tasks d' = db_tasks d"
    "db_txns d' = upd_key x_id xid (\<lambda>_. ?y\<lparr>x_fee := fee_of ?y\<rparr>) (db_txns d)" "0 \<le> x_amount x"
    using update_txn_completed [OF up] x id by simp_all
  have keys: "keys_ok d" using ok by (simp add: escrow_ok_def)
  have "escrow_ok d'"
  proof (rule escrow_ok_frame [OF ok u(1,2)])
    show "distinct (map x_id (db_txns d'))"
      using keys by (simp add: u(3) map_key_upd_key id keys_ok_def)
    show "z \<in> set (db_txns d') \<longleftrightarrow> z \<in> set (db_txns d)" if "x_task z \<noteq> None" for z
    proof -
      have "w = x" if "w \<in> set (db_txns d)" "x_id w = xid" for w using that keys id by (metis keys_okD(2))
      then have ne: "w \<in> set (db_txns d) \<Longrightarrow> x_task w \<noteq> None \<Longrightarrow> x_id w \<noteq> xid" for w using x(3) by auto
      show ?thesis
      proof
        assume "z \<in> set (db_txns d')"
        with that x(3) show "z \<in> set (db_txns d)" by (auto simp: u(3) set_upd_key split: if_splits)
      next
        assume "z \<in> set (db_txns d)"
        with ne that show "z \<in> set (db_txns d')" by (auto simp: u(3) intro: upd_key_keep)
      qed
    qed
  qed
  moreover have "solvent d'"
  proof (rule solvent_shift [OF sv u(1)])
    fix w c assume w: "w \<in> set (db_wallets d)"
    have low: "on_wallet (x_currency x) f (- x_amount x) c (w_id w) \<le> payment_shift ?y c (w_id w)"
      using payment_shift_lower [of ?y f c "w_id w"] u(4) x(4) by simp
    have "res c w \<le> bal c w + on_wallet (x_currency x) f (- x_amount x) c (w_id w)"
    proof (cases "c = x_currency x \<and> w_id w = f")
      case True
      with w fw keys have "w = fw" by (metis get_wallet_mem keys_okD(3))
      with True check_can_spend_Inr [OF spend] show ?thesis by (simp add: on_wallet_def)
    next
      case False
      with sv w show ?thesis by (auto simp: on_wallet_def solvent_def)
    qed
    with low sv w show "0 \<le> res c w + no_shift c (w_id w) \<and>
      res c w + no_shift c (w_id w) \<le> bal c w + payment_shift ?y c (w_id w)"
      by (auto simp: no_shift_def solvent_def intro: order_trans)
  qed
  ultimately show ?thesis by blast
qed

lemma update_wallet_preserves:
  assumes "escrow_ok d" and "solvent d" and "update_wallet d user i u = Inr d'"
  shows "escrow_ok d' \<and> solvent d'"
proof -
  have d': "d' = set_wallet i (apply_wallet_update u) d"
    using assms(3) by (auto simp: update_wallet_def bindE_Inr split: if_splits)
  have eq: "bal c (apply_wallet_update u w) = bal c w" "res c (apply_wallet_update u w) = res c w"
    "same_owner w (apply_wallet_update u w)" for c w
    by (cases c; simp add: currency_cases apply_wallet_update_def same_owner_def)+
  have shift: "wallet_shift no_shift no_shift d d'"
    by (simp add: d' wallet_shift_def db_write_simps upd_key_def list.rel_map list_all2_same eq no_shift_def)
  have "escrow_ok d'"
    by (rule escrow_ok_frame [OF assms(1) shift]) (use assms(1) in \<open>simp_all add: d' escrow_ok_def keys_ok_def\<close>)
  moreover have "solvent d'"
    by (rule solvent_shift [OF assms(2) shift]) (use assms(2) in \<open>simp add: solvent_def no_shift_def\<close>)
  ultimately show ?thesis by blast
qed

lemma fund_wallet_preserves:
  assumes "escrow_ok d" and "solvent d" and "fund_wallet_dev env d user i amount cur = Inr d'"
  shows "escrow_ok d' \<and> solvent d'"
proof -
  let ?c = "if cur = ''credits'' then CREDITS else USDC"
  from assms(3) obtain n where n: "0 < n" and "write_wallet i (add_bal ?c n) d = Inr d'"
    by (auto simp: fund_wallet_dev_def bindE_Inr split: option.splits if_splits)
  then have d': "d' = set_wallet i (add_bal ?c n) d" by (auto dest: write_wallet_Inr [rotated])
  have shift: "wallet_shift no_shift (on_wallet ?c i n) d d'" unfolding d' by (rule wallet_shift_add_bal)
  have "escrow_ok d'"
    by (rule escrow_ok_frame [OF assms(1) shift]) (use assms(1) in \<open>simp_all add: d' escrow_ok_def keys_ok_def\<close>)
  moreover have "solvent d'"
    by (rule solvent_shift [OF assms(2) shift])
       (use assms(2) n in \<open>auto simp: solvent_def no_shift_def on_wallet_def add_increasing2\<close>)
  ultimately show ?thesis by blast
qed

end
