(* ===== verification/Approvals.thy ===== *)
theory Approvals
  imports TaskSafety
begin

text \<open>
  Escrow approvals of the payment service: the status machine of
  \<open>services/payment/app/approval_workflow.py\<close> and the routes of
  \<open>services/payment/app/api/routes/approvals.py\<close>.

  The routes read and write \<open>transaction.metadata\<close>, but the payment model's \<open>Transaction\<close> has
  no such column, so the name is the \<open>MetaData\<close> object SQLAlchemy puts on every declarative class.
  Whether an item can be assigned into it is SQLAlchemy's behaviour: the parameter \<open>meta_items\<close>.
  When it cannot, the assignment raises and the request commits nothing. When it can, no column
  changes either.
\<close>

section \<open>The approval status machine\<close>

datatype escrow_approval_status = EA_PENDING | EA_APPROVED | EA_DENIED | EA_EXPIRED

definition approval_allowed :: "escrow_approval_status \<Rightarrow> escrow_approval_status list" where
  "approval_allowed s = (case s of
      EA_PENDING \<Rightarrow> [EA_APPROVED, EA_DENIED, EA_EXPIRED]
    | EA_APPROVED \<Rightarrow> []
    | EA_DENIED \<Rightarrow> []
    | EA_EXPIRED \<Rightarrow> [])"

definition validate_approval_transition ::
  "escrow_approval_status \<Rightarrow> escrow_approval_status \<Rightarrow> bool \<times> escrow_approval_status transition_error option" where
  "validate_approval_transition cur new =
    (if new \<in> set (approval_allowed cur) then (True, None)
     else (False, Some (InvalidTransition cur new (approval_allowed cur))))"

definition is_idempotent_action :: "escrow_approval_status \<Rightarrow> escrow_approval_status \<Rightarrow> bool" where
  "is_idempotent_action cur action \<longleftrightarrow>
    (if cur = EA_APPROVED \<and> action = EA_APPROVED then True
     else if cur = EA_DENIED \<and> action = EA_DENIED then True else False)"

definition get_approval_timeout :: "instant \<Rightarrow> int option \<Rightarrow> instant" where
  "get_approval_timeout now h = now + hours (case h of None \<Rightarrow> 24 | Some n \<Rightarrow> if n = 0 then 24 else n)"

definition approval_value :: "escrow_approval_status \<Rightarrow> string" where
  "approval_value s = (case s of EA_PENDING \<Rightarrow> ''pending'' | EA_APPROVED \<Rightarrow> ''approved''
    | EA_DENIED \<Rightarrow> ''denied'' | EA_EXPIRED \<Rightarrow> ''expired'')"

definition get_allowed_approval_statuses :: "string \<Rightarrow> string list" where
  "get_allowed_approval_statuses cur =
    (case find (\<lambda>s. approval_value s = cur) [EA_PENDING, EA_APPROVED, EA_DENIED, EA_EXPIRED] of
       None \<Rightarrow> [] | Some s \<Rightarrow> map approval_value (approval_allowed s))"

text \<open>\<open>EscrowApprovalStatus(approval.status.value)\<close>.\<close>

definition escrow_status :: "approval_status \<Rightarrow> escrow_approval_status" where
  "escrow_status s = (case s of AP_PENDING \<Rightarrow> EA_PENDING | AP_APPROVED \<Rightarrow> EA_APPROVED | AP_DENIED \<Rightarrow> EA_DENIED)"

interpretation approval_machine: status_machine approval_allowed "\<lambda>s. s \<noteq> EA_PENDING"
  by unfold_locales (auto simp: approval_allowed_def split: escrow_approval_status.splits)

section \<open>The routes\<close>

datatype approval_error =
    ApprovalNotFound
  | NotYourApproval
  | BadApprovalTransition "escrow_approval_status transition_error option"
  | TaskSessionNotFound
  | NotCallersOwner
  | TaskNotLive task_status
  | PendingApprovalExists
  | NotYourAgent
  | AgentWalletNotFound
  | MetadataNotAssignable

record approval_req =
  aq_agent :: uid
  aq_amount :: int
  aq_currency :: currency
  aq_description :: string
  aq_callback :: "string option"
  aq_task :: "uid option"
  aq_expires_hours :: "int option"

definition get_approval :: "mdb \<Rightarrow> uid \<Rightarrow> approval option" where
  "get_approval d i = find (\<lambda>p. p_id p = i) (db_approvals d)"

definition set_approval :: "uid \<Rightarrow> (approval \<Rightarrow> approval) \<Rightarrow> mdb \<Rightarrow> mdb" where
  "set_approval i f d = d\<lparr>db_approvals := upd_key p_id i f (db_approvals d)\<rparr>"

definition owned_agent :: "mdb \<Rightarrow> uid \<Rightarrow> uid \<Rightarrow> bool" where
  "owned_agent d ag user \<longleftrightarrow> (case get_agent d ag of None \<Rightarrow> False | Some a \<Rightarrow> a_user_id a = Some user)"

definition create_approval_request ::
  "uid \<Rightarrow> instant \<Rightarrow> mdb \<Rightarrow> uid \<Rightarrow> approval_req \<Rightarrow> approval_error + (mdb \<times> uid)" where
  "create_approval_request new_id now d user q =
    bindE (case aq_task q of
        Some tid \<Rightarrow>
          bindE (needE (get_task d tid) TaskSessionNotFound)
          (\<lambda>t. bindE (guardE (owned_agent d (t_caller t) user) NotCallersOwner)
          (\<lambda>_. bindE (guardE (t_status t = TS_INITIATED \<or> t_status t = TS_IN_PROGRESS) (TaskNotLive (t_status t)))
          (\<lambda>_. bindE (guardE (find (\<lambda>p. p_task p = Some tid \<and> p_status p = AP_PENDING) (db_approvals d) = None)
                  PendingApprovalExists)
          (\<lambda>_. Inr (t_caller t)))))
      | None \<Rightarrow> bindE (guardE (owned_agent d (aq_agent q) user) NotYourAgent) (\<lambda>_. Inr (aq_agent q)))
    (\<lambda>ag. bindE (needE (agent_wallet d ag) AgentWalletNotFound)
    (\<lambda>_. let p = \<lparr>p_id = new_id, p_agent = ag, p_user = user, p_amount = aq_amount q, p_currency = aq_currency q,
            p_description = aq_description q, p_callback = aq_callback q, p_status = AP_PENDING, p_created_at = now,
            p_responded_at = None, p_task = aq_task q,
            p_expires_at = Some (get_approval_timeout now (aq_expires_hours q)), p_approved_at = None, p_denied_at = None\<rparr>
          in Inr (d\<lparr>db_approvals := db_approvals d @ [p]\<rparr>, new_id)))"

text \<open>The lookup, authorization, idempotency and transition checks the two answers share.\<close>

definition answer_check :: "mdb \<Rightarrow> uid \<Rightarrow> uid \<Rightarrow> escrow_approval_status \<Rightarrow> approval_error + (approval \<times> bool)" where
  "answer_check d user i action =
    bindE (needE (get_approval d i) ApprovalNotFound)
    (\<lambda>p. bindE (guardE (p_user p = user) NotYourApproval)
    (\<lambda>_. if is_idempotent_action (escrow_status (p_status p)) action then Inr (p, True)
         else case validate_approval_transition (escrow_status (p_status p)) action of
           (ok, err) \<Rightarrow> bindE (guardE ok (BadApprovalTransition err)) (\<lambda>_. Inr (p, False))))"

definition approve_request :: "bool \<Rightarrow> instant \<Rightarrow> mdb \<Rightarrow> uid \<Rightarrow> uid \<Rightarrow> approval_error + mdb" where
  "approve_request meta_items now d user i =
    bindE (answer_check d user i EA_APPROVED)
    (\<lambda>(p, done_before). if done_before then Inr d
      else let d1 = set_approval i (\<lambda>q. q\<lparr>p_status := AP_APPROVED, p_responded_at := Some now, p_approved_at := Some now\<rparr>) d in
        case p_task p of
          None \<Rightarrow> Inr d1
        | Some tid \<Rightarrow>
            (case (get_task d tid, pending_txn d tid) of
               (Some _, Some _) \<Rightarrow> if meta_items then Inr d1 else Inl MetadataNotAssignable
             | _ \<Rightarrow> Inr d1))"

text \<open>\<open>max(0, reserved - escrow)\<close> in the task's currency.\<close>

definition release_clamped :: "task \<Rightarrow> wallet \<Rightarrow> wallet" where
  "release_clamped t w =
    (case t_currency t of
       CREDITS \<Rightarrow> w\<lparr>w_res_credits := max 0 (w_res_credits w - t_escrow t)\<rparr>
     | USDC \<Rightarrow> w\<lparr>w_res_usdc := max 0 (w_res_usdc w - t_escrow t * 1000000)\<rparr>)"

text \<open>Release, cancel and fail, as the denial and the expiry write them.\<close>

definition undo_escrow :: "bool \<Rightarrow> string \<Rightarrow> mdb \<Rightarrow> task \<Rightarrow> approval_error + mdb" where
  "undo_escrow meta_items msg d t =
    (let d1 = (case agent_wallet d (t_caller t) of
          None \<Rightarrow> d | Some w \<Rightarrow> set_wallet (w_id w) (release_clamped t) d)
     in bindE (case pending_txn d1 (t_id t) of
          None \<Rightarrow> Inr d1
        | Some x \<Rightarrow> if meta_items then Inr (set_txn (x_id x) (\<lambda>y. y\<lparr>x_status := XS_CANCELLED\<rparr>) d1)
                    else Inl MetadataNotAssignable)
     (\<lambda>d2. Inr (set_task (t_id t) (\<lambda>u. u\<lparr>t_status := TS_FAILED, t_error := Some msg\<rparr>) d2)))"

definition newline2 :: string where
  "newline2 = [char_of (10 :: nat), char_of (10 :: nat)]"

definition given :: "string option \<Rightarrow> string option" where
  "given r = (case r of None \<Rightarrow> None | Some s \<Rightarrow> if s = [] then None else Some s)"

definition deny_request :: "bool \<Rightarrow> instant \<Rightarrow> mdb \<Rightarrow> uid \<Rightarrow> uid \<Rightarrow> string option \<Rightarrow> approval_error + mdb" where
  "deny_request meta_items now d user i reason =
    bindE (answer_check d user i EA_DENIED)
    (\<lambda>(p, done_before). if done_before then Inr d
      else let d1 = set_approval i (\<lambda>q. q\<lparr>p_status := AP_DENIED, p_responded_at := Some now, p_denied_at := Some now,
              p_description := (case given reason of None \<Rightarrow> p_description q
                | Some r \<Rightarrow> p_description q @ newline2 @ ''Denial reason: '' @ r)\<rparr>) d in
        case p_task p of
          None \<Rightarrow> Inr d1
        | Some tid \<Rightarrow>
            (case get_task d1 tid of
               None \<Rightarrow> Inr d1
             | Some t \<Rightarrow> undo_escrow meta_items (''Payment denied by user: '' @
                 (case given reason of None \<Rightarrow> ''No reason'' | Some r \<Rightarrow> r)) d1 t))"

definition list_approvals :: "mdb \<Rightarrow> uid \<Rightarrow> approval_status option \<Rightarrow> uid option \<Rightarrow> nat \<Rightarrow> nat \<Rightarrow> approval list" where
  "list_approvals d user st tid skip limit =
    take limit (drop skip (sort_key (\<lambda>p. - p_created_at p)
      (filter (\<lambda>p. p_user p = user \<and> (case st of None \<Rightarrow> True | Some s \<Rightarrow> p_status p = s) \<and>
         (case tid of None \<Rightarrow> True | Some i \<Rightarrow> p_task p = Some i)) (db_approvals d))))"

definition get_own_approval :: "mdb \<Rightarrow> uid \<Rightarrow> uid \<Rightarrow> approval_error + approval" where
  "get_own_approval d user i = needE (find (\<lambda>p. p_id p = i \<and> p_user p = user) (db_approvals d)) ApprovalNotFound"

text \<open>The guard of the worker's endpoint: the shared token, compared in full; otherwise 404.\<close>

definition require_internal_worker :: "string \<Rightarrow> string option \<Rightarrow> bool" where
  "require_internal_worker token header =
    (case header of None \<Rightarrow> False | Some h \<Rightarrow> h \<noteq> [] \<and> h = token)"

definition expire_one :: "bool \<Rightarrow> instant \<Rightarrow> approval \<Rightarrow> mdb \<Rightarrow> approval_error + mdb" where
  "expire_one meta_items now p d =
    (let d1 = set_approval (p_id p) (\<lambda>q. q\<lparr>p_status := AP_DENIED, p_responded_at := Some now, p_denied_at := Some now,
            p_description := p_description q @ newline2 @ ''Expired: auto-denied by system''\<rparr>) d in
     case p_task p of
       None \<Rightarrow> Inr d1
     | Some tid \<Rightarrow>
         (case get_task d1 tid of
            None \<Rightarrow> Inr d1
          | Some t \<Rightarrow>
              if t_status t = TS_INITIATED \<or> t_status t = TS_IN_PROGRESS
              then undo_escrow meta_items ''Payment approval expired'' d1 t else Inr d1))"

text \<open>All expired approvals under one commit.\<close>

definition expire_pending_approvals :: "bool \<Rightarrow> instant \<Rightarrow> mdb \<Rightarrow> approval_error + (mdb \<times> nat)" where
  "expire_pending_approvals meta_items now d =
    (let expired = filter (\<lambda>p. p_status p = AP_PENDING \<and>
          (case p_expires_at p of None \<Rightarrow> False | Some e \<Rightarrow> e < now)) (db_approvals d)
     in bindE (foldE (expire_one meta_items now) expired d) (\<lambda>d'. Inr (d', length expired)))"

section \<open>The effect of undoing an escrow\<close>

lemma escrow_ok_approvals [simp]: "escrow_ok (d\<lparr>db_approvals := ps\<rparr>) = escrow_ok d"
  by (simp add: escrow_ok_def keys_ok_def reserved_ok_def backed_def claims_def claim_of_def [abs_def]
      payer_same_wallets [of "d\<lparr>db_approvals := ps\<rparr>" d] backs_def)

lemma solvent_approvals [simp]: "solvent (d\<lparr>db_approvals := ps\<rparr>) = solvent d"
  by (simp add: solvent_def)

lemma set_approval_frame [simp]:
  "db_wallets (set_approval i f d) = db_wallets d" "db_tasks (set_approval i f d) = db_tasks d"
  "db_txns (set_approval i f d) = db_txns d" "escrow_ok (set_approval i f d) = escrow_ok d"
  "solvent (set_approval i f d) = solvent d"
  by (simp_all add: set_approval_def)

lemma lookups_set_approval [simp]:
  "get_task (set_approval i f d) = get_task d" "agent_wallet (set_approval i f d) = agent_wallet d"
  "pending_txn (set_approval i f d) = pending_txn d"
  by (auto simp: get_task_def agent_wallet_def pending_txn_def)

lemma release_clamped_full:
  "t_escrow t * unit_of (t_currency t) \<le> res (t_currency t) w \<Longrightarrow>
    release_clamped t w = add_res (t_currency t) (- t_escrow t) w"
  by (cases "t_currency t") (simp_all add: release_clamped_def currency_cases)

lemma set_wallet_cong:
  "(\<And>w. w \<in> set (db_wallets d) \<Longrightarrow> w_id w = i \<Longrightarrow> f w = g w) \<Longrightarrow> set_wallet i f d = set_wallet i g d"
  by (auto simp: set_wallet_def upd_key_def)

lemma set_txn_cong:
  "(\<And>x. x \<in> set (db_txns d) \<Longrightarrow> x_id x = i \<Longrightarrow> f x = g x) \<Longrightarrow> set_txn i f d = set_txn i g d"
  by (auto simp: set_txn_def upd_key_def)

lemma set_task_cong:
  "(\<And>t. t \<in> set (db_tasks d) \<Longrightarrow> t_id t = i \<Longrightarrow> f t = g t) \<Longrightarrow> set_task i f d = set_task i g d"
  by (auto simp: set_task_def upd_key_def)

lemma undo_escrow_preserves:
  assumes ok: "escrow_ok d" and sv: "solvent d" and t: "get_task d tid = Some t" and lv: "live (t_status t)"
    and run: "undo_escrow m msg d t = Inr d'"
  shows "escrow_ok d' \<and> solvent d' \<and> (\<exists>i t'. payer d t = Some i \<and> t_id t' = tid \<and> \<not> live (t_status t') \<and>
    wallet_shift (on_wallet (t_currency t) i (- t_escrow t)) no_shift d d' \<and>
    db_tasks d' = upd_key t_id tid (\<lambda>_. t') (db_tasks d))"
proof -
  from t have mem: "t \<in> set (db_tasks d)" by (auto dest: get_task_mem)
  from live_task_backing [OF ok mem lv] obtain x w where
    x: "pending_txn d (t_id t) = Some x" "x \<in> set (db_txns d)" "pends (t_id t) x"
    and w: "agent_wallet d (t_caller t) = Some w" .
  note keys = escrow_okD(1) [OF ok]
  let ?d1 = "set_wallet (w_id w) (release_clamped t) d"
  have d1: "?d1 = set_wallet (w_id w) (add_res (t_currency t) (- t_escrow t)) d"
  proof (rule set_wallet_cong)
    fix v assume "v \<in> set (db_wallets d)" "w_id v = w_id w"
    with w keys have "v = w" by (meson agent_wallet_mem keys_okD(3))
    with live_task_reserved [OF ok mem lv w] show "release_clamped t v = add_res (t_currency t) (- t_escrow t) v"
      by (simp add: release_clamped_full)
  qed
  have "pending_txn ?d1 (t_id t) = Some x" using x(1) by (simp add: pending_txn_def)
  with run w have d': "d' = set_task (t_id t) (\<lambda>u. u\<lparr>t_status := TS_FAILED, t_error := Some msg\<rparr>)
      (set_txn (x_id x) (\<lambda>y. y\<lparr>x_status := XS_CANCELLED\<rparr>) ?d1)"
    by (auto simp: undo_escrow_def split: if_splits)
  have "set_txn (x_id x) (\<lambda>y. y\<lparr>x_status := XS_CANCELLED\<rparr>) ?d1 = set_txn (x_id x) (\<lambda>_. x\<lparr>x_status := XS_CANCELLED\<rparr>) ?d1"
  proof (rule set_txn_cong)
    fix y assume "y \<in> set (db_txns ?d1)" "x_id y = x_id x"
    with x(2) keys have "y = x" by (simp add: keys_okD(2))
    then show "y\<lparr>x_status := XS_CANCELLED\<rparr> = x\<lparr>x_status := XS_CANCELLED\<rparr>" by simp
  qed
  moreover have "set_task (t_id t) (\<lambda>u. u\<lparr>t_status := TS_FAILED, t_error := Some msg\<rparr>) e =
      set_task (t_id t) (\<lambda>_. t\<lparr>t_status := TS_FAILED, t_error := Some msg\<rparr>) e" if "db_tasks e = db_tasks d" for e
  proof (rule set_task_cong)
    fix u assume "u \<in> set (db_tasks e)" "t_id u = t_id t"
    with mem keys that have "u = t" by (simp add: keys_okD(1))
    then show "u\<lparr>t_status := TS_FAILED, t_error := Some msg\<rparr> = t\<lparr>t_status := TS_FAILED, t_error := Some msg\<rparr>" by simp
  qed
  ultimately have "d' = set_task (t_id t) (\<lambda>_. t\<lparr>t_status := TS_FAILED, t_error := Some msg\<rparr>)
      (set_txn (x_id x) (\<lambda>_. x\<lparr>x_status := XS_CANCELLED\<rparr>)
        (set_wallet (w_id w) (add_res (t_currency t) (- t_escrow t)) d))"
    by (simp add: d' d1)
  from this refund_writes_preserve [OF ok sv mem lv x(2,3) w _ _ _ _ _ this] payer_of_wallet [OF w] t show ?thesis
    by (intro conjI exI [of _ "w_id w"] exI [of _ "t\<lparr>t_status := TS_FAILED, t_error := Some msg\<rparr>"])
       (auto simp: live_def db_write_simps dest: get_task_mem)
qed

lemma expire_one_preserves:
  assumes "escrow_ok d" and "solvent d" and "expire_one m now p d = Inr d'"
  shows "escrow_ok d' \<and> solvent d'"
proof (cases "p_task p")
  case None
  with assms show ?thesis by (auto simp: expire_one_def)
next
  case (Some tid)
  with assms show ?thesis
    by (auto simp: expire_one_def Let_def live_def split: option.splits if_splits
        dest!: undo_escrow_preserves [rotated 4])
qed

lemma expire_preserves:
  assumes "escrow_ok d" and "solvent d" and "expire_pending_approvals m now d = Inr (d', n)"
  shows "escrow_ok d' \<and> solvent d'"
proof -
  from assms(3) obtain ps where "foldE (expire_one m now) ps d = Inr d'"
    by (auto simp: expire_pending_approvals_def Let_def bindE_Inr)
  then show ?thesis
    by (rule foldE_invariant [where P = "\<lambda>s. escrow_ok s \<and> solvent s"])
       (use assms(1,2) in \<open>auto dest: expire_one_preserves\<close>)
qed

lemma answer_check_pending:
  assumes "get_approval d i = Some p" and "p_user p = user" and "p_status p = AP_PENDING"
    and "action = EA_APPROVED \<or> action = EA_DENIED"
  shows "answer_check d user i action = Inr (p, False)"
  using assms by (auto simp: answer_check_def guardE_def escrow_status_def is_idempotent_action_def
      validate_approval_transition_def approval_allowed_def)

lemma settled_no_pending:
  assumes "escrow_ok d" and "get_task d tid = Some t" and "\<not> live (t_status t)"
  shows "pending_txn d tid = None"
proof (rule ccontr)
  assume "pending_txn d tid \<noteq> None"
  then obtain x where "pending_txn d tid = Some x" by blast
  then have "x \<in> set (db_txns d)" "pends tid x" by (auto dest: pending_txn_mem)
  with assms(1) obtain u where "u \<in> set (db_tasks d)" "t_id u = tid" "live (t_status u)"
    by (metis backed_pend escrow_okD(2))
  with assms show False by (metis escrow_okD(1) get_task_mem keys_okD(1))
qed

lemma wallet_member_shift: "w \<in> set (db_wallets d) \<Longrightarrow> f w \<in> set (db_wallets (set_wallet (w_id w) f d))"
  by (auto simp: db_write_simps intro: upd_key_hit [of w _ w_id])

lemma undo_settled:
  assumes ok: "escrow_ok d" and t: "get_task d tid = Some t" and dead: "\<not> live (t_status t)" and pos: "0 < t_escrow t"
    and w: "agent_wallet d (t_caller t) = Some w" and le: "t_escrow t * unit_of (t_currency t) \<le> res (t_currency t) w"
  shows "\<exists>d'. undo_escrow m msg d t = Inr d' \<and> \<not> reserved_ok d' \<and> (\<exists>u \<in> set (db_tasks d'). t_id u = tid \<and> t_status u = TS_FAILED)"
proof -
  from t have mem: "t \<in> set (db_tasks d)" and i: "t_id t = tid" by (auto dest: get_task_mem)
  let ?d1 = "set_wallet (w_id w) (release_clamped t) d"
  let ?g = "\<lambda>u. u\<lparr>t_status := TS_FAILED, t_error := Some msg\<rparr>"
  let ?d' = "set_task tid ?g ?d1"
  have none: "pending_txn ?d1 tid = None" using settled_no_pending [OF ok t dead] by (simp add: pending_txn_def)
  have run: "undo_escrow m msg d t = Inr ?d'" using w none i by (simp add: undo_escrow_def Let_def)
  have same: "same_owner v (release_clamped t v)" for v
    by (cases "t_currency t") (simp_all add: release_clamped_def same_owner_def)
  have "map (\<lambda>w. (w_id w, w_owner_type w, w_owner w)) (db_wallets ?d') =
      map (\<lambda>w. (w_id w, w_owner_type w, w_owner w)) (db_wallets d)"
    using same by (simp add: db_write_simps upd_key_def same_owner_def)
  then have pay: "payer ?d' u = payer d u" for u by (simp add: payer_by_owner)
  have eq: "u = t" if "u \<in> set (db_tasks d)" "t_id u = tid" for u
    using that mem i ok by (metis escrow_okD(1) keys_okD(1))
  have "claim_of d c j (?g u) = claim_of d c j u" if "u \<in> set (db_tasks d)" "t_id u = tid" for c j u
    using eq [OF that] dead by (simp add: claim_of_def live_def)
  then have "sum_list (map (claim_of d c j) (upd_key t_id tid ?g (db_tasks d))) = claims d c j" for c j
    unfolding claims_def by (rule sum_upd_key_none)
  moreover have "claim_of ?d' = claim_of d" by (intro ext) (simp add: claim_of_def pay)
  ultimately have cl: "claims ?d' c j = claims d c j" for c j
    by (simp add: claims_def db_write_simps)
  have wm: "w \<in> set (db_wallets d)" using w by (rule agent_wallet_mem)
  have "release_clamped t w \<in> set (db_wallets ?d')" using wallet_member_shift [OF wm] by simp
  moreover have "res (t_currency t) (release_clamped t w) < res (t_currency t) w"
    using le pos by (simp add: release_clamped_full)
  moreover have "res (t_currency t) w = claims d (t_currency t) (w_id w)"
    using ok wm by (simp add: escrow_ok_def reserved_ok_def)
  moreover have "w_id (release_clamped t w) = w_id w" using same by (simp add: same_owner_def)
  ultimately have "\<not> reserved_ok ?d'" unfolding reserved_ok_def cl by (metis less_irrefl)
  moreover have "?g t \<in> set (db_tasks ?d')"
    using upd_key_hit [OF mem, of t_id tid ?g] i by (simp add: db_write_simps)
  ultimately show ?thesis using run i by (intro exI [of _ ?d']) (auto intro!: bexI [of _ "?g t"])
qed

end
