(* ===== verification/Worker.thy ===== *)
theory Worker
  imports TaskSafety
begin

text \<open>
  The background worker \<open>services/worker/app/worker.py\<close>: the pass that refunds timed-out tasks,
  the simulation timeout, the daily reset and the offline sweep. Redis notifications happen after
  the commit and never change the database; they are not modelled. An exception inside one task's
  iteration is logged and rolled back, so it leaves the database as it was.
\<close>

section \<open>The refund pass\<close>

datatype worker_exc = ReservedUnderflow | WorkerDbError db_error

text \<open>\<open>_poll_interval_from_env\<close>: \<open>parsed\<close> is \<open>int(os.getenv(\<dots>))\<close>, \<open>None\<close> its \<open>ValueError\<close>.\<close>

definition poll_interval :: "int option \<Rightarrow> int" where
  "poll_interval parsed = (case parsed of None \<Rightarrow> 30 | Some n \<Rightarrow> max 1 n)"

definition timeout_span :: "instant \<Rightarrow> uid \<Rightarrow> task \<Rightarrow> span" where
  "timeout_span now new_span t =
    task_span t new_span (t_callee t) ''task_timeout'' (Some (ms_between (t_created_at t) now)) SP_TIMEOUT None
      [(''error_message'', JStr ''Task timed out'')]"

definition debit_callee :: "agent \<Rightarrow> agent" where
  "debit_callee a =
    (let n = a_timeout_count a + 1 in
     a\<lparr>a_timeout_count := n, a_status := (if n \<ge> 5 then AG_SUSPENDED else a_status a)\<rparr>)"

text \<open>One iteration: \<open>Inr\<close> of the committed database, or of the unchanged one when it is skipped.\<close>

definition timeout_one :: "instant \<Rightarrow> uid \<Rightarrow> uid \<Rightarrow> mdb \<Rightarrow> worker_exc + mdb" where
  "timeout_one now new_span tid d =
    (case get_task d tid of
       None \<Rightarrow> Inr d
     | Some t \<Rightarrow>
         if \<not> (t_status t = TS_INITIATED \<or> t_status t = TS_IN_PROGRESS) then Inr d
         else bindE
           (case (pending_txn d tid, agent_wallet d (t_caller t)) of
              (Some x, Some w) \<Rightarrow>
                if res (t_currency t) w < t_escrow t * unit_of (t_currency t) then Inl ReservedUnderflow
                else bindE (mapE WorkerDbError (write_wallet (w_id w) (add_res (t_currency t) (- t_escrow t)) d))
                  (\<lambda>d1. mapE WorkerDbError (update_txn (day_start now)
                    (x\<lparr>x_status := XS_CANCELLED, x_completed_at := Some now\<rparr>) d1))
            | _ \<Rightarrow> Inr d)
           (\<lambda>d2. let t' = t\<lparr>t_status := TS_TIMEOUT, t_refund_at := Some now,
                      t_error := Some ''Task timed out'', t_completed_at := Some now\<rparr> in
              Inr (set_agent (t_callee t) debit_callee
                (add_span (timeout_span now new_span t) (set_task tid (\<lambda>_. t') d2)))))"

definition overdue :: "instant \<Rightarrow> task \<Rightarrow> bool" where
  "overdue now t \<longleftrightarrow> (t_status t = TS_INITIATED \<or> t_status t = TS_IN_PROGRESS) \<and> t_timeout_at t < now"

fun timeout_each :: "instant \<Rightarrow> (nat \<Rightarrow> uid) \<Rightarrow> nat \<Rightarrow> uid list \<Rightarrow> mdb \<Rightarrow> mdb" where
  "timeout_each now fresh k [] d = d"
| "timeout_each now fresh k (i # is) d =
    timeout_each now fresh (Suc k) is (case timeout_one now (fresh k) i d of Inr d' \<Rightarrow> d' | Inl _ \<Rightarrow> d)"

definition process_timed_out_tasks :: "instant \<Rightarrow> (nat \<Rightarrow> uid) \<Rightarrow> mdb \<Rightarrow> mdb" where
  "process_timed_out_tasks now fresh d =
    timeout_each now fresh 0 (map t_id (filter (overdue now) (db_tasks d))) d"

section \<open>The other passes\<close>

definition reset_daily_metrics :: "instant \<Rightarrow> mdb \<Rightarrow> mdb" where
  "reset_daily_metrics now d =
    d\<lparr>db_agents := map (\<lambda>a. a\<lparr>a_timeout_count := 0\<rparr>) (db_agents d),
      db_wallets := map (\<lambda>w. w\<lparr>w_daily_spent := 0, w_daily_reset_at := now\<rparr>) (db_wallets d)\<rparr>"

definition stuck_simulation :: "instant \<Rightarrow> int \<Rightarrow> task \<Rightarrow> bool" where
  "stuck_simulation now timeout_seconds t \<longleftrightarrow> t_capability t = ''swarm_simulation'' \<and>
    (t_status t = TS_INITIATED \<or> t_status t = TS_IN_PROGRESS) \<and> t_created_at t < now - seconds timeout_seconds"

text \<open>
  \<open>process_timed_out_simulations\<close>: each stuck task row is written and committed on its own; no
  wallet or transaction is touched.
\<close>

definition process_timed_out_simulations :: "instant \<Rightarrow> int \<Rightarrow> mdb \<Rightarrow> mdb" where
  "process_timed_out_simulations now timeout_seconds d =
    d\<lparr>db_tasks := upd_where (stuck_simulation now timeout_seconds)
        (\<lambda>t. t\<lparr>t_status := TS_TIMEOUT, t_error := Some ''Simulation timed out'', t_refund_at := Some now\<rparr>)
        (db_tasks d)\<rparr>"

definition process_offline_agents :: "instant \<Rightarrow> mdb \<Rightarrow> mdb" where
  "process_offline_agents now d =
    d\<lparr>db_agents := upd_where (\<lambda>a. a_is_online a \<and> (case a_last_seen_at a of None \<Rightarrow> False | Some s \<Rightarrow> s < now - seconds 60))
        (\<lambda>a. a\<lparr>a_is_online := False\<rparr>) (db_agents d)\<rparr>"

section \<open>One iteration of the main loop\<close>

text \<open>
  The timers of the loop. \<open>reputations\<close> stands for \<open>update_all_reputations\<close>, which theory
  \<open>Reputation\<close> models; \<open>clk n\<close> is the n-th reading of the clock in the iteration.
\<close>

record worker_timers =
  last_reset :: instant
  last_reputation :: instant
  last_sim_timeout :: instant

definition worker_iteration ::
  "(mdb \<Rightarrow> mdb) \<Rightarrow> int \<Rightarrow> (nat \<Rightarrow> instant) \<Rightarrow> (nat \<Rightarrow> uid) \<Rightarrow> worker_timers \<times> mdb \<Rightarrow> worker_timers \<times> mdb" where
  "worker_iteration reputations sim_timeout clk fresh s =
    (let (tm, d) = s;
         d1 = process_timed_out_tasks (clk 0) fresh d;
         now = clk 1;
         reset_due = (now - last_reset tm) div days 1 \<ge> 1;
         d2 = (if reset_due then reset_daily_metrics (clk 2) d1 else d1);
         rep_due = now - last_reputation tm \<ge> seconds 300;
         d3 = (if rep_due then reputations d2 else d2);
         sim_due = now - last_sim_timeout tm \<ge> seconds 60;
         d4 = (if sim_due then process_timed_out_simulations (clk 3) sim_timeout d3 else d3);
         d5 = process_offline_agents (clk 4) d4
     in (tm\<lparr>last_reset := (if reset_due then now else last_reset tm),
            last_reputation := (if rep_due then now else last_reputation tm),
            last_sim_timeout := (if sim_due then now else last_sim_timeout tm)\<rparr>, d5))"

section \<open>The refund pass is complete and exact\<close>

lemma poll_interval_pos: "1 \<le> poll_interval p"
  by (simp add: poll_interval_def split: option.split)

lemma timeout_one_effect:
  assumes ok: "escrow_ok d" and sv: "solvent d" and t: "get_task d tid = Some t" and lv: "live (t_status t)"
  shows "\<exists>d' w. timeout_one now s tid d = Inr d' \<and> escrow_ok d' \<and> solvent d' \<and> agent_wallet d (t_caller t) = Some w \<and>
    wallet_shift (on_wallet (t_currency t) (w_id w) (- t_escrow t)) no_shift d d' \<and>
    db_tasks d' = upd_key t_id tid (\<lambda>_. t\<lparr>t_status := TS_TIMEOUT, t_refund_at := Some now,
      t_error := Some ''Task timed out'', t_completed_at := Some now\<rparr>) (db_tasks d)"
proof -
  from t have mem: "t \<in> set (db_tasks d)" and i: "t_id t = tid" by (auto dest: get_task_mem)
  from live_task_backing [OF ok mem lv] obtain x w where
    x: "pending_txn d tid = Some x" "x \<in> set (db_txns d)" "pends tid x" and bk: "backs d x t"
    and w: "agent_wallet d (t_caller t) = Some w" unfolding i .
  let ?y = "x\<lparr>x_status := XS_CANCELLED, x_completed_at := Some now\<rparr>"
  let ?t' = "t\<lparr>t_status := TS_TIMEOUT, t_refund_at := Some now,
    t_error := Some ''Task timed out'', t_completed_at := Some now\<rparr>"
  let ?d1 = "set_wallet (w_id w) (add_res (t_currency t) (- t_escrow t)) d"
  let ?d2 = "set_txn (x_id x) (\<lambda>_. ?y) ?d1"
  let ?e = "set_task tid (\<lambda>_. ?t') ?d2"
  let ?d' = "set_agent (t_callee t) debit_callee (add_span (timeout_span now s t) ?e)"
  note rel = release_reserved_ok [OF ok sv mem lv w]
  have "get_txn ?d1 (x_id ?y) = Some x"
    using get_txn_mem [OF escrow_okD(1) [OF ok] x(2)] by (simp add: get_txn_def)
  moreover have "0 \<le> x_amount x" using bk backed_nonneg [OF escrow_okD(2) [OF ok] mem] by (simp add: backs_def)
  ultimately have up: "update_txn (day_start now) ?y ?d1 = Inr ?d2" by (simp add: update_txn_def)
  have le: "\<not> res (t_currency t) w < t_escrow t * unit_of (t_currency t)"
    using live_task_reserved [OF ok mem lv w] by simp
  have run: "timeout_one now s tid d = Inr ?d'"
    using t x(1) w lv up le rel(2) by (simp add: timeout_one_def live_def Let_def)
  have "escrow_ok ?e \<and> solvent ?e \<and> wallet_shift (on_wallet (t_currency t) (w_id w) (- t_escrow t)) no_shift d ?e"
    by (rule refund_writes_preserve [OF ok sv mem lv x(2) _ w, of ?y ?t'])
       (use x(3) i in \<open>simp_all add: live_def\<close>)
  then show ?thesis using run w
    by (intro exI [of _ ?d'] exI [of _ w]) (auto simp: db_write_simps intro: wallet_shift_cong)
qed

lemma timeout_one_skip:
  "get_task d tid = None \<or> (\<exists>t. get_task d tid = Some t \<and> \<not> live (t_status t)) \<Longrightarrow> timeout_one now s tid d = Inr d"
  by (auto simp: timeout_one_def live_def)

lemma timeout_one_total:
  assumes "escrow_ok d" and "solvent d"
  shows "\<exists>d'. timeout_one now s tid d = Inr d' \<and> escrow_ok d' \<and> solvent d' \<and>
    (\<forall>u \<in> set (db_tasks d'). live (t_status u) \<longrightarrow> u \<in> set (db_tasks d) \<and> t_id u \<noteq> tid)"
proof (cases "\<exists>t. get_task d tid = Some t \<and> live (t_status t)")
  case True
  then obtain t where t: "get_task d tid = Some t" "live (t_status t)" by blast
  from timeout_one_effect [OF assms t] obtain d' where
    d': "timeout_one now s tid d = Inr d'" "escrow_ok d'" "solvent d'"
    "db_tasks d' = upd_key t_id tid (\<lambda>_. t\<lparr>t_status := TS_TIMEOUT, t_refund_at := Some now,
      t_error := Some ''Task timed out'', t_completed_at := Some now\<rparr>) (db_tasks d)"
    by blast
  have "u \<in> set (db_tasks d) \<and> t_id u \<noteq> tid" if "u \<in> set (db_tasks d')" "live (t_status u)" for u
    using that d'(4) by (auto simp: set_upd_key live_def split: if_splits)
  with d' show ?thesis by blast
next
  case False
  then have run: "timeout_one now s tid d = Inr d" by (intro timeout_one_skip) auto
  have "t_id u \<noteq> tid" if u: "u \<in> set (db_tasks d)" "live (t_status u)" for u
  proof
    assume "t_id u = tid"
    then have "get_task d tid = Some u"
      using u(1) assms(1) find_distinct_key [of t_id "db_tasks d" u] by (simp add: get_task_def escrow_ok_def keys_ok_def)
    with False u(2) show False by blast
  qed
  with run assms show ?thesis by blast
qed

lemma timeout_each_sound:
  assumes "escrow_ok d" and "solvent d"
  shows "escrow_ok (timeout_each now fresh k is d) \<and> solvent (timeout_each now fresh k is d) \<and>
    (\<forall>u \<in> set (db_tasks (timeout_each now fresh k is d)). live (t_status u) \<longrightarrow> u \<in> set (db_tasks d) \<and> t_id u \<notin> set is)"
  using assms
proof (induction "is" arbitrary: k d)
  case Nil
  then show ?case by simp
next
  case (Cons i "is")
  from timeout_one_total [OF Cons.prems] obtain d' where d': "timeout_one now (fresh k) i d = Inr d'"
    "escrow_ok d'" "solvent d'" "\<forall>u \<in> set (db_tasks d'). live (t_status u) \<longrightarrow> u \<in> set (db_tasks d) \<and> t_id u \<noteq> i"
    by blast
  from Cons.IH [OF d'(2,3)] d'(1,4) show ?case by simp
qed

end
