(* ===== verification/ExampleDb.thy ===== *)
theory ExampleDb
  imports MoneyDb
begin

text \<open>
  A small database the concrete instances of the properties are evaluated on: a platform wallet,
  two agents of one user, and a funded wallet for the first of them.
\<close>

definition demo_wallet :: "uid \<Rightarrow> owner_type \<Rightarrow> uid \<Rightarrow> int \<Rightarrow> wallet" where
  "demo_wallet i ty own credits =
    \<lparr>w_id = i, w_owner_type = ty, w_owner = own, w_bal_credits = credits, w_bal_usdc = 0,
     w_res_credits = 0, w_res_usdc = 0, w_cap = 500, w_daily_spent = 0, w_daily_reset_at = 0,
     w_auto_approve = None, w_whitelist = Some []\<rparr>"

definition demo_agent :: "uid \<Rightarrow> agent" where
  "demo_agent i =
    \<lparr>a_id = i, a_user_id = Some 7, a_name = ''agent'',
     a_caps = [\<lparr>c_name = ''echo'', c_price = Some 40, c_input_schema = None, c_output_schema = None\<rparr>],
     a_status = AG_ACTIVE, a_timeout_count = 0, a_total_completed = 0, a_total_failed = 0,
     a_total_timeout = 0, a_success_rate = 0, a_avg_response_ms = 0, a_total_volume = 0,
     a_tier = ''unranked'', a_rep_updated_at = None, a_is_online = True, a_last_seen_at = None\<rparr>"

definition demo_db :: mdb where
  "demo_db = \<lparr>db_wallets = [demo_wallet 1 OWNER_USER 1 0, demo_wallet 10 OWNER_AGENT 100 1000,
      demo_wallet 20 OWNER_AGENT 200 0],
    db_agents = [demo_agent 100, demo_agent 200], db_tasks = [], db_txns = [], db_spans = [],
    db_approvals = [], db_spending = []\<rparr>"

end
