(* ===== verification/TaskProps.thy ===== *)
theory TaskProps
  imports TaskSafety ExampleDb
begin

text \<open>
  The properties of the task lifecycle in \<open>task_service.py\<close>, on the invariant of theory
  \<open>EscrowInvariants\<close>: completions and refunds always go through, what they move, and
  idempotent creation. The example database of theory \<open>ExampleDb\<close> instantiates them.
\<close>

section \<open>An example request\<close>

definition demo_args :: create_args where
  "demo_args = \<lparr>ca_callee = 200, ca_capability = ''echo'', ca_input = [(''text'', JStr ''hi'')],
    ca_max_budget = 50, ca_currency = ''credits'', ca_timeout_seconds = 300, ca_parent_span = None,
    ca_retry_of = None, ca_idem_key = Some ''k1''\<rparr>"

definition demo_clk :: "nat \<Rightarrow> instant" where
  "demo_clk n = int n"

definition demo_fresh :: "nat \<Rightarrow> uid" where
  "demo_fresh n = 1000 + n"

definition demo_sha :: "string \<Rightarrow> string" where
  "demo_sha s = show_nat (length s)"

definition demo_create :: "mdb \<Rightarrow> create_args \<Rightarrow> task_exc + (mdb \<times> task \<times> txn)" where
  "demo_create d c = create_task_with_escrow (\<lambda>_ _. True) demo_sha show_nat demo_clk demo_fresh d d 100 c"

definition demo_start :: "mdb \<Rightarrow> task_exc + (mdb \<times> task)" where
  "demo_start d = start_task demo_clk (\<lambda>n. 2000 + n) d 1002 200"

definition demo_confirm :: "mdb \<Rightarrow> task_exc + (mdb \<times> task)" where
  "demo_confirm d = confirm_task_completion (\<lambda>_ _. True) demo_clk (\<lambda>n. 3000 + n) d (demo_agent 200) 1002 JNull"

text \<open>The rows the creation writes, and the databases after it and after the start.\<close>

definition demo_task :: "task_status \<Rightarrow> task" where
  "demo_task s = \<lparr>t_id = 1002, t_trace = 1000, t_span = 1001, t_parent_span = None, t_caller = 100,
    t_callee = 200, t_capability = ''echo'', t_input = [(''text'', JStr ''hi'')], t_input_hash = ''13'',
    t_escrow = 40, t_currency = CREDITS, t_status = s, t_timeout_at = 300000000, t_created_at = 1,
    t_completed_at = None, t_refund_at = None, t_error = None, t_output = None, t_retry_of = None\<rparr>"

definition demo_txn :: txn where
  "demo_txn = \<lparr>x_id = 1003, x_from = Some 10, x_to = None, x_amount = 40, x_currency = CREDITS,
    x_status = XS_PENDING, x_type = XT_PAYMENT, x_task = Some 1002, x_fee = 0, x_fee_rate = 250,
    x_extra = [(''input_hash'', JStr ''13''), (''request_hash'', JStr ''104'')], x_idem = Some ''k1'',
    x_created_at = 1, x_completed_at = None\<rparr>"

definition demo_created :: mdb where
  "demo_created = add_span (created_span (demo_task TS_INITIATED))
    (set_wallet 10 (add_res CREDITS 40) demo_db\<lparr>db_tasks := [demo_task TS_INITIATED], db_txns := [demo_txn]\<rparr>)"

definition demo_started :: mdb where
  "demo_started = add_span (task_span (demo_task TS_INITIATED) 2000 200 ''task_started'' None SP_SUCCESS None [])
    (demo_created\<lparr>db_tasks := [demo_task TS_IN_PROGRESS]\<rparr>)"

lemmas demo_defs = demo_db_def demo_wallet_def demo_agent_def demo_args_def demo_clk_def demo_fresh_def
  demo_task_def demo_txn_def demo_created_def demo_started_def

lemma demo_hashes:
  "request_fingerprint demo_sha show_nat demo_args = Inr ''104''"
  "compute_input_hash demo_sha (JObj (ca_input demo_args)) = Inr ''13''"
  by code_simp+

lemma demo_create_runs: "demo_create demo_db demo_args = Inr (demo_created, demo_task TS_INITIATED, demo_txn)"
  unfolding demo_create_def create_task_with_escrow_def demo_hashes by code_simp

lemma demo_start_runs: "demo_start demo_created = Inr (demo_started, demo_task TS_IN_PROGRESS)"
  by code_simp

lemma demo_db_ok: "escrow_ok demo_db \<and> solvent demo_db"
  by (auto simp: escrow_ok_def keys_ok_def reserved_ok_def backed_def claims_def solvent_def demo_db_def
      demo_wallet_def res_def bal_def split: currency.splits)

lemma demo_created_ok: "escrow_ok demo_created \<and> solvent demo_created"
  using create_preserves [of demo_db demo_db 100] demo_db_ok demo_create_runs unfolding demo_create_def by blast

lemma demo_started_ok: "escrow_ok demo_started \<and> solvent demo_started"
  using start_task_preserves demo_created_ok demo_start_runs unfolding demo_start_def by blast

lemma demo_lookups:
  "get_task demo_started 1002 = Some (demo_task TS_IN_PROGRESS)"
  "agent_wallet demo_started 100 = Some (add_res CREDITS 40 (demo_wallet 10 OWNER_AGENT 100 1000))"
  "agent_wallet demo_started 200 = Some (demo_wallet 20 OWNER_AGENT 200 0)"
  "txn_by_key demo_created (Some ''k1'') = Some demo_txn"
  by code_simp+

lemma demo_agent_simps [simp]:
  "a_id (demo_agent i) = i" "output_ok (\<lambda>_ _. True) (demo_agent i) nm v"
  "t_callee (demo_task s) = 200" "t_caller (demo_task s) = 100" "t_status (demo_task s) = s"
  "w_id (demo_wallet i ty own n) = i"
  by (simp_all add: demo_agent_def output_ok_def demo_task_def demo_wallet_def split: option.split)

lemma demo_confirm_runs: "\<exists>d' t'. demo_confirm demo_started = Inr (d', t')"
proof -
  have "\<not> isl (demo_confirm demo_started)" by code_simp
  then show ?thesis by (metis isl_def surj_pair sum.exhaust_sel)
qed

section \<open>Completion and refund always go through\<close>

text \<open>
  in an accounted, solvent database the callee's confirmation of a task in progress, with an
  output its schema accepts, always commits: neither the internal underflow errors nor a database
  constraint can stop it.
\<close>

theorem confirm_completes:
  assumes "escrow_ok d" and "solvent d" and "get_task d i = Some t" and "t_status t = TS_IN_PROGRESS"
    and "t_callee t = a_id callee" and "agent_wallet d (a_id callee) = Some cw"
    and "output_ok schema_ok callee (t_capability t) outp"
  shows "\<exists>d' t'. confirm_task_completion schema_ok clk fresh d callee i outp = Inr (d', t') \<and>
    t_status t' = TS_COMPLETED \<and> escrow_ok d' \<and> solvent d'"
proof -
  from confirm_never_stuck [OF assms] obtain d' t' where
    run: "confirm_task_completion schema_ok clk fresh d callee i outp = Inr (d', t')" by blast
  with assms(1,2) have "escrow_ok d' \<and> solvent d'" by (auto dest: confirm_preserves)
  moreover have "t_status t' = TS_COMPLETED" using confirm_Inr [OF run] by auto
  ultimately show ?thesis using run by blast
qed

theorem confirm_completes_witness:
  "\<exists>d' t'. demo_confirm demo_started = Inr (d', t') \<and> t_status t' = TS_COMPLETED \<and> escrow_ok d' \<and> solvent d'"
  unfolding demo_confirm_def
  by (rule confirm_completes [where t = "demo_task TS_IN_PROGRESS" and cw = "demo_wallet 20 OWNER_AGENT 200 0"])
     (simp_all add: demo_started_ok demo_lookups)

text \<open>
  in an accounted, solvent database every live task can be failed or timed out: the refund
  always commits and never reports a reservation underflow.
\<close>

theorem refund_completes:
  assumes "escrow_ok d" and "solvent d" and "get_task d i = Some t" and "live (t_status t)"
    and "s = TS_FAILED \<or> s = TS_TIMEOUT" and "msg \<noteq> canceled_by_caller"
  shows "\<exists>d' t'. fail_task_with_refund clk fresh d i msg None s = Inr (d', t') \<and> t_status t' = s \<and>
    escrow_ok d' \<and> solvent d'"
proof -
  from assms(3) have mem: "t \<in> set (db_tasks d)" by (auto dest: get_task_mem)
  have "s \<in> set (task_allowed (t_status t))"
    using assms(4,5) by (cases "t_status t") (auto simp: live_def task_allowed_def)
  from refund_never_stuck [OF assms(1,2) mem this] obtain d' t' where
    r: "refund_locked clk fresh d t s msg = Inr (d', t')" by blast
  then have run: "fail_task_with_refund clk fresh d i msg None s = Inr (d', t')"
    using assms(3-6) by (auto simp: fail_task_with_refund_def guardE_def live_def)
  with assms(1,2) have "escrow_ok d' \<and> solvent d'" by (auto dest: fail_preserves)
  with run refund_Inr [OF r] show ?thesis by blast
qed

theorem refund_completes_witness:
  "\<exists>d' t'. fail_task_with_refund demo_clk (\<lambda>n. 3000 + n) demo_started 1002 ''boom'' None TS_FAILED = Inr (d', t') \<and>
    t_status t' = TS_FAILED \<and> escrow_ok d' \<and> solvent d'"
  by (rule refund_completes [where t = "demo_task TS_IN_PROGRESS"])
     (simp_all add: demo_started_ok demo_lookups live_def canceled_by_caller_def)

section \<open>What moves\<close>

lemma total_payment_shift:
  assumes "distinct ids" and "x_from x = Some p" and "x_to x = Some q" and "{p, q, platform_wallet_id} \<subseteq> set ids"
  shows "sum_list (map (payment_shift x c) ids) = 0"
proof -
  have "sum_list (map (payment_shift x c) ids) =
    sum_list (map (on_wallet (x_currency x) p (- x_amount x) c) ids) +
    sum_list (map (on_wallet (x_currency x) q (x_amount x - fee_of x) c) ids) +
    sum_list (map (on_wallet (x_currency x) platform_wallet_id (fee_of x) c) ids)"
    using assms(2,3) by (simp add: payment_shift_def [abs_def] sum_list_addf)
  with assms(1,4) show ?thesis by (simp add: sum_on_wallet algebra_simps)
qed

text \<open>
  A confirmation conserves money: in each currency the balances of all wallets, the platform's
  included, sum to the same before and after.
\<close>

theorem confirm_conserves_total:
  assumes "escrow_ok d" and "solvent d" and "platform_wallet_id \<in> w_id ` set (db_wallets d)"
    and "confirm_task_completion schema_ok clk fresh d callee i outp = Inr (d', t')"
  shows "total_balance c d' = total_balance c d"
proof -
  show ?thesis
    using confirm_preserves [OF assms(1,2,4)]
  proof (elim conjE disjE exE)
    fix t w cw x
    assume w: "agent_wallet d (a_id callee) = Some cw" "agent_wallet d (t_caller t) = Some w"
      and x: "x_from x = Some (w_id w)" "x_to x = Some (w_id cw)"
      and shift: "wallet_shift (on_wallet (t_currency t) (w_id w) (- t_escrow t)) (payment_shift x) d d'"
    from w assms(3) have "{w_id w, w_id cw, platform_wallet_id} \<subseteq> set (map w_id (db_wallets d))"
      by (auto dest: agent_wallet_mem)
    with x assms(1) total_payment_shift [of "map w_id (db_wallets d)" x] total_shift [OF shift] show ?thesis
      by (simp add: escrow_ok_def keys_ok_def)
  qed simp
qed

theorem confirm_conserves_total_witness:
  "\<exists>d' t'. demo_confirm demo_started = Inr (d', t') \<and> total_balance CREDITS d' = total_balance CREDITS demo_started"
proof -
  have "platform_wallet_id \<in> w_id ` set (db_wallets demo_started)" by code_simp
  with demo_started_ok demo_confirm_runs confirm_conserves_total show ?thesis
    unfolding demo_confirm_def by blast
qed

text \<open>The fee the 2.5 percent rate gives on a payment of \<open>n\<close>.\<close>

definition platform_fee :: "int \<Rightarrow> int" where
  "platform_fee n = (if 1 < n then min (n - 1) (max 1 (n div 40)) else 0)"

lemma fee_of_rate: "x_type x = XT_PAYMENT \<Longrightarrow> x_fee_rate x = 250 \<Longrightarrow> fee_of x = platform_fee (x_amount x)"
proof -
  have "n * 250 div 10000 = n div 40" for n :: int
    using div_mult_mult1 [of "250 :: int" n 40] by (simp add: mult.commute)
  then show "x_type x = XT_PAYMENT \<Longrightarrow> x_fee_rate x = 250 \<Longrightarrow> ?thesis"
    by (simp add: fee_of_def platform_fee_def)
qed

definition settlement :: "task \<Rightarrow> wallet \<Rightarrow> wallet \<Rightarrow> uid \<Rightarrow> int" where
  "settlement t w cw i =
    (if i = w_id w then - t_escrow t else if i = w_id cw then t_escrow t - platform_fee (t_escrow t)
     else if i = platform_wallet_id then platform_fee (t_escrow t) else 0) * unit_of (t_currency t)"

text \<open>
  C13: a confirmation settles the escrow exactly: the payer's balance and reservation both drop
  by the escrow, the callee's wallet gains the escrow minus the platform fee, the platform wallet
  gains the fee (2.5 percent rounded down, at least one and less than the escrow), and no other
  wallet or currency changes.
\<close>

theorem confirm_settles:
  assumes "escrow_ok d" and "solvent d" and "get_task d i = Some t" and "t_status t = TS_IN_PROGRESS"
    and "agent_wallet d (t_caller t) = Some w" and "agent_wallet d (a_id callee) = Some cw"
    and "w_id w \<noteq> w_id cw" and "platform_wallet_id \<notin> {w_id w, w_id cw}"
    and "confirm_task_completion schema_ok clk fresh d callee i outp = Inr (d', t')"
  shows "list_all2 (\<lambda>u v. w_id v = w_id u \<and> (\<forall>c.
    res c v = res c u - (if w_id u = w_id w \<and> c = t_currency t then t_escrow t * unit_of c else 0) \<and>
    bal c v = bal c u + (if c = t_currency t then settlement t w cw (w_id u) else 0)))
    (db_wallets d) (db_wallets d')"
proof -
  from confirm_preserves [OF assms(1,2,9)] assms(3-6) obtain x where
    x: "x_from x = Some (w_id w)" "x_to x = Some (w_id cw)" "x_amount x = t_escrow t" "x_currency x = t_currency t"
    "x_type x = XT_PAYMENT" "x_fee_rate x = 250"
    and shift: "wallet_shift (on_wallet (t_currency t) (w_id w) (- t_escrow t)) (payment_shift x) d d'"
    by auto
  have "payment_shift x c j = (if c = t_currency t then settlement t w cw j else 0)" for c j
    using x assms(7,8) by (auto simp: payment_shift_def settlement_def on_wallet_def fee_of_rate)
  then show ?thesis
    using shift unfolding wallet_shift_def
    by (elim list_all2_mono) (auto simp: same_owner_def on_wallet_def)
qed

theorem confirm_settles_witness:
  "\<exists>t w cw d' t'. demo_confirm demo_started = Inr (d', t') \<and> list_all2 (\<lambda>u v. w_id v = w_id u \<and> (\<forall>c.
    res c v = res c u - (if w_id u = w_id w \<and> c = t_currency t then t_escrow t * unit_of c else 0) \<and>
    bal c v = bal c u + (if c = t_currency t then settlement t w cw (w_id u) else 0)))
    (db_wallets demo_started) (db_wallets d') \<and>
    map (settlement t w cw) [1, 10, 20] = [1, - 40, 39]"
proof -
  obtain d' t' where run: "demo_confirm demo_started = Inr (d', t')" using demo_confirm_runs by blast
  let ?t = "demo_task TS_IN_PROGRESS" and ?w = "add_res CREDITS 40 (demo_wallet 10 OWNER_AGENT 100 1000)"
    and ?cw = "demo_wallet 20 OWNER_AGENT 200 0"
  have "map (settlement ?t ?w ?cw) [1, 10, 20] = [1, - 40, 39]" by code_simp
  with confirm_settles [of demo_started 1002 ?t ?w "demo_agent 200" ?cw, OF _ _ _ _ _ _ _ _ run [unfolded demo_confirm_def]] run
  show ?thesis
    by (intro exI [of _ ?t] exI [of _ ?w] exI [of _ ?cw] exI [of _ d'] exI [of _ t'])
       (simp only: demo_started_ok demo_lookups demo_agent_simps platform_wallet_id_def add_bal_frame add_res_frame, simp)
qed

section \<open>Idempotent creation\<close>

lemma rh_truthy: "json_truthy h \<and> h \<noteq> JStr rh \<longleftrightarrow> \<not> (json_truthy h \<longrightarrow> h = JStr rh)"
  by auto

text \<open>A stored pair that the short circuit returns makes the whole call return it.\<close>

lemma create_returns_hit:
  assumes "parse_currency (ca_currency c) = Some cur" and "request_fingerprint sha show_id c = Inr rh"
    and "key_given (ca_idem_key c)" and "txn_by_key d (ca_idem_key c) = Some x"
    and "jget (x_extra x) ''request_hash'' \<in> {None, Some JNull, Some (JStr rh)}" and "task_of_txn d x = Some t"
  shows "create_task_with_escrow schema_ok sha show_id clk fresh d d' caller c = Inr (d', t, x)"
proof -
  have "idempotent_hit d c rh = Inr (Some (t, x))"
    using assms by (auto simp: idempotent_hit_def)
  with assms show ?thesis by (simp add: create_task_with_escrow_def)
qed

lemma created_is_found:
  assumes "commit_creation today w t x d = Inr d'" and "x_idem x = k" and "k \<noteq> None" and "x_task x = Some (t_id t)"
  shows "txn_by_key d' k = Some x \<and> task_of_txn d' x = Some t"
proof -
  have "\<forall>y \<in> set (db_txns d). x_idem y \<noteq> k"
    using assms by (auto simp: commit_creation_def bindE_Inr insert_txn_def list_ex_iff insert_task_def
        write_wallet_eq split: if_splits)
  then have "find (\<lambda>y. x_idem y = k) (db_txns d) = None" by (simp add: find_None_iff)
  moreover have "find (\<lambda>u. t_id u = t_id t) (db_tasks d) = None"
    using commit_creation_Inr [OF assms(1)] by (simp add: find_None_iff)
  ultimately show ?thesis
    using commit_creation_Inr [OF assms(1)] assms(2,4)
    by (simp add: txn_by_key_def task_of_txn_def get_task_def find_append)
qed

lemma create_repeat:
  assumes "key_given (ca_idem_key c)" and "txn_by_key d (ca_idem_key c) = None"
    and "create_task_with_escrow schema_ok sha show_id clk fresh d d' caller c = Inr (d1, t, x)"
  shows "create_task_with_escrow schema_ok' sha show_id clk' fresh' d1 d1 caller' c = Inr (d1, t, x)"
proof -
  from assms(3) obtain cur rh hit where cur: "parse_currency (ca_currency c) = Some cur"
    and rh: "request_fingerprint sha show_id c = Inr rh" and hit: "idempotent_hit d c rh = Inr hit"
    by (auto simp: create_task_with_escrow_def bindE_Inr)
  from hit assms(1,2) have "hit = None" by (simp add: idempotent_hit_def)
  with assms(3) cur rh hit obtain w price ih where
    "(case commit_creation (day_start (clk 1)) w (new_task clk fresh caller c cur price ih)
          (new_txn clk fresh (w_id w) c cur price ih rh) d' of
       Inr d1 \<Rightarrow> Inr (d1, new_task clk fresh caller c cur price ih, new_txn clk fresh (w_id w) c cur price ih rh)
     | Inl IntegrityError \<Rightarrow> recover_conflict d' c rh
     | Inl e \<Rightarrow> Inl (DbError e)) = Inr (d1, t, x)"
    apply (simp add: create_task_with_escrow_def bindE_Inr Let_def del: One_nat_def)
    apply (elim exE conjE)
    apply (rule that)
    apply assumption
    done
  then consider
      (new) "commit_creation (day_start (clk 1)) w t x d' = Inr d1" "t = new_task clk fresh caller c cur price ih"
        "x = new_txn clk fresh (w_id w) c cur price ih rh"
    | (lost) "recover_conflict d' c rh = Inr (d1, t, x)"
    by (auto split: sum.splits db_error.splits simp del: One_nat_def)
  then show ?thesis
  proof cases
    case new
    have "x_idem x = ca_idem_key c" "x_task x = Some (t_id t)" "jget (x_extra x) ''request_hash'' = Some (JStr rh)"
      by (simp_all add: new new_txn_def new_task_def jget_def)
    with created_is_found [OF new(1)] assms(1) cur rh show ?thesis
      by (intro create_returns_hit [where rh = rh]) (auto simp: key_given_def split: option.splits)
  next
    case lost
    then have "d1 = d'" "txn_by_key d' (ca_idem_key c) = Some x" "task_of_txn d' x = Some t"
      "jget (x_extra x) ''request_hash'' \<in> {None, Some JNull, Some (JStr rh)}"
      using assms(1) by (auto simp: recover_conflict_def split: option.splits if_splits)
    with assms(1) cur rh show ?thesis by (intro create_returns_hit [where rh = rh]) auto
  qed
qed

text \<open>
  C28: creation is idempotent under an \<open>Idempotency-Key\<close>: after a creation the same request,
  repeated at any later time and by any handler, returns the same task and transaction and leaves
  the database as it is. This includes the loser of a race, which returned the winner's task.
\<close>

theorem create_idempotent:
  assumes "key_given (ca_idem_key c)" and "txn_by_key d (ca_idem_key c) = None"
    and "create_task_with_escrow schema_ok sha show_id clk fresh d d' caller c = Inr (d1, t, x)"
  shows "create_task_with_escrow schema_ok' sha show_id clk' fresh' d1 d1 caller' c = Inr (d1, t, x)"
  using assms by (rule create_repeat)

theorem create_idempotent_witness:
  "\<exists>t x. demo_create demo_db demo_args = Inr (demo_created, t, x) \<and>
    create_task_with_escrow (\<lambda>_ _. False) demo_sha show_nat (\<lambda>n. 99) demo_fresh demo_created demo_created 200 demo_args =
      Inr (demo_created, t, x)"
proof -
  have "key_given (ca_idem_key demo_args)" "txn_by_key demo_db (ca_idem_key demo_args) = None"
    by (simp_all add: key_given_def demo_args_def txn_by_key_def demo_db_def)
  with demo_create_runs create_idempotent show ?thesis unfolding demo_create_def by blast
qed

text \<open>
  A key that was used with one payload is refused for another: if the stored fingerprint
  differs, the call raises and nothing is written.
\<close>

theorem create_refuses_key_reuse:
  assumes "parse_currency (ca_currency c) = Some cur" and "request_fingerprint sha show_id c = Inr rh"
    and "key_given (ca_idem_key c)" and "txn_by_key d (ca_idem_key c) = Some x"
    and "jget (x_extra x) ''request_hash'' = Some (JStr rh0)" and "rh0 \<noteq> rh" and "rh0 \<noteq> []"
  shows "create_task_with_escrow schema_ok sha show_id clk fresh d d' caller c = Inl (EscrowError IdempotencyKeyReused)"
  using assms by (simp add: create_task_with_escrow_def idempotent_hit_def)

theorem create_refuses_key_reuse_witness:
  "demo_create demo_created (demo_args\<lparr>ca_max_budget := 600\<rparr>) = Inl (EscrowError IdempotencyKeyReused)"
proof -
  have "request_fingerprint demo_sha show_nat (demo_args\<lparr>ca_max_budget := 600\<rparr>) = Inr ''105''" by code_simp
  moreover have "txn_by_key demo_created (ca_idem_key (demo_args\<lparr>ca_max_budget := 600\<rparr>)) = Some demo_txn"
    using demo_lookups(4) by (simp add: demo_args_def)
  moreover have "parse_currency (ca_currency (demo_args\<lparr>ca_max_budget := 600\<rparr>)) = Some CREDITS"
    "key_given (ca_idem_key (demo_args\<lparr>ca_max_budget := 600\<rparr>))" "''104'' \<noteq> ''105''" by code_simp+
  ultimately show ?thesis
    unfolding demo_create_def
    by (intro create_refuses_key_reuse [where cur = CREDITS and x = demo_txn and ?rh0.0 = "''104''"])
       (assumption | simp add: demo_txn_def jget_def)+
qed

end
