(* ===== verification/MoneySystem.thy ===== *)
theory MoneySystem
  imports EscrowBook Payments Approvals Worker TaskProps
begin

text \<open>
  The money path as one system: any interleaving of the registry's task operations, the payment
  routes, the worker's passes and the expiry of approvals. The steps keep the accounts, refine the
  escrow book, and never reopen a finished task. Left out are the two operations that break the
  accounts, the denial of an approval and the simulation timeout; theory \<open>MoneyProps\<close> has their
  properties.
\<close>

section \<open>The book of a database\<close>

definition hold_of :: "mdb \<Rightarrow> task \<Rightarrow> uid \<times> uid \<times> currency \<times> int" where
  "hold_of d t = (t_id t, (case payer d t of None \<Rightarrow> 0 | Some i \<Rightarrow> i), t_currency t, t_escrow t)"

definition live_tasks :: "mdb \<Rightarrow> task list" where
  "live_tasks d = filter (\<lambda>t. live (t_status t)) (db_tasks d)"

definition book_of :: "mdb \<Rightarrow> book" where
  "book_of d = \<lparr>bk_bal = (\<lambda>c i. case get_wallet d i of None \<Rightarrow> 0 | Some w \<Rightarrow> bal c w),
    bk_holds = map (hold_of d) (live_tasks d)\<rparr>"

definition on_ids :: "mdb \<Rightarrow> (currency \<Rightarrow> uid \<Rightarrow> int) \<Rightarrow> currency \<Rightarrow> uid \<Rightarrow> int" where
  "on_ids d \<beta> = (\<lambda>c i. if i \<in> w_id ` set (db_wallets d) then \<beta> c i else 0)"

lemma book_bal_shift:
  assumes "wallet_shift \<rho> \<beta> d d'"
  shows "bk_bal (book_of d') c i = bk_bal (book_of d) c i + on_ids d \<beta> c i"
proof -
  have "(case find (\<lambda>w. w_id w = i) ws' of None \<Rightarrow> 0 | Some w \<Rightarrow> bal c w) =
    (case find (\<lambda>w. w_id w = i) ws of None \<Rightarrow> 0 | Some w \<Rightarrow> bal c w) + (if i \<in> w_id ` set ws then \<beta> c i else 0)"
    if "list_all2 (\<lambda>v v'. same_owner v v' \<and> (\<forall>c. res c v' = res c v + \<rho> c (w_id v) \<and> bal c v' = bal c v + \<beta> c (w_id v))) ws ws'"
    for ws ws'
    using that by (induction rule: list_all2_induct) (auto simp: same_owner_def)
  with assms show ?thesis by (simp add: book_of_def get_wallet_def wallet_shift_def on_ids_def)
qed

lemma hold_of_shift: "wallet_shift \<rho> \<beta> d d' \<Longrightarrow> hold_of d' = hold_of d"
  by (intro ext) (simp add: hold_of_def payer_shift)

lemma payer_id: "payer d t = Some i \<Longrightarrow> i \<in> w_id ` set (db_wallets d)"
  by (auto simp: payer_def dest: agent_wallet_mem)

lemma live_payer: "escrow_ok d \<Longrightarrow> t \<in> set (db_tasks d) \<Longrightarrow> live (t_status t) \<Longrightarrow> \<exists>i. payer d t = Some i"
  by (meson live_task_backing payer_of_wallet)

text \<open>The holds of the book are the claims on the reservation columns.\<close>

lemma held_book:
  assumes "escrow_ok d"
  shows "held (book_of d) c i = claims d c i"
proof -
  have "(if live (t_status t) then hold_amount c i (hold_of d t) else 0) = claim_of d c i t" if "t \<in> set (db_tasks d)" for t
    using live_payer [OF assms that] by (auto simp: claim_of_def hold_amount_def hold_of_def)
  then have "sum_list (map (\<lambda>t. if live (t_status t) then hold_amount c i (hold_of d t) else 0) (db_tasks d)) = claims d c i"
    unfolding claims_def by (intro arg_cong [where f = sum_list] map_cong) auto
  then show ?thesis by (simp add: held_def book_of_def live_tasks_def o_def sum_filter_if)
qed

lemma held_le_bal:
  assumes "escrow_ok d" and "solvent d"
  shows "held (book_of d) c i \<le> bk_bal (book_of d) c i"
proof (cases "get_wallet d i")
  case (Some w)
  then have "w \<in> set (db_wallets d)" "w_id w = i" by (auto simp: get_wallet_mem)
  moreover have "bk_bal (book_of d) c i = bal c w" using Some by (simp add: book_of_def)
  ultimately show ?thesis
    using assms by (auto simp: held_book escrow_ok_def reserved_ok_def solvent_def)
next
  case None
  then have no: "i \<notin> w_id ` set (db_wallets d)" by (auto simp: get_wallet_def find_None_iff)
  have "claim_of d c i t = 0" for t using no payer_id [of d t i] by (auto simp: claim_of_def)
  then have "claims d c i = 0" by (simp add: claims_def sum_list_0 cong: map_cong)
  moreover have "bk_bal (book_of d) c i = 0" using None by (simp add: book_of_def)
  ultimately show ?thesis using assms(1) by (simp add: held_book)
qed

lemma book_unchanged:
  assumes "wallet_shift \<rho> no_shift d d'" and "map (hold_of d) (live_tasks d') = map (hold_of d) (live_tasks d)"
  shows "book_of d' = book_of d"
proof -
  have "bk_bal (book_of d') = bk_bal (book_of d)"
    by (intro ext) (simp add: book_bal_shift [OF assms(1)] on_ids_def no_shift_def)
  moreover have "bk_holds (book_of d') = bk_holds (book_of d)"
    by (simp add: book_of_def hold_of_shift [OF assms(1)] assms(2))
  ultimately show ?thesis by simp
qed

lemma book_moved:
  assumes "wallet_shift \<rho> \<beta> d d'" and "db_tasks d' = db_tasks d"
  shows "book_of d' = add_to (on_ids d \<beta>) (book_of d)"
proof -
  have "bk_bal (book_of d') = bk_bal (add_to (on_ids d \<beta>) (book_of d))"
    by (intro ext) (simp add: book_bal_shift [OF assms(1)])
  moreover have "bk_holds (book_of d') = bk_holds (add_to (on_ids d \<beta>) (book_of d))"
    by (simp add: book_of_def add_to_def hold_of_shift [OF assms(1)] assms(2) live_tasks_def)
  ultimately show ?thesis by simp
qed

lemma live_tasks_end:
  assumes "\<not> live (t_status t')"
  shows "filter (\<lambda>u. live (t_status u)) (upd_key t_id tid (\<lambda>_. t') ts) =
    filter (\<lambda>u. t_id u \<noteq> tid) (filter (\<lambda>u. live (t_status u)) ts)"
  using assms by (induction ts) auto

lemma book_ended:
  assumes "wallet_shift \<rho> \<beta> d d'" and "db_tasks d' = upd_key t_id tid (\<lambda>_. t') (db_tasks d)" and "\<not> live (t_status t')"
  shows "book_of d' = add_to (on_ids d \<beta>) (drop_hold tid (book_of d))"
proof -
  have "bk_bal (book_of d') = bk_bal (add_to (on_ids d \<beta>) (drop_hold tid (book_of d)))"
    by (intro ext) (simp add: book_bal_shift [OF assms(1)])
  moreover have "bk_holds (book_of d') = bk_holds (add_to (on_ids d \<beta>) (drop_hold tid (book_of d)))"
    by (simp add: book_of_def add_to_def drop_hold_def hold_of_shift [OF assms(1)] assms(2) live_tasks_def
        live_tasks_end [OF assms(3)] filter_map o_def hold_of_def)
  ultimately show ?thesis by simp
qed

lemma on_ids_no_shift [simp]: "on_ids d no_shift = no_shift"
  by (intro ext) (simp add: on_ids_def no_shift_def)

lemma add_to_no_shift [simp]: "add_to no_shift b = b"
  by (simp add: add_to_def no_shift_def)

lemma held_in_book:
  assumes "t \<in> set (db_tasks d)" and "live (t_status t)" and "payer d t = Some i"
  shows "(t_id t, i, t_currency t, t_escrow t) \<in> set (bk_holds (book_of d))"
  using assms by (force simp: book_of_def live_tasks_def hold_of_def)

text \<open>A refund is a release of the book.\<close>

lemma book_release:
  assumes "get_task d tid = Some t" and "live (t_status t)" and "payer d t = Some i"
    and "wallet_shift \<rho> no_shift d d'" and "db_tasks d' = upd_key t_id tid (\<lambda>_. t') (db_tasks d)" and "\<not> live (t_status t')"
  shows "book_step (book_of d) (book_of d')"
proof -
  have "(t_id t, i, t_currency t, t_escrow t) \<in> set (bk_holds (book_of d))"
    using assms(1-3) by (intro held_in_book) (auto dest: get_task_mem)
  moreover have "t_id t = tid" using assms(1) by (auto dest: get_task_mem)
  ultimately show ?thesis
    using book_ended [OF assms(4-6)] book_step.release by auto
qed

section \<open>The steps of the services\<close>

text \<open>
  \<open>create\<close> reads \<open>d0\<close> and commits on \<open>d\<close>, between which other sessions may have
  committed; the lock on the caller's wallet makes that row the same in both.
\<close>

inductive money_step :: "mdb \<Rightarrow> mdb \<Rightarrow> bool" where
  create: "agent_wallet d0 caller = agent_wallet d caller \<Longrightarrow>
    create_task_with_escrow schema_ok sha show_id clk fresh d0 d caller c = Inr (d', t, x) \<Longrightarrow> money_step d d'"
| start: "start_task clk fresh d i callee = Inr (d', t) \<Longrightarrow> money_step d d'"
| confirm: "confirm_task_completion schema_ok clk fresh d ag i outp = Inr (d', t) \<Longrightarrow> money_step d d'"
| fail: "fail_task_with_refund clk fresh d i msg callee s = Inr (d', t) \<Longrightarrow> money_step d d'"
| cancel: "cancel_task_with_refund clk fresh d i caller = Inr (d', t) \<Longrightarrow> money_step d d'"
| timeout: "timeout_one now new_span i d = Inr d' \<Longrightarrow> money_step d d'"
| pay: "create_transaction new_id now d p r = Inr (d', i) \<Longrightarrow> money_step d d'"
| settle_pay: "confirm_transaction now d user i = Inr d' \<Longrightarrow> money_step d d'"
| settings: "update_wallet d user i u = Inr d' \<Longrightarrow> money_step d d'"
| fund: "fund_wallet_dev env d user i amount cur = Inr d' \<Longrightarrow> money_step d d'"
| expire: "expire_one meta_items now p d = Inr d' \<Longrightarrow> money_step d d'"
| daily: "money_step d (reset_daily_metrics now d)"
| offline: "money_step d (process_offline_agents now d)"

definition money_ok :: "mdb \<Rightarrow> bool" where
  "money_ok d \<longleftrightarrow> escrow_ok d \<and> solvent d"

lemma timeout_one_cases:
  assumes "escrow_ok d" and "solvent d" and "timeout_one now s i d = Inr d'"
  shows "d' = d \<or> (\<exists>t j t'. get_task d i = Some t \<and> live (t_status t) \<and> payer d t = Some j \<and> escrow_ok d' \<and> solvent d' \<and>
    wallet_shift (on_wallet (t_currency t) j (- t_escrow t)) no_shift d d' \<and>
    db_tasks d' = upd_key t_id i (\<lambda>_. t') (db_tasks d) \<and> t_id t' = i \<and> \<not> live (t_status t'))"
proof (cases "\<exists>t. get_task d i = Some t \<and> live (t_status t)")
  case True
  then obtain t where t: "get_task d i = Some t" "live (t_status t)" by blast
  from timeout_one_effect [OF assms(1,2) t, of now s] assms(3) obtain w where
    "agent_wallet d (t_caller t) = Some w" "escrow_ok d'" "solvent d'"
    "wallet_shift (on_wallet (t_currency t) (w_id w) (- t_escrow t)) no_shift d d'"
    "db_tasks d' = upd_key t_id i (\<lambda>_. t\<lparr>t_status := TS_TIMEOUT, t_refund_at := Some now,
      t_error := Some ''Task timed out'', t_completed_at := Some now\<rparr>) (db_tasks d)" by auto
  moreover have "t_id t = i" using t(1) by (auto dest: get_task_mem)
  ultimately show ?thesis using t
    by (intro disjI2 exI [of _ t] exI [of _ "w_id w"]
        exI [of _ "t\<lparr>t_status := TS_TIMEOUT, t_refund_at := Some now, t_error := Some ''Task timed out'', t_completed_at := Some now\<rparr>"])
       (simp add: payer_of_wallet live_def)
next
  case False
  then have "timeout_one now s i d = Inr d" by (intro timeout_one_skip) auto
  with assms(3) show ?thesis by simp
qed

lemma refund_cases:
  assumes ok: "escrow_ok d" "solvent d" and t: "get_task d i = Some t" and s: "\<not> live s"
    and run: "refund_locked clk fresh d t s msg = Inr (d', t')"
  shows "\<exists>j. live (t_status t) \<and> payer d t = Some j \<and> t_id t' = i \<and> \<not> live (t_status t') \<and>
    wallet_shift (on_wallet (t_currency t) j (- t_escrow t)) no_shift d d' \<and>
    db_tasks d' = upd_key t_id i (\<lambda>_. t') (db_tasks d)"
proof -
  from t have mem: "t \<in> set (db_tasks d)" "t_id t = i" by (auto dest: get_task_mem)
  from refund_preserves [OF ok mem(1) s run] refund_tasks [OF run] refund_Inr [OF run] s mem(2)
  show ?thesis by (auto dest: allowed_live)
qed

lemma fail_cases:
  assumes "escrow_ok d" and "solvent d" and "fail_task_with_refund clk fresh d i msg callee s = Inr (d', t')"
  shows "d' = d \<or> (\<exists>t j. get_task d i = Some t \<and> live (t_status t) \<and> payer d t = Some j \<and> t_id t' = i \<and> \<not> live (t_status t') \<and>
    wallet_shift (on_wallet (t_currency t) j (- t_escrow t)) no_shift d d' \<and>
    db_tasks d' = upd_key t_id i (\<lambda>_. t') (db_tasks d))"
proof -
  from assms(3) obtain t where t: "get_task d i = Some t" "s \<in> {TS_FAILED, TS_TIMEOUT}"
    and r: "d' = d \<or> refund_locked clk fresh d t s msg = Inr (d', t')"
    by (auto simp: fail_task_with_refund_def bindE_Inr split: if_splits)
  then show ?thesis using refund_cases [OF assms(1,2) t(1), of s] by (auto simp: live_def)
qed

lemma cancel_cases:
  assumes "escrow_ok d" and "solvent d" and "cancel_task_with_refund clk fresh d i caller = Inr (d', t')"
  shows "d' = d \<or> (\<exists>t j. get_task d i = Some t \<and> live (t_status t) \<and> payer d t = Some j \<and> t_id t' = i \<and> \<not> live (t_status t') \<and>
    wallet_shift (on_wallet (t_currency t) j (- t_escrow t)) no_shift d d' \<and>
    db_tasks d' = upd_key t_id i (\<lambda>_. t') (db_tasks d))"
proof -
  from assms(3) obtain t where t: "get_task d i = Some t"
    and r: "d' = d \<or> refund_locked clk fresh d t TS_FAILED canceled_by_caller = Inr (d', t')"
    by (auto simp: cancel_task_with_refund_def bindE_Inr split: if_splits)
  then show ?thesis using refund_cases [OF assms(1,2) t(1), of TS_FAILED] by (auto simp: live_def)
qed

lemma expire_cases:
  assumes "escrow_ok d" and "solvent d" and "expire_one m now p d = Inr d'"
  shows "(db_wallets d' = db_wallets d \<and> db_tasks d' = db_tasks d) \<or>
    (\<exists>i t j t'. get_task d i = Some t \<and> live (t_status t) \<and> payer d t = Some j \<and> t_id t' = i \<and> \<not> live (t_status t') \<and>
    wallet_shift (on_wallet (t_currency t) j (- t_escrow t)) no_shift d d' \<and>
    db_tasks d' = upd_key t_id i (\<lambda>_. t') (db_tasks d))"
proof -
  let ?d1 = "set_approval (p_id p) (\<lambda>q. q\<lparr>p_status := AP_DENIED, p_responded_at := Some now, p_denied_at := Some now,
            p_description := p_description q @ newline2 @ ''Expired: auto-denied by system''\<rparr>) d"
  from assms(3) consider "d' = ?d1" | i t where "get_task d i = Some t" "live (t_status t)"
    "undo_escrow m ''Payment approval expired'' ?d1 t = Inr d'"
    by (auto simp: expire_one_def Let_def live_def split: option.splits if_splits)
  then show ?thesis
  proof cases
    case 2
    have "get_task ?d1 i = Some t" "escrow_ok ?d1" "solvent ?d1" using 2(1) assms by simp_all
    from undo_escrow_preserves [OF this(2,3,1) 2(2,3)] obtain j t' where
      "payer ?d1 t = Some j" "t_id t' = i" "\<not> live (t_status t')"
      "wallet_shift (on_wallet (t_currency t) j (- t_escrow t)) no_shift ?d1 d'"
      "db_tasks d' = upd_key t_id i (\<lambda>_. t') (db_tasks ?d1)" by blast
    moreover have "payer ?d1 = payer d" by (rule payer_same_wallets) simp
    moreover have "wallet_shift \<rho> \<beta> ?d1 d' = wallet_shift \<rho> \<beta> d d'" for \<rho> \<beta> by (simp add: wallet_shift_def)
    ultimately show ?thesis using 2(1,2)
      by (intro disjI2 exI [of _ i] exI [of _ t] exI [of _ j] exI [of _ t']) simp
  qed simp
qed

text \<open>Every step is one of five moves on the accounts and the task table.\<close>

inductive account_move :: "mdb \<Rightarrow> mdb \<Rightarrow> bool" where
  still: "wallet_shift no_shift no_shift d d' \<Longrightarrow> db_tasks d' = db_tasks d \<Longrightarrow> account_move d d'"
| restarted: "db_wallets d' = db_wallets d \<Longrightarrow> get_task d i = Some t \<Longrightarrow> live (t_status t) \<Longrightarrow> live s \<Longrightarrow>
    db_tasks d' = upd_key t_id i (\<lambda>_. t\<lparr>t_status := s\<rparr>) (db_tasks d) \<Longrightarrow> account_move d d'"
| opened: "payer d t = Some i \<Longrightarrow> live (t_status t) \<Longrightarrow> 0 \<le> t_escrow t \<Longrightarrow> (\<forall>u \<in> set (db_tasks d). t_id u \<noteq> t_id t) \<Longrightarrow>
    wallet_shift (on_wallet (t_currency t) i (t_escrow t)) no_shift d d' \<Longrightarrow>
    db_tasks d' = db_tasks d @ [t] \<Longrightarrow> account_move d d'"
| ended: "get_task d i = Some t \<Longrightarrow> live (t_status t) \<Longrightarrow> payer d t = Some j \<Longrightarrow> \<not> live (t_status t') \<Longrightarrow>
    wallet_shift (on_wallet (t_currency t) j (- t_escrow t)) \<beta> d d' \<Longrightarrow>
    (\<beta> = no_shift \<or> draws \<beta> (t_currency t) j (t_escrow t)) \<Longrightarrow>
    db_tasks d' = upd_key t_id i (\<lambda>_. t') (db_tasks d) \<Longrightarrow> account_move d d'"
| moved: "get_wallet d i = Some w \<Longrightarrow> n * unit_of c \<le> bal c w - res c w \<Longrightarrow> draws \<beta> c i n \<Longrightarrow>
    wallet_shift no_shift \<beta> d d' \<Longrightarrow> db_tasks d' = db_tasks d \<Longrightarrow> account_move d d'"
| funded: "wallet_shift no_shift \<beta> d d' \<Longrightarrow> (\<forall>c i. 0 \<le> \<beta> c i) \<Longrightarrow> db_tasks d' = db_tasks d \<Longrightarrow> account_move d d'"

lemma account_move_refl: "account_move d d"
  by (rule still) (simp_all add: wallet_shift_refl)

lemma confirm_move:
  assumes ok: "escrow_ok d" "solvent d" and run: "confirm_task_completion schema_ok clk fresh d callee i outp = Inr (d', t')"
  shows "account_move d d'"
  using confirm_preserves [OF ok run]
proof (elim conjE disjE exE)
  assume "d' = d"
  then show ?thesis by (simp add: account_move_refl)
next
  fix t w cw x
  assume t: "get_task d i = Some t" "t_status t = TS_IN_PROGRESS" and w: "agent_wallet d (t_caller t) = Some w"
    and x: "x_from x = Some (w_id w)" "x_amount x = t_escrow t" "x_currency x = t_currency t"
    and shift: "wallet_shift (on_wallet (t_currency t) (w_id w) (- t_escrow t)) (payment_shift x) d d'"
  have lv: "live (t_status t)" and mem: "t \<in> set (db_tasks d)" "t_id t = i" using t by (auto simp: live_def dest: get_task_mem)
  have "0 \<le> x_amount x" using backed_nonneg [OF escrow_okD(2) [OF ok(1)] mem(1)] x by simp
  then have dr: "draws (payment_shift x) (t_currency t) (w_id w) (t_escrow t)"
    using payment_shift_lower [of x "w_id w"] x unfolding draws_def by simp
  from confirm_tasks [OF run] show ?thesis
  proof
    assume "d' = d"
    then show ?thesis by (simp add: account_move_refl)
  next
    assume c: "db_tasks d' = upd_key t_id i (\<lambda>_. t') (db_tasks d) \<and> t_id t' = i \<and> \<not> live (t_status t')"
    show ?thesis
      by (rule ended [OF t(1) lv payer_of_wallet [OF w] _ shift]) (use c dr in simp_all)
  qed
qed

lemma confirm_transaction_move:
  assumes run: "confirm_transaction now d user i = Inr d'"
  shows "account_move d d'"
proof -
  from confirm_transaction_Inr [OF run] obtain x f fw where
    x: "get_txn d i = Some x" "x_status x = XS_PENDING" "x_from x = Some f"
    and fw: "get_wallet d f = Some fw" and spend: "check_can_spend fw (x_amount x) (x_currency x) = Inr ()"
    and up: "update_txn (day_start now) (x\<lparr>x_status := XS_COMPLETED, x_completed_at := Some now\<rparr>) d = Inr d'"
    by blast
  let ?y = "x\<lparr>x_status := XS_COMPLETED, x_completed_at := Some now\<rparr>"
  have id: "x_id x = i" using x(1) by (auto dest: get_txn_id)
  have u: "wallet_shift no_shift (payment_shift ?y) d d'" "db_tasks d' = db_tasks d" "0 \<le> x_amount x"
    using update_txn_completed [OF up] x id by simp_all
  have "draws (payment_shift ?y) (x_currency x) f (x_amount x)"
    using payment_shift_lower [of ?y f] u(3) x(3) unfolding draws_def by simp
  with fw check_can_spend_Inr [OF spend] u show ?thesis by (intro moved) auto
qed

lemma money_step_move:
  assumes "money_ok d" and "money_step d d'"
  shows "account_move d d'"
proof -
  have ok: "escrow_ok d" "solvent d" using assms(1) by (simp_all add: money_ok_def)
  from assms(2) show ?thesis
  proof cases
    case (create d0 caller schema_ok sha show_id clk fresh c t x)
    from create_preserves [OF ok create(1,2)] show ?thesis
    proof (elim conjE disjE exE)
      assume "d' = d"
      then show ?thesis by (simp add: account_move_refl)
    next
      fix w assume w: "agent_wallet d caller = Some w" "t_caller t = caller"
        and r: "live (t_status t)" "wallet_shift (on_wallet (t_currency t) (w_id w) (t_escrow t)) no_shift d d'"
        "db_tasks d' = db_tasks d @ [t]" "\<forall>u\<in>set (db_tasks d). t_id u \<noteq> t_id t" "0 \<le> t_escrow t"
      have "payer d t = Some (w_id w)" using w by (simp add: payer_def)
      from opened [OF this r(1,5,4,2,3)] show ?thesis .
    qed
  next
    case (start clk fresh i callee t)
    from start_task_Inr [OF start(1)] show ?thesis
    proof (elim disjE conjE exE)
      assume "d' = d"
      then show ?thesis by (simp add: account_move_refl)
    next
      fix t0 sp assume "get_task d i = Some t0" "t_status t0 = TS_INITIATED" "t = t0\<lparr>t_status := TS_IN_PROGRESS\<rparr>"
        "d' = add_span sp (set_task i (\<lambda>_. t) d)"
      then show ?thesis by (intro restarted [of _ _ i t0 TS_IN_PROGRESS]) (auto simp: live_def db_write_simps)
    qed
  next
    case (confirm schema_ok clk fresh ag i outp t)
    then show ?thesis using confirm_move [OF ok] by blast
  next
    case (fail clk fresh i msg callee s t)
    from fail_cases [OF ok this] show ?thesis by (auto intro: account_move_refl ended)
  next
    case (cancel clk fresh i caller t)
    from cancel_cases [OF ok this] show ?thesis by (auto intro: account_move_refl ended)
  next
    case (timeout now new_span i)
    from timeout_one_cases [OF ok this] show ?thesis by (auto intro: account_move_refl ended)
  next
    case (pay new_id now p r i)
    then have "db_wallets d' = db_wallets d \<and> db_tasks d' = db_tasks d"
      by (auto simp: create_transaction_def bindE_Inr dest!: insert_txn_Inr)
    then show ?thesis by (intro still) (auto simp: wallet_shift_refl)
  next
    case (settle_pay now user i)
    then show ?thesis by (rule confirm_transaction_move)
  next
    case (settings user i u)
    have "bal c (apply_wallet_update u w) = bal c w" "res c (apply_wallet_update u w) = res c w"
      "same_owner w (apply_wallet_update u w)" for c w
      by (cases c; simp add: currency_cases apply_wallet_update_def same_owner_def)+
    moreover have "d' = set_wallet i (apply_wallet_update u) d"
      using settings by (auto simp: update_wallet_def bindE_Inr split: if_splits)
    ultimately show ?thesis
      by (intro still) (simp_all add: wallet_shift_def db_write_simps upd_key_def list.rel_map list_all2_same no_shift_def)
  next
    case (fund env user i amount cur)
    let ?c = "if cur = ''credits'' then CREDITS else USDC"
    from fund obtain n where n: "0 < n" and "write_wallet i (add_bal ?c n) d = Inr d'"
      by (auto simp: fund_wallet_dev_def bindE_Inr split: option.splits if_splits)
    then have "d' = set_wallet i (add_bal ?c n) d" by (auto dest: write_wallet_Inr [rotated])
    with n show ?thesis
      by (intro funded [of "on_wallet ?c i n"]) (auto simp: wallet_shift_add_bal on_wallet_nonneg simp del: if_split)
  next
    case (expire meta_items now p)
    from expire_cases [OF ok this] show ?thesis
      by (auto intro: ended still simp: wallet_shift_refl)
  next
    case (daily now)
    have "bal c (w\<lparr>w_daily_spent := 0, w_daily_reset_at := now\<rparr>) = bal c w"
      "res c (w\<lparr>w_daily_spent := 0, w_daily_reset_at := now\<rparr>) = res c w" for c w
      by (cases c; simp add: currency_cases)+
    then show ?thesis
      by (intro still) (simp_all add: daily reset_daily_metrics_def wallet_shift_def list.rel_map list_all2_same
          same_owner_def no_shift_def)
  next
    case (offline now)
    then show ?thesis by (intro still) (simp_all add: process_offline_agents_def wallet_shift_refl)
  qed
qed

section \<open>Invariant, refinement, finished tasks\<close>

lemma escrow_ok_still:
  assumes "escrow_ok d" and "solvent d" and "wallet_shift no_shift no_shift d d'" and "db_tasks d' = db_tasks d"
    and "db_txns d' = db_txns d"
  shows "escrow_ok d' \<and> solvent d'"
proof
  show "escrow_ok d'"
    by (rule escrow_ok_frame [OF assms(1,3,4)]) (use assms(1,5) in \<open>simp_all add: escrow_ok_def keys_ok_def\<close>)
  show "solvent d'"
    by (rule solvent_shift [OF assms(2,3)]) (use assms(2) in \<open>simp add: solvent_def no_shift_def\<close>)
qed

lemma reset_daily_ok:
  assumes "escrow_ok d" and "solvent d"
  shows "escrow_ok (reset_daily_metrics now d) \<and> solvent (reset_daily_metrics now d)"
proof -
  have "bal c (w\<lparr>w_daily_spent := 0, w_daily_reset_at := now\<rparr>) = bal c w"
    "res c (w\<lparr>w_daily_spent := 0, w_daily_reset_at := now\<rparr>) = res c w" for c w
    by (cases c; simp add: currency_cases)+
  then have "wallet_shift no_shift no_shift d (reset_daily_metrics now d)"
    by (simp add: reset_daily_metrics_def wallet_shift_def list.rel_map list_all2_same same_owner_def no_shift_def)
  from escrow_ok_still [OF assms this] show ?thesis by (simp add: reset_daily_metrics_def)
qed

lemma money_step_ok:
  assumes "money_ok d" and "money_step d d'"
  shows "money_ok d'"
proof -
  have ok: "escrow_ok d" "solvent d" using assms(1) by (simp_all add: money_ok_def)
  from assms(2) show ?thesis unfolding money_ok_def
  proof cases
    case create
    then show "escrow_ok d' \<and> solvent d'" using create_preserves [OF ok] by blast
  next
    case start
    then show "escrow_ok d' \<and> solvent d'" using start_task_preserves [OF ok] by blast
  next
    case confirm
    then show "escrow_ok d' \<and> solvent d'" using confirm_preserves [OF ok] by blast
  next
    case fail
    then show "escrow_ok d' \<and> solvent d'" using fail_preserves [OF ok] by blast
  next
    case cancel
    then show "escrow_ok d' \<and> solvent d'" using cancel_preserves [OF ok] by blast
  next
    case timeout
    then show "escrow_ok d' \<and> solvent d'" using timeout_one_cases [OF ok] ok by blast
  next
    case pay
    then show "escrow_ok d' \<and> solvent d'" using create_transaction_preserves [OF ok] by blast
  next
    case settle_pay
    then show "escrow_ok d' \<and> solvent d'" using confirm_transaction_preserves [OF ok] by blast
  next
    case settings
    then show "escrow_ok d' \<and> solvent d'" using update_wallet_preserves [OF ok] by blast
  next
    case fund
    then show "escrow_ok d' \<and> solvent d'" using fund_wallet_preserves [OF ok] by blast
  next
    case expire
    then show "escrow_ok d' \<and> solvent d'" using expire_one_preserves [OF ok] by blast
  next
    case daily
    then show "escrow_ok d' \<and> solvent d'" using reset_daily_ok [OF ok] by blast
  next
    case offline
    then show "escrow_ok d' \<and> solvent d'"
      using escrow_ok_still [OF ok] by (simp add: process_offline_agents_def wallet_shift_refl)
  qed
qed

lemma live_tasks_restart:
  assumes "live (t_status t)" and "live s" and "\<And>u. u \<in> set ts \<Longrightarrow> t_id u = i \<Longrightarrow> u = t" and "\<And>u s. f (u\<lparr>t_status := s\<rparr>) = f u"
  shows "map f (filter (\<lambda>u. live (t_status u)) (upd_key t_id i (\<lambda>_. t\<lparr>t_status := s\<rparr>) ts)) =
    map f (filter (\<lambda>u. live (t_status u)) ts)"
  using assms(3)
proof (induction ts)
  case (Cons u ts)
  then have "t_id u = i \<Longrightarrow> u = t" by simp
  with Cons assms(1,2,4) show ?case by (cases "t_id u = i") simp_all
qed simp

lemma draws_on_ids:
  assumes "draws \<beta> c i n" and "i \<in> w_id ` set (db_wallets d)"
  shows "draws (on_ids d \<beta>) c i n"
  using assms by (auto simp: draws_def on_ids_def on_wallet_def)

lemma account_move_book:
  assumes ok: "money_ok d" and ok': "money_ok d'" and "account_move d d'"
  shows "book_step\<^sup>*\<^sup>* (book_of d) (book_of d')"
proof -
  have e: "escrow_ok d" "solvent d" and e': "escrow_ok d'" "solvent d'"
    using ok ok' by (simp_all add: money_ok_def)
  from assms(3) show ?thesis
  proof cases
    case still
    then have "book_of d' = book_of d" by (intro book_unchanged) (auto simp: live_tasks_def)
    then show ?thesis by simp
  next
    case (restarted i t s)
    have "u = t" if "u \<in> set (db_tasks d)" "t_id u = i" for u
      using that restarted(2) e(1) by (metis escrow_okD(1) get_task_mem keys_okD(1))
    then have "map (hold_of d) (live_tasks d') = map (hold_of d) (live_tasks d)"
      unfolding live_tasks_def restarted(5)
      by (intro live_tasks_restart [OF restarted(3,4)]) (auto simp: hold_of_def)
    with restarted(1) have "book_of d' = book_of d"
      by (intro book_unchanged [OF wallet_shift_cong [OF wallet_shift_refl]]) auto
    then show ?thesis by simp
  next
    case (opened t i)
    let ?h = "(t_id t, i, t_currency t, t_escrow t)"
    have "bk_bal (book_of d') = bk_bal (book_of d)"
      by (intro ext) (simp add: book_bal_shift [OF opened(5)], simp add: no_shift_def)
    moreover have "bk_holds (book_of d') = bk_holds (book_of d) @ [?h]"
      using opened(1,2) by (simp add: book_of_def hold_of_shift [OF opened(5)] live_tasks_def opened(6) hold_of_def)
    ultimately have eq: "book_of d' = book_of d\<lparr>bk_holds := bk_holds (book_of d) @ [?h]\<rparr>" by simp
    have "held (book_of d') (t_currency t) i = held (book_of d) (t_currency t) i + t_escrow t * unit_of (t_currency t)"
      by (simp add: eq held_def hold_amount_def)
    then have "held (book_of d) (t_currency t) i + t_escrow t * unit_of (t_currency t) \<le> bk_bal (book_of d) (t_currency t) i"
      using held_le_bal [OF e', of "t_currency t" i] by (simp add: eq)
    moreover have "t_id t \<notin> fst ` set (bk_holds (book_of d))"
      using opened(4) by (auto simp: book_of_def live_tasks_def hold_of_def)
    ultimately have "book_step (book_of d) (book_of d')"
      unfolding eq by (intro book_step.hold opened(3))
    then show ?thesis by blast
  next
    case (ended i t j t' \<beta>)
    have mem: "t \<in> set (db_tasks d)" "t_id t = i" using ended(1) by (auto dest: get_task_mem)
    from ended(6) show ?thesis
    proof
      assume "\<beta> = no_shift"
      with ended have "book_step (book_of d) (book_of d')" by (intro book_release) auto
      then show ?thesis by blast
    next
      assume "draws \<beta> (t_currency t) j (t_escrow t)"
      then have "draws (on_ids d \<beta>) (t_currency t) j (t_escrow t)"
        by (rule draws_on_ids [OF _ payer_id [OF ended(3)]])
      with held_in_book [OF mem(1) ended(2,3)] mem(2) book_ended [OF ended(5,7,4)]
      have "book_step (book_of d) (book_of d')" using book_step.settle by auto
      then show ?thesis by blast
    qed
  next
    case (moved i w n c \<beta>)
    have w: "w \<in> set (db_wallets d)" "w_id w = i" using moved(1) by (auto simp: get_wallet_mem)
    have "held (book_of d) c i = res c w" using e(1) w by (auto simp: held_book escrow_ok_def reserved_ok_def)
    moreover have "bk_bal (book_of d) c i = bal c w" using moved(1) by (simp add: book_of_def)
    ultimately have "held (book_of d) c i + n * unit_of c \<le> bk_bal (book_of d) c i" using moved(2) by simp
    moreover have "draws (on_ids d \<beta>) c i n" using moved(3) w by (intro draws_on_ids) auto
    ultimately have "book_step (book_of d) (book_of d')"
      unfolding book_moved [OF moved(4,5)] by (rule book_step.transfer)
    then show ?thesis by blast
  next
    case (funded \<beta>)
    then have "book_step (book_of d) (book_of d')"
      unfolding book_moved [OF funded(1,3)] by (intro book_step.deposit) (simp add: on_ids_def)
    then show ?thesis by blast
  qed
qed

lemma account_move_finished:
  assumes "money_ok d" and "account_move d d'" and "t \<in> set (db_tasks d)" and "\<not> live (t_status t)"
  shows "t \<in> set (db_tasks d')"
proof -
  have keep: "t \<in> set (upd_key t_id i f (db_tasks d))" if "get_task d i = Some u" "live (t_status u)" for i u f
  proof (rule upd_key_keep [OF assms(3)])
    show "t_id t \<noteq> i"
      using that assms by (metis escrow_okD(1) get_task_mem keys_okD(1) money_ok_def)
  qed
  from assms(2) show ?thesis by cases (use assms(3) keep in simp_all)
qed

definition money_start :: "mdb \<Rightarrow> bool" where
  "money_start d \<longleftrightarrow> keys_ok d \<and> db_tasks d = [] \<and> list_all (\<lambda>x. x_task x = None) (db_txns d) \<and>
    list_all (\<lambda>w. w_res_credits w = 0 \<and> w_res_usdc w = 0 \<and> 0 \<le> w_bal_credits w \<and> 0 \<le> w_bal_usdc w) (db_wallets d)"

lemma money_start_ok: "money_start d \<Longrightarrow> money_ok d"
  by (auto simp: money_start_def money_ok_def escrow_ok_def reserved_ok_def backed_def claims_def solvent_def
      list_all_iff pends_def res_def bal_def split: currency.splits)

interpretation money: simulation money_start money_step money_ok book_of book_step
proof
  fix d d' :: mdb
  show "money_start d \<Longrightarrow> money_ok d" by (rule money_start_ok)
  assume ok: "money_ok d" and st: "money_step d d'"
  show ok': "money_ok d'" using ok st by (rule money_step_ok)
  show "book_step\<^sup>*\<^sup>* (book_of d) (book_of d')"
    using ok ok' money_step_move [OF ok st] by (rule account_move_book)
qed

end
