(* ===== verification/MoneyProps.thy ===== *)
theory MoneyProps
  imports MoneySystem
begin

text \<open>
  The properties of the money path as a whole, and of the two operations outside it that break
  the accounts.
\<close>

section \<open>Safety of every interleaving\<close>

text \<open>
  C1: whatever interleaving of task operations, direct payments, funding, wallet settings, worker
  refunds and approval expiries follows a fresh start, every wallet's reservation is exactly the sum
  of the escrows of the live tasks it pays for, live tasks and pending task payments correspond one
  to one, and no wallet reserves more than it holds.
\<close>

theorem money_path_safe:
  assumes "money_start d" and "money_step\<^sup>*\<^sup>* d d'"
  shows "escrow_ok d' \<and> solvent d'"
  using money.reachable_inv [OF assms] by (simp add: money_ok_def)

lemma demo_start_state: "money_start demo_db"
  by (simp add: money_start_def keys_ok_def demo_db_def demo_wallet_def)

lemma demo_steps: "money_step\<^sup>*\<^sup>* demo_db demo_started"
proof -
  have "money_step demo_db demo_created"
    by (rule money_step.create [OF refl demo_create_runs [unfolded demo_create_def]])
  moreover have "money_step demo_created demo_started"
    by (rule money_step.start [OF demo_start_runs [unfolded demo_start_def]])
  ultimately show ?thesis by (meson rtranclp.rtrancl_into_rtrancl rtranclp.rtrancl_refl)
qed

theorem money_path_safe_witness:
  "(\<exists>d. money_step\<^sup>*\<^sup>* demo_db d \<and> map t_status (db_tasks d) = [TS_IN_PROGRESS] \<and> escrow_ok d \<and> solvent d)"
proof -
  have "map t_status (db_tasks demo_started) = [TS_IN_PROGRESS]"
    by (simp add: demo_started_def db_write_simps add_span_def demo_task_def)
  with money_path_safe [OF demo_start_state demo_steps] demo_steps show ?thesis
    by (intro exI [of _ demo_started]) (simp only:)
qed





section \<open>The refund pass of the worker\<close>

text \<open>
  C15: one pass of the worker over an accounted, solvent database refunds every overdue task: no
  iteration fails, no live task past its deadline is left, and the accounts stay balanced.
\<close>

theorem timeout_pass_complete:
  assumes "escrow_ok d" and "solvent d"
  shows "escrow_ok (process_timed_out_tasks now fresh d) \<and> solvent (process_timed_out_tasks now fresh d) \<and>
    filter (overdue now) (db_tasks (process_timed_out_tasks now fresh d)) = []"
proof -
  note s = timeout_each_sound [OF assms, of now fresh 0 "map t_id (filter (overdue now) (db_tasks d))"]
  have "\<not> overdue now t" if t: "t \<in> set (db_tasks (process_timed_out_tasks now fresh d))" for t
  proof
    assume o: "overdue now t"
    then have "live (t_status t)" by (simp add: overdue_def live_def)
    with conjunct2 [OF conjunct2 [OF s]] t
    have "t \<in> set (db_tasks d) \<and> t_id t \<notin> set (map t_id (filter (overdue now) (db_tasks d)))"
      unfolding process_timed_out_tasks_def by blast
    with o show False by auto
  qed
  then have "filter (overdue now) (db_tasks (process_timed_out_tasks now fresh d)) = []"
    by (simp only: filter_empty_conv) blast
  with conjunct1 [OF s] conjunct1 [OF conjunct2 [OF s]] show ?thesis
    unfolding process_timed_out_tasks_def by (intro conjI)
qed

theorem timeout_pass_complete_witness:
  "escrow_ok (process_timed_out_tasks 400000000 demo_fresh demo_started) \<and>
    solvent (process_timed_out_tasks 400000000 demo_fresh demo_started) \<and>
    filter (overdue 400000000) (db_tasks (process_timed_out_tasks 400000000 demo_fresh demo_started)) = []"
  by (rule timeout_pass_complete) (simp_all add: demo_started_ok)

section \<open>Operations that break the accounts\<close>

text \<open>
  the simulation timeout breaks the accounts: for every stuck simulation task with a positive
  escrow the caller's wallet keeps a reservation that no live task accounts for, and no later
  refund pass ever selects the task again, whatever the time.
\<close>

theorem simulation_timeout_strands_escrow:
  assumes "escrow_ok d" and "t \<in> set (db_tasks d)" and "stuck_simulation now secs t" and "0 < t_escrow t"
    and "agent_wallet d (t_caller t) = Some w"
  shows "\<exists>d'. d' = process_timed_out_simulations now secs d \<and> agent_wallet d' (t_caller t) = Some w \<and>
    claims d' (t_currency t) (w_id w) < res (t_currency t) w \<and>
    (\<exists>u \<in> set (db_tasks d'). t_id u = t_id t \<and> (\<forall>later. \<not> overdue later u))"
proof -
  let ?d' = "process_timed_out_simulations now secs d"
  let ?f = "\<lambda>u. if stuck_simulation now secs u then u\<lparr>t_status := TS_TIMEOUT,
    t_error := Some ''Simulation timed out'', t_refund_at := Some now\<rparr> else u"
  have pay: "payer ?d' = payer d" by (rule payer_same_wallets) (simp add: process_timed_out_simulations_def)
  have "claim_of ?d' c i (?f u) \<le> claim_of d c i u" if "u \<in> set (db_tasks d)" for c i u
    using that backed_nonneg [OF escrow_okD(2) [OF assms(1)]]
    by (auto simp: claim_of_def live_def pay payer_def)
  moreover have "claim_of ?d' (t_currency t) (w_id w) (?f t) < claim_of d (t_currency t) (w_id w) t"
    using assms(3-5) by (auto simp: claim_of_def live_def payer_def stuck_simulation_def)
  ultimately have "claims ?d' (t_currency t) (w_id w) < claims d (t_currency t) (w_id w)"
    using sum_list_strict [OF _ assms(2), of "claim_of ?d' (t_currency t) (w_id w) \<circ> ?f" "claim_of d (t_currency t) (w_id w)"]
    by (simp add: claims_def process_timed_out_simulations_def upd_where_def)
  moreover have "claims d (t_currency t) (w_id w) = res (t_currency t) w"
    using assms(1,5) agent_wallet_mem by (auto simp: escrow_ok_def reserved_ok_def)
  moreover have "?f t \<in> set (db_tasks ?d')"
    using assms(2) by (auto simp: process_timed_out_simulations_def set_upd_where)
  then have "\<exists>u \<in> set (db_tasks ?d'). t_id u = t_id t \<and> (\<forall>later. \<not> overdue later u)"
    using assms(3) by (intro bexI [of _ "?f t"]) (auto simp: overdue_def)
  ultimately show ?thesis
    using assms(5) by (simp add: agent_wallet_def process_timed_out_simulations_def)
qed


definition demo_sim :: mdb where
  "demo_sim = demo_started\<lparr>db_tasks := [demo_task TS_IN_PROGRESS\<lparr>t_capability := ''swarm_simulation''\<rparr>]\<rparr>"

lemma demo_sim_ok: "escrow_ok demo_sim"
proof -
  have "payer demo_sim = payer demo_started" by (rule payer_same_wallets) (simp add: demo_sim_def)
  then have "keys_ok demo_sim = keys_ok demo_started" "reserved_ok demo_sim = reserved_ok demo_started"
    "backed demo_sim = backed demo_started"
    by (simp_all add: keys_ok_def reserved_ok_def backed_def claims_def claim_of_def [abs_def] backs_def
        demo_sim_def demo_started_def demo_task_def payer_def agent_wallet_def)
  with demo_started_ok show ?thesis by (simp add: escrow_ok_def)
qed

theorem simulation_timeout_strands_escrow_witness:
  "\<exists>d'. d' = process_timed_out_simulations 9000000000 3600 demo_sim \<and>
    (\<exists>w. agent_wallet d' 100 = Some w \<and> claims d' CREDITS (w_id w) < res CREDITS w)"
proof -
  let ?t = "demo_task TS_IN_PROGRESS\<lparr>t_capability := ''swarm_simulation''\<rparr>"
  let ?w = "add_res CREDITS 40 (demo_wallet 10 OWNER_AGENT 100 1000)"
  have "?t \<in> set (db_tasks demo_sim)" by (simp add: demo_sim_def)
  moreover have "stuck_simulation 9000000000 3600 ?t" by (simp add: stuck_simulation_def demo_task_def seconds_def)
  moreover have "0 < t_escrow ?t" "t_currency ?t = CREDITS" "t_caller ?t = 100" by (simp_all add: demo_task_def)
  moreover have "agent_wallet demo_sim 100 = Some ?w"
    using demo_lookups(2) by (simp add: demo_sim_def agent_wallet_def)
  ultimately show ?thesis
    using simulation_timeout_strands_escrow [OF demo_sim_ok, of ?t 9000000000 3600 ?w] by auto
qed

text \<open>
  a denial breaks the accounts: denying a pending approval of a task that has already completed
  or been refunded succeeds, whatever SQLAlchemy does with \<open>transaction.metadata\<close>; it releases a
  reservation that belongs to the caller's other live tasks, and overwrites the finished task's
  status with FAILED.
\<close>

theorem deny_settled_breaks_accounts:
  assumes "escrow_ok d" and "get_approval d i = Some p" and "p_user p = user" and "p_status p = AP_PENDING"
    and "p_task p = Some tid" and "get_task d tid = Some t" and "task_terminal (t_status t)" and "0 < t_escrow t"
    and "agent_wallet d (t_caller t) = Some w" and "t_escrow t * unit_of (t_currency t) \<le> res (t_currency t) w"
  shows "\<exists>d'. deny_request meta_items now d user i reason = Inr d' \<and> \<not> escrow_ok d' \<and>
    (\<exists>u \<in> set (db_tasks d'). t_id u = tid \<and> t_status u = TS_FAILED)"
proof -
  let ?f = "\<lambda>q. q\<lparr>p_status := AP_DENIED, p_responded_at := Some now, p_denied_at := Some now,
              p_description := (case given reason of None \<Rightarrow> p_description q
                | Some r \<Rightarrow> p_description q @ newline2 @ ''Denial reason: '' @ r)\<rparr>"
  let ?d1 = "set_approval i ?f d"
  have dead: "\<not> live (t_status t)" using assms(7) by (simp add: live_def task_terminal_def)
  have "escrow_ok ?d1" "get_task ?d1 tid = Some t" "agent_wallet ?d1 (t_caller t) = Some w"
    using assms(1,6,9) by simp_all
  from undo_settled [OF this(1,2) dead assms(8) this(3) assms(10), of meta_items] obtain d' where
    "undo_escrow meta_items (''Payment denied by user: '' @ (case given reason of None \<Rightarrow> ''No reason'' | Some r \<Rightarrow> r)) ?d1 t = Inr d'"
    "\<not> reserved_ok d'" "\<exists>u \<in> set (db_tasks d'). t_id u = tid \<and> t_status u = TS_FAILED" by blast
  moreover have "answer_check d user i EA_DENIED = Inr (p, False)"
    using assms(2-4) by (intro answer_check_pending) auto
  ultimately show ?thesis using assms(5,6) by (auto simp: deny_request_def Let_def escrow_ok_def)
qed

definition demo_approval :: approval where
  "demo_approval = \<lparr>p_id = 50, p_agent = 100, p_user = 7, p_amount = 40, p_currency = CREDITS, p_description = ''pay'',
    p_callback = None, p_status = AP_PENDING, p_created_at = 0, p_responded_at = None, p_task = Some 1002,
    p_expires_at = None, p_approved_at = None, p_denied_at = None\<rparr>"

text \<open>The first task has completed, a second one of the same caller is live.\<close>

definition demo_settled :: mdb where
  "demo_settled = set_wallet 10 (add_res CREDITS 40) demo_db
    \<lparr>db_tasks := [demo_task TS_COMPLETED, demo_task TS_INITIATED\<lparr>t_id := 1102\<rparr>],
     db_txns := [demo_txn\<lparr>x_id := 1103, x_task := Some 1102\<rparr>], db_approvals := [demo_approval]\<rparr>"

lemma demo_settled_ok: "escrow_ok demo_settled"
  by (auto simp: escrow_ok_def keys_ok_def reserved_ok_def backed_def claims_def claim_of_def payer_def agent_wallet_def
      demo_settled_def demo_db_def demo_wallet_def demo_task_def demo_txn_def db_write_simps live_def pends_def backs_def
      unit_of_def all_currency currency_cases)

theorem deny_settled_breaks_accounts_witness:
  "\<exists>d'. deny_request False 60 demo_settled 7 50 None = Inr d' \<and> \<not> escrow_ok d' \<and>
    (\<exists>u \<in> set (db_tasks d'). t_id u = 1002 \<and> t_status u = TS_FAILED)"
proof (rule deny_settled_breaks_accounts [OF demo_settled_ok])
  show "get_approval demo_settled 50 = Some demo_approval"
    by (simp add: get_approval_def demo_settled_def demo_approval_def)
  show "get_task demo_settled 1002 = Some (demo_task TS_COMPLETED)"
    by (simp add: get_task_def demo_settled_def demo_task_def)
  show "agent_wallet demo_settled (t_caller (demo_task TS_COMPLETED)) = Some (add_res CREDITS 40 (demo_wallet 10 OWNER_AGENT 100 1000))"
    by (simp add: agent_wallet_def demo_settled_def demo_db_def db_write_simps demo_wallet_def demo_task_def)
  show "t_escrow (demo_task TS_COMPLETED) * unit_of (t_currency (demo_task TS_COMPLETED)) \<le>
    res (t_currency (demo_task TS_COMPLETED)) (add_res CREDITS 40 (demo_wallet 10 OWNER_AGENT 100 1000))"
    by (simp add: demo_task_def demo_wallet_def currency_cases)
qed (simp_all add: demo_approval_def demo_task_def task_terminal_def)

text \<open>
  where it should act, the answer cannot be given: while the task of an approval is live and
  \<open>transaction.metadata\<close> does not take items, both approving and denying raise, so nothing is
  committed and the approval stays pending.
\<close>

theorem live_approval_unanswerable:
  assumes "escrow_ok d" and "get_approval d i = Some p" and "p_user p = user" and "p_status p = AP_PENDING"
    and "p_task p = Some tid" and "get_task d tid = Some t" and "live (t_status t)"
  shows "approve_request False now d user i = Inl MetadataNotAssignable \<and>
    deny_request False now d user i reason = Inl MetadataNotAssignable"
proof -
  have mem: "t \<in> set (db_tasks d)" "t_id t = tid" using assms(6) by (auto dest: get_task_mem)
  from live_task_backing [OF assms(1) mem(1) assms(7)] mem(2) obtain x w where
    x: "pending_txn d tid = Some x" and w: "agent_wallet d (t_caller t) = Some w" by metis
  have "answer_check d user i EA_APPROVED = Inr (p, False)" "answer_check d user i EA_DENIED = Inr (p, False)"
    using assms(2-4) by (auto intro: answer_check_pending)
  moreover have "pending_txn (set_wallet j f (set_approval i g d)) tid = Some x" for j f g
    using x by (simp add: pending_txn_def)
  ultimately show ?thesis
    using assms(5,6) x w mem(2) by (simp add: approve_request_def deny_request_def undo_escrow_def Let_def)
qed

theorem live_approval_unanswerable_witness:
  "approve_request False 60 (demo_started\<lparr>db_approvals := [demo_approval]\<rparr>) 7 50 = Inl MetadataNotAssignable \<and>
    deny_request False 60 (demo_started\<lparr>db_approvals := [demo_approval]\<rparr>) 7 50 None = Inl MetadataNotAssignable"
proof (rule live_approval_unanswerable)
  show "escrow_ok (demo_started\<lparr>db_approvals := [demo_approval]\<rparr>)" by (simp add: demo_started_ok)
  show "get_approval (demo_started\<lparr>db_approvals := [demo_approval]\<rparr>) 50 = Some demo_approval"
    by (simp add: get_approval_def demo_approval_def)
  show "get_task (demo_started\<lparr>db_approvals := [demo_approval]\<rparr>) 1002 = Some (demo_task TS_IN_PROGRESS)"
    using demo_lookups(1) by (simp add: get_task_def)
qed (simp_all add: demo_approval_def live_def)

end
