(* ===== verification/Authz.thy ===== *)
theory Authz
  imports MoneyDb
begin

text \<open>
  \<open>services/registry/app/authz.py\<close>: who may act for which agent, and the scoped tokens whose
  spending is charged under a row lock. Raised \<open>HTTPException\<close>s and \<open>PermissionError\<close>s are
  constructors of \<open>authz_error\<close>.
\<close>

section \<open>Principals and scoped tokens\<close>

record scoped_token =
  k_id :: uid
  k_agent :: uid
  k_cap :: int
  k_spent :: int
  k_actions :: "string list"
  k_revoked :: bool

definition principal_agent_ids :: "mdb \<Rightarrow> principal \<Rightarrow> uid list" where
  "principal_agent_ids d p =
    (case p of PAgent a \<Rightarrow> [a] | PUser u \<Rightarrow> map a_id (filter (\<lambda>a. a_user_id a = Some u) (db_agents d)))"

definition owns_agent :: "mdb \<Rightarrow> principal \<Rightarrow> uid \<Rightarrow> bool" where
  "owns_agent d p ag =
    (case p of PAgent a \<Rightarrow> a = ag
     | PUser u \<Rightarrow> find (\<lambda>a. a_id a = ag \<and> a_user_id a = Some u) (db_agents d) \<noteq> None)"

datatype authz_error =
    AgentMissing
  | NotOwner
  | NotParty
  | ActionNotAllowed string
  | TokenRevoked
  | TokenCapExceeded int int int

definition require_owned_agent :: "mdb \<Rightarrow> principal \<Rightarrow> uid \<Rightarrow> authz_error + agent" where
  "require_owned_agent d p ag =
    bindE (needE (get_agent d ag) AgentMissing)
    (\<lambda>a. bindE (guardE (owns_agent d p ag) NotOwner) (\<lambda>_. Inr a))"

definition require_party :: "mdb \<Rightarrow> principal \<Rightarrow> uid option list \<Rightarrow> authz_error + unit" where
  "require_party d p ids =
    guardE (list_ex (\<lambda>i. case i of None \<Rightarrow> False | Some a \<Rightarrow> a \<in> set (principal_agent_ids d p)) ids) NotParty"

definition action_execute :: string where
  "action_execute = ''execute''"

text \<open>\<open>spt\<close> is the token attached to the principal, when it authenticated with one.\<close>

definition require_scoped_action :: "scoped_token option \<Rightarrow> string \<Rightarrow> authz_error + unit" where
  "require_scoped_action spt action =
    (case spt of None \<Rightarrow> Inr ()
     | Some k \<Rightarrow> guardE (action \<in> set (k_actions k)) (ActionNotAllowed action))"

definition reserve_scoped_spend ::
  "scoped_token list \<Rightarrow> scoped_token option \<Rightarrow> int \<Rightarrow> authz_error + scoped_token list" where
  "reserve_scoped_spend toks spt amount =
    (case spt of
       None \<Rightarrow> Inr toks
     | Some k \<Rightarrow>
         bindE (require_scoped_action spt action_execute)
         (\<lambda>_. case find (\<lambda>l. k_id l = k_id k) toks of
            None \<Rightarrow> Inl TokenRevoked
          | Some l \<Rightarrow>
              if k_revoked l then Inl TokenRevoked
              else if k_spent l + amount > k_cap l then Inl (TokenCapExceeded (k_spent l) amount (k_cap l))
              else Inr (upd_key k_id (k_id k) (\<lambda>m. m\<lparr>k_spent := k_spent l + amount\<rparr>) toks)))"

definition scoped_action_allowed_by_id :: "scoped_token list \<Rightarrow> uid \<Rightarrow> string \<Rightarrow> bool" where
  "scoped_action_allowed_by_id toks i action =
    (case find (\<lambda>l. k_id l = i) toks of None \<Rightarrow> False | Some l \<Rightarrow> \<not> k_revoked l \<and> action \<in> set (k_actions l))"

definition reserve_scoped_spend_by_id :: "scoped_token list \<Rightarrow> uid \<Rightarrow> int \<Rightarrow> authz_error + scoped_token list" where
  "reserve_scoped_spend_by_id toks i amount =
    (case find (\<lambda>l. k_id l = i) toks of
       None \<Rightarrow> Inl TokenRevoked
     | Some l \<Rightarrow>
         if k_revoked l then Inl TokenRevoked
         else if action_execute \<notin> set (k_actions l) then Inl (ActionNotAllowed action_execute)
         else if k_spent l + amount > k_cap l then Inl (TokenCapExceeded (k_spent l) amount (k_cap l))
         else Inr (upd_key k_id i (\<lambda>m. m\<lparr>k_spent := k_spent l + amount\<rparr>) toks))"

section \<open>The cap\<close>

definition within_cap :: "scoped_token list \<Rightarrow> bool" where
  "within_cap toks \<longleftrightarrow> (\<forall>k \<in> set toks. k_spent k \<le> k_cap k)"

definition token_ids_distinct :: "scoped_token list \<Rightarrow> bool" where
  "token_ids_distinct toks \<longleftrightarrow> distinct (map k_id toks)"

lemma charge_within_cap:
  assumes "within_cap toks" and "token_ids_distinct toks" and "find (\<lambda>l. k_id l = i) toks = Some l"
    and "k_spent l + n \<le> k_cap l"
  shows "within_cap (upd_key k_id i (\<lambda>m. m\<lparr>k_spent := k_spent l + n\<rparr>) toks)"
proof -
  have l: "l \<in> set toks" "k_id l = i" using assms(3) by (auto dest: find_SomeD)
  have "m = l" if "m \<in> set toks" "k_id m = i" for m
    using that l assms(2) by (auto simp: token_ids_distinct_def distinct_map inj_on_def)
  with assms(1,4) show ?thesis by (auto simp: within_cap_def set_upd_key)
qed

lemma reserve_within_cap:
  assumes "within_cap toks" and "token_ids_distinct toks" and "reserve_scoped_spend toks spt n = Inr toks'"
  shows "within_cap toks'"
  using assms by (auto simp: reserve_scoped_spend_def bindE_Inr not_less intro: charge_within_cap
      split: option.splits if_splits)

end
