(* ===== verification/TaskRoute.thy ===== *)
theory TaskRoute
  imports TaskProps Authz
begin

text \<open>
  The task creation route of \<open>services/registry/app/api/routes/tasks.py\<close>, which charges a scoped
  token (theory \<open>Authz\<close>) and creates the task in one session. The dispatch to the callee and the audit log do not touch these tables.
\<close>

datatype route_error =
    Auth authz_error
  | CallerNotOwned
  | CallerMismatch
  | EscrowRefused escrow_msg
  | UnhandledError task_exc

section \<open>The creation route\<close>

definition resolve_caller :: "mdb \<Rightarrow> principal \<Rightarrow> uid \<Rightarrow> route_error + uid" where
  "resolve_caller d p caller =
    bindE (case p of
        PAgent a \<Rightarrow> Inr a
      | PUser u \<Rightarrow> needE (map_option a_id (find (\<lambda>a. a_id a = caller \<and> a_user_id a = Some u) (db_agents d))) CallerNotOwned)
    (\<lambda>cur. bindE (guardE (caller = cur) CallerMismatch) (\<lambda>_. Inr cur))"

text \<open>\<open>except EscrowError\<close> answers 400; any other exception leaves the route unhandled.\<close>

definition escrow_failure :: "task_exc \<Rightarrow> route_error" where
  "escrow_failure e = (case e of EscrowError m \<Rightarrow> EscrowRefused m | _ \<Rightarrow> UnhandledError e)"

text \<open>
  The route runs in one session: the token charge is pending when \<open>create_task_with_escrow\<close> is
  called, an \<open>EscrowError\<close> rolls it back, and the route's own \<open>commit\<close> at the end writes whatever
  is still pending, also when the service returned a cached task.
\<close>

definition create_task_session ::
  "(json \<Rightarrow> json \<Rightarrow> bool) \<Rightarrow> (string \<Rightarrow> string) \<Rightarrow> (uid \<Rightarrow> string) \<Rightarrow> (nat \<Rightarrow> instant) \<Rightarrow> (nat \<Rightarrow> uid) \<Rightarrow>
   mdb \<times> scoped_token list \<Rightarrow> principal \<Rightarrow> scoped_token option \<Rightarrow> uid \<Rightarrow> create_args \<Rightarrow>
   route_error + ((mdb \<times> scoped_token list) \<times> task)" where
  "create_task_session schema_ok sha show_id clk fresh s p spt caller c =
    (let (d, toks) = s in
     bindE (resolve_caller d p caller)
     (\<lambda>cur. bindE (mapE Auth (require_scoped_action spt action_execute))
     (\<lambda>_. bindE (mapE Auth (reserve_scoped_spend toks spt (ca_max_budget c)))
     (\<lambda>toks'. bindE (mapE escrow_failure (create_task_with_escrow schema_ok sha show_id clk fresh d d cur c))
     (\<lambda>(d', t, x). Inr ((d', toks'), t))))))"

section \<open>Properties\<close>

text \<open>
  C30: no task creation takes a scoped token past its spending cap, whatever the request and whether
  or not the creation succeeds.
\<close>

theorem scoped_spend_capped:
  assumes "within_cap toks" and "token_ids_distinct toks"
    and "create_task_session schema_ok sha show_id clk fresh (d, toks) p spt caller c = Inr ((d', toks'), t)"
  shows "within_cap toks'"
proof -
  from assms(3) have "reserve_scoped_spend toks spt (ca_max_budget c) = Inr toks'"
    by (auto simp: create_task_session_def bindE_Inr )
  with assms(1,2) show ?thesis by (rule reserve_within_cap)
qed

definition demo_token :: scoped_token where
  "demo_token = \<lparr>k_id = 5, k_agent = 100, k_cap = 120, k_spent = 0, k_actions = [''execute''], k_revoked = False\<rparr>"

definition demo_route :: "mdb \<times> scoped_token list \<Rightarrow> route_error + ((mdb \<times> scoped_token list) \<times> task)" where
  "demo_route s = create_task_session (\<lambda>_ _. True) demo_sha show_nat demo_clk demo_fresh s (PAgent 100)
    (Some demo_token) 100 demo_args"

lemma demo_route_runs:
  "demo_route (demo_db, [demo_token]) = Inr ((demo_created, [demo_token\<lparr>k_spent := 50\<rparr>]), demo_task TS_INITIATED)"
  using demo_create_runs
  by (simp add: demo_route_def create_task_session_def resolve_caller_def require_scoped_action_def guardE_def
      reserve_scoped_spend_def demo_token_def action_execute_def demo_create_def demo_args_def)

theorem scoped_spend_capped_witness:
  "\<exists>d' toks' t. demo_route (demo_db, [demo_token]) = Inr ((d', toks'), t) \<and> within_cap toks'"
  using demo_route_runs scoped_spend_capped [OF _ _ demo_route_runs [unfolded demo_route_def]]
  by (simp add: within_cap_def token_ids_distinct_def demo_token_def)

text \<open>
  an idempotent replay charges the scoped token again: repeating a creation with the same
  \<open>Idempotency-Key\<close> and token returns the same task and leaves wallets, tasks and transactions as
  they are, but adds the whole budget to the token's spending a second time.
\<close>

theorem replay_charges_token_again:
  assumes "key_given (ca_idem_key c)" and "txn_by_key d (ca_idem_key c) = None"
    and "create_task_session schema_ok sha show_id clk fresh (d, toks) p (Some k) caller c = Inr ((d1, toks1), t)"
    and "db_agents d1 = db_agents d"
    and "find (\<lambda>l. k_id l = k_id k) toks1 = Some l" and "\<not> k_revoked l" and "k_spent l + ca_max_budget c \<le> k_cap l"
  shows "\<exists>toks2. create_task_session schema_ok sha show_id clk' fresh' (d1, toks1) p (Some k) caller c = Inr ((d1, toks2), t) \<and>
    find (\<lambda>m. k_id m = k_id k) toks2 = Some (l\<lparr>k_spent := k_spent l + ca_max_budget c\<rparr>)"
proof -
  from assms(3) obtain cur x where cur: "resolve_caller d p caller = Inr cur"
    and act: "require_scoped_action (Some k) action_execute = Inr ()"
    and run: "create_task_with_escrow schema_ok sha show_id clk fresh d d cur c = Inr (d1, t, x)"
    by (auto simp: create_task_session_def bindE_Inr )
  have again: "create_task_with_escrow schema_ok sha show_id clk' fresh' d1 d1 cur c = Inr (d1, t, x)"
    by (rule create_repeat [OF assms(1,2) run])
  have cur1: "resolve_caller d1 p caller = Inr cur" using cur assms(4) by (simp add: resolve_caller_def cong: principal.case_cong)
  let ?toks2 = "upd_key k_id (k_id k) (\<lambda>m. m\<lparr>k_spent := k_spent l + ca_max_budget c\<rparr>) toks1"
  have "reserve_scoped_spend toks1 (Some k) (ca_max_budget c) = Inr ?toks2"
    using assms(5-7) act by (simp add: reserve_scoped_spend_def)
  with again cur1 act have "create_task_session schema_ok sha show_id clk' fresh' (d1, toks1) p (Some k) caller c = Inr ((d1, ?toks2), t)"
    by (simp add: create_task_session_def)
  moreover have "find (\<lambda>m. k_id m = k_id k) ?toks2 = Some (l\<lparr>k_spent := k_spent l + ca_max_budget c\<rparr>)"
    using assms(5) by (subst find_key_upd_key) simp_all
  ultimately show ?thesis by blast
qed

theorem replay_charges_token_again_witness:
  "\<exists>toks2. create_task_session (\<lambda>_ _. True) demo_sha show_nat (\<lambda>_. 99) demo_fresh
      (demo_created, [demo_token\<lparr>k_spent := 50\<rparr>]) (PAgent 100) (Some demo_token) 100 demo_args =
      Inr ((demo_created, toks2), demo_task TS_INITIATED) \<and>
    find (\<lambda>m. k_id m = 5) toks2 = Some (demo_token\<lparr>k_spent := 100\<rparr>)"
proof -
  have "db_agents demo_created = db_agents demo_db" by (simp add: demo_created_def)
  moreover have "key_given (ca_idem_key demo_args)" "txn_by_key demo_db (ca_idem_key demo_args) = None"
    by (simp_all add: key_given_def demo_args_def txn_by_key_def demo_db_def)
  ultimately show ?thesis
    using replay_charges_token_again [OF _ _ demo_route_runs [unfolded demo_route_def], of "demo_token\<lparr>k_spent := 50\<rparr>" "\<lambda>_. 99" demo_fresh]
    by (simp add: demo_token_def demo_args_def)
qed

end
