(* ===== verification/Float64.thy ===== *)
theory Float64
  imports Prelude
begin

text \<open>
  Python floats are IEEE 754 doubles: an operation computes the exact rational result and rounds it
  to 53 significant bits, ties to even. \<open>fl\<close> is that rounding for the magnitudes the program
  meets (no overflow, no subnormals: the fuel of the scaling covers \<open>2^-1000\<close> to \<open>2^1000\<close>), and
  the operations below are written with it. The lemma \<open>fl_le_iff\<close> says when a comparison of two
  rounded values decides the comparison of the exact ones.
\<close>

section \<open>Rounding\<close>

definition round_even :: "rat \<Rightarrow> int" where
  "round_even y =
    (let n = \<lfloor>y\<rfloor>; f = y - of_int n in
     if f < 1 / 2 then n else if f > 1 / 2 then n + 1 else if even n then n else n + 1)"

text \<open>How often to double, or halve, until the value has 53 bits before the point.\<close>

fun scale_up :: "nat \<Rightarrow> rat \<Rightarrow> nat" where
  "scale_up 0 x = 0"
| "scale_up (Suc f) x = (if 4503599627370496 \<le> x then 0 else Suc (scale_up f (2 * x)))"

fun scale_down :: "nat \<Rightarrow> rat \<Rightarrow> nat" where
  "scale_down 0 x = 0"
| "scale_down (Suc f) x = (if x < 9007199254740992 then 0 else Suc (scale_down f (x / 2)))"

definition fl_pos :: "rat \<Rightarrow> rat" where
  "fl_pos x =
    (if 9007199254740992 \<le> x then
       (let k = scale_down 1100 x in of_int (round_even (x / 2 ^ k)) * 2 ^ k)
     else (let k = scale_up 1100 x in of_int (round_even (x * 2 ^ k)) / 2 ^ k))"

definition fl :: "rat \<Rightarrow> rat" where
  "fl x = (if x = 0 then 0 else if x < 0 then - fl_pos (- x) else fl_pos x)"

text \<open>Python's \<open>round(x, n)\<close>: the nearest double to the decimal with \<open>n\<close> places.\<close>

definition round_places :: "nat \<Rightarrow> rat \<Rightarrow> rat" where
  "round_places n x = fl (of_int (round_even (x * 10 ^ n)) / 10 ^ n)"

section \<open>The rounding error\<close>

lemma round_even_error: "\<bar>of_int (round_even y) - y\<bar> \<le> 1 / 2"
proof -
  let ?n = "\<lfloor>y\<rfloor>"
  have "of_int ?n \<le> y" "y < of_int ?n + 1" by linarith+
  then show ?thesis by (auto simp: round_even_def Let_def)
qed

lemma scale_up_spec:
  "4503599627370496 \<le> x * 2 ^ f \<Longrightarrow> 4503599627370496 \<le> x * 2 ^ scale_up f x"
proof (induction f arbitrary: x)
  case (Suc f)
  then have "4503599627370496 \<le> (2 * x) * 2 ^ f" by (simp add: algebra_simps)
  from Suc.IH [OF this] show ?case by (simp add: algebra_simps)
qed simp

text \<open>Relative error \<open>2^-53\<close> below \<open>2^53\<close>.\<close>

lemma fl_error:
  assumes "1 / 2 ^ 1000 \<le> x" and "x < 9007199254740992"
  shows "\<bar>fl x - x\<bar> \<le> x / 9007199254740992"
proof -
  have pos: "0 < x" by (rule less_le_trans [OF _ assms(1)]) simp
  let ?k = "scale_up 1100 x"
  have "(2::rat) ^ 52 \<le> 2 ^ 100" by (rule power_increasing) simp_all
  also have "(2::rat) ^ 100 = (1 / 2 ^ 1000) * 2 ^ 1100" by (simp add: power_add [symmetric, of 2 1000 100])
  also have "\<dots> \<le> x * 2 ^ 1100" using assms(1) by (intro mult_right_mono) simp_all
  finally have "4503599627370496 \<le> x * 2 ^ 1100" by simp
  then have big: "4503599627370496 \<le> x * 2 ^ ?k" by (rule scale_up_spec)
  have fl: "fl x = of_int (round_even (x * 2 ^ ?k)) / 2 ^ ?k"
    using pos assms(2) by (simp add: fl_def fl_pos_def Let_def)
  have "\<bar>fl x - x\<bar> = \<bar>of_int (round_even (x * 2 ^ ?k)) - x * 2 ^ ?k\<bar> / 2 ^ ?k"
  proof -
    have "fl x - x = (of_int (round_even (x * 2 ^ ?k)) - x * 2 ^ ?k) / 2 ^ ?k"
      unfolding fl by (simp add: diff_divide_distrib)
    then show ?thesis by (simp add: abs_divide)
  qed
  also have "\<dots> \<le> (1 / 2) / 2 ^ ?k"
    by (intro divide_right_mono round_even_error) simp
  also have "\<dots> \<le> x / 9007199254740992"
    using big by (simp add: field_simps)
  finally show ?thesis .
qed

lemma compare_rounded:
  fixes x y u v e :: rat
  assumes "\<bar>u - x\<bar> \<le> e" and "\<bar>v - y\<bar> \<le> e" and "2 * e < \<bar>x - y\<bar>"
  shows "u \<le> v \<longleftrightarrow> x \<le> y"
  using assms by linarith

text \<open>
  Two values of the unit interval that differ by more than the rounding error compare the same
  after rounding; equal values compare equal.
\<close>

lemma fl_le_iff:
  assumes "1 / 2 ^ 1000 \<le> x" and "x \<le> 1" and "1 / 2 ^ 1000 \<le> y" and "y \<le> 1"
    and "x = y \<or> 1 / 4503599627370496 < \<bar>x - y\<bar>"
  shows "fl x \<le> fl y \<longleftrightarrow> x \<le> y"
proof (cases "x = y")
  case False
  have "x / 9007199254740992 \<le> 1 / 9007199254740992" "y / 9007199254740992 \<le> 1 / 9007199254740992"
    using assms(2,4) by (intro divide_right_mono; simp)+
  with fl_error [OF assms(1)] fl_error [OF assms(3)] assms(2,4)
  have "\<bar>fl x - x\<bar> \<le> 1 / 9007199254740992" "\<bar>fl y - y\<bar> \<le> 1 / 9007199254740992"
    by (meson order_trans le_less_trans one_less_numeral_iff semiring_norm)+
  then show ?thesis by (rule compare_rounded) (use False assms(5) in simp)
qed simp

lemma fraction_gap:
  fixes a b c d :: nat
  assumes "0 < b" and "0 < d" and "b * d < 4503599627370496" and "of_nat a / of_nat b \<noteq> (of_nat c / of_nat d :: rat)"
  shows "1 / 4503599627370496 < \<bar>of_nat a / of_nat b - of_nat c / of_nat d :: rat\<bar>"
proof -
  let ?n = "int a * int d - int c * int b"
  have eq: "(of_nat a / of_nat b - of_nat c / of_nat d :: rat) = of_int ?n / of_nat (b * d)"
    using assms(1,2) by (simp add: field_simps)
  then have "?n \<noteq> 0" using assms(4) by (metis divide_eq_0_iff eq_iff_diff_eq_0 of_int_0)
  then have "(1 :: rat) \<le> \<bar>of_int ?n\<bar>" by linarith
  then have "1 / of_nat (b * d) \<le> \<bar>of_int ?n / of_nat (b * d) :: rat\<bar>"
    using assms(1,2) by (simp add: abs_divide abs_mult divide_right_mono)
  moreover have "1 / 4503599627370496 < (1 / of_nat (b * d) :: rat)"
  proof -
    have "of_nat (b * d) < (4503599627370496 :: rat)" using assms(3) by (metis of_nat_less_iff of_nat_numeral)
    moreover have "0 < (of_nat (b * d) :: rat)" using assms(1,2) by simp
    ultimately show ?thesis by (simp add: frac_less2)
  qed
  ultimately show ?thesis unfolding eq by linarith
qed

lemma fl_nonpos: "x \<le> 0 \<Longrightarrow> fl x \<le> 0"
proof -
  assume x: "x \<le> 0"
  have "0 \<le> fl_pos y" if "0 < y" for y :: rat
  proof -
    have "0 \<le> round_even z" if "0 \<le> z" for z :: rat
      using that by (auto simp: round_even_def Let_def)
    then show ?thesis using that by (simp add: fl_pos_def Let_def)
  qed
  from this [of "- x"] x show ?thesis by (simp add: fl_def)
qed

lemma fl_positive:
  assumes "1 / 2 ^ 1000 \<le> x" and "x < 9007199254740992"
  shows "0 < fl x"
proof -
  have pos: "0 < x" by (rule less_le_trans [OF _ assms(1)]) simp
  then have "x / 9007199254740992 < x" by (simp add: field_simps)
  with fl_error [OF assms] show ?thesis by linarith
qed

text \<open>Evaluating \<open>fl\<close> from a certificate: the number of doublings and the nearest integer.\<close>

lemma scale_up_eq:
  assumes "0 < x" and "4503599627370496 \<le> x * 2 ^ k" and "x * 2 ^ k < 9007199254740992" and "k < f"
    and "k = 0 \<or> x < 4503599627370496"
  shows "scale_up f x = k"
  using assms
proof (induction f arbitrary: k x)
  case (Suc f)
  show ?case
  proof (cases k)
    case 0
    with Suc.prems show ?thesis by simp
  next
    case (Suc j)
    then have small: "x < 4503599627370496" using Suc.prems by simp
    have "scale_up f (2 * x) = j"
    proof (rule Suc.IH)
      show "0 < 2 * x" using Suc.prems by simp
      show "4503599627370496 \<le> 2 * x * 2 ^ j" "2 * x * 2 ^ j < 9007199254740992" "j < f"
        using Suc.prems Suc by (simp_all add: algebra_simps)
      show "j = 0 \<or> 2 * x < 4503599627370496"
      proof (cases "j = 0")
        case False
        then have "(2 :: rat) ^ 1 \<le> 2 ^ j" by (intro power_increasing) simp_all
        then have "2 * x * 2 \<le> 2 * x * 2 ^ j" using Suc.prems(1) by (intro mult_left_mono) simp_all
        also have "\<dots> < 9007199254740992" using Suc.prems Suc by (simp add: algebra_simps)
        finally show ?thesis by simp
      qed simp
    qed
    with small Suc show ?thesis by simp
  qed
qed simp

lemma round_even_near:
  assumes "\<bar>y - of_int n\<bar> < 1 / 2"
  shows "round_even y = n"
proof (cases "of_int n \<le> y")
  case True
  with assms have "\<lfloor>y\<rfloor> = n" by (intro floor_unique) linarith+
  with assms True show ?thesis by (simp add: round_even_def Let_def)
next
  case False
  with assms have "\<lfloor>y\<rfloor> = n - 1" by (intro floor_unique) linarith+
  with assms False show ?thesis by (auto simp: round_even_def Let_def)
qed

lemma fl_eqI:
  assumes "0 < x" and "x < 4503599627370496" and "4503599627370496 \<le> x * 2 ^ k" and "x * 2 ^ k < 9007199254740992"
    and "k < 1100" and "\<bar>x * 2 ^ k - of_int n\<bar> < 1 / 2"
  shows "fl x = of_int n / 2 ^ k"
  using assms scale_up_eq [OF assms(1,3,4,5)] round_even_near [OF assms(6)]
  by (simp add: fl_def fl_pos_def Let_def)

end
