(* ===== verification/Reputation.thy ===== *)
theory Reputation
  imports MoneyDb Float64
begin

text \<open>
  \<open>services/registry/app/reputation.py\<close> and the copy of it the worker runs every five minutes
  (\<open>services/worker/app/worker.py\<close>). Rates are doubles, so they go through \<open>fl\<close> of theory
  \<open>Float64\<close>; SQL's \<open>avg\<close> over integer durations is an exact rational and \<open>int(\<dots>)\<close> truncates it.
\<close>

section \<open>Tiers\<close>

definition compute_reputation_tier :: "rat \<Rightarrow> int \<Rightarrow> int \<Rightarrow> string" where
  "compute_reputation_tier success_rate total_completed avg_ms =
    (if 50 \<le> total_completed \<and> fl (95 / 100) \<le> success_rate \<and> avg_ms < 2000 then ''diamond''
     else if 25 \<le> total_completed \<and> fl (90 / 100) \<le> success_rate \<and> avg_ms < 5000 then ''gold''
     else if 10 \<le> total_completed \<and> fl (80 / 100) \<le> success_rate then ''silver''
     else if 5 \<le> total_completed \<and> fl (60 / 100) \<le> success_rate then ''bronze''
     else ''unranked'')"

definition tier_rank :: "string \<Rightarrow> nat" where
  "tier_rank t = (if t = ''diamond'' then 4 else if t = ''gold'' then 3 else if t = ''silver'' then 2
    else if t = ''bronze'' then 1 else 0)"

section \<open>Metrics of one agent\<close>

record reputation =
  r_completed :: nat
  r_failed :: nat
  r_timeout :: nat
  r_success_rate :: rat
  r_avg_ms :: int
  r_volume :: int
  r_tier :: string
  r_reliability :: rat

definition count_callee :: "mdb \<Rightarrow> uid \<Rightarrow> task_status \<Rightarrow> nat" where
  "count_callee d ag st = count_rows (\<lambda>t. t_callee t = ag \<and> t_status t = st) (db_tasks d)"

definition rate :: "nat \<Rightarrow> nat \<Rightarrow> rat" where
  "rate k n = (if 0 < n then fl (of_nat k / of_nat n) else 0)"

text \<open>\<open>int(avg)\<close>, or 0 when there is no row or the average is 0.\<close>

definition trunc :: "rat \<Rightarrow> int" where
  "trunc x = (if 0 \<le> x then \<lfloor>x\<rfloor> else - \<lfloor>- x\<rfloor>)"

definition avg_ms :: "(span \<Rightarrow> bool) \<Rightarrow> mdb \<Rightarrow> uid \<Rightarrow> int" where
  "avg_ms p d ag =
    (let ds = List.map_filter s_duration_ms (filter (\<lambda>s. s_agent s = ag \<and> p s) (db_spans d)) in
     if ds = [] then 0 else trunc (of_int (sum_list ds) / of_nat (length ds)))"

definition callee_volume :: "mdb \<Rightarrow> uid \<Rightarrow> int" where
  "callee_volume d ag = sum_list (map t_escrow (filter (\<lambda>t. t_callee t = ag \<and> t_status t = TS_COMPLETED) (db_tasks d)))"

definition reputation_of :: "(span \<Rightarrow> bool) \<Rightarrow> mdb \<Rightarrow> uid \<Rightarrow> reputation" where
  "reputation_of p d ag =
    (let completed = count_callee d ag TS_COMPLETED; failed = count_callee d ag TS_FAILED;
         timeout = count_callee d ag TS_TIMEOUT; finished = completed + failed + timeout;
         success = rate completed finished; avg = avg_ms p d ag
     in \<lparr>r_completed = completed, r_failed = failed, r_timeout = timeout,
         r_success_rate = round_places 4 success, r_avg_ms = avg, r_volume = callee_volume d ag,
         r_tier = compute_reputation_tier success (int completed) avg,
         r_reliability = round_places 4 (if 0 < finished then fl (1 - rate timeout finished) else 1)\<rparr>)"

text \<open>The registry averages the successful spans only; the worker averages every span with a duration.\<close>

definition compute_agent_reputation :: "mdb \<Rightarrow> uid \<Rightarrow> reputation" where
  "compute_agent_reputation = reputation_of (\<lambda>s. s_status s = SP_SUCCESS)"

definition worker_reputation :: "mdb \<Rightarrow> uid \<Rightarrow> reputation" where
  "worker_reputation = reputation_of (\<lambda>_. True)"

section \<open>Persisting\<close>

definition store_reputation :: "instant \<Rightarrow> reputation \<Rightarrow> agent \<Rightarrow> agent" where
  "store_reputation now r a =
    a\<lparr>a_total_completed := int (r_completed r), a_total_failed := int (r_failed r),
      a_total_timeout := int (r_timeout r), a_success_rate := r_success_rate r,
      a_avg_response_ms := r_avg_ms r, a_total_volume := r_volume r, a_tier := r_tier r,
      a_rep_updated_at := Some now\<rparr>"

definition update_agent_reputation :: "instant \<Rightarrow> mdb \<Rightarrow> uid \<Rightarrow> mdb \<times> reputation option" where
  "update_agent_reputation now d ag =
    (case get_agent d ag of
       None \<Rightarrow> (d, None)
     | Some _ \<Rightarrow> (let r = compute_agent_reputation d ag in (set_agent ag (store_reputation now r) d, Some r)))"

fun update_each_reputation :: "(nat \<Rightarrow> instant) \<Rightarrow> nat \<Rightarrow> uid list \<Rightarrow> mdb \<Rightarrow> mdb \<times> nat" where
  "update_each_reputation clk k [] d = (d, 0)"
| "update_each_reputation clk k (i # is) d =
    (let (d', n) = update_each_reputation clk (Suc k) is (fst (update_agent_reputation (clk k) d i)) in (d', Suc n))"

definition update_all_reputations :: "(nat \<Rightarrow> instant) \<Rightarrow> mdb \<Rightarrow> mdb \<times> nat" where
  "update_all_reputations clk d = update_each_reputation clk 0 (map a_id (db_agents d)) d"

definition worker_update_all_reputations :: "instant \<Rightarrow> mdb \<Rightarrow> mdb" where
  "worker_update_all_reputations now d =
    d\<lparr>db_agents := map (\<lambda>a. store_reputation now (worker_reputation d (a_id a)) a) (db_agents d)\<rparr>"

text \<open>
  \<open>record_reputation_snapshot\<close>: \<open>INSERT \<dots> ON CONFLICT (agent_id, snapshot_date) DO UPDATE\<close> on the
  history rows.
\<close>

definition record_reputation_snapshot ::
  "instant \<Rightarrow> uid \<Rightarrow> string \<Rightarrow> rat \<Rightarrow> ((uid \<times> instant) \<times> string \<times> rat) list \<Rightarrow> ((uid \<times> instant) \<times> string \<times> rat) list" where
  "record_reputation_snapshot today ag tier success_rate rows =
    (if (ag, today) \<in> fst ` set rows then upd_key fst (ag, today) (\<lambda>_. ((ag, today), tier, success_rate)) rows
     else rows @ [((ag, today), tier, success_rate)])"

section \<open>Properties\<close>

lemma tier_rank_compute:
  "tier_rank (compute_reputation_tier s n a) =
    (if 50 \<le> n \<and> fl (95 / 100) \<le> s \<and> a < 2000 then 4 else if 25 \<le> n \<and> fl (90 / 100) \<le> s \<and> a < 5000 then 3
     else if 10 \<le> n \<and> fl (80 / 100) \<le> s then 2 else if 5 \<le> n \<and> fl (60 / 100) \<le> s then 1 else 0)"
proof -
  have "tier_rank ''diamond'' = 4" "tier_rank ''gold'' = 3" "tier_rank ''silver'' = 2" "tier_rank ''bronze'' = 1"
    "tier_rank ''unranked'' = 0" by (simp_all add: tier_rank_def)
  then show ?thesis by (simp only: compute_reputation_tier_def if_distrib [of tier_rank])
qed

lemma thresholds_ordered: "fl (60 / 100) \<le> fl (80 / 100)" "fl (80 / 100) \<le> fl (90 / 100)" "fl (90 / 100) \<le> fl (95 / 100)"
proof -
  have big: "(1 :: rat) / 2 ^ 1000 \<le> 1 / 2 ^ 1" by (intro divide_left_mono power_increasing) simp_all
  have h: "(1 :: rat) / 2 ^ 1000 \<le> q" if "1 / 2 \<le> q" for q using big that by simp
  show "fl (60 / 100) \<le> fl (80 / 100)" by (subst fl_le_iff) (rule h | simp)+
  show "fl (80 / 100) \<le> fl (90 / 100)" by (subst fl_le_iff) (rule h | simp)+
  show "fl (90 / 100) \<le> fl (95 / 100)" by (subst fl_le_iff) (rule h | simp)+
qed

text \<open>
  Reputation is monotone: more completed tasks, a higher success rate and a shorter response
  time never lower the tier.
\<close>

theorem tier_monotone:
  assumes "n \<le> n'" and "s \<le> s'" and "a' \<le> a"
  shows "tier_rank (compute_reputation_tier s n a) \<le> tier_rank (compute_reputation_tier s' n' a')"
  using assms thresholds_ordered unfolding tier_rank_compute by auto

theorem tier_monotone_witness:
  "tier_rank (compute_reputation_tier (fl (90 / 100)) 25 4000) \<le> tier_rank (compute_reputation_tier 1 60 1000)"
  by (rule tier_monotone) code_simp+

text \<open>The tier the exact fraction deserves.\<close>

definition exact_tier :: "nat \<Rightarrow> nat \<Rightarrow> int \<Rightarrow> string" where
  "exact_tier completed n avg =
    (if 50 \<le> completed \<and> 95 * n \<le> 100 * completed \<and> avg < 2000 then ''diamond''
     else if 25 \<le> completed \<and> 90 * n \<le> 100 * completed \<and> avg < 5000 then ''gold''
     else if 10 \<le> completed \<and> 80 * n \<le> 100 * completed then ''silver''
     else if 5 \<le> completed \<and> 60 * n \<le> 100 * completed then ''bronze''
     else ''unranked'')"

lemma rate_threshold:
  assumes "0 < c" and "c \<le> n" and "n < 45035996273704" and "p < 100" and "50 < p"
  shows "fl (of_nat p / 100) \<le> rate c n \<longleftrightarrow> p * n \<le> 100 * c"
proof -
  let ?x = "of_nat p / 100 :: rat" and ?y = "of_nat c / of_nat n :: rat"
  have n: "0 < n" using assms by simp
  have small: "(1 :: rat) / 2 ^ 1000 \<le> 1 / 2 ^ 100" by (intro divide_left_mono power_increasing) simp_all
  have "1 / 2 ^ 100 \<le> ?x" using assms(5) by (simp add: field_simps)
  moreover have "1 / 2 ^ 100 \<le> ?y"
  proof -
    have "of_nat n \<le> (2 ^ 100 :: rat)" using assms(3) of_nat_mono [of n 45035996273704, where 'a = rat] by simp
    moreover have "(1 :: rat) \<le> of_nat c" using assms(1) by simp
    ultimately have "of_nat n \<le> (2 ^ 100 * of_nat c :: rat)" by (metis mult_mono' mult.right_neutral of_nat_0_le_iff zero_le_one)
    then show ?thesis using n by (simp add: field_simps)
  qed
  moreover have "?x \<le> 1" using assms(4) by simp
  moreover have "?y \<le> 1" using assms(2) n by simp
  moreover have "?x = ?y \<or> 1 / 4503599627370496 < \<bar>?x - ?y\<bar>"
    using fraction_gap [of 100 n p c] assms(3) n by auto
  ultimately have "fl ?x \<le> fl ?y \<longleftrightarrow> ?x \<le> ?y" using small by (intro fl_le_iff) (meson order_trans)+
  moreover have "?x \<le> ?y \<longleftrightarrow> p * n \<le> 100 * c"
  proof -
    have "?x \<le> ?y \<longleftrightarrow> of_nat (p * n) \<le> (of_nat (100 * c) :: rat)" using n by (simp add: field_simps)
    then show ?thesis by (simp only: of_nat_le_iff)
  qed
  ultimately show ?thesis using n by (simp add: rate_def)
qed

text \<open>
  floating point never changes a tier: for every agent with fewer than 45 trillion tasks, the
  tier computed from the rounded quotient is the one the exact fraction of completed tasks deserves.
\<close>

theorem tier_exact:
  assumes "c \<le> n" and "n < 45035996273704"
  shows "compute_reputation_tier (rate c n) (int c) avg = exact_tier c n avg"
proof (cases "c = 0")
  case True
  then show ?thesis by (simp add: compute_reputation_tier_def exact_tier_def)
next
  case False
  then have "0 < c" by simp
  note t = rate_threshold [OF this assms]
  show ?thesis
    using t [of 95] t [of 90] t [of 80] t [of 60] by (simp add: compute_reputation_tier_def exact_tier_def)
qed

theorem tier_exact_witness:
  "compute_reputation_tier (rate 57 60) (int 57) 1500 = ''diamond''"
  using tier_exact [of 57 60 1500] by (simp add: exact_tier_def)

text \<open>
  The worker's copy agrees with the registry's whenever every timed span of the agent is a
  successful one; nothing else separates the two computations.
\<close>

theorem worker_matches_registry:
  assumes "\<And>s. s \<in> set (db_spans d) \<Longrightarrow> s_agent s = ag \<Longrightarrow> s_duration_ms s \<noteq> None \<Longrightarrow> s_status s = SP_SUCCESS"
  shows "worker_reputation d ag = compute_agent_reputation d ag"
proof -
  have "List.map_filter s_duration_ms (filter (\<lambda>s. s_agent s = ag \<and> True) ss) =
    List.map_filter s_duration_ms (filter (\<lambda>s. s_agent s = ag \<and> s_status s = SP_SUCCESS) ss)"
    if "\<And>s. s \<in> set ss \<Longrightarrow> s_agent s = ag \<Longrightarrow> s_duration_ms s \<noteq> None \<Longrightarrow> s_status s = SP_SUCCESS" for ss
    using that by (induction ss) (auto simp: map_filter_simps split: option.splits)
  from this [of "db_spans d"] assms show ?thesis
    by (simp add: worker_reputation_def compute_agent_reputation_def reputation_of_def avg_ms_def)
qed

text \<open>They differ as soon as a failure or timeout has a span with a duration.\<close>

definition slow_failure :: mdb where
  "slow_failure = \<lparr>db_wallets = [], db_agents = [], db_tasks = [], db_txns = [],
    db_spans = [\<lparr>s_trace = 1, s_span = 2, s_parent = None, s_agent = 9, s_event = ''task_timeout'', s_capability = ''x'',
      s_duration_ms = Some 300000, s_status = SP_TIMEOUT, s_credits_used = None, s_extra = []\<rparr>],
    db_approvals = [], db_spending = []\<rparr>"

lemma worker_differs: "r_avg_ms (worker_reputation slow_failure 9) = 300000 \<and> r_avg_ms (compute_agent_reputation slow_failure 9) = 0"
  by (simp add: worker_reputation_def compute_agent_reputation_def reputation_of_def avg_ms_def slow_failure_def
      Let_def trunc_def map_filter_simps)

theorem worker_matches_registry_witness:
  "worker_reputation (slow_failure\<lparr>db_spans := []\<rparr>) 9 = compute_agent_reputation (slow_failure\<lparr>db_spans := []\<rparr>) 9"
  by (rule worker_matches_registry) simp

end
