(* ===== verification/Offers.thy ===== *)
theory Offers
  imports Authz ExampleDb
begin

text \<open>
  Price negotiation (\<open>services/registry/app/api/routes/offers.py\<close>): offers, counter-offer rounds,
  acceptance and rejection. A route is one session; an \<open>HTTPException\<close> is \<open>Inl\<close>, except that the
  counter route commits the automatic rejection before it raises, so its error carries the database
  it leaves. \<open>AttributeErrorOnNone\<close> is Python's error on \<open>current_agent.id\<close> when no agent was
  resolved. Notifications and broadcasts do not change these tables.
\<close>

datatype offer_status = OF_PENDING | OF_ACCEPTED | OF_REJECTED | OF_EXPIRED

record offer =
  o_id :: uid
  o_from :: uid
  o_to :: uid
  o_core_task :: "uid option"
  o_title :: string
  o_description :: "string option"
  o_price :: int
  o_currency :: currency
  o_expires_at :: instant
  o_status :: offer_status
  o_created_at :: instant

record negotiation_round =
  n_id :: uid
  n_offer :: uid
  n_number :: nat
  n_by :: uid
  n_price :: int
  n_terms :: "string option"
  n_status :: offer_status

record odb =
  od_offers :: "offer list"
  od_rounds :: "negotiation_round list"

datatype offer_error =
    OfferNotFound
  | SelfOffer
  | UnknownCurrency string
  | NotAParty
  | NotNegotiable offer_status
  | NotTheParties
  | MissingRow
  | PriceNotPositive
  | PriceOutOfRange
  | RoundsExhausted odb
  | OwnProposal
  | SenderCannotOpen
  | OnlyRecipient
  | AttributeErrorOnNone

definition max_negotiation_rounds :: nat where
  "max_negotiation_rounds = 5"

section \<open>Resolving the acting agent\<close>

definition owned_ids :: "mdb \<Rightarrow> uid \<Rightarrow> uid list" where
  "owned_ids d u = map a_id (filter (\<lambda>a. a_user_id a = Some u) (db_agents d))"

definition get_owned_agent_ids :: "mdb \<Rightarrow> principal \<Rightarrow> uid list" where
  "get_owned_agent_ids d p = (case p of PAgent a \<Rightarrow> [a] | PUser u \<Rightarrow> owned_ids d u)"

text \<open>
  \<open>_resolve_offer_agent\<close>: an agent is itself; a user acts as the agent it names, else as the offer's
  sender or recipient if it owns one, else as any agent it owns.
\<close>

definition resolve_offer_agent :: "mdb \<Rightarrow> principal \<Rightarrow> offer option \<Rightarrow> uid option \<Rightarrow> uid option" where
  "resolve_offer_agent d p off named =
    (case p of
       PAgent a \<Rightarrow> Some a
     | PUser u \<Rightarrow>
         (case named of
            Some i \<Rightarrow> map_option a_id (find (\<lambda>a. a_id a = i \<and> a_user_id a = Some u) (db_agents d))
          | None \<Rightarrow>
              (case off of
                 Some f \<Rightarrow>
                   if o_from f \<in> set (owned_ids d u) then map_option a_id (get_agent d (o_from f))
                   else if o_to f \<in> set (owned_ids d u) then map_option a_id (get_agent d (o_to f))
                   else map_option a_id (find (\<lambda>a. a_user_id a = Some u) (db_agents d))
               | None \<Rightarrow> map_option a_id (find (\<lambda>a. a_user_id a = Some u) (db_agents d)))))"

section \<open>Tables\<close>

definition get_offer :: "odb \<Rightarrow> uid \<Rightarrow> offer option" where
  "get_offer od i = find (\<lambda>f. o_id f = i) (od_offers od)"

definition set_offer :: "uid \<Rightarrow> (offer \<Rightarrow> offer) \<Rightarrow> odb \<Rightarrow> odb" where
  "set_offer i f od = od\<lparr>od_offers := upd_key o_id i f (od_offers od)\<rparr>"

definition rounds_of :: "odb \<Rightarrow> uid \<Rightarrow> negotiation_round list" where
  "rounds_of od i = filter (\<lambda>r. n_offer r = i) (od_rounds od)"

text \<open>\<open>order_by(round_number.desc()).first()\<close>.\<close>

fun newest :: "negotiation_round list \<Rightarrow> negotiation_round option" where
  "newest [] = None"
| "newest (r # rs) = (case newest rs of None \<Rightarrow> Some r | Some q \<Rightarrow> if n_number r \<le> n_number q then Some q else Some r)"

definition last_round :: "odb \<Rightarrow> uid \<Rightarrow> negotiation_round option" where
  "last_round od i = newest (rounds_of od i)"

section \<open>The routes\<close>

definition list_offers :: "mdb \<Rightarrow> odb \<Rightarrow> principal \<Rightarrow> nat \<Rightarrow> nat \<Rightarrow> offer list" where
  "list_offers d od p skip limit =
    (let mine = get_owned_agent_ids d p in
     take limit (drop skip (sort_key (\<lambda>f. - o_created_at f)
       (filter (\<lambda>f. o_from f \<in> set mine \<or> o_to f \<in> set mine) (od_offers od)))))"

record offer_create =
  oc_to :: uid
  oc_core_task :: "uid option"
  oc_title :: string
  oc_description :: "string option"
  oc_price :: int
  oc_currency :: string
  oc_expires_at :: instant

definition parse_offer_currency :: "string \<Rightarrow> currency option" where
  "parse_offer_currency s =
    (if lower s = ''credits'' then Some CREDITS else if lower s = ''usdc'' then Some USDC else None)"

definition opened_offer :: "uid \<Rightarrow> instant \<Rightarrow> uid \<Rightarrow> currency \<Rightarrow> offer_create \<Rightarrow> offer" where
  "opened_offer new_id now me cur c =
    \<lparr>o_id = new_id, o_from = me, o_to = oc_to c, o_core_task = oc_core_task c, o_title = oc_title c,
      o_description = oc_description c, o_price = oc_price c, o_currency = cur, o_expires_at = oc_expires_at c,
      o_status = OF_PENDING, o_created_at = now\<rparr>"

text \<open>A \<open>BIGINT\<close> column.\<close>

definition fits_bigint :: "int \<Rightarrow> bool" where
  "fits_bigint n \<longleftrightarrow> - (2 ^ 63) \<le> n \<and> n < 2 ^ 63"

text \<open>The commit fails on a foreign key without a row and on a price outside its column.\<close>

definition create_offer ::
  "uid \<Rightarrow> instant \<Rightarrow> mdb \<Rightarrow> odb \<Rightarrow> principal \<Rightarrow> uid option \<Rightarrow> offer_create \<Rightarrow> offer_error + odb" where
  "create_offer new_id now d od p named c =
    bindE (needE (resolve_offer_agent d p None named) AttributeErrorOnNone)
    (\<lambda>me. bindE (guardE (oc_to c \<noteq> me) SelfOffer)
    (\<lambda>_. bindE (needE (parse_offer_currency (oc_currency c)) (UnknownCurrency (oc_currency c)))
    (\<lambda>cur. bindE (guardE (get_agent d (oc_to c) \<noteq> None \<and>
        (case oc_core_task c of None \<Rightarrow> True | Some t \<Rightarrow> get_task d t \<noteq> None)) MissingRow)
    (\<lambda>_. bindE (guardE (fits_bigint (oc_price c)) PriceOutOfRange)
    (\<lambda>_. Inr (od\<lparr>od_offers := od_offers od @
      [opened_offer new_id now me cur c]\<rparr>))))))"

definition get_offer_with_negotiation :: "mdb \<Rightarrow> odb \<Rightarrow> principal \<Rightarrow> uid \<Rightarrow> offer_error + offer" where
  "get_offer_with_negotiation d od p i =
    bindE (needE (get_offer od i) OfferNotFound)
    (\<lambda>f. bindE (mapE (\<lambda>_. NotAParty) (require_party d p [Some (o_from f), Some (o_to f)])) (\<lambda>_. Inr f))"

text \<open>The three checks every answer to an offer starts with.\<close>

definition party_check :: "mdb \<Rightarrow> odb \<Rightarrow> principal \<Rightarrow> uid option \<Rightarrow> uid \<Rightarrow> offer_error + (offer \<times> uid)" where
  "party_check d od p named i =
    bindE (needE (get_offer od i) OfferNotFound)
    (\<lambda>f. bindE (guardE (o_status f = OF_PENDING) (NotNegotiable (o_status f)))
    (\<lambda>_. bindE (needE (resolve_offer_agent d p (Some f) named) AttributeErrorOnNone)
    (\<lambda>me. bindE (guardE (me = o_from f \<or> me = o_to f) NotTheParties)
    (\<lambda>_. Inr (f, me)))))"

definition counter_offer ::
  "uid \<Rightarrow> mdb \<Rightarrow> odb \<Rightarrow> principal \<Rightarrow> uid option \<Rightarrow> uid \<Rightarrow> int \<Rightarrow> string option \<Rightarrow> offer_error + odb" where
  "counter_offer new_id d od p named i price terms =
    bindE (guardE (0 < price) PriceNotPositive)
    (\<lambda>_. bindE (party_check d od p named i)
    (\<lambda>(f, me). let n = count_rows (\<lambda>r. n_offer r = i) (od_rounds od) in
      if max_negotiation_rounds \<le> n
      then Inl (RoundsExhausted (set_offer i (\<lambda>g. g\<lparr>o_status := OF_REJECTED\<rparr>) od))
      else
        bindE (case last_round od i of
            Some r \<Rightarrow> guardE (n_by r \<noteq> me) OwnProposal
          | None \<Rightarrow> guardE (me \<noteq> o_from f) SenderCannotOpen)
        (\<lambda>_. bindE (guardE (fits_bigint price) PriceOutOfRange)
        (\<lambda>_. Inr ((set_offer i (\<lambda>g. g\<lparr>o_price := price\<rparr>) od)
          \<lparr>od_rounds := od_rounds od @ [\<lparr>n_id = new_id, n_offer = i, n_number = n + 1, n_by = me, n_price = price,
             n_terms = terms, n_status = OF_PENDING\<rparr>]\<rparr>)))))"

definition accept_offer :: "mdb \<Rightarrow> odb \<Rightarrow> principal \<Rightarrow> uid option \<Rightarrow> uid \<Rightarrow> offer_error + (odb \<times> int)" where
  "accept_offer d od p named i =
    bindE (party_check d od p named i)
    (\<lambda>(f, me).
      bindE (case last_round od i of
          Some r \<Rightarrow>
            bindE (guardE (n_by r \<noteq> me) OwnProposal)
            (\<lambda>_. Inr (od\<lparr>od_rounds := upd_key n_id (n_id r) (\<lambda>q. q\<lparr>n_status := OF_ACCEPTED\<rparr>) (od_rounds od)\<rparr>))
        | None \<Rightarrow> bindE (guardE (me = o_to f) OnlyRecipient) (\<lambda>_. Inr od))
      (\<lambda>od'. Inr (set_offer i (\<lambda>g. g\<lparr>o_status := OF_ACCEPTED\<rparr>) od', o_price f)))"

definition reject_offer :: "mdb \<Rightarrow> odb \<Rightarrow> principal \<Rightarrow> uid option \<Rightarrow> uid \<Rightarrow> offer_error + odb" where
  "reject_offer d od p named i =
    bindE (party_check d od p named i)
    (\<lambda>_. Inr ((set_offer i (\<lambda>g. g\<lparr>o_status := OF_REJECTED\<rparr>) od)
       \<lparr>od_rounds := upd_where (\<lambda>r. n_offer r = i \<and> n_status r = OF_PENDING) (\<lambda>r. r\<lparr>n_status := OF_REJECTED\<rparr>) (od_rounds od)\<rparr>))"

section \<open>The negotiation protocol\<close>

text \<open>
  The steps of a negotiation under any callers; a refused request leaves the tables as they were,
  apart from the automatic rejection.
\<close>

inductive offer_step :: "odb \<Rightarrow> odb \<Rightarrow> bool" where
  create: "create_offer new_id now d od p named c = Inr od' \<Longrightarrow> new_id \<notin> o_id ` set (od_offers od) \<Longrightarrow>
    new_id \<notin> n_offer ` set (od_rounds od) \<Longrightarrow> offer_step od od'"
| counter: "counter_offer new_id d od p named i price terms = Inr od' \<Longrightarrow> new_id \<notin> n_id ` set (od_rounds od) \<Longrightarrow> offer_step od od'"
| exhaust: "counter_offer new_id d od p named i price terms = Inl (RoundsExhausted od') \<Longrightarrow> offer_step od od'"
| accept: "accept_offer d od p named i = Inr (od', price) \<Longrightarrow> offer_step od od'"
| reject: "reject_offer d od p named i = Inr od' \<Longrightarrow> offer_step od od'"

inductive_cases offer_stepE: "offer_step od od'"

text \<open>
  The rounds of an offer, in order: numbered from 1, at most five, proposed in turn by the recipient
  and the sender, and the offer's price is the last one proposed.
\<close>

definition turn :: "offer \<Rightarrow> nat \<Rightarrow> uid" where
  "turn f k = (if even k then o_to f else o_from f)"

definition well_negotiated :: "odb \<Rightarrow> offer \<Rightarrow> bool" where
  "well_negotiated od f \<longleftrightarrow>
    (let rs = rounds_of od (o_id f) in
     length rs \<le> max_negotiation_rounds \<and> o_from f \<noteq> o_to f \<and>
     (\<forall>k < length rs. n_number (rs ! k) = Suc k \<and> n_by (rs ! k) = turn f k) \<and>
     (rs \<noteq> [] \<longrightarrow> o_price f = n_price (last rs)))"

definition offers_ok :: "odb \<Rightarrow> bool" where
  "offers_ok od \<longleftrightarrow> distinct (map o_id (od_offers od)) \<and> distinct (map n_id (od_rounds od)) \<and>
    (\<forall>r \<in> set (od_rounds od). n_offer r \<in> o_id ` set (od_offers od)) \<and>
    (\<forall>f \<in> set (od_offers od). well_negotiated od f)"

lemma newest_snoc:
  assumes "\<And>q. q \<in> set rs \<Longrightarrow> n_number q \<le> n_number r"
  shows "newest (rs @ [r]) = Some r"
  using assms by (induction rs) auto

lemma newest_last:
  assumes "rs \<noteq> []" and "\<And>k. k < length rs \<Longrightarrow> n_number (rs ! k) = Suc k"
  shows "newest rs = Some (last rs)"
proof -
  from assms(1) obtain qs r where rs: "rs = qs @ [r]" by (metis append_butlast_last_id)
  have "n_number q \<le> n_number r" if "q \<in> set qs" for q
  proof -
    from that obtain k where "k < length qs" "q = qs ! k" by (auto simp: in_set_conv_nth)
    with assms(2) [of k] assms(2) [of "length qs"] rs show ?thesis by (simp add: nth_append)
  qed
  then show ?thesis unfolding rs by (simp add: newest_snoc)
qed

lemma party_check_Inr:
  "party_check d od p named i = Inr (f, me) \<Longrightarrow>
    f \<in> set (od_offers od) \<and> o_id f = i \<and> o_status f = OF_PENDING \<and> (me = o_from f \<or> me = o_to f)"
  by (auto simp: party_check_def bindE_Inr get_offer_def dest: find_SomeD)

text \<open>
  What the protocol invariant reads of a table; accepting and rejecting change only statuses, so
  they leave it as it is.
\<close>

definition offer_terms :: "offer \<Rightarrow> uid \<times> uid \<times> uid \<times> int" where
  "offer_terms f = (o_id f, o_from f, o_to f, o_price f)"

definition round_terms :: "negotiation_round \<Rightarrow> uid \<times> uid \<times> nat \<times> uid \<times> int" where
  "round_terms r = (n_id r, n_offer r, n_number r, n_by r, n_price r)"

lemma rounds_of_terms:
  "map round_terms (rounds_of od i) = filter (\<lambda>q. fst (snd q) = i) (map round_terms (od_rounds od))"
  by (simp add: rounds_of_def filter_map comp_def round_terms_def)

lemma well_negotiated_cong:
  assumes "map round_terms (rounds_of od' (o_id f')) = map round_terms (rounds_of od (o_id f))"
    and "offer_terms f' = offer_terms f"
  shows "well_negotiated od' f' \<longleftrightarrow> well_negotiated od f"
proof -
  let ?r' = "rounds_of od' (o_id f')" and ?r = "rounds_of od (o_id f)"
  have len: "length ?r' = length ?r" using assms(1) by (rule map_eq_imp_length_eq)
  have terms: "round_terms (?r' ! k) = round_terms (?r ! k)" if "k < length ?r" for k
    using arg_cong [OF assms(1), of "\<lambda>xs. xs ! k"] that len by simp
  have cols: "n_number (?r' ! k) = n_number (?r ! k) \<and> n_by (?r' ! k) = n_by (?r ! k)
      \<and> n_price (?r' ! k) = n_price (?r ! k)" if "k < length ?r" for k
    using terms [OF that] by (simp add: round_terms_def)
  have ends: "n_price (last ?r') = n_price (last ?r)" if "?r \<noteq> []"
  proof -
    from that len have "?r' \<noteq> []" by (metis length_0_conv)
    with that len cols [of "length ?r - 1"] show ?thesis by (simp add: last_conv_nth)
  qed
  have empty: "?r' = [] \<longleftrightarrow> ?r = []" using len by (metis length_0_conv)
  have turns: "turn f' k = turn f k" for k using assms(2) by (simp add: turn_def offer_terms_def)
  have parties: "o_from f' = o_from f" "o_to f' = o_to f" "o_price f' = o_price f"
    using assms(2) by (simp_all add: offer_terms_def)
  have each: "(\<forall>k < length ?r. n_number (?r' ! k) = Suc k \<and> n_by (?r' ! k) = turn f k) \<longleftrightarrow>
      (\<forall>k < length ?r. n_number (?r ! k) = Suc k \<and> n_by (?r ! k) = turn f k)"
    using cols by metis
  show ?thesis
    unfolding well_negotiated_def Let_def len turns parties empty each using ends by auto
qed

lemma offers_ok_cong:
  assumes fs: "map offer_terms (od_offers od') = map offer_terms (od_offers od)"
    and rs: "map round_terms (od_rounds od') = map round_terms (od_rounds od)"
    and ok: "offers_ok od"
  shows "offers_ok od'"
proof -
  have "map fst (map offer_terms (od_offers od')) = map fst (map offer_terms (od_offers od))"
    using fs by simp
  then have ids: "map o_id (od_offers od') = map o_id (od_offers od)"
    by (simp add: comp_def offer_terms_def)
  have "map fst (map round_terms (od_rounds od')) = map fst (map round_terms (od_rounds od))"
    using rs by simp
  then have rids: "map n_id (od_rounds od') = map n_id (od_rounds od)"
    by (simp add: comp_def round_terms_def)
  have "map (fst \<circ> snd) (map round_terms (od_rounds od')) = map (fst \<circ> snd) (map round_terms (od_rounds od))"
    using rs by simp
  then have owners: "map n_offer (od_rounds od') = map n_offer (od_rounds od)"
    by (simp add: comp_def round_terms_def)
  have idset: "o_id ` set (od_offers od') = o_id ` set (od_offers od)" using ids by (metis set_map)
  have own: "n_offer ` set (od_rounds od') = n_offer ` set (od_rounds od)" using owners by (metis set_map)
  have neg: "well_negotiated od' f'" if "f' \<in> set (od_offers od')" for f'
  proof -
    from that have "offer_terms f' \<in> set (map offer_terms (od_offers od'))" by simp
    then obtain f where f: "f \<in> set (od_offers od)" "offer_terms f' = offer_terms f" unfolding fs by auto
    then have "o_id f' = o_id f" by (simp add: offer_terms_def)
    then have "map round_terms (rounds_of od' (o_id f')) = map round_terms (rounds_of od (o_id f))"
      unfolding rounds_of_terms rs by simp
    from well_negotiated_cong [OF this f(2)] f(1) ok show ?thesis by (simp add: offers_ok_def)
  qed
  have "n_offer ` set (od_rounds od) \<subseteq> o_id ` set (od_offers od)"
    using ok by (auto simp: offers_ok_def)
  then have "n_offer ` set (od_rounds od') \<subseteq> o_id ` set (od_offers od')"
    unfolding own idset .
  then have "\<forall>r \<in> set (od_rounds od'). n_offer r \<in> o_id ` set (od_offers od')"
    by (simp only: image_subset_iff)
  moreover have "\<forall>f \<in> set (od_offers od'). well_negotiated od' f" using neg by (rule ballI)
  moreover have "distinct (map o_id (od_offers od'))" "distinct (map n_id (od_rounds od'))"
    unfolding ids rids using ok by (simp_all add: offers_ok_def)
  ultimately show ?thesis unfolding offers_ok_def by (intro conjI)
qed

lemma offer_terms_status: "map offer_terms (od_offers (set_offer i (\<lambda>g. g\<lparr>o_status := st\<rparr>) od)) = map offer_terms (od_offers od)"
  by (simp add: set_offer_def map_key_upd_key offer_terms_def)

lemma set_offer_rounds [simp]: "od_rounds (set_offer i f od) = od_rounds od"
  by (simp add: set_offer_def)

lemma round_terms_upd_key: "map round_terms (upd_key n_id k (\<lambda>q. q\<lparr>n_status := st\<rparr>) rs) = map round_terms rs"
  by (simp add: map_key_upd_key round_terms_def)

lemma round_terms_upd_where: "map round_terms (upd_where p (\<lambda>q. q\<lparr>n_status := st\<rparr>) rs) = map round_terms rs"
  by (simp add: upd_where_def round_terms_def)

lemmas status_only = offer_terms_status round_terms_upd_key round_terms_upd_where

section \<open>Each route keeps the protocol\<close>

lemma create_keeps:
  assumes "create_offer new_id now d od p named c = Inr od'" and "offers_ok od"
    and "new_id \<notin> o_id ` set (od_offers od)"
  shows "offers_ok od'"
proof -
  from assms(1) obtain me cur where me: "oc_to c \<noteq> me"
    and od': "od' = od\<lparr>od_offers := od_offers od @ [opened_offer new_id now me cur c]\<rparr>"
    by (auto simp: create_offer_def bindE_Inr)
  let ?f = "opened_offer new_id now me cur c"
  have f: "o_id ?f = new_id" "o_from ?f \<noteq> o_to ?f" using me by (auto simp: opened_offer_def)
  have rs: "rounds_of od' i = rounds_of od i" for i by (simp add: od' rounds_of_def)
  have "n_offer r \<noteq> new_id" if "r \<in> set (od_rounds od)" for r
    using that assms(2,3) by (auto simp: offers_ok_def)
  then have "rounds_of od new_id = []" by (simp add: rounds_of_def filter_empty_conv)
  then have "well_negotiated od' ?f" using f by (simp add: well_negotiated_def rs)
  moreover have "well_negotiated od' g" if "g \<in> set (od_offers od)" for g
    using that assms(2) by (simp add: offers_ok_def well_negotiated_def rs)
  ultimately show ?thesis using assms(2,3) f by (auto simp: offers_ok_def od')
qed

lemma accept_keeps:
  "accept_offer d od p named i = Inr (od', price) \<Longrightarrow> offers_ok od \<Longrightarrow> offers_ok od'"
  by (erule offers_ok_cong [rotated 2])
    (auto simp: accept_offer_def bindE_Inr status_only split: option.splits; simp add: set_offer_def map_key_upd_key offer_terms_def)+

lemma reject_keeps:
  "reject_offer d od p named i = Inr od' \<Longrightarrow> offers_ok od \<Longrightarrow> offers_ok od'"
  by (erule offers_ok_cong [rotated 2]) (auto simp: reject_offer_def bindE_Inr status_only)

lemma exhaust_keeps:
  assumes "counter_offer new_id d od p named i price terms = Inl (RoundsExhausted od')" and "offers_ok od"
  shows "offers_ok od'"
proof -
  from assms(1) have "od' = set_offer i (\<lambda>g. g\<lparr>o_status := OF_REJECTED\<rparr>) od"
    by (auto simp: counter_offer_def party_check_def bindE_Inl bindE_Inr Let_def split: if_splits option.splits)
  with assms(2) show ?thesis by (auto intro: offers_ok_cong simp: status_only)
qed

lemma counter_offer_Inr:
  assumes "counter_offer new_id d od p named i price terms = Inr od'"
  obtains f me where "f \<in> set (od_offers od)" and "o_id f = i" and "me = o_from f \<or> me = o_to f"
    and "length (rounds_of od i) < max_negotiation_rounds"
    and "(case last_round od i of Some r \<Rightarrow> n_by r \<noteq> me | None \<Rightarrow> me \<noteq> o_from f)"
    and "od' = (set_offer i (\<lambda>g. g\<lparr>o_price := price\<rparr>) od)\<lparr>od_rounds := od_rounds od @
       [\<lparr>n_id = new_id, n_offer = i, n_number = length (rounds_of od i) + 1, n_by = me, n_price = price,
         n_terms = terms, n_status = OF_PENDING\<rparr>]\<rparr>"
proof -
  from assms obtain f me where pc: "party_check d od p named i = Inr (f, me)"
    and "length (rounds_of od i) < max_negotiation_rounds"
    and "(case last_round od i of Some r \<Rightarrow> n_by r \<noteq> me | None \<Rightarrow> me \<noteq> o_from f)"
    and "od' = (set_offer i (\<lambda>g. g\<lparr>o_price := price\<rparr>) od)\<lparr>od_rounds := od_rounds od @
       [\<lparr>n_id = new_id, n_offer = i, n_number = length (rounds_of od i) + 1, n_by = me, n_price = price,
         n_terms = terms, n_status = OF_PENDING\<rparr>]\<rparr>"
    by (auto simp: counter_offer_def bindE_Inr Let_def count_rows_def rounds_of_def not_le
        split: if_splits option.splits)
  with party_check_Inr [OF pc] show thesis using that by blast
qed

text \<open>Whoever did not make the last proposal is the one whose turn it is.\<close>

lemma last_round_turn:
  assumes "well_negotiated od f"
  shows "(case last_round od (o_id f) of Some r \<Rightarrow> rounds_of od (o_id f) \<noteq> [] \<and> r = last (rounds_of od (o_id f))
          \<and> n_by r = turn f (length (rounds_of od (o_id f)) - 1)
        | None \<Rightarrow> rounds_of od (o_id f) = [])"
proof (cases "rounds_of od (o_id f) = []")
  case True
  then show ?thesis by (simp add: last_round_def)
next
  case False
  let ?rs = "rounds_of od (o_id f)"
  have n: "\<And>k. k < length ?rs \<Longrightarrow> n_number (?rs ! k) = Suc k \<and> n_by (?rs ! k) = turn f k"
    using assms by (simp add: well_negotiated_def Let_def)
  have "last_round od (o_id f) = Some (last ?rs)"
    unfolding last_round_def by (rule newest_last [OF False]) (simp add: n)
  moreover have "n_by (last ?rs) = turn f (length ?rs - 1)"
    using False n [of "length ?rs - 1"] by (simp add: last_conv_nth)
  ultimately show ?thesis using False by simp
qed

lemma turn_other:
  assumes "well_negotiated od f" and "me = o_from f \<or> me = o_to f"
    and "(case last_round od (o_id f) of Some r \<Rightarrow> n_by r \<noteq> me | None \<Rightarrow> me \<noteq> o_from f)"
  shows "me = turn f (length (rounds_of od (o_id f)))"
proof (cases "last_round od (o_id f)")
  case None
  with last_round_turn [OF assms(1)] assms(2,3) show ?thesis by (simp add: turn_def)
next
  case (Some r)
  with last_round_turn [OF assms(1)] assms(2,3) show ?thesis
    by (cases "length (rounds_of od (o_id f))") (auto simp: turn_def split: if_splits)
qed

lemma counter_keeps:
  assumes "counter_offer new_id d od p named i price terms = Inr od'" and ok: "offers_ok od"
    and fresh: "new_id \<notin> n_id ` set (od_rounds od)"
  shows "offers_ok od'"
proof -
  from assms(1) obtain f me where f: "f \<in> set (od_offers od)" "o_id f = i" "me = o_from f \<or> me = o_to f"
    and few: "length (rounds_of od i) < max_negotiation_rounds"
    and other: "(case last_round od i of Some r \<Rightarrow> n_by r \<noteq> me | None \<Rightarrow> me \<noteq> o_from f)"
    and od': "od' = (set_offer i (\<lambda>g. g\<lparr>o_price := price\<rparr>) od)\<lparr>od_rounds := od_rounds od @
       [\<lparr>n_id = new_id, n_offer = i, n_number = length (rounds_of od i) + 1, n_by = me, n_price = price,
         n_terms = terms, n_status = OF_PENDING\<rparr>]\<rparr>"
    by (rule counter_offer_Inr)
  let ?r = "\<lparr>n_id = new_id, n_offer = i, n_number = length (rounds_of od i) + 1, n_by = me, n_price = price,
         n_terms = terms, n_status = OF_PENDING\<rparr>"
  have wf: "well_negotiated od f" using ok f(1) by (simp add: offers_ok_def)
  have me: "me = turn f (length (rounds_of od i))"
    using turn_other [OF wf f(3)] other f(2) by simp
  have rounds: "rounds_of od' j = rounds_of od j @ (if j = i then [?r] else [])" for j
    by (simp add: od' rounds_of_def)
  have offers: "od_offers od' = upd_key o_id i (\<lambda>g. g\<lparr>o_price := price\<rparr>) (od_offers od)"
    by (simp add: od' set_offer_def)
  have only: "g = f" if "g \<in> set (od_offers od)" "o_id g = i" for g
    using that f ok by (auto simp: offers_ok_def distinct_map inj_on_def)
  have new: "well_negotiated od' (f\<lparr>o_price := price\<rparr>)"
    using wf few f(2) me by (auto simp: well_negotiated_def Let_def rounds nth_append less_Suc_eq turn_def)
  have old: "well_negotiated od' g" if "g \<in> set (od_offers od)" "o_id g \<noteq> i" for g
    using that ok by (simp add: offers_ok_def well_negotiated_def rounds)
  have "\<forall>g \<in> set (od_offers od'). well_negotiated od' g"
  proof
    fix g
    assume "g \<in> set (od_offers od')"
    then obtain h where h: "h \<in> set (od_offers od)" "g = (if o_id h = i then h\<lparr>o_price := price\<rparr> else h)"
      unfolding offers set_upd_key by blast
    show "well_negotiated od' g"
    proof (cases "o_id h = i")
      case True
      with only [OF h(1)] h(2) new show ?thesis by simp
    next
      case False
      with old [OF h(1)] h(2) show ?thesis by simp
    qed
  qed
  moreover have "distinct (map o_id (od_offers od'))"
    using ok by (simp add: offers offers_ok_def map_key_upd_key)
  moreover have "distinct (map n_id (od_rounds od'))"
    using ok fresh by (simp add: od' offers_ok_def)
  moreover have "\<forall>r \<in> set (od_rounds od'). n_offer r \<in> o_id ` set (od_offers od')"
  proof -
    have "map o_id (od_offers od') = map o_id (od_offers od)"
      by (simp add: offers map_key_upd_key)
    then have "o_id ` set (od_offers od') = o_id ` set (od_offers od)" by (metis set_map)
    then show ?thesis using ok f by (auto simp: od' offers_ok_def)
  qed
  ultimately show ?thesis unfolding offers_ok_def by (intro conjI)
qed

lemma offer_step_keeps: "offers_ok od \<Longrightarrow> offer_step od od' \<Longrightarrow> offers_ok od'"
  by (erule offer_stepE) (auto dest: create_keeps counter_keeps exhaust_keeps accept_keeps reject_keeps)

lemma empty_offers_ok: "offers_ok \<lparr>od_offers = [], od_rounds = []\<rparr>"
  by (simp add: offers_ok_def)

interpretation negotiation: invariant_system "\<lambda>od. od = \<lparr>od_offers = [], od_rounds = []\<rparr>" offer_step offers_ok
proof
  show "offers_ok s" if "s = \<lparr>od_offers = [], od_rounds = []\<rparr>" for s :: odb
    unfolding that by (rule empty_offers_ok)
  show "offers_ok s'" if "offers_ok s" "offer_step s s'" for s s'
    using that by (rule offer_step_keeps)
qed

section \<open>Properties\<close>


text \<open>An offer of agent 100 to agent 200 that the recipient counters once.\<close>

definition demo_offer :: offer_create where
  "demo_offer = \<lparr>oc_to = 200, oc_core_task = None, oc_title = ''t'', oc_description = None, oc_price = 90,
    oc_currency = ''credits'', oc_expires_at = 0\<rparr>"

definition demo_offered :: odb where
  "demo_offered = \<lparr>od_offers = [opened_offer 1 0 100 CREDITS demo_offer], od_rounds = []\<rparr>"

definition demo_countered :: odb where
  "demo_countered = \<lparr>od_offers = [(opened_offer 1 0 100 CREDITS demo_offer)\<lparr>o_price := 70\<rparr>],
    od_rounds = [\<lparr>n_id = 5, n_offer = 1, n_number = 1, n_by = 200, n_price = 70, n_terms = None, n_status = OF_PENDING\<rparr>]\<rparr>"

lemma demo_offer_create:
  "create_offer 1 0 demo_db \<lparr>od_offers = [], od_rounds = []\<rparr> (PAgent 100) None demo_offer = Inr demo_offered"
  by code_simp

lemma demo_offer_counter: "counter_offer 5 demo_db demo_offered (PAgent 200) None 1 70 None = Inr demo_countered"
  by code_simp

lemma demo_negotiation: "offer_step\<^sup>*\<^sup>* \<lparr>od_offers = [], od_rounds = []\<rparr> demo_countered"
proof -
  have "offer_step \<lparr>od_offers = [], od_rounds = []\<rparr> demo_offered"
    by (rule offer_step.create [OF demo_offer_create]) simp_all
  moreover have "offer_step demo_offered demo_countered"
    by (rule offer_step.counter [OF demo_offer_counter]) (simp add: demo_offered_def)
  ultimately show ?thesis by (meson rtranclp.rtrancl_into_rtrancl rtranclp.rtrancl_refl)
qed


text \<open>
  An offer is accepted only by the party that did not make the last proposal (the recipient,
  before any counter-offer), and the price it accepts is the one last proposed.
\<close>

theorem accept_by_other_party:
  assumes "offers_ok od" and "accept_offer d od p named i = Inr (od', price)"
  shows "\<exists>f \<in> set (od_offers od). o_id f = i \<and> o_status f = OF_PENDING \<and>
    resolve_offer_agent d p (Some f) named = Some (turn f (length (rounds_of od i))) \<and>
    price = (if rounds_of od i = [] then o_price f else n_price (last (rounds_of od i)))"
proof -
  from assms(2) obtain f me where pc: "party_check d od p named i = Inr (f, me)" and price: "price = o_price f"
    and other: "case last_round od i of Some r \<Rightarrow> n_by r \<noteq> me | None \<Rightarrow> me = o_to f"
    by (auto simp: accept_offer_def bindE_Inr split: option.splits)
  have f: "f \<in> set (od_offers od)" "o_id f = i" "o_status f = OF_PENDING" "me = o_from f \<or> me = o_to f"
    using party_check_Inr [OF pc] by auto
  have wf: "well_negotiated od f" using assms(1) f(1) by (simp add: offers_ok_def)
  have "o_from f \<noteq> o_to f" using wf by (simp add: well_negotiated_def Let_def)
  with other have "case last_round od (o_id f) of Some r \<Rightarrow> n_by r \<noteq> me | None \<Rightarrow> me \<noteq> o_from f"
    by (auto simp: f(2) split: option.splits)
  from turn_other [OF wf f(4) this] have "me = turn f (length (rounds_of od i))" by (simp add: f(2))
  moreover have "resolve_offer_agent d p (Some f) named = Some me"
    using pc by (auto simp: party_check_def bindE_Inr)
  moreover have "price = (if rounds_of od i = [] then o_price f else n_price (last (rounds_of od i)))"
    using wf price by (simp add: well_negotiated_def Let_def f(2))
  ultimately show ?thesis using f by (intro bexI [of _ f]) auto
qed

theorem accept_by_other_party_witness:
  "\<exists>f \<in> set (od_offers demo_countered). o_id f = 1 \<and> o_status f = OF_PENDING \<and>
    resolve_offer_agent demo_db (PAgent 100) (Some f) None = Some (turn f (length (rounds_of demo_countered 1))) \<and>
    70 = (if rounds_of demo_countered 1 = [] then o_price f else n_price (last (rounds_of demo_countered 1)))"
proof (rule accept_by_other_party)
  show "offers_ok demo_countered" by (rule negotiation.reachable_inv [OF refl demo_negotiation])
  have "case accept_offer demo_db demo_countered (PAgent 100) None 1 of Inl _ \<Rightarrow> False | Inr (_, q) \<Rightarrow> q = 70"
    by code_simp
  then show "accept_offer demo_db demo_countered (PAgent 100) None 1 =
      Inr (fst (projr (accept_offer demo_db demo_countered (PAgent 100) None 1)), 70)"
    by (cases "accept_offer demo_db demo_countered (PAgent 100) None 1") auto
qed

end
