(* ===== verification/Taxonomy.thy ===== *)
theory Taxonomy
  imports Prelude
begin

text \<open>
  The persisted vocabularies of the maintenance kernel
  (\<open>services/registry/app/maintenance/taxonomy.py\<close>): incident classes, priorities, severities, trust
  classes, risk classes, release statuses, actors, and the deterministic priority rule. Priorities
  are ordered by urgency and risk classes by \<open>RISK_ORDER\<close>, so that \<open>min\<close> and \<open>max\<close> of the library
  are the code's \<open>min_priority\<close> and \<open>risk_max\<close>.
\<close>

datatype incident_class =
    AVAILABILITY | FUNCTIONAL_CONTRACT | AUTH | A2A | UI_NAVIGATION | UI_RENDERING | ACCESSIBILITY
  | PERFORMANCE | SECURITY | DEPENDENCY | ECONOMIC_INVARIANT | DATA_INVARIANT | RELEASE_REGRESSION
  | CONTROL_PLANE | EXTERNAL_DEPENDENCY

datatype priority = P0 | P1 | P2 | P3

datatype severity = MINOR | MAJOR | CRITICAL

datatype incident_status = INC_OPEN | INC_RECOVERED | INC_CLOSED

datatype trust_class =
    TRUSTED_PROBE | TRUSTED_CI | TRUSTED_PROVIDER | TRUSTED_DB | TRUSTED_EXECUTION | MODEL_HYPOTHESIS

definition trusted_evidence :: "trust_class \<Rightarrow> bool" where
  "trusted_evidence t \<longleftrightarrow> t \<noteq> MODEL_HYPOTHESIS"

datatype activity_kind =
    DIAGNOSE_INCIDENT | DESIGN_REPAIR | AUTHOR_PATCH | REVIEW_PATCH | SECURITY_REVIEW
  | EXPLAIN_ESCALATION | DRAFT_POSTMORTEM

datatype activity_status = ACT_RUNNING | ACT_SUCCEEDED | ACT_FAILED | ACT_ABANDONED

datatype risk_class = MAINTENANCE_GREEN | AMBER | RED | CONSTITUTIONAL

fun risk_value :: "risk_class \<Rightarrow> string" where
  "risk_value MAINTENANCE_GREEN = ''MAINTENANCE_GREEN''"
| "risk_value AMBER = ''AMBER''"
| "risk_value RED = ''RED''"
| "risk_value CONSTITUTIONAL = ''CONSTITUTIONAL''"

datatype release_status =
    REL_PENDING | REL_VERIFYING | REL_PREVIEW_VALIDATING | REL_PR_OPEN | REL_MERGED | REL_DEPLOYING
  | REL_POST_DEPLOY_VERIFYING | REL_SUCCEEDED | REL_ROLLING_BACK | REL_ROLLED_BACK
  | REL_ROLLBACK_FAILED | REL_REFUSED

definition release_terminal :: "release_status \<Rightarrow> bool" where
  "release_terminal r \<longleftrightarrow> r \<in> {REL_SUCCEEDED, REL_ROLLED_BACK, REL_ROLLBACK_FAILED, REL_REFUSED}"

datatype actor = CONTROLLER | WATCHDOG | RELEASE | ACTIVITY | OWNER | MONITOR

section \<open>Orders\<close>

fun priority_rank :: "priority \<Rightarrow> nat" where
  "priority_rank P0 = 0"
| "priority_rank P1 = 1"
| "priority_rank P2 = 2"
| "priority_rank P3 = 3"

fun risk_order :: "risk_class \<Rightarrow> nat" where
  "risk_order MAINTENANCE_GREEN = 0"
| "risk_order AMBER = 1"
| "risk_order RED = 2"
| "risk_order CONSTITUTIONAL = 3"

lemma priority_rank_inj: "priority_rank p = priority_rank q \<longleftrightarrow> p = q"
  by (cases p; cases q) simp_all

lemma risk_order_inj: "risk_order a = risk_order b \<longleftrightarrow> a = b"
  by (cases a; cases b) simp_all

instantiation priority :: linorder
begin

definition less_eq_priority :: "priority \<Rightarrow> priority \<Rightarrow> bool" where
  "p \<le> q \<longleftrightarrow> priority_rank p \<le> priority_rank q"

definition less_priority :: "priority \<Rightarrow> priority \<Rightarrow> bool" where
  "p < q \<longleftrightarrow> priority_rank p < priority_rank q"

instance
  by standard (auto simp: less_eq_priority_def less_priority_def priority_rank_inj)

end

instantiation risk_class :: linorder
begin

definition less_eq_risk_class :: "risk_class \<Rightarrow> risk_class \<Rightarrow> bool" where
  "a \<le> b \<longleftrightarrow> risk_order a \<le> risk_order b"

definition less_risk_class :: "risk_class \<Rightarrow> risk_class \<Rightarrow> bool" where
  "a < b \<longleftrightarrow> risk_order a < risk_order b"

instance
  by standard (auto simp: less_eq_risk_class_def less_risk_class_def risk_order_inj)

end

definition risk_max :: "risk_class \<Rightarrow> risk_class \<Rightarrow> risk_class" where
  "risk_max a b = (if risk_order b \<le> risk_order a then a else b)"

definition min_priority :: "priority \<Rightarrow> priority \<Rightarrow> priority" where
  "min_priority a b = (if priority_rank a \<le> priority_rank b then a else b)"

lemma risk_max_is_max [simp]: "risk_max a b = max a b"
  by (cases a; cases b) (simp_all add: risk_max_def max_def less_eq_risk_class_def)

lemma min_priority_is_min [simp]: "min_priority a b = min a b"
  by (simp add: min_priority_def min_def less_eq_priority_def)

section \<open>The priority of an incident\<close>

text \<open>Identity tests of the enum members; the branches in the code's order.\<close>

definition priority_for :: "incident_class \<Rightarrow> severity \<Rightarrow> priority \<Rightarrow> priority" where
  "priority_for c sev base =
    (if c = ECONOMIC_INVARIANT \<or> c = DATA_INVARIANT then P0
     else if c = SECURITY then (if sev = CRITICAL then P0 else min_priority base P1)
     else if c = AVAILABILITY \<and> sev = CRITICAL then P0
     else if c = AUTH \<or> c = A2A then min_priority base P1
     else if sev = MINOR then P3
     else base)"

text \<open>The failure classes of the public surface monitor.\<close>

definition surface_failure_class :: "string \<Rightarrow> (incident_class \<times> priority) option" where
  "surface_failure_class = map_of
    [(''unreachable'', AVAILABILITY, P0), (''timeout'', AVAILABILITY, P1), (''server_error'', AVAILABILITY, P1),
     (''client_error'', FUNCTIONAL_CONTRACT, P2), (''unexpected_status'', FUNCTIONAL_CONTRACT, P2),
     (''masked_by_landing_redirect'', UI_NAVIGATION, P2), (''wrong_final_path'', UI_NAVIGATION, P2),
     (''marker_missing'', UI_RENDERING, P2), (''redirect_loop'', UI_NAVIGATION, P1),
     (''offsite_redirect'', SECURITY, P1), (''response_too_large'', PERFORMANCE, P3),
     (''placeholder_link'', UI_NAVIGATION, P2), (''empty_asset'', UI_RENDERING, P3)]"

definition critical_journey_items :: "string \<Rightarrow> incident_class option" where
  "critical_journey_items = map_of [(''login'', AUTH), (''register'', AUTH), (''a2a_agent_card'', A2A)]"

lemma priority_rank_less_eq [simp]: "p \<le> q \<longleftrightarrow> priority_rank p \<le> priority_rank q"
  by (simp add: less_eq_priority_def)

lemma priority_for_raises:
  "sev \<noteq> MINOR \<Longrightarrow> priority_for c sev base \<le> base"
  by (cases base) (auto simp: priority_for_def min_def)

end
