(* ===== verification/CaseMachine.thy ===== *)
theory CaseMachine
  imports Taxonomy TaskContract
begin

text \<open>
  The repair case state machine (\<open>services/registry/app/maintenance/state_machine.py\<close>): the table of
  allowed moves, deadlines and recovery targets, the transition check, and the start-up check
  \<open>assert_total\<close> with its exploration loop. The prose field \<open>purpose\<close> is left out.
\<close>

datatype case_state =
    DETECTED | CONFIRMED | TRIAGED | DIAGNOSING | PLAN_READY | BUILDING | VERIFYING | NEEDS_RESCOPE
  | PROMOTING | READY_FOR_RELEASE | RELEASING | POST_RELEASE_VERIFYING | RECOVERY_PENDING
  | AUTO_REPAIRED | AUTO_ROLLED_BACK | SAFELY_ESCALATED | CANNOT_REPRODUCE | DUPLICATE_RESOLVED
  | POLICY_REFUSED

definition case_states :: "case_state list" where
  "case_states = [DETECTED, CONFIRMED, TRIAGED, DIAGNOSING, PLAN_READY, BUILDING, VERIFYING, NEEDS_RESCOPE,
    PROMOTING, READY_FOR_RELEASE, RELEASING, POST_RELEASE_VERIFYING, RECOVERY_PENDING, AUTO_REPAIRED,
    AUTO_ROLLED_BACK, SAFELY_ESCALATED, CANNOT_REPRODUCE, DUPLICATE_RESOLVED, POLICY_REFUSED]"

lemma set_case_states: "set case_states = UNIV"
proof -
  have "s \<in> set case_states" for s by (cases s) (simp_all add: case_states_def)
  then show ?thesis by blast
qed

instance case_state :: finite
  by standard (metis List.finite_set set_case_states)

definition is_terminal :: "case_state \<Rightarrow> bool" where
  "is_terminal s \<longleftrightarrow> s \<in> {AUTO_REPAIRED, AUTO_ROLLED_BACK, SAFELY_ESCALATED, CANNOT_REPRODUCE,
    DUPLICATE_RESOLVED, POLICY_REFUSED}"

definition non_terminal :: "case_state list" where
  "non_terminal = filter (\<lambda>s. \<not> is_terminal s) case_states"

definition pre_merge :: "case_state \<Rightarrow> bool" where
  "pre_merge s \<longleftrightarrow> s \<in> {DETECTED, CONFIRMED, TRIAGED, DIAGNOSING, PLAN_READY, BUILDING, VERIFYING, NEEDS_RESCOPE}"

definition cognitive :: "case_state \<Rightarrow> bool" where
  "cognitive s \<longleftrightarrow> s \<in> {DIAGNOSING, BUILDING, VERIFYING, NEEDS_RESCOPE}"

record state_spec =
  sp_timeout :: duration
  sp_poll :: duration
  sp_max_tries :: nat
  sp_on_deadline :: case_state
  sp_on_exhausted :: case_state
  sp_allowed :: "(case_state \<times> actor list) list"

definition row :: "duration \<Rightarrow> duration \<Rightarrow> nat \<Rightarrow> case_state \<Rightarrow> case_state \<Rightarrow> (case_state \<times> actor list) list \<Rightarrow> state_spec" where
  "row t p n d x a = \<lparr>sp_timeout = t, sp_poll = p, sp_max_tries = n, sp_on_deadline = d, sp_on_exhausted = x, sp_allowed = a\<rparr>"

abbreviation "act_C \<equiv> [CONTROLLER]"
abbreviation "act_CW \<equiv> [CONTROLLER, WATCHDOG]"
abbreviation "act_CO \<equiv> [CONTROLLER, OWNER]"
abbreviation "act_CA \<equiv> [CONTROLLER, ACTIVITY]"
abbreviation "act_CR \<equiv> [CONTROLLER, RELEASE]"
abbreviation "act_CWO \<equiv> [CONTROLLER, WATCHDOG, OWNER]"
abbreviation "act_CWA \<equiv> [CONTROLLER, WATCHDOG, ACTIVITY]"
abbreviation "act_CWAO \<equiv> [CONTROLLER, WATCHDOG, ACTIVITY, OWNER]"
abbreviation "act_CWRO \<equiv> [CONTROLLER, WATCHDOG, RELEASE, OWNER]"

fun spec_of :: "case_state \<Rightarrow> state_spec" where
  "spec_of DETECTED = row (minutes 30) (minutes 1) 40 CANNOT_REPRODUCE CANNOT_REPRODUCE
    [(CONFIRMED, act_C), (CANNOT_REPRODUCE, act_CW), (DUPLICATE_RESOLVED, act_C), (SAFELY_ESCALATED, act_CWO), (POLICY_REFUSED, act_CO)]"
| "spec_of CONFIRMED = row (hours 24) (minutes 5) 400 SAFELY_ESCALATED SAFELY_ESCALATED
    [(TRIAGED, act_C), (CANNOT_REPRODUCE, act_CW), (SAFELY_ESCALATED, act_CWO), (POLICY_REFUSED, act_CO)]"
| "spec_of TRIAGED = row (minutes 10) (minutes 0) 3 SAFELY_ESCALATED SAFELY_ESCALATED
    [(DIAGNOSING, act_C), (CANNOT_REPRODUCE, act_CW), (SAFELY_ESCALATED, act_CWO), (POLICY_REFUSED, act_CO)]"
| "spec_of DIAGNOSING = row (minutes 30) (minutes 0) 8 SAFELY_ESCALATED SAFELY_ESCALATED
    [(PLAN_READY, act_CA), (CANNOT_REPRODUCE, act_CW), (SAFELY_ESCALATED, act_CWAO), (POLICY_REFUSED, act_CO)]"
| "spec_of PLAN_READY = row (minutes 10) (minutes 0) 3 SAFELY_ESCALATED SAFELY_ESCALATED
    [(BUILDING, act_C), (NEEDS_RESCOPE, act_C), (CANNOT_REPRODUCE, act_CW), (SAFELY_ESCALATED, act_CWO), (POLICY_REFUSED, act_CO)]"
| "spec_of BUILDING = row (minutes 60) (minutes 0) 4 BUILDING NEEDS_RESCOPE
    [(VERIFYING, act_CA), (BUILDING, act_CWA), (NEEDS_RESCOPE, act_CWA), (CANNOT_REPRODUCE, act_CW), (SAFELY_ESCALATED, act_CWAO), (POLICY_REFUSED, act_CO)]"
| "spec_of VERIFYING = row (minutes 45) (minutes 0) 8 SAFELY_ESCALATED SAFELY_ESCALATED
    [(PROMOTING, act_C), (BUILDING, act_CA), (NEEDS_RESCOPE, act_CA), (CANNOT_REPRODUCE, act_CW), (SAFELY_ESCALATED, act_CWAO), (POLICY_REFUSED, act_CO)]"
| "spec_of NEEDS_RESCOPE = row (minutes 30) (minutes 0) 4 SAFELY_ESCALATED SAFELY_ESCALATED
    [(PLAN_READY, act_CA), (CANNOT_REPRODUCE, act_CW), (SAFELY_ESCALATED, act_CWAO), (POLICY_REFUSED, act_CO)]"
| "spec_of PROMOTING = row (hours 6) (minutes 2) 400 SAFELY_ESCALATED SAFELY_ESCALATED
    [(READY_FOR_RELEASE, act_C), (BUILDING, act_C), (SAFELY_ESCALATED, act_CWO), (POLICY_REFUSED, act_CO)]"
| "spec_of READY_FOR_RELEASE = row (hours 2) (minutes 1) 200 SAFELY_ESCALATED SAFELY_ESCALATED
    [(RELEASING, act_C), (SAFELY_ESCALATED, act_CWO), (POLICY_REFUSED, act_CO)]"
| "spec_of RELEASING = row (hours 4) (minutes 1) 500 SAFELY_ESCALATED SAFELY_ESCALATED
    [(POST_RELEASE_VERIFYING, act_CR), (RECOVERY_PENDING, act_CR), (AUTO_ROLLED_BACK, act_CR), (SAFELY_ESCALATED, act_CWRO)]"
| "spec_of POST_RELEASE_VERIFYING = row (hours 1) (minutes 1) 200 DIAGNOSING SAFELY_ESCALATED
    [(AUTO_REPAIRED, act_C), (RECOVERY_PENDING, act_CR), (DIAGNOSING, act_CW), (SAFELY_ESCALATED, act_CWO)]"
| "spec_of RECOVERY_PENDING = row (hours 1) (minutes 1) 200 SAFELY_ESCALATED SAFELY_ESCALATED
    [(AUTO_ROLLED_BACK, act_CR), (SAFELY_ESCALATED, act_CWRO)]"
| "spec_of SAFELY_ESCALATED = row (minutes 0) (minutes 0) 0 SAFELY_ESCALATED SAFELY_ESCALATED
    [(READY_FOR_RELEASE, [OWNER]), (PROMOTING, [OWNER])]"
| "spec_of s = row (minutes 0) (minutes 0) 0 s s []"

section \<open>The transition check\<close>

datatype machine_error =
    NotAllowedFor case_state case_state actor
  | EscalationFinal

definition may_move :: "case_state \<Rightarrow> case_state \<Rightarrow> actor \<Rightarrow> bool" where
  "may_move src dst a \<longleftrightarrow> (case map_of (sp_allowed (spec_of src)) dst of None \<Rightarrow> False | Some as \<Rightarrow> a \<in> set as)"

definition check_transition :: "case_state \<Rightarrow> case_state \<Rightarrow> actor \<Rightarrow> bool \<Rightarrow> machine_error + unit" where
  "check_transition src dst a resumable =
    bindE (guardE (may_move src dst a) (NotAllowedFor src dst a))
    (\<lambda>_. guardE (src \<noteq> SAFELY_ESCALATED \<or> resumable) EscalationFinal)"

definition deadline_for :: "case_state \<Rightarrow> instant \<Rightarrow> instant option \<Rightarrow> instant option" where
  "deadline_for s entered case_deadline =
    (if is_terminal s then None
     else let d = entered + sp_timeout (spec_of s) in
       Some (case case_deadline of Some c \<Rightarrow> if d > c then c else d | None \<Rightarrow> d))"

lemma check_transition_ok:
  "check_transition src dst a r = Inr u \<longleftrightarrow> may_move src dst a \<and> (src = SAFELY_ESCALATED \<longrightarrow> r)"
  by (auto simp: check_transition_def bindE_Inr)

lemma deadline_for_live: "\<not> is_terminal s \<Longrightarrow> deadline_for s t c \<noteq> None"
  by (simp add: deadline_for_def Let_def)

lemma deadline_for_bound: "deadline_for s t (Some c) = Some d \<Longrightarrow> d \<le> c"
  by (auto simp: deadline_for_def Let_def split: if_splits)

text \<open>Moves other than the owner's resumption, and the other terminal states, form a status machine.\<close>

definition machine_next :: "case_state \<Rightarrow> case_state list" where
  "machine_next s = filter (\<lambda>t. t \<noteq> s) (map fst (filter (\<lambda>(t, as). \<exists>a \<in> set as. a \<noteq> OWNER) (sp_allowed (spec_of s))))"

interpretation case_machine: status_machine machine_next is_terminal
proof
  show "is_terminal s \<Longrightarrow> machine_next s = []" for s by (cases s) (simp_all add: is_terminal_def machine_next_def row_def)
  show "s \<notin> set (machine_next s)" for s by (simp add: machine_next_def)
  show "\<not> is_terminal s \<Longrightarrow> machine_next s \<noteq> []" for s by (cases s) (simp_all add: is_terminal_def machine_next_def row_def)
qed

section \<open>The start-up check\<close>

text \<open>
  The exploration loop of \<open>assert_total\<close>, for any successor function on a finite type:
  \<open>stack.pop()\<close> takes the last element and \<open>stack.extend\<close> appends.
\<close>

function explore :: "('a::finite \<Rightarrow> 'a list) \<Rightarrow> 'a list \<Rightarrow> 'a list \<Rightarrow> 'a list" where
  "explore succs seen stack =
    (if stack = [] then seen
     else if last stack \<in> set seen then explore succs seen (butlast stack)
     else explore succs (last stack # seen) (butlast stack @ succs (last stack)))"
  by pat_completeness auto

termination
proof (relation "measures [\<lambda>(_, seen, _). card (UNIV - set seen), \<lambda>(_, _, stack). length stack]")
  fix succs :: "'a::finite \<Rightarrow> 'a list" and seen stack :: "'a list"
  assume "stack \<noteq> []" and "last stack \<notin> set seen"
  then have "UNIV - set (last stack # seen) \<subset> UNIV - set seen" by auto
  then have "card (UNIV - set (last stack # seen)) < card (UNIV - set seen)"
    by (intro psubset_card_mono) simp_all
  then show "((succs, last stack # seen, butlast stack @ succs (last stack)), succs, seen, stack)
      \<in> measures [\<lambda>(_, seen, _). card (UNIV - set seen), \<lambda>(_, _, stack). length stack]"
    by simp
qed simp_all

declare explore.simps [simp del]

definition live_next :: "case_state \<Rightarrow> case_state list" where
  "live_next s = filter (\<lambda>t. \<not> is_terminal t) (map fst (sp_allowed (spec_of s)))"

definition row_total :: "case_state \<Rightarrow> bool" where
  "row_total s \<longleftrightarrow>
    (let sp = spec_of s in
     0 < sp_timeout sp \<and> 0 < sp_max_tries sp \<and> may_move s (sp_on_deadline sp) WATCHDOG \<and>
     sp_on_exhausted sp \<in> fst ` set (sp_allowed sp) \<and>
     (SAFELY_ESCALATED \<in> fst ` set (sp_allowed sp) \<or> list_ex is_terminal (map fst (sp_allowed sp))))"

definition reaches_terminal :: "case_state \<Rightarrow> bool" where
  "reaches_terminal s \<longleftrightarrow>
    list_ex (\<lambda>x. list_ex is_terminal (map fst (sp_allowed (spec_of x)))) (explore live_next [] [s])"

definition assert_total :: bool where
  "assert_total \<longleftrightarrow> list_all row_total non_terminal \<and> list_all reaches_terminal non_terminal"

text \<open>The loop computes reachability.\<close>

definition edge :: "('a \<Rightarrow> 'a list) \<Rightarrow> 'a \<Rightarrow> 'a \<Rightarrow> bool" where
  "edge succs x y \<longleftrightarrow> y \<in> set (succs x)"

lemma explore_sound:
  assumes "\<forall>x \<in> set seen \<union> set stack. (edge succs)\<^sup>*\<^sup>* s x"
  shows "\<forall>x \<in> set (explore succs seen stack). (edge succs)\<^sup>*\<^sup>* s x"
  using assms
proof (induction succs seen stack rule: explore.induct)
  case (1 succs seen stack)
  show ?case
  proof (cases "stack = []")
    case True
    with "1.prems" show ?thesis by (simp add: explore.simps)
  next
    case False
    then have l: "(edge succs)\<^sup>*\<^sup>* s (last stack)" using "1.prems" by simp
    have "(edge succs)\<^sup>*\<^sup>* s y" if "y \<in> set (succs (last stack))" for y
      using l that by (auto intro: rtranclp.rtrancl_into_rtrancl simp: edge_def)
    with l "1.prems" "1.IH" False show ?thesis
      by (auto simp: explore.simps [of succs seen stack] dest: in_set_butlastD)
  qed
qed

lemma explore_complete:
  assumes "\<forall>x \<in> set seen. set (succs x) \<subseteq> set seen \<union> set stack"
  shows "set seen \<union> set stack \<subseteq> set (explore succs seen stack) \<and>
    (\<forall>x \<in> set (explore succs seen stack). set (succs x) \<subseteq> set (explore succs seen stack))"
  using assms
proof (induction succs seen stack rule: explore.induct)
  case (1 succs seen stack)
  show ?case
  proof (cases "stack = []")
    case True
    with "1.prems" show ?thesis by (simp add: explore.simps)
  next
    case False
    then have set: "set stack = insert (last stack) (set (butlast stack))"
      by (metis append_butlast_last_id set_append list.set(1,2) Un_insert_right sup_bot_right)
    show ?thesis
    proof (cases "last stack \<in> set seen")
      case True
      with False "1.IH"(1) "1.prems" show ?thesis
        by (simp add: explore.simps [of succs seen stack] set insert_absorb)
    next
      case new: False
      have "\<forall>x \<in> set (last stack # seen). set (succs x) \<subseteq> set (last stack # seen) \<union> set (butlast stack @ succs (last stack))"
        using "1.prems" set by auto
      from "1.IH"(2) [OF False new this] False new show ?thesis
        by (simp add: explore.simps [of succs seen stack] set)
    qed
  qed
qed

lemma explore_reachable: "set (explore succs [] [s]) = {t. (edge succs)\<^sup>*\<^sup>* s t}"
proof
  show "set (explore succs [] [s]) \<subseteq> {t. (edge succs)\<^sup>*\<^sup>* s t}"
    using explore_sound [of "[]" "[s]" succs s] by auto
  have c: "s \<in> set (explore succs [] [s])"
    "x \<in> set (explore succs [] [s]) \<Longrightarrow> set (succs x) \<subseteq> set (explore succs [] [s])" for x
    using explore_complete [of "[]" succs "[s]"] by auto
  have "t \<in> set (explore succs [] [s])" if "(edge succs)\<^sup>*\<^sup>* s t" for t
    using that by (induction rule: rtranclp_induct) (use c in \<open>auto simp: edge_def\<close>)
  then show "{t. (edge succs)\<^sup>*\<^sup>* s t} \<subseteq> set (explore succs [] [s])" by blast
qed

section \<open>Properties\<close>

text \<open>
  C31: The start-up check is exact and the shipped table passes it. The exploration loop of
  \<open>assert_total\<close> ends for every table, and it accepts a state exactly when some chain of moves
  through live states leads from it to a state with a move to a terminal one; with the table of the
  code the whole check succeeds, so every live state has a positive deadline and try budget, a
  deadline recovery the watchdog may take, and a way to end.
\<close>

theorem start_up_check_exact:
  "(reaches_terminal s \<longleftrightarrow> (\<exists>x t. (edge live_next)\<^sup>*\<^sup>* s x \<and> t \<in> fst ` set (sp_allowed (spec_of x)) \<and> is_terminal t)) \<and>
    assert_total"
proof (rule conjI)
  have "reaches_terminal s \<longleftrightarrow> (\<exists>x \<in> set (explore live_next [] [s]). \<exists>t \<in> set (map fst (sp_allowed (spec_of x))). is_terminal t)"
    unfolding reaches_terminal_def list_ex_iff ..
  then show "reaches_terminal s \<longleftrightarrow> (\<exists>x t. (edge live_next)\<^sup>*\<^sup>* s x \<and> t \<in> fst ` set (sp_allowed (spec_of x)) \<and> is_terminal t)"
    unfolding explore_reachable by auto
  show assert_total by code_simp
qed

text \<open>
  Terminal is final for the machine. No actor moves a case out of a terminal state, except the
  owner resuming an escalation that was recorded as resumable, and then only back to promotion or
  to the release; a final escalation and every other outcome are left by nobody.
\<close>

theorem only_owner_leaves_terminal:
  "(is_terminal src \<and> check_transition src dst a resumable = Inr ()) \<longleftrightarrow>
    (src = SAFELY_ESCALATED \<and> a = OWNER \<and> resumable \<and> (dst = READY_FOR_RELEASE \<or> dst = PROMOTING))"
  by (cases src) (auto simp: check_transition_ok may_move_def row_def is_terminal_def split: if_splits)

end
