(* ===== verification/Ledger.thy ===== *)
theory Ledger
  imports CaseMachine
begin

text \<open>
  The durable rows of the maintenance kernel and the case operations of
  \<open>services/registry/app/maintenance/ledger.py\<close>: opening a case, the audited transition,
  rescheduling, and immutable artifacts and evidence. Row identities are \<open>uid\<close>s; a write that a
  \<open>CHECK\<close> or a unique index of \<open>schema_sql.py\<close> refuses is an error. The invariant \<open>kdb_ok\<close> collects
  those constraints together with the audit trail.
\<close>

section \<open>Rows\<close>

record incident =
  mi_id :: uid
  mi_fingerprint :: string
  mi_class :: incident_class
  mi_priority :: priority
  mi_severity :: severity
  mi_source :: string
  mi_target :: string
  mi_ref :: string
  mi_status :: incident_status
  mi_first_observed :: instant
  mi_last_observed :: instant
  mi_observations :: nat
  mi_streak :: nat
  mi_digest :: string
  mi_recurrence_of :: "uid option"
  mi_recurrences :: nat
  mi_case_count :: nat
  mi_last_terminal :: "instant option"
  mi_provenance :: "(string \<times> json) list"
  mi_opened_at :: instant
  mi_resolved_at :: "instant option"

record rcase =
  rc_id :: uid
  rc_incident :: uid
  rc_state :: case_state
  rc_priority :: priority
  rc_risk :: "risk_class option"
  rc_class :: incident_class
  rc_plan_rev :: nat
  rc_attempts :: nat
  rc_rescopes :: nat
  rc_tries :: nat
  rc_cost :: rat
  rc_model_calls :: nat
  rc_started_at :: instant
  rc_entered_at :: instant
  rc_next :: "instant option"
  rc_deadline :: "instant option"
  rc_case_deadline :: instant
  rc_lease_owner :: "string option"
  rc_lease_until :: "instant option"
  rc_terminal_reason :: "string option"
  rc_terminal_at :: "instant option"
  rc_resumable :: bool
  rc_candidate :: "uid option"
  rc_promotion :: "uid option"
  rc_release :: "uid option"
  rc_base_sha :: "string option"
  rc_head_sha :: "string option"
  rc_merged_sha :: "string option"
  rc_facts :: "(string \<times> json) list"
  rc_version :: nat

record transition_row =
  tr_case :: uid
  tr_from :: "case_state option"
  tr_to :: case_state
  tr_actor :: actor
  tr_reason :: string
  tr_at :: instant

record artifact =
  ar_case :: uid
  ar_kind :: string
  ar_digest :: string
  ar_trust :: trust_class
  ar_plan_rev :: nat
  ar_attempt :: nat
  ar_by :: string
  ar_content :: json
  ar_at :: instant

record evidence_row =
  ev_case :: uid
  ev_kind :: string
  ev_digest :: string
  ev_trust :: trust_class
  ev_source :: string
  ev_payload :: json
  ev_at :: instant

record observation =
  ob_sli :: string
  ob_target :: string
  ob_source :: string
  ob_trust :: trust_class
  ob_ok :: bool
  ob_fingerprint :: "string option"
  ob_incident :: "uid option"
  ob_digest :: string
  ob_at :: instant

record freeze =
  fz_id :: uid
  fz_source :: string
  fz_incident :: "uid option"
  fz_opened_at :: instant
  fz_lifted :: bool

record kdb =
  kd_incidents :: "incident list"
  kd_cases :: "rcase list"
  kd_log :: "transition_row list"
  kd_artifacts :: "artifact list"
  kd_evidence :: "evidence_row list"
  kd_observations :: "observation list"
  kd_freezes :: "freeze list"

definition get_incident :: "kdb \<Rightarrow> uid \<Rightarrow> incident option" where
  "get_incident d i = find (\<lambda>r. mi_id r = i) (kd_incidents d)"

definition get_case :: "kdb \<Rightarrow> uid \<Rightarrow> rcase option" where
  "get_case d i = find (\<lambda>c. rc_id c = i) (kd_cases d)"

definition set_case :: "uid \<Rightarrow> (rcase \<Rightarrow> rcase) \<Rightarrow> kdb \<Rightarrow> kdb" where
  "set_case i f d = d\<lparr>kd_cases := upd_key rc_id i f (kd_cases d)\<rparr>"

definition set_incident :: "uid \<Rightarrow> (incident \<Rightarrow> incident) \<Rightarrow> kdb \<Rightarrow> kdb" where
  "set_incident i f d = d\<lparr>kd_incidents := upd_key mi_id i f (kd_incidents d)\<rparr>"

definition log_move :: "transition_row \<Rightarrow> kdb \<Rightarrow> kdb" where
  "log_move t d = d\<lparr>kd_log := kd_log d @ [t]\<rparr>"

text \<open>The partial unique index \<open>uq_repair_cases_one_active_per_incident\<close> ranges over these cases.\<close>

definition active :: "rcase \<Rightarrow> bool" where
  "active c \<longleftrightarrow> \<not> is_terminal (rc_state c) \<or> rc_state c = SAFELY_ESCALATED \<and> rc_resumable c"

section \<open>Opening a case\<close>

definition new_case :: "uid \<Rightarrow> incident \<Rightarrow> int \<Rightarrow> instant \<Rightarrow> rcase" where
  "new_case i inc max_hours now =
    \<lparr>rc_id = i, rc_incident = mi_id inc, rc_state = DETECTED, rc_priority = mi_priority inc, rc_risk = None,
     rc_class = mi_class inc, rc_plan_rev = 0, rc_attempts = 0, rc_rescopes = 0, rc_tries = 0, rc_cost = 0,
     rc_model_calls = 0, rc_started_at = now, rc_entered_at = now, rc_next = Some now,
     rc_deadline = deadline_for DETECTED now None, rc_case_deadline = now + hours max_hours,
     rc_lease_owner = None, rc_lease_until = None, rc_terminal_reason = None, rc_terminal_at = None,
     rc_resumable = False, rc_candidate = None, rc_promotion = None, rc_release = None, rc_base_sha = None,
     rc_head_sha = None, rc_merged_sha = None, rc_facts = [], rc_version = 0\<rparr>"

text \<open>
  The nested insert fails on the partial unique index (or the primary key), and then nothing is
  written and \<open>None\<close> is returned.
\<close>

definition open_case :: "uid \<Rightarrow> incident \<Rightarrow> int \<Rightarrow> instant \<Rightarrow> kdb \<Rightarrow> kdb \<times> rcase option" where
  "open_case i inc max_hours now d =
    (if list_ex (\<lambda>c. rc_id c = i \<or> rc_incident c = mi_id inc \<and> active c) (kd_cases d) then (d, None)
     else let c = new_case i inc max_hours now in
       (log_move \<lparr>tr_case = i, tr_from = None, tr_to = DETECTED, tr_actor = CONTROLLER,
            tr_reason = ''incident_open_without_case'', tr_at = now\<rparr>
          (set_incident (mi_id inc) (\<lambda>r. r\<lparr>mi_case_count := mi_case_count r + 1\<rparr>)
            (d\<lparr>kd_cases := kd_cases d @ [c]\<rparr>)), Some c))"

section \<open>Transitions\<close>

definition exempt_from_case_deadline :: "case_state \<Rightarrow> bool" where
  "exempt_from_case_deadline s \<longleftrightarrow> s \<in> {READY_FOR_RELEASE, RELEASING, POST_RELEASE_VERIFYING, RECOVERY_PENDING}"

text \<open>\<open>None\<close>-preserving minimum: a next action is never later than the deadline.\<close>

definition not_after :: "instant option \<Rightarrow> instant \<Rightarrow> instant" where
  "not_after dl t = (case dl of Some d \<Rightarrow> if t > d then d else t | None \<Rightarrow> t)"

definition enter_terminal :: "case_state \<Rightarrow> string \<Rightarrow> bool \<Rightarrow> instant \<Rightarrow> rcase \<Rightarrow> rcase" where
  "enter_terminal dst reason resumable now c =
    c\<lparr>rc_next := None, rc_deadline := None, rc_terminal_at := Some now,
      rc_terminal_reason := Some (take 64 reason), rc_resumable := dst = SAFELY_ESCALATED \<and> resumable\<rparr>"

definition enter_live :: "case_state \<Rightarrow> instant \<Rightarrow> duration \<Rightarrow> rcase \<Rightarrow> rcase" where
  "enter_live dst now delay c =
    (let dl = deadline_for dst now (if exempt_from_case_deadline dst then None else Some (rc_case_deadline c)) in
     c\<lparr>rc_terminal_at := None, rc_terminal_reason := None, rc_resumable := False,
       rc_next := Some (not_after dl (now + delay)), rc_deadline := dl\<rparr>)"

text \<open>
  \<open>transition\<close> on the case with identity \<open>i\<close>; \<open>delay\<close> is 0 when the caller gives none. A flush that
  would give the incident a second active case is refused by the unique index.
\<close>

datatype ledger_error =
    Illegal machine_error
  | NoSuchCase
  | SecondActiveCase
  | ModelTextIsNotEvidence

definition moved :: "case_state \<Rightarrow> string \<Rightarrow> bool \<Rightarrow> duration \<Rightarrow> instant \<Rightarrow> rcase \<Rightarrow> rcase" where
  "moved dst reason resumable delay now c =
    (let c' = c\<lparr>rc_state := dst, rc_entered_at := now, rc_tries := 0, rc_version := rc_version c + 1\<rparr> in
     if is_terminal dst then enter_terminal dst reason resumable now c' else enter_live dst now delay c')"

text \<open>The writes of an accepted transition: the row, its audit entry, and the incident's stamp.\<close>

definition commit_move :: "uid \<Rightarrow> rcase \<Rightarrow> case_state \<Rightarrow> actor \<Rightarrow> string \<Rightarrow> bool \<Rightarrow> duration \<Rightarrow> instant \<Rightarrow> kdb \<Rightarrow> kdb" where
  "commit_move i c dst a reason resumable delay now d =
    (let d' = set_case i (moved dst reason resumable delay now) d;
         d'' = (if is_terminal dst then set_incident (rc_incident c) (\<lambda>r. r\<lparr>mi_last_terminal := Some now\<rparr>) d' else d')
     in log_move \<lparr>tr_case = i, tr_from = Some (rc_state c), tr_to = dst, tr_actor = a, tr_reason = take 64 reason,
          tr_at = now\<rparr> d'')"

definition transition ::
  "uid \<Rightarrow> case_state \<Rightarrow> actor \<Rightarrow> string \<Rightarrow> bool \<Rightarrow> duration \<Rightarrow> instant \<Rightarrow> kdb \<Rightarrow> ledger_error + kdb" where
  "transition i dst a reason resumable delay now d =
    bindE (needE (get_case d i) NoSuchCase)
    (\<lambda>c. bindE (mapE Illegal (check_transition (rc_state c) dst a (rc_resumable c)))
    (\<lambda>_. bindE (guardE (\<not> (active (moved dst reason resumable delay now c) \<and>
        list_ex (\<lambda>o'. rc_id o' \<noteq> i \<and> rc_incident o' = rc_incident c \<and> active o') (kd_cases d))) SecondActiveCase)
    (\<lambda>_. Inr (commit_move i c dst a reason resumable delay now d))))"

definition reschedule :: "instant \<Rightarrow> duration option \<Rightarrow> rcase \<Rightarrow> rcase" where
  "reschedule now delay c =
    c\<lparr>rc_next := Some (not_after (rc_deadline c)
      (now + (case delay of Some t \<Rightarrow> t | None \<Rightarrow> sp_poll (spec_of (rc_state c)))))\<rparr>"

section \<open>Artifacts, evidence and facts\<close>

text \<open>
  \<open>dig\<close> is the digest of a canonical JSON document. A row with the same case, kind and digest is
  returned instead of inserting another one.
\<close>

definition record_artifact ::
  "(json \<Rightarrow> string) \<Rightarrow> uid \<Rightarrow> string \<Rightarrow> json \<Rightarrow> trust_class \<Rightarrow> string \<Rightarrow> nat \<Rightarrow> nat \<Rightarrow> instant \<Rightarrow> kdb \<Rightarrow> kdb \<times> artifact" where
  "record_artifact dig i kind content trust by_whom plan_rev attempt now d =
    (case find (\<lambda>a. ar_case a = i \<and> ar_kind a = kind \<and> ar_digest a = dig content) (kd_artifacts d) of
       Some a \<Rightarrow> (d, a)
     | None \<Rightarrow>
         let a = \<lparr>ar_case = i, ar_kind = take 32 kind, ar_digest = dig content, ar_trust = trust, ar_plan_rev = plan_rev,
           ar_attempt = attempt, ar_by = take 128 by_whom, ar_content = content, ar_at = now\<rparr>
         in (d\<lparr>kd_artifacts := kd_artifacts d @ [a]\<rparr>, a))"

definition record_evidence ::
  "(json \<Rightarrow> string) \<Rightarrow> uid \<Rightarrow> string \<Rightarrow> string \<Rightarrow> trust_class \<Rightarrow> json \<Rightarrow> instant \<Rightarrow> kdb \<Rightarrow> ledger_error + (kdb \<times> evidence_row)" where
  "record_evidence dig i kind source trust payload now d =
    bindE (guardE (trust \<noteq> MODEL_HYPOTHESIS) ModelTextIsNotEvidence)
    (\<lambda>_. Inr (case find (\<lambda>e. ev_case e = i \<and> ev_kind e = kind \<and> ev_digest e = dig payload) (kd_evidence d) of
       Some e \<Rightarrow> (d, e)
     | None \<Rightarrow>
         let e = \<lparr>ev_case = i, ev_kind = take 48 kind, ev_digest = dig payload, ev_trust = trust,
           ev_source = take 64 source, ev_payload = payload, ev_at = now\<rparr>
         in (d\<lparr>kd_evidence := kd_evidence d @ [e]\<rparr>, e)))"

definition merge_facts :: "(string \<times> json) list \<Rightarrow> rcase \<Rightarrow> rcase" where
  "merge_facts fs c = c\<lparr>rc_facts := foldl (\<lambda>kvs (k, v). jset k v kvs) (rc_facts c) fs\<rparr>"

section \<open>The invariant\<close>

text \<open>\<open>repair_cases_liveness\<close> and \<open>repair_cases_terminal_stamped\<close>, and the scheduling bound.\<close>

definition row_ok :: "rcase \<Rightarrow> bool" where
  "row_ok c \<longleftrightarrow>
    (if is_terminal (rc_state c)
     then rc_terminal_at c \<noteq> None \<and> rc_terminal_reason c \<noteq> None \<and> rc_deadline c = None
       \<and> (rc_resumable c \<longrightarrow> rc_state c = SAFELY_ESCALATED)
     else (\<exists>n dl. rc_next c = Some n \<and> rc_deadline c = Some dl \<and> n \<le> dl
       \<and> (exempt_from_case_deadline (rc_state c) \<or> dl \<le> rc_case_deadline c)) \<and> \<not> rc_resumable c)"

text \<open>The audit trail of a case: its log rows chain legal moves from the opening to its state.\<close>

fun trail :: "case_state option \<Rightarrow> transition_row list \<Rightarrow> case_state option \<Rightarrow> bool" where
  "trail s [] s' \<longleftrightarrow> s = s'"
| "trail s (t # ts) s' \<longleftrightarrow> tr_from t = s \<and>
    (case s of None \<Rightarrow> tr_to t = DETECTED | Some u \<Rightarrow> may_move u (tr_to t) (tr_actor t)) \<and> trail (Some (tr_to t)) ts s'"

definition log_of :: "kdb \<Rightarrow> uid \<Rightarrow> transition_row list" where
  "log_of d i = filter (\<lambda>t. tr_case t = i) (kd_log d)"

definition audited :: "kdb \<Rightarrow> rcase \<Rightarrow> bool" where
  "audited d c \<longleftrightarrow> trail None (log_of d (rc_id c)) (Some (rc_state c)) \<and> rc_version c + 1 = length (log_of d (rc_id c))"

definition one_active :: "rcase list \<Rightarrow> bool" where
  "one_active cs \<longleftrightarrow> (\<forall>c \<in> set cs. \<forall>c' \<in> set cs. active c \<longrightarrow> active c' \<longrightarrow> rc_incident c = rc_incident c' \<longrightarrow> rc_id c = rc_id c')"

definition kdb_ok :: "kdb \<Rightarrow> bool" where
  "kdb_ok d \<longleftrightarrow> distinct (map rc_id (kd_cases d)) \<and> one_active (kd_cases d) \<and>
    (\<forall>c \<in> set (kd_cases d). row_ok c \<and> audited d c) \<and>
    (\<forall>t \<in> set (kd_log d). tr_case t \<in> rc_id ` set (kd_cases d))"

lemma trail_snoc:
  "trail s ts (Some u) \<Longrightarrow> tr_from t = Some u \<Longrightarrow> may_move u (tr_to t) (tr_actor t) \<Longrightarrow> trail s (ts @ [t]) (Some (tr_to t))"
  by (induction ts arbitrary: s) auto

lemma not_after_le: "not_after (Some d) t \<le> d"
  by (simp add: not_after_def)

lemma moved_row_ok: "row_ok (moved dst reason r delay now c)"
proof (cases "is_terminal dst")
  case True
  then show ?thesis by (simp add: row_ok_def moved_def enter_terminal_def Let_def)
next
  case False
  then obtain dl where dl: "deadline_for dst now (if exempt_from_case_deadline dst then None else Some (rc_case_deadline c)) = Some dl"
    using deadline_for_live by blast
  then have "exempt_from_case_deadline dst \<or> dl \<le> rc_case_deadline c"
    by (auto split: if_splits dest: deadline_for_bound)
  with False dl show ?thesis
    by (cases "exempt_from_case_deadline dst") (simp_all add: row_ok_def moved_def enter_live_def Let_def not_after_le)
qed

lemma moved_fields [simp]:
  "rc_id (moved dst reason r delay now c) = rc_id c" "rc_incident (moved dst reason r delay now c) = rc_incident c"
  "rc_state (moved dst reason r delay now c) = dst" "rc_version (moved dst reason r delay now c) = rc_version c + 1"
  by (simp_all add: moved_def enter_terminal_def enter_live_def Let_def)

lemma reschedule_row_ok: "row_ok c \<Longrightarrow> row_ok (reschedule now delay c)"
  by (auto simp: row_ok_def reschedule_def not_after_le)

section \<open>Every operation keeps the invariant\<close>

lemma kdb_okD:
  assumes "kdb_ok d"
  shows "distinct (map rc_id (kd_cases d))" and "one_active (kd_cases d)"
    and "c \<in> set (kd_cases d) \<Longrightarrow> row_ok c" and "c \<in> set (kd_cases d) \<Longrightarrow> audited d c"
    and "t \<in> set (kd_log d) \<Longrightarrow> tr_case t \<in> rc_id ` set (kd_cases d)"
  using assms by (simp_all add: kdb_ok_def)

lemma case_id_unique:
  assumes "kdb_ok d" and "c \<in> set (kd_cases d)" and "c' \<in> set (kd_cases d)" and "rc_id c' = rc_id c"
  shows "c' = c"
  using assms kdb_okD(1) [OF assms(1)] by (simp add: distinct_map inj_on_def)

lemma get_case_mem: "get_case d i = Some c \<Longrightarrow> c \<in> set (kd_cases d) \<and> rc_id c = i"
  by (auto simp: get_case_def dest: find_SomeD)

text \<open>
  Two databases with the same log and the same cases, up to a change of one case that keeps its
  identity, state, version and incident, are audited alike.
\<close>

lemma log_of_log_move: "log_of (log_move t d) i = log_of d i @ (if tr_case t = i then [t] else [])"
  by (simp add: log_of_def log_move_def)

lemma log_of_set_case [simp]: "log_of (set_case i f d) j = log_of d j"
  by (simp add: log_of_def set_case_def)

lemma log_of_set_incident [simp]: "log_of (set_incident i f d) j = log_of d j"
  by (simp add: log_of_def set_incident_def)

lemma frame_simps [simp]:
  "kd_cases (log_move t d) = kd_cases d" "kd_cases (set_incident i f d) = kd_cases d"
  "kd_cases (set_case i g d) = upd_key rc_id i g (kd_cases d)"
  "kd_log (set_case i g d) = kd_log d" "kd_log (set_incident i f d) = kd_log d"
  "kd_log (log_move t d) = kd_log d @ [t]"
  "kd_incidents (set_case i g d) = kd_incidents d" "kd_incidents (log_move t d) = kd_incidents d"
  "kd_incidents (set_incident i f d) = upd_key mi_id i f (kd_incidents d)"
  by (simp_all add: log_move_def set_incident_def set_case_def)

definition same_shape :: "(rcase \<Rightarrow> rcase) \<Rightarrow> rcase \<Rightarrow> bool" where
  "same_shape f c \<longleftrightarrow> rc_id (f c) = rc_id c \<and> rc_incident (f c) = rc_incident c \<and> rc_state (f c) = rc_state c
    \<and> rc_version (f c) = rc_version c \<and> rc_resumable (f c) = rc_resumable c"

lemma one_activeD:
  "one_active cs \<Longrightarrow> c \<in> set cs \<Longrightarrow> c' \<in> set cs \<Longrightarrow> active c \<Longrightarrow> active c' \<Longrightarrow> rc_incident c = rc_incident c'
    \<Longrightarrow> rc_id c = rc_id c'"
  by (unfold one_active_def, drule (1) bspec, drule (1) bspec, (drule (1) mp)+, assumption)

lemma one_activeI:
  "(\<And>c c'. c \<in> set cs \<Longrightarrow> c' \<in> set cs \<Longrightarrow> active c \<Longrightarrow> active c' \<Longrightarrow> rc_incident c = rc_incident c' \<Longrightarrow> rc_id c = rc_id c')
    \<Longrightarrow> one_active cs"
  unfolding one_active_def by (intro ballI impI)

lemma map_cases_ok:
  assumes ok: "kdb_ok d"
    and f: "\<And>c. c \<in> set (kd_cases d) \<Longrightarrow> same_shape g c \<and> row_ok (g c)"
    and cs: "kd_cases d' = map g (kd_cases d)" and log: "kd_log d' = kd_log d"
  shows "kdb_ok d'"
proof -
  have g: "rc_id (g c) = rc_id c" "rc_incident (g c) = rc_incident c" "active (g c) = active c"
      "row_ok (g c)" "audited d' (g c)" if "c \<in> set (kd_cases d)" for c
    using f [OF that] kdb_okD(3,4) [OF ok that] log by (auto simp: same_shape_def active_def audited_def log_of_def)
  have ids: "map rc_id (kd_cases d') = map rc_id (kd_cases d)" unfolding cs by (simp add: g(1))
  have idset: "rc_id ` set (kd_cases d') = rc_id ` set (kd_cases d)" using ids by (metis set_map)
  have "one_active (kd_cases d')"
  proof (rule one_activeI)
    fix x y
    assume x: "x \<in> set (kd_cases d')" and y: "y \<in> set (kd_cases d')"
      and a: "active x" "active y" "rc_incident x = rc_incident y"
    from x obtain c where c: "c \<in> set (kd_cases d)" "x = g c" unfolding cs by auto
    from y obtain c' where c': "c' \<in> set (kd_cases d)" "y = g c'" unfolding cs by auto
    have "rc_id c = rc_id c'"
      using a g(2,3) [OF c(1)] g(2,3) [OF c'(1)] unfolding c(2) c'(2)
      by (intro one_activeD [OF kdb_okD(2) [OF ok] c(1) c'(1)]) simp_all
    then show "rc_id x = rc_id y" unfolding c(2) c'(2) by (simp add: g(1) [OF c(1)] g(1) [OF c'(1)])
  qed
  moreover have "\<forall>c \<in> set (kd_cases d'). row_ok c \<and> audited d' c"
    unfolding cs set_map using g(4,5) by blast
  moreover have "distinct (map rc_id (kd_cases d'))" unfolding ids by (rule kdb_okD(1) [OF ok])
  moreover have "\<forall>t \<in> set (kd_log d'). tr_case t \<in> rc_id ` set (kd_cases d')"
    unfolding idset log using kdb_okD(5) [OF ok] by simp
  ultimately show ?thesis unfolding kdb_ok_def by (intro conjI)
qed

lemma set_case_ok:
  assumes "kdb_ok d"
    and f: "\<And>c. c \<in> set (kd_cases d) \<Longrightarrow> rc_id c = i \<Longrightarrow> same_shape f c \<and> row_ok (f c)"
  shows "kdb_ok (set_case i f d)"
proof (rule map_cases_ok [OF assms(1), where g = "\<lambda>c. if rc_id c = i then f c else c"])
  show "same_shape (\<lambda>c. if rc_id c = i then f c else c) c \<and> row_ok (if rc_id c = i then f c else c)"
    if "c \<in> set (kd_cases d)" for c
    using f [OF that] kdb_okD(3) [OF assms(1) that] by (simp add: same_shape_def)
qed (simp_all add: upd_key_def)

lemma kdb_ok_frame: "kd_cases d' = kd_cases d \<Longrightarrow> kd_log d' = kd_log d \<Longrightarrow> kdb_ok d' \<longleftrightarrow> kdb_ok d"
  by (simp add: kdb_ok_def audited_def log_of_def)

lemma set_incident_ok: "kdb_ok (set_incident i f d) \<longleftrightarrow> kdb_ok d"
  by (simp add: kdb_ok_def audited_def)

lemma commit_move_simps [simp]:
  "kd_cases (commit_move i c dst a reason r delay now d) = upd_key rc_id i (moved dst reason r delay now) (kd_cases d)"
  "kd_log (commit_move i c dst a reason r delay now d) =
    kd_log d @ [\<lparr>tr_case = i, tr_from = Some (rc_state c), tr_to = dst, tr_actor = a, tr_reason = take 64 reason, tr_at = now\<rparr>]"
  "kd_incidents (commit_move i c dst a reason r delay now d) =
    (if is_terminal dst then upd_key mi_id (rc_incident c) (\<lambda>q. q\<lparr>mi_last_terminal := Some now\<rparr>) (kd_incidents d)
     else kd_incidents d)"
  by (simp_all add: commit_move_def Let_def)

lemma transition_Inr:
  assumes "transition i dst a reason r delay now d = Inr d'"
  obtains c where "c \<in> set (kd_cases d)" and "rc_id c = i" and "check_transition (rc_state c) dst a (rc_resumable c) = Inr ()"
    and "d' = commit_move i c dst a reason r delay now d"
    and "\<not> (active (moved dst reason r delay now c) \<and> (\<exists>o' \<in> set (kd_cases d). rc_id o' \<noteq> i \<and> rc_incident o' = rc_incident c \<and> active o'))"
    and "get_case d i = Some c"
proof -
  from assms obtain c where c: "get_case d i = Some c"
    and chk: "check_transition (rc_state c) dst a (rc_resumable c) = Inr ()"
    and one: "\<not> (active (moved dst reason r delay now c) \<and> list_ex (\<lambda>o'. rc_id o' \<noteq> i \<and> rc_incident o' = rc_incident c \<and> active o') (kd_cases d))"
    and d': "d' = commit_move i c dst a reason r delay now d"
    unfolding transition_def bindE_Inr needE_Inr guardE_Inr mapE_Inr by (elim exE conjE) auto
  have mem: "c \<in> set (kd_cases d)" "rc_id c = i" using get_case_mem [OF c] by auto
  moreover have "\<not> (active (moved dst reason r delay now c) \<and> (\<exists>o' \<in> set (kd_cases d). rc_id o' \<noteq> i \<and> rc_incident o' = rc_incident c \<and> active o'))"
    using one unfolding list_ex_iff .
  ultimately show thesis using chk c d' by (intro that [of c])
qed

lemma transition_ok:
  assumes ok: "kdb_ok d" and tr: "transition i dst a reason r delay now d = Inr d'"
  shows "kdb_ok d'"
proof -
  let ?m = "moved dst reason r delay now"
  from tr obtain c where c: "c \<in> set (kd_cases d)" "rc_id c = i"
    and chk: "check_transition (rc_state c) dst a (rc_resumable c) = Inr ()"
    and d': "d' = commit_move i c dst a reason r delay now d"
    and one: "\<not> (active (?m c) \<and> (\<exists>o' \<in> set (kd_cases d). rc_id o' \<noteq> i \<and> rc_incident o' = rc_incident c \<and> active o'))"
    by (rule transition_Inr)
  have cases: "kd_cases d' = upd_key rc_id i ?m (kd_cases d)"
    and log: "kd_log d' = kd_log d @ [\<lparr>tr_case = i, tr_from = Some (rc_state c), tr_to = dst, tr_actor = a, tr_reason = take 64 reason, tr_at = now\<rparr>]"
    by (simp_all add: d')
  let ?t = "\<lparr>tr_case = i, tr_from = Some (rc_state c), tr_to = dst, tr_actor = a, tr_reason = take 64 reason, tr_at = now\<rparr>"
  have member: "x \<in> set (kd_cases d') \<longleftrightarrow> x = ?m c \<or> (x \<in> set (kd_cases d) \<and> rc_id x \<noteq> i)" for x
  proof
    assume "x \<in> set (kd_cases d')"
    then obtain c0 where c0: "c0 \<in> set (kd_cases d)" "x = (if rc_id c0 = i then ?m c0 else c0)"
      unfolding cases set_upd_key by blast
    show "x = ?m c \<or> (x \<in> set (kd_cases d) \<and> rc_id x \<noteq> i)"
    proof (cases "rc_id c0 = i")
      case True
      with c have "c0 = c" by (intro case_id_unique [OF ok c(1) c0(1)]) simp
      with c0 True show ?thesis by simp
    next
      case False
      with c0 show ?thesis by simp
    qed
  next
    assume "x = ?m c \<or> (x \<in> set (kd_cases d) \<and> rc_id x \<noteq> i)"
    then show "x \<in> set (kd_cases d')"
    proof (elim disjE conjE)
      assume "x = ?m c"
      with upd_key_hit [of c "kd_cases d" rc_id i ?m] c show ?thesis unfolding cases by simp
    next
      assume "x \<in> set (kd_cases d)" "rc_id x \<noteq> i"
      then show ?thesis unfolding cases by (rule upd_key_keep)
    qed
  qed
  have logs: "log_of d' j = log_of d j @ (if j = i then [?t] else [])" for j
    by (simp add: log_of_def log)
  have "audited d' (?m c)"
    using kdb_okD(4) [OF ok c(1)] chk c(2) trail_snoc [of None "log_of d i" "rc_state c" ?t]
    by (simp add: audited_def logs check_transition_ok)
  then have rows: "\<forall>x \<in> set (kd_cases d'). row_ok x \<and> audited d' x"
    using kdb_okD(3,4) [OF ok] by (auto simp: member moved_row_ok audited_def logs)
  have ids: "map rc_id (kd_cases d') = map rc_id (kd_cases d)"
    unfolding cases by (rule map_key_upd_key) simp
  then have idset: "rc_id ` set (kd_cases d') = rc_id ` set (kd_cases d)" by (metis set_map)
  have "one_active (kd_cases d')"
  proof (rule one_activeI)
    fix x y
    assume x: "x \<in> set (kd_cases d')" and y: "y \<in> set (kd_cases d')"
      and a: "active x" "active y" "rc_incident x = rc_incident y"
    have not_other: "\<not> (active (?m c) \<and> o' \<in> set (kd_cases d) \<and> rc_id o' \<noteq> i \<and> rc_incident o' = rc_incident (?m c) \<and> active o')" for o'
      using one by auto
    from x y show "rc_id x = rc_id y"
      unfolding member
    proof (elim disjE conjE)
      assume "x = ?m c" "y = ?m c"
      then show ?thesis by simp
    next
      assume "x = ?m c" "y \<in> set (kd_cases d)" "rc_id y \<noteq> i"
      with a not_other [of y] show ?thesis by simp
    next
      assume "x \<in> set (kd_cases d)" "rc_id x \<noteq> i" "y = ?m c"
      with a not_other [of x] show ?thesis by simp
    next
      assume "x \<in> set (kd_cases d)" "y \<in> set (kd_cases d)"
      then show ?thesis by (rule one_activeD [OF kdb_okD(2) [OF ok] _ _ a])
    qed
  qed
  moreover have "\<forall>t \<in> set (kd_log d'). tr_case t \<in> rc_id ` set (kd_cases d')"
    unfolding idset log using kdb_okD(5) [OF ok] c by auto
  ultimately show ?thesis using rows kdb_okD(1) [OF ok] ids by (simp only: kdb_ok_def)
qed

lemma open_case_ok:
  assumes ok: "kdb_ok d" and "1 \<le> max_hours"
  shows "kdb_ok (fst (open_case i inc max_hours now d))"
proof (cases "list_ex (\<lambda>c. rc_id c = i \<or> rc_incident c = mi_id inc \<and> active c) (kd_cases d)")
  case True
  with ok show ?thesis by (simp add: open_case_def)
next
  case False
  let ?c = "new_case i inc max_hours now"
  let ?d = "fst (open_case i inc max_hours now d)"
  let ?t = "\<lparr>tr_case = i, tr_from = None, tr_to = DETECTED, tr_actor = CONTROLLER, tr_reason = ''incident_open_without_case'', tr_at = now\<rparr>"
  have cases: "kd_cases ?d = kd_cases d @ [?c]" and log: "kd_log ?d = kd_log d @ [?t]"
    using False by (simp_all add: open_case_def Let_def)
  have fresh: "rc_id c \<noteq> i" "rc_incident c = mi_id inc \<Longrightarrow> \<not> active c" if "c \<in> set (kd_cases d)" for c
    using False that by (auto simp: list_ex_iff)
  then have "log_of d i = []"
    using kdb_okD(5) [OF ok] by (fastforce simp: log_of_def filter_empty_conv)
  then have new: "row_ok ?c \<and> audited ?d ?c"
    using assms(2) by (simp add: row_ok_def audited_def log_of_def log new_case_def is_terminal_def
        deadline_for_def row_def time_units exempt_from_case_deadline_def)
  have old: "row_ok c \<and> audited ?d c" if "c \<in> set (kd_cases d)" for c
    using kdb_okD(3,4) [OF ok that] fresh [OF that] by (simp add: audited_def log_of_def log)
  have shape: "rc_id ?c = i" "rc_incident ?c = mi_id inc" by (simp_all add: new_case_def)
  have "one_active (kd_cases ?d)"
  proof (rule one_activeI)
    fix x y
    assume "x \<in> set (kd_cases ?d)" "y \<in> set (kd_cases ?d)"
      and a: "active x" "active y" "rc_incident x = rc_incident y"
    then have "x \<in> set (kd_cases d) \<or> x = ?c" "y \<in> set (kd_cases d) \<or> y = ?c" by (auto simp: cases)
    then show "rc_id x = rc_id y"
    proof (elim disjE)
      assume "x \<in> set (kd_cases d)" "y \<in> set (kd_cases d)"
      then show ?thesis by (rule one_activeD [OF kdb_okD(2) [OF ok] _ _ a])
    next
      assume "x \<in> set (kd_cases d)" "y = ?c"
      with a shape fresh(2) [of x] show ?thesis by simp
    next
      assume "x = ?c" "y \<in> set (kd_cases d)"
      with a shape fresh(2) [of y] show ?thesis by simp
    qed simp
  qed
  moreover have "distinct (map rc_id (kd_cases ?d))"
    using kdb_okD(1) [OF ok] fresh shape by (auto simp: cases)
  moreover have "\<forall>t \<in> set (kd_log ?d). tr_case t \<in> rc_id ` set (kd_cases ?d)"
    using kdb_okD(5) [OF ok] shape by (auto simp: cases log)
  ultimately show ?thesis using new old by (auto simp: kdb_ok_def cases)
qed

end
