(* ===== verification/Fingerprint.thy ===== *)
theory Fingerprint
  imports Taxonomy
begin

text \<open>
  Structural incident fingerprints (\<open>services/registry/app/maintenance/fingerprint.py\<close>) on ASCII
  strings. The regular expressions are written out: \<open>match\<close> with \<open>^\<dots>$\<close> accepts one trailing newline,
  as Python's \<open>$\<close> does, and \<open>sub\<close> replaces the leftmost non-overlapping matches. \<open>sha\<close> stands for
  \<open>hashlib.sha256(\<dots>).hexdigest()\<close>.
\<close>

definition is_decimal :: "char \<Rightarrow> bool" where
  "is_decimal c \<longleftrightarrow> (let n = of_char c :: nat in 48 \<le> n \<and> n \<le> 57)"

definition is_hex :: "char \<Rightarrow> bool" where
  "is_hex c \<longleftrightarrow> is_decimal c \<or> (let n = of_char c :: nat in 65 \<le> n \<and> n \<le> 70 \<or> 97 \<le> n \<and> n \<le> 102)"

definition is_alnum :: "char \<Rightarrow> bool" where
  "is_alnum c \<longleftrightarrow> is_decimal c \<or> (let n = of_char c :: nat in 65 \<le> n \<and> n \<le> 90 \<or> 97 \<le> n \<and> n \<le> 122)"

definition is_safe :: "char \<Rightarrow> bool" where
  "is_safe c \<longleftrightarrow> is_alnum c \<or> c \<in> set ''_:./-''"

definition whitespace :: "char \<Rightarrow> bool" where
  "whitespace c \<longleftrightarrow> (let n = of_char c :: nat in 9 \<le> n \<and> n \<le> 13 \<or> 28 \<le> n \<and> n \<le> 32)"

definition strip :: "string \<Rightarrow> string" where
  "strip s = rev (dropWhile whitespace (rev (dropWhile whitespace s)))"

text \<open>\<open>$\<close> matches at the end and before a final newline.\<close>

definition before_dollar :: "string \<Rightarrow> string" where
  "before_dollar s = (if s \<noteq> [] \<and> last s = CHR 0x0A then butlast s else s)"

definition all_digits :: "string \<Rightarrow> bool" where
  "all_digits s \<longleftrightarrow> before_dollar s \<noteq> [] \<and> list_all is_decimal (before_dollar s)"

definition long_hex :: "string \<Rightarrow> bool" where
  "long_hex s \<longleftrightarrow> 8 \<le> length (before_dollar s) \<and> list_all is_hex (before_dollar s)"

text \<open>Groups of 8, 4, 4, 4 and 12 hex digits joined by hyphens, 36 characters in all.\<close>

definition uuid_at :: "string \<Rightarrow> bool" where
  "uuid_at s \<longleftrightarrow> 36 \<le> length s \<and>
    list_all (\<lambda>i. if i \<in> {8, 13, 18, 23} then s ! i = CHR ''-'' else is_hex (s ! i)) [0..<36]"

function mask_uuids :: "string \<Rightarrow> string" where
  "mask_uuids s =
    (case s of [] \<Rightarrow> []
     | c # cs \<Rightarrow> if uuid_at s then '':id'' @ mask_uuids (drop 36 s) else c # mask_uuids cs)"
  by pat_completeness auto

termination
  by (relation "measure length") (auto simp: uuid_at_def)

declare mask_uuids.simps [simp del]

fun split_on :: "char \<Rightarrow> string \<Rightarrow> string list" where
  "split_on d [] = [[]]"
| "split_on d (c # cs) = (if c = d then [] # split_on d cs
    else case split_on d cs of [] \<Rightarrow> [[c]] | w # ws \<Rightarrow> (c # w) # ws)"

definition mask_segment :: "string \<Rightarrow> string" where
  "mask_segment seg = (if all_digits seg \<or> long_hex seg then '':id'' else seg)"

definition rstrip_slash :: "string \<Rightarrow> string" where
  "rstrip_slash s = rev (dropWhile (\<lambda>c. c = CHR ''/'') (rev s))"

definition normalize_path :: "string option \<Rightarrow> string" where
  "normalize_path path =
    (case path of None \<Rightarrow> [] | Some s \<Rightarrow>
      if s = [] then []
      else let p = takeWhile (\<lambda>c. c \<noteq> CHR ''#'') (takeWhile (\<lambda>c. c \<noteq> CHR ''?'') s);
               segs = map mask_segment (split_on (CHR ''/'') (mask_uuids p));
               q = rstrip_slash (take 160 (filter is_safe (join ''/'' segs)))
           in if q = [] then ''/'' else q)"

definition token_of :: "string option \<Rightarrow> nat \<Rightarrow> string" where
  "token_of v limit = take limit (filter is_safe (strip (case v of None \<Rightarrow> [] | Some s \<Rightarrow> s)))"

definition fingerprint_version :: string where
  "fingerprint_version = ''fp1''"

fun class_value :: "incident_class \<Rightarrow> string" where
  "class_value AVAILABILITY = ''AVAILABILITY''"
| "class_value FUNCTIONAL_CONTRACT = ''FUNCTIONAL_CONTRACT''"
| "class_value AUTH = ''AUTH''"
| "class_value A2A = ''A2A''"
| "class_value UI_NAVIGATION = ''UI_NAVIGATION''"
| "class_value UI_RENDERING = ''UI_RENDERING''"
| "class_value ACCESSIBILITY = ''ACCESSIBILITY''"
| "class_value PERFORMANCE = ''PERFORMANCE''"
| "class_value SECURITY = ''SECURITY''"
| "class_value DEPENDENCY = ''DEPENDENCY''"
| "class_value ECONOMIC_INVARIANT = ''ECONOMIC_INVARIANT''"
| "class_value DATA_INVARIANT = ''DATA_INVARIANT''"
| "class_value RELEASE_REGRESSION = ''RELEASE_REGRESSION''"
| "class_value CONTROL_PLANE = ''CONTROL_PLANE''"
| "class_value EXTERNAL_DEPENDENCY = ''EXTERNAL_DEPENDENCY''"

definition fingerprint ::
  "(string \<Rightarrow> string) \<Rightarrow> string \<Rightarrow> incident_class \<Rightarrow> string \<Rightarrow> string \<Rightarrow> string option \<Rightarrow> string" where
  "fingerprint sha target cls ref failure path =
    fingerprint_version @ '':'' @ take 40 (sha (join ''|''
      [fingerprint_version, lower (token_of (Some target) 32), class_value cls, token_of (Some ref) 120,
       lower (token_of (Some failure) 64), normalize_path path]))"

section \<open>Splitting and masking\<close>

lemma split_on_not_Nil [simp]: "split_on d s \<noteq> []"
  by (induction s) (auto split: list.splits)

lemma split_on_append: "split_on d (s @ d # t) = split_on d s @ split_on d t"
  by (induction s) (auto split: list.splits)

lemma split_on_none: "d \<notin> set s \<Longrightarrow> split_on d s = [s]"
  by (induction s) auto

lemma mask_uuids_Nil [simp]: "mask_uuids [] = []"
  by (simp add: mask_uuids.simps)

lemma uuid_chars:
  assumes "uuid_at s" and "i < 36"
  shows "is_hex (s ! i) \<or> s ! i = CHR ''-''"
proof -
  from assms have "if i \<in> {8, 13, 18, 23} then s ! i = CHR ''-'' else is_hex (s ! i)"
    by (auto simp: uuid_at_def list_all_iff simp del: upt_rec_numeral)
  then show ?thesis by (simp split: if_splits)
qed

lemma slash_not_hex: "\<not> is_hex (CHR ''/'')"
  by (simp add: is_hex_def is_decimal_def Let_def)

text \<open>A match never spans a slash, so masking works segment by segment.\<close>

lemma uuid_at_slash:
  "uuid_at (s @ CHR ''/'' # t) \<longleftrightarrow> uuid_at s"
proof (cases "36 \<le> length s")
  case True
  then show ?thesis
    by (auto simp: uuid_at_def list_all_iff nth_append simp del: upt_rec_numeral)
next
  case False
  then have i: "length s < 36" by simp
  have "\<not> uuid_at (s @ CHR ''/'' # t)"
  proof
    assume "uuid_at (s @ CHR ''/'' # t)"
    from uuid_chars [OF this i] show False using slash_not_hex by simp
  qed
  with False show ?thesis by (simp add: uuid_at_def)
qed

lemma mask_uuids_Cons:
  "mask_uuids (c # cs) = (if uuid_at (c # cs) then '':id'' @ mask_uuids (drop 35 cs) else c # mask_uuids cs)"
  by (simp add: mask_uuids.simps [of "c # cs"])

lemma mask_uuids_slash: "mask_uuids (s @ CHR ''/'' # t) = mask_uuids s @ CHR ''/'' # mask_uuids t"
proof (induction "length s" arbitrary: s rule: less_induct)
  case less
  show ?case
  proof (cases s)
    case Nil
    have "\<not> uuid_at (CHR ''/'' # t)" using uuid_at_slash [of "[]" t] by (simp add: uuid_at_def)
    then show ?thesis by (simp add: Nil mask_uuids_Cons)
  next
    case (Cons c cs)
    have u: "uuid_at (c # cs @ CHR ''/'' # t) \<longleftrightarrow> uuid_at (c # cs)"
      using uuid_at_slash [of s t] by (simp add: Cons)
    show ?thesis
    proof (cases "uuid_at (c # cs)")
      case True
      then have "35 \<le> length cs" by (simp add: uuid_at_def)
      moreover have "mask_uuids (drop 35 cs @ CHR ''/'' # t) = mask_uuids (drop 35 cs) @ CHR ''/'' # mask_uuids t"
        by (rule less) (simp add: Cons)
      ultimately show ?thesis using True u by (simp add: Cons mask_uuids_Cons)
    next
      case False
      with u less [of cs] show ?thesis by (simp add: Cons mask_uuids_Cons)
    qed
  qed
qed

lemma mask_uuids_id:
  assumes "\<And>u v. s = u @ v \<Longrightarrow> \<not> uuid_at v"
  shows "mask_uuids s = s"
  using assms
proof (induction s)
  case (Cons c s)
  from Cons.prems [of "[]"] have "\<not> uuid_at (c # s)" by simp
  moreover have "\<not> uuid_at v" if "s = u @ v" for u v using Cons.prems [of "c # u" v] that by simp
  with Cons.IH have "mask_uuids s = s" by blast
  ultimately show ?case by (simp add: mask_uuids.simps [of "c # s"])
qed simp

lemma mask_uuids_digits:
  assumes "list_all is_decimal s"
  shows "mask_uuids s = s"
proof (rule mask_uuids_id)
  fix u v
  assume s: "s = u @ v"
  show "\<not> uuid_at v"
  proof
    assume m: "uuid_at v"
    then have "list_all (\<lambda>i. if i \<in> {8, 13, 18, 23} then v ! i = CHR ''-'' else is_hex (v ! i)) [0..<36]"
      and len: "36 \<le> length v" by (simp_all add: uuid_at_def del: upt_rec_numeral)
    then have "v ! 8 = CHR ''-''" by (simp add: list_all_iff del: upt_rec_numeral)
    moreover have "v ! 8 \<in> set v" using len by (intro nth_mem) simp
    ultimately have "CHR ''-'' \<in> set v" by simp
    with assms s have "is_decimal (CHR ''-'')" by (auto simp: list_all_iff)
    then show False by (simp add: is_decimal_def Let_def)
  qed
qed

section \<open>Properties\<close>

text \<open>A path segment that names an instance: a number or a UUID.\<close>

definition instance_id :: "string \<Rightarrow> bool" where
  "instance_id m \<longleftrightarrow> m \<noteq> [] \<and> list_all is_decimal m \<or> length m = 36 \<and> uuid_at m"

lemma instance_id_chars:
  assumes "instance_id m" and "c \<in> set m"
  shows "is_hex c \<or> c = CHR ''-''"
proof (cases "length m = 36 \<and> uuid_at m")
  case True
  from assms(2) obtain i where "i < length m" "c = m ! i" by (auto simp: in_set_conv_nth)
  with True uuid_chars [of m i] show ?thesis by simp
next
  case False
  with assms have "is_decimal c" by (auto simp: instance_id_def list_all_iff)
  then show ?thesis by (simp add: is_hex_def)
qed

lemma instance_id_plain:
  assumes "instance_id m" and "c \<in> {CHR ''/'', CHR ''?'', CHR ''#''}"
  shows "c \<notin> set m"
proof
  assume "c \<in> set m"
  from instance_id_chars [OF assms(1) this] assms(2) show False
    by (auto simp: is_hex_def is_decimal_def Let_def)
qed

lemma instance_id_masked:
  assumes "instance_id m"
  shows "mask_segment (mask_uuids m) = '':id''"
proof (cases "length m = 36 \<and> uuid_at m")
  case True
  then obtain c cs where m: "m = c # cs" by (cases m) auto
  with True have "mask_uuids m = '':id''" by (simp add: mask_uuids_Cons)
  then show ?thesis by (simp add: mask_segment_def)
next
  case False
  with assms have d: "m \<noteq> []" "list_all is_decimal m" by (auto simp: instance_id_def)
  have "last m \<noteq> CHR 0x0A"
  proof
    assume "last m = CHR 0x0A"
    with d have "is_decimal (CHR 0x0A)" by (metis last_in_set list_all_iff)
    then show False by (simp add: is_decimal_def Let_def)
  qed
  with d have "all_digits m" by (simp add: all_digits_def before_dollar_def)
  with d(2) show ?thesis by (simp add: mask_uuids_digits mask_segment_def)
qed

definition cut :: "string \<Rightarrow> string" where
  "cut s = takeWhile (\<lambda>c. c \<noteq> CHR ''#'') (takeWhile (\<lambda>c. c \<noteq> CHR ''?'') s)"

lemma cut_append: "cut (s @ t) = (if CHR ''?'' \<in> set s \<or> CHR ''#'' \<in> set s then cut s else s @ cut t)"
  by (induction s) (auto simp: cut_def)

lemma cut_plain: "CHR ''?'' \<notin> set s \<Longrightarrow> CHR ''#'' \<notin> set s \<Longrightarrow> cut s = s"
  by (induction s) (auto simp: cut_def)

lemma masked_segments:
  assumes "instance_id m"
  shows "map mask_segment (split_on (CHR ''/'') (mask_uuids (a @ CHR ''/'' # m @ CHR ''/'' # b))) =
    map mask_segment (split_on (CHR ''/'') (mask_uuids a)) @ '':id'' #
    map mask_segment (split_on (CHR ''/'') (mask_uuids b))"
proof -
  have "CHR ''/'' \<notin> set (mask_uuids m)"
  proof (cases "length m = 36 \<and> uuid_at m")
    case True
    then show ?thesis by (cases m) (simp_all add: mask_uuids_Cons)
  next
    case False
    with assms show ?thesis using instance_id_plain [OF assms] by (auto simp: instance_id_def mask_uuids_digits)
  qed
  then show ?thesis
    by (simp add: mask_uuids_slash split_on_append split_on_none instance_id_masked [OF assms])
qed

lemma normalize_instances:
  assumes "instance_id m" and "instance_id n"
  shows "normalize_path (Some (a @ CHR ''/'' # m @ CHR ''/'' # b)) = normalize_path (Some (a @ CHR ''/'' # n @ CHR ''/'' # b))"
proof -
  have c: "cut (a @ CHR ''/'' # k @ CHR ''/'' # b) =
      (if CHR ''?'' \<in> set a \<or> CHR ''#'' \<in> set a then cut a else a @ CHR ''/'' # k @ CHR ''/'' # cut b)"
    if "instance_id k" for k
    using instance_id_plain [OF that]
      cut_append [of a "CHR ''/'' # k @ CHR ''/'' # b"] cut_append [of "CHR ''/'' # k @ [CHR ''/'']" b]
    by simp
  show ?thesis
    using masked_segments [OF assms(1), of a "cut b"] masked_segments [OF assms(2), of a "cut b"]
      c [OF assms(1)] c [OF assms(2)]
    by (simp add: normalize_path_def cut_def [symmetric] Let_def)
qed

text \<open>
  Two observations of the same defect on different instances have the same fingerprint: replacing
  a numeric or UUID segment of the path by another one never changes it, whatever the rest of the
  path, so a defect of one route opens one incident however many rows it is seen on.
\<close>

theorem fingerprint_ignores_instances:
  assumes "instance_id m" and "instance_id n"
  shows "fingerprint sha target cls ref failure (Some (a @ ''/'' @ m @ ''/'' @ b)) =
    fingerprint sha target cls ref failure (Some (a @ ''/'' @ n @ ''/'' @ b))"
  using normalize_instances [OF assms, of a b] by (simp add: fingerprint_def)

theorem fingerprint_ignores_instances_witness:
  "fingerprint id ''production'' UI_RENDERING ''task_page'' ''marker_missing'' (Some (''/tasks'' @ ''/'' @ ''42'' @ ''/'' @ ''view'')) =
    fingerprint id ''production'' UI_RENDERING ''task_page'' ''marker_missing''
      (Some (''/tasks'' @ ''/'' @ ''0a1b2c3d-1111-2222-3333-444455556666'' @ ''/'' @ ''view''))"
proof (rule fingerprint_ignores_instances)
  show "instance_id ''42''" by code_simp
  show "instance_id ''0a1b2c3d-1111-2222-3333-444455556666''" by code_simp
qed

end
