(* ===== verification/Incidents.thy ===== *)
theory Incidents
  imports Ledger Fingerprint
begin

text \<open>
  Trusted observations become incidents (\<open>services/registry/app/maintenance/incidents.py\<close>):
  deduplication by fingerprint against the partial unique index on open incidents, recurrence,
  recovery by a healthy streak, the promotion freeze of an incident, and the incidents a new case
  may be opened for. A concurrent collector that inserts the same fingerprint first is the case
  \<open>raced\<close>; \<open>dig\<close> is the digest of a canonical document.
\<close>

record violation =
  vi_target :: string
  vi_class :: incident_class
  vi_ref :: string
  vi_failure :: string
  vi_severity :: severity
  vi_base :: priority
  vi_source :: string
  vi_sli :: string
  vi_path :: "string option"
  vi_trust :: trust_class
  vi_payload :: "(string \<times> json) list"

definition violation_fingerprint :: "(string \<Rightarrow> string) \<Rightarrow> violation \<Rightarrow> string" where
  "violation_fingerprint sha v = fingerprint sha (vi_target v) (vi_class v) (vi_ref v) (vi_failure v) (vi_path v)"

definition freezing_class :: "incident_class \<Rightarrow> bool" where
  "freezing_class c \<longleftrightarrow> c \<in> {AVAILABILITY, SECURITY, ECONOMIC_INVARIANT, DATA_INVARIANT}"

definition freeze_min_outage :: duration where
  "freeze_min_outage = minutes 15"

definition recurrence_window :: duration where
  "recurrence_window = days 7"

definition settling :: "case_state \<Rightarrow> bool" where
  "settling s \<longleftrightarrow> s \<in> {READY_FOR_RELEASE, RELEASING, RECOVERY_PENDING}"

fun bump :: "priority \<Rightarrow> priority" where
  "bump P0 = P0"
| "bump P1 = P0"
| "bump P2 = P1"
| "bump P3 = P2"

section \<open>Observations\<close>

datatype incident_error = UntrustedCollector

definition record_observation ::
  "(json \<Rightarrow> string) \<Rightarrow> string \<Rightarrow> string \<Rightarrow> string \<Rightarrow> trust_class \<Rightarrow> bool \<Rightarrow> json \<Rightarrow> string option \<Rightarrow> uid option \<Rightarrow>
   instant \<Rightarrow> kdb \<Rightarrow> incident_error + kdb" where
  "record_observation dig sli target source trust good payload fp inc at_time d =
    bindE (guardE (trusted_evidence trust) UntrustedCollector)
    (\<lambda>_. Inr (d\<lparr>kd_observations := kd_observations d @
      [\<lparr>ob_sli = take 64 sli, ob_target = take 32 target, ob_source = take 64 source, ob_trust = trust, ob_ok = good,
        ob_fingerprint = fp, ob_incident = inc, ob_digest = dig payload, ob_at = at_time\<rparr>]\<rparr>))"

section \<open>Freezes\<close>

definition freeze_due :: "incident \<Rightarrow> instant \<Rightarrow> bool" where
  "freeze_due inc now \<longleftrightarrow> mi_class inc \<noteq> AVAILABILITY \<or> freeze_min_outage \<le> now - mi_first_observed inc"

definition freeze_source :: string where
  "freeze_source = ''maintenance''"

text \<open>One open freeze per incident: an open one is reused.\<close>

definition ensure_incident_freeze :: "uid \<Rightarrow> incident \<Rightarrow> instant \<Rightarrow> kdb \<Rightarrow> kdb" where
  "ensure_incident_freeze new_id inc now d =
    (if list_ex (\<lambda>z. \<not> fz_lifted z \<and> fz_source z = freeze_source \<and> fz_incident z = Some (mi_id inc)) (kd_freezes d) then d
     else d\<lparr>kd_freezes := kd_freezes d @
       [\<lparr>fz_id = new_id, fz_source = freeze_source, fz_incident = Some (mi_id inc), fz_opened_at = now, fz_lifted = False\<rparr>]\<rparr>)"

section \<open>Ingesting a violation\<close>

definition open_with :: "string \<Rightarrow> incident \<Rightarrow> bool" where
  "open_with fp r \<longleftrightarrow> mi_fingerprint r = fp \<and> mi_status r = INC_OPEN"

text \<open>\<open>order_by(opened_at.desc()).first()\<close>.\<close>

fun latest_opened :: "incident list \<Rightarrow> incident option" where
  "latest_opened [] = None"
| "latest_opened (r # rs) =
    (case latest_opened rs of None \<Rightarrow> Some r | Some q \<Rightarrow> if mi_opened_at r < mi_opened_at q then Some q else Some r)"

definition previous_incident :: "kdb \<Rightarrow> string \<Rightarrow> incident option" where
  "previous_incident d fp =
    latest_opened (filter (\<lambda>r. mi_fingerprint r = fp \<and> mi_status r \<noteq> INC_OPEN) (kd_incidents d))"

text \<open>Priority, recurrence count and predecessor of a new incident.\<close>

definition recurrence :: "incident option \<Rightarrow> priority \<Rightarrow> instant \<Rightarrow> priority \<times> nat \<times> uid option" where
  "recurrence prev base now =
    (case prev of
       None \<Rightarrow> (base, 0, None)
     | Some r \<Rightarrow>
         let k = mi_recurrences r + 1;
             recent = (case mi_resolved_at r of None \<Rightarrow> False | Some t \<Rightarrow> now - t \<le> recurrence_window);
             p = (if recent \<and> 2 \<le> k then bump (mi_priority r)
                  else if mi_priority r < base then mi_priority r else base)
         in (p, k, Some (mi_id r)))"

definition new_incident :: "uid \<Rightarrow> string \<Rightarrow> violation \<Rightarrow> string \<Rightarrow> incident option \<Rightarrow> instant \<Rightarrow> incident" where
  "new_incident i fp v ev prev now =
    (let (p, k, old) = recurrence prev (vi_base v) now in
     \<lparr>mi_id = i, mi_fingerprint = fp, mi_class = vi_class v, mi_priority = p, mi_severity = vi_severity v,
      mi_source = take 64 (vi_source v), mi_target = take 32 (vi_target v), mi_ref = take 160 (vi_ref v),
      mi_status = INC_OPEN, mi_first_observed = now, mi_last_observed = now, mi_observations = 1, mi_streak = 0,
      mi_digest = ev, mi_recurrence_of = old, mi_recurrences = k, mi_case_count = 0, mi_last_terminal = None,
      mi_provenance = [], mi_opened_at = now, mi_resolved_at = None\<rparr>)"

definition fold_into :: "violation \<Rightarrow> string \<Rightarrow> instant \<Rightarrow> incident \<Rightarrow> incident" where
  "fold_into v ev now r =
    r\<lparr>mi_last_observed := now, mi_observations := mi_observations r + 1, mi_streak := 0, mi_digest := ev,
      mi_severity := (if vi_severity v = CRITICAL \<and> mi_severity r \<noteq> CRITICAL then CRITICAL else mi_severity r)\<rparr>"

definition violation_payload :: "violation \<Rightarrow> json" where
  "violation_payload v =
    (let put = (\<lambda>k x kvs. if k \<in> fst ` set kvs then kvs else kvs @ [(k, x)]);
         path = (case vi_path v of None \<Rightarrow> JNull | Some p \<Rightarrow> if p = [] then JNull else JStr (normalize_path (Some p)))
     in JObj (put ''path'' path (put ''failure'' (JStr (vi_failure v)) (vi_payload v))))"

text \<open>
  \<open>ingest_violation\<close>: \<open>new_id\<close> and \<open>freeze_id\<close> are fresh UUIDs. The insert can only fail on the open
  fingerprint, when another session committed its incident after this one looked; \<open>raced\<close> is that
  incident, and the observation is folded into it.
\<close>

definition ingest_violation ::
  "(string \<Rightarrow> string) \<Rightarrow> (json \<Rightarrow> string) \<Rightarrow> uid \<Rightarrow> uid \<Rightarrow> incident option \<Rightarrow> violation \<Rightarrow> instant \<Rightarrow> kdb \<Rightarrow>
   incident_error + (kdb \<times> uid \<times> bool)" where
  "ingest_violation sha dig new_id freeze_id raced v now d =
    (let fp = violation_fingerprint sha v;
         payload = violation_payload v;
         ev = dig payload;
         (d1, i, created) =
           (case find (open_with fp) (kd_incidents d) of
              Some r \<Rightarrow> (set_incident (mi_id r) (fold_into v ev now) d, mi_id r, False)
            | None \<Rightarrow>
                (case raced of
                   Some r \<Rightarrow> (set_incident (mi_id r) (fold_into v ev now) (d\<lparr>kd_incidents := kd_incidents d @ [r]\<rparr>), mi_id r, False)
                 | None \<Rightarrow>
                     (d\<lparr>kd_incidents := kd_incidents d @ [new_incident new_id fp v ev (previous_incident d fp) now]\<rparr>,
                      new_id, True)))
     in bindE (record_observation dig (vi_sli v) (vi_target v) (vi_source v) (vi_trust v) False payload (Some fp) (Some i) now d1)
        (\<lambda>d2. Inr ((case get_incident d2 i of
             None \<Rightarrow> d2
           | Some r \<Rightarrow> if freezing_class (mi_class r) \<and> mi_severity r \<noteq> MINOR \<and> freeze_due r now
                       then ensure_incident_freeze freeze_id r now d2 else d2), i, created)))"

section \<open>Recovery\<close>

definition release_settling :: "kdb \<Rightarrow> uid \<Rightarrow> bool" where
  "release_settling d i \<longleftrightarrow> list_ex (\<lambda>c. rc_incident c = i \<and> settling (rc_state c)) (kd_cases d)"

definition healthy_step :: "kdb \<Rightarrow> nat \<Rightarrow> instant \<Rightarrow> incident \<Rightarrow> incident" where
  "healthy_step d recovery_streak now r =
    (if release_settling d (mi_id r) then r\<lparr>mi_streak := 0\<rparr>
     else let k = mi_streak r + 1 in
       if recovery_streak \<le> k then r\<lparr>mi_streak := k, mi_status := INC_RECOVERED, mi_resolved_at := Some now\<rparr>
       else r\<lparr>mi_streak := k\<rparr>)"

definition observed_by :: "string \<Rightarrow> string \<Rightarrow> incident \<Rightarrow> bool" where
  "observed_by target ref r \<longleftrightarrow> mi_target r = target \<and> mi_ref r = ref \<and> mi_status r = INC_OPEN"

text \<open>Returns the database and the identities of the incidents that just recovered.\<close>

definition observe_healthy ::
  "(json \<Rightarrow> string) \<Rightarrow> nat \<Rightarrow> string \<Rightarrow> string \<Rightarrow> string \<Rightarrow> string \<Rightarrow> instant \<Rightarrow> bool \<Rightarrow> kdb \<Rightarrow> kdb \<times> uid list" where
  "observe_healthy dig recovery_streak target ref sli source now recorded d =
    (let d0 = (if recorded then
          (case record_observation dig sli target source TRUSTED_PROBE True (JObj [(''ref'', JStr ref)]) None None now d of
             Inl _ \<Rightarrow> d | Inr d' \<Rightarrow> d') else d);
         touched = (\<lambda>r. if observed_by target ref r then healthy_step d0 recovery_streak now r else r)
     in (d0\<lparr>kd_incidents := map touched (kd_incidents d0)\<rparr>,
         map mi_id (filter (\<lambda>r. observed_by target ref r \<and> mi_status (healthy_step d0 recovery_streak now r) = INC_RECOVERED)
           (kd_incidents d0))))"

section \<open>Coverage by cases\<close>

definition covered_by_case :: "kdb \<Rightarrow> uid \<Rightarrow> bool" where
  "covered_by_case d i \<longleftrightarrow> list_ex (\<lambda>c. rc_incident c = i \<and> active c) (kd_cases d)"

definition reopenable :: "kdb \<Rightarrow> int \<Rightarrow> nat \<Rightarrow> instant \<Rightarrow> incident \<Rightarrow> bool" where
  "reopenable d cooldown_hours max_cases now r \<longleftrightarrow>
    mi_status r = INC_OPEN \<and> \<not> covered_by_case d (mi_id r) \<and> mi_case_count r < max_cases \<and>
    (case mi_last_terminal r of None \<Rightarrow> True | Some t \<Rightarrow> t \<le> now - hours cooldown_hours)"

text \<open>\<open>ORDER BY priority, first_observed_at LIMIT n\<close>.\<close>

definition open_incidents_without_case :: "kdb \<Rightarrow> int \<Rightarrow> nat \<Rightarrow> nat \<Rightarrow> instant \<Rightarrow> incident list" where
  "open_incidents_without_case d cooldown_hours max_cases limit now =
    take limit (sort_key (\<lambda>r. priority_rank (mi_priority r)) (sort_key mi_first_observed
      (filter (reopenable d cooldown_hours max_cases now) (kd_incidents d))))"

definition active_case_for :: "kdb \<Rightarrow> uid \<Rightarrow> rcase option" where
  "active_case_for d i = find (\<lambda>c. rc_incident c = i \<and> active c) (kd_cases d)"

definition is_covered :: "kdb \<Rightarrow> string \<Rightarrow> bool" where
  "is_covered d fp \<longleftrightarrow>
    (case find (open_with fp) (kd_incidents d) of None \<Rightarrow> False | Some r \<Rightarrow> active_case_for d (mi_id r) \<noteq> None)"

fun ingest_many ::
  "(string \<Rightarrow> string) \<Rightarrow> (json \<Rightarrow> string) \<Rightarrow> (nat \<Rightarrow> uid) \<Rightarrow> violation list \<Rightarrow> instant \<Rightarrow> kdb \<Rightarrow> incident_error + (kdb \<times> (uid \<times> bool) list)" where
  "ingest_many sha dig fresh [] now d = Inr (d, [])"
| "ingest_many sha dig fresh (v # vs) now d =
    bindE (ingest_violation sha dig (fresh 0) (fresh 1) None v now d)
    (\<lambda>(d', i, created). bindE (ingest_many sha dig (\<lambda>n. fresh (n + 2)) vs now d')
    (\<lambda>(d'', rs). Inr (d'', (i, created) # rs)))"

section \<open>The incident invariant\<close>

text \<open>
  At most one open incident per fingerprint, an open incident is short of the recovery streak, and
  the recurrence links lead from an incident to an earlier, no longer open one of the same
  fingerprint, counting up by one. \<open>n\<close> is the recovery streak of the settings (at least 2).
\<close>

definition linked :: "incident list \<Rightarrow> incident \<Rightarrow> bool" where
  "linked is r \<longleftrightarrow>
    (case mi_recurrence_of r of
       None \<Rightarrow> mi_recurrences r = 0
     | Some j \<Rightarrow> (\<exists>q \<in> set is. mi_id q = j \<and> mi_fingerprint q = mi_fingerprint r \<and> mi_status q \<noteq> INC_OPEN
         \<and> mi_recurrences r = mi_recurrences q + 1))"

definition one_open :: "incident list \<Rightarrow> bool" where
  "one_open is \<longleftrightarrow> (\<forall>r \<in> set is. \<forall>q \<in> set is. mi_status r = INC_OPEN \<longrightarrow> mi_status q = INC_OPEN \<longrightarrow>
    mi_fingerprint r = mi_fingerprint q \<longrightarrow> mi_id r = mi_id q)"

definition incidents_ok :: "nat \<Rightarrow> incident list \<Rightarrow> bool" where
  "incidents_ok n is \<longleftrightarrow> distinct (map mi_id is) \<and> one_open is \<and>
    (\<forall>r \<in> set is. linked is r \<and> (mi_status r = INC_OPEN \<longrightarrow> mi_streak r < n))"

lemma one_openD:
  "one_open is \<Longrightarrow> r \<in> set is \<Longrightarrow> q \<in> set is \<Longrightarrow> mi_status r = INC_OPEN \<Longrightarrow> mi_status q = INC_OPEN \<Longrightarrow>
    mi_fingerprint r = mi_fingerprint q \<Longrightarrow> mi_id r = mi_id q"
  by (unfold one_open_def, drule (1) bspec, drule (1) bspec, (drule (1) mp)+, assumption)

lemma one_openI:
  "(\<And>r q. r \<in> set is \<Longrightarrow> q \<in> set is \<Longrightarrow> mi_status r = INC_OPEN \<Longrightarrow> mi_status q = INC_OPEN \<Longrightarrow>
    mi_fingerprint r = mi_fingerprint q \<Longrightarrow> mi_id r = mi_id q) \<Longrightarrow> one_open is"
  unfolding one_open_def by (intro ballI impI)

text \<open>An update that keeps identities and links, opens nothing, and keeps open streaks short.\<close>

lemma incidents_map_ok:
  assumes ok: "incidents_ok n is"
    and g: "\<And>r. r \<in> set is \<Longrightarrow> mi_id (g r) = mi_id r \<and> mi_fingerprint (g r) = mi_fingerprint r \<and>
      mi_recurrence_of (g r) = mi_recurrence_of r \<and> mi_recurrences (g r) = mi_recurrences r \<and>
      (mi_status (g r) = INC_OPEN \<longrightarrow> mi_status r = INC_OPEN \<and> mi_streak (g r) < n)"
  shows "incidents_ok n (map g is)"
proof -
  have ids: "map mi_id (map g is) = map mi_id is" using g by simp
  have "one_open (map g is)"
  proof (rule one_openI)
    fix x y
    assume x: "x \<in> set (map g is)" and y: "y \<in> set (map g is)"
      and o: "mi_status x = INC_OPEN" "mi_status y = INC_OPEN" "mi_fingerprint x = mi_fingerprint y"
    from x obtain r where r: "r \<in> set is" "x = g r" by auto
    from y obtain q where q: "q \<in> set is" "y = g q" by auto
    have "mi_id r = mi_id q"
      by (rule one_openD [OF _ r(1) q(1)]) (use ok o g [OF r(1)] g [OF q(1)] r(2) q(2) in \<open>simp_all add: incidents_ok_def\<close>)
    with g [OF r(1)] g [OF q(1)] r(2) q(2) show "mi_id x = mi_id y" by simp
  qed
  moreover have "linked (map g is) (g r)" if r: "r \<in> set is" for r
  proof (cases "mi_recurrence_of r")
    case None
    with ok r g [OF r] show ?thesis by (auto simp: incidents_ok_def linked_def)
  next
    case (Some j)
    with ok r have "\<exists>q \<in> set is. mi_id q = j \<and> mi_fingerprint q = mi_fingerprint r \<and> mi_status q \<noteq> INC_OPEN
         \<and> mi_recurrences r = mi_recurrences q + 1" by (auto simp: incidents_ok_def linked_def)
    then obtain q where q: "q \<in> set is" "mi_id q = j" "mi_fingerprint q = mi_fingerprint r" "mi_status q \<noteq> INC_OPEN"
      "mi_recurrences r = mi_recurrences q + 1" by blast
    have "g q \<in> set (map g is)" using q(1) by simp
    with q g [OF q(1)] g [OF r] Some show ?thesis
      unfolding linked_def by (simp only: option.case) (intro bexI [of _ "g q"]; simp)
  qed
  moreover have "mi_status (g r) = INC_OPEN \<longrightarrow> mi_streak (g r) < n" if "r \<in> set is" for r using g [OF that] by simp
  ultimately show ?thesis using ok ids unfolding incidents_ok_def by (simp del: map_map)
qed

lemma latest_opened_mem: "latest_opened rs = Some r \<Longrightarrow> r \<in> set rs"
  by (induction rs arbitrary: r) (auto split: option.splits if_splits)

lemma linked_append: "linked is r \<Longrightarrow> linked (is @ js) r"
  by (auto simp: linked_def split: option.splits)

lemma incidents_append_ok:
  assumes ok: "incidents_ok n is" and "0 < n" and fresh: "i \<notin> mi_id ` set is"
    and none: "find (open_with fp) is = None"
    and prev: "prev = latest_opened (filter (\<lambda>r. mi_fingerprint r = fp \<and> mi_status r \<noteq> INC_OPEN) is)"
  shows "incidents_ok n (is @ [new_incident i fp v ev prev now])"
proof -
  let ?r = "new_incident i fp v ev prev now"
  have f: "mi_id ?r = i" "mi_fingerprint ?r = fp" "mi_streak ?r = 0"
    "mi_recurrence_of ?r = snd (snd (recurrence prev (vi_base v) now))" "mi_recurrences ?r = fst (snd (recurrence prev (vi_base v) now))"
    by (simp_all add: new_incident_def split: prod.splits)
  have "linked is ?r"
  proof (cases prev)
    case None
    then show ?thesis by (simp add: linked_def new_incident_def recurrence_def)
  next
    case (Some q)
    with prev latest_opened_mem have "q \<in> set is" "mi_fingerprint q = fp" "mi_status q \<noteq> INC_OPEN" by fastforce+
    with Some show ?thesis by (auto simp: linked_def new_incident_def recurrence_def Let_def)
  qed
  moreover have "one_open (is @ [?r])"
  proof (rule one_openI)
    fix x y
    assume x: "x \<in> set (is @ [?r])" and y: "y \<in> set (is @ [?r])"
      and o: "mi_status x = INC_OPEN" "mi_status y = INC_OPEN" "mi_fingerprint x = mi_fingerprint y"
    have no: "z \<notin> set is \<or> mi_fingerprint z \<noteq> fp \<or> mi_status z \<noteq> INC_OPEN" for z
      using none by (auto simp: find_None_iff open_with_def)
    from x y have "x \<in> set is \<or> x = ?r" "y \<in> set is \<or> y = ?r" by auto
    then show "mi_id x = mi_id y"
    proof (elim disjE)
      assume "x \<in> set is" "y \<in> set is"
      then show ?thesis using ok o by (intro one_openD [of "is"]) (simp_all add: incidents_ok_def)
    next
      assume "x \<in> set is" "y = ?r"
      with no [of x] o f show ?thesis by simp
    next
      assume "x = ?r" "y \<in> set is"
      with no [of y] o f show ?thesis by simp
    qed simp
  qed
  ultimately show ?thesis
    using ok fresh \<open>0 < n\<close> f linked_append [of "is" _ "[?r]"] by (auto simp: incidents_ok_def)
qed

lemma fold_into_ok:
  assumes "incidents_ok n is" and "0 < n"
  shows "incidents_ok n (upd_key mi_id i (fold_into v ev now) is)"
  unfolding upd_key_def using assms
  by (intro incidents_map_ok) (auto simp: fold_into_def incidents_ok_def)

lemma record_observation_incidents:
  "record_observation dig sli t src tr b p fp i now d = Inr d' \<Longrightarrow> kd_incidents d' = kd_incidents d \<and> kd_cases d' = kd_cases d"
  by (auto simp: record_observation_def bindE_Inr)

lemma ensure_incident_freeze_incidents [simp]:
  "kd_incidents (ensure_incident_freeze z r now d) = kd_incidents d" "kd_cases (ensure_incident_freeze z r now d) = kd_cases d"
  by (simp_all add: ensure_incident_freeze_def)

text \<open>The incident another session may have inserted meanwhile.\<close>

definition race :: "kdb \<Rightarrow> string \<Rightarrow> incident option \<Rightarrow> bool" where
  "race d fp raced \<longleftrightarrow> (case raced of None \<Rightarrow> True | Some r \<Rightarrow> mi_id r \<notin> mi_id ` set (kd_incidents d) \<and>
    (\<exists>i v ev now. r = new_incident i fp v ev (previous_incident d fp) now))"

lemma ingest_incidents_ok:
  assumes "ingest_violation sha dig i z raced v now d = Inr (d', j, created)"
    and ok: "incidents_ok n (kd_incidents d)" and n: "0 < n"
    and fresh: "i \<notin> mi_id ` set (kd_incidents d)" and race: "race d (violation_fingerprint sha v) raced"
  shows "incidents_ok n (kd_incidents d')"
proof -
  let ?fp = "violation_fingerprint sha v"
  let ?ev = "dig (violation_payload v)"
  let ?m = "case find (open_with ?fp) (kd_incidents d) of
      Some r \<Rightarrow> (set_incident (mi_id r) (fold_into v ?ev now) d, mi_id r, False)
    | None \<Rightarrow> (case raced of
         Some r \<Rightarrow> (set_incident (mi_id r) (fold_into v ?ev now) (d\<lparr>kd_incidents := kd_incidents d @ [r]\<rparr>), mi_id r, False)
       | None \<Rightarrow> (d\<lparr>kd_incidents := kd_incidents d @ [new_incident i ?fp v ?ev (previous_incident d ?fp) now]\<rparr>, i, True))"
  have "incidents_ok n (kd_incidents (fst ?m))"
  proof (cases "find (open_with ?fp) (kd_incidents d)")
    case (Some r)
    then show ?thesis by (simp add: fold_into_ok [OF ok n])
  next
    case none: None
    show ?thesis
    proof (cases raced)
      case None
      with none incidents_append_ok [OF ok n fresh none refl] show ?thesis by (simp add: previous_incident_def)
    next
      case (Some r)
      with race obtain i' v' ev' now' where r: "r = new_incident i' ?fp v' ev' (previous_incident d ?fp) now'"
        and new: "mi_id r \<notin> mi_id ` set (kd_incidents d)" by (auto simp: race_def)
      have "i' \<notin> mi_id ` set (kd_incidents d)" using new unfolding r by (simp add: new_incident_def split: prod.splits)
      from incidents_append_ok [OF ok n this none refl]
      have "incidents_ok n (kd_incidents d @ [r])" unfolding r previous_incident_def .
      with none Some show ?thesis by (simp add: fold_into_ok n del: upd_key_append)
    qed
  qed
  moreover have "kd_incidents d' = kd_incidents (fst ?m)"
    using assms(1) unfolding ingest_violation_def Let_def
    by (auto simp: bindE_Inr dest!: record_observation_incidents split: prod.splits option.splits if_splits)
  ultimately show ?thesis by simp
qed

lemma healthy_incidents_ok:
  assumes ok: "incidents_ok n (kd_incidents d)" and n: "0 < n"
  shows "incidents_ok n (kd_incidents (fst (observe_healthy dig n target ref sli source now recorded d)))"
proof -
  let ?d0 = "if recorded then (case record_observation dig sli target source TRUSTED_PROBE True (JObj [(''ref'', JStr ref)]) None None now d of
      Inl _ \<Rightarrow> d | Inr d' \<Rightarrow> d') else d"
  have same: "kd_incidents ?d0 = kd_incidents d"
    by (auto split: sum.splits dest: record_observation_incidents)
  have "incidents_ok n (map (\<lambda>r. if observed_by target ref r then healthy_step ?d0 n now r else r) (kd_incidents d))"
    using ok n by (intro incidents_map_ok) (auto simp: healthy_step_def Let_def observed_by_def incidents_ok_def)
  then show ?thesis by (simp add: observe_healthy_def same Let_def)
qed

section \<open>The incident protocol\<close>

text \<open>
  What happens to incidents: collectors report failing and healthy observations, and the kernel
  opens and moves cases, which stamps their incidents.
\<close>

inductive incident_step :: "nat \<Rightarrow> kdb \<Rightarrow> kdb \<Rightarrow> bool" for n where
  fails: "ingest_violation sha dig i z raced v now d = Inr (d', j, created) \<Longrightarrow> i \<notin> mi_id ` set (kd_incidents d) \<Longrightarrow>
    race d (violation_fingerprint sha v) raced \<Longrightarrow> incident_step n d d'"
| healthy: "incident_step n d (fst (observe_healthy dig n target ref sli source now recorded d))"
| opens: "incident_step n d (fst (open_case i inc max_hours now d))"
| moves: "transition i dst a reason r delay now d = Inr d' \<Longrightarrow> incident_step n d d'"

lemma open_case_incidents:
  "kd_incidents (fst (open_case i inc h now d)) =
    (if list_ex (\<lambda>c. rc_id c = i \<or> rc_incident c = mi_id inc \<and> active c) (kd_cases d) then kd_incidents d
     else upd_key mi_id (mi_id inc) (\<lambda>r. r\<lparr>mi_case_count := mi_case_count r + 1\<rparr>) (kd_incidents d))"
  by (simp add: open_case_def Let_def)

lemma transition_incidents:
  assumes "transition i dst a reason r delay now d = Inr d'"
  shows "\<exists>k. kd_incidents d' = (if is_terminal dst then upd_key mi_id k (\<lambda>r. r\<lparr>mi_last_terminal := Some now\<rparr>) (kd_incidents d)
    else kd_incidents d)"
proof -
  from assms obtain c where "d' = commit_move i c dst a reason r delay now d" by (rule transition_Inr)
  then show ?thesis by (intro exI [of _ "rc_incident c"]) simp
qed

lemma incident_step_ok:
  assumes "incidents_ok n (kd_incidents d)" and "incident_step n d d'" and n: "0 < n"
  shows "incidents_ok n (kd_incidents d')"
  using assms(2,1)
proof (cases rule: incident_step.cases)
  case (fails sha dig i z raced v now j created)
  from ingest_incidents_ok [OF fails(1) assms(1) n fails(2,3)] show ?thesis .
next
  case (healthy dig target ref sli source now recorded)
  from healthy_incidents_ok [OF assms(1) n] show ?thesis unfolding healthy .
next
  case (opens i inc max_hours now)
  have "incidents_ok n (upd_key mi_id (mi_id inc) (\<lambda>r. r\<lparr>mi_case_count := mi_case_count r + 1\<rparr>) (kd_incidents d))"
    unfolding upd_key_def using assms(1) by (intro incidents_map_ok) (auto simp: incidents_ok_def)
  with assms(1) show ?thesis unfolding opens open_case_incidents by simp
next
  case (moves i dst a reason r delay now)
  have "incidents_ok n (upd_key mi_id k (\<lambda>r. r\<lparr>mi_last_terminal := Some now\<rparr>) (kd_incidents d))" for k
    unfolding upd_key_def using assms(1) by (intro incidents_map_ok) (auto simp: incidents_ok_def)
  moreover from transition_incidents [OF moves] obtain k where
    "kd_incidents d' = (if is_terminal dst then upd_key mi_id k (\<lambda>r. r\<lparr>mi_last_terminal := Some now\<rparr>) (kd_incidents d)
      else kd_incidents d)" by blast
  ultimately show ?thesis using assms(1) by simp
qed

text \<open>The recovery streak of the settings is at least 2 (\<open>config.py\<close>).\<close>

interpretation incident_protocol: invariant_system "\<lambda>d :: kdb. kd_incidents d = []" "incident_step (Suc m)"
  "\<lambda>d. incidents_ok (Suc m) (kd_incidents d)"
proof
  show "incidents_ok (Suc m) (kd_incidents d)" if "kd_incidents d = []" for d :: kdb
    by (simp add: that incidents_ok_def one_open_def)
  show "incidents_ok (Suc m) (kd_incidents d')" if "incidents_ok (Suc m) (kd_incidents d)" "incident_step (Suc m) d d'" for d d'
    using that by (rule incident_step_ok) simp
qed


definition empty_kdb :: kdb where
  "empty_kdb = \<lparr>kd_incidents = [], kd_cases = [], kd_log = [], kd_artifacts = [], kd_evidence = [],
    kd_observations = [], kd_freezes = []\<rparr>"

definition demo_violation :: violation where
  "demo_violation = \<lparr>vi_target = ''production'', vi_class = UI_RENDERING, vi_ref = ''pages:home'', vi_failure = ''marker_missing'',
    vi_severity = MAJOR, vi_base = P2, vi_source = ''public_surface_monitor'', vi_sli = ''public_pages'',
    vi_path = Some ''/tasks/42'', vi_trust = TRUSTED_PROBE, vi_payload = []\<rparr>"

definition demo_incident :: incident where
  "demo_incident = new_incident 1 (violation_fingerprint id demo_violation) demo_violation ''d'' None 0"

definition demo_kdb :: kdb where
  "demo_kdb = empty_kdb\<lparr>kd_incidents := [demo_incident],
    kd_observations := [\<lparr>ob_sli = ''public_pages'', ob_target = ''production'', ob_source = ''public_surface_monitor'',
      ob_trust = TRUSTED_PROBE, ob_ok = False, ob_fingerprint = Some (violation_fingerprint id demo_violation),
      ob_incident = Some 1, ob_digest = ''d'', ob_at = 0\<rparr>]\<rparr>"

lemma demo_ingest:
  "ingest_violation id (\<lambda>_. ''d'') 1 2 None demo_violation 0 empty_kdb = Inr (demo_kdb, 1, True)"
  by code_simp


end
