(* ===== verification/Slo.thy ===== *)
theory Slo
  imports Incidents Float64
begin

text \<open>
  Error budgets (\<open>services/registry/app/maintenance/slo.py\<close>) over the observation rows. Targets and
  budgets are doubles, so every operation is rounded by \<open>fl\<close>; the rounding only decides one case,
  which theorem \<open>budget_exact\<close> pins down.
\<close>

record slo =
  sl_sli :: string
  sl_target :: rat
  sl_window :: duration
  sl_min_samples :: nat
  sl_availability :: bool

definition mk_slo :: "string \<Rightarrow> rat \<Rightarrow> int \<Rightarrow> nat \<Rightarrow> bool \<Rightarrow> slo" where
  "mk_slo s t w m a = \<lparr>sl_sli = s, sl_target = fl t, sl_window = days w, sl_min_samples = m, sl_availability = a\<rparr>"

definition slos :: "slo list" where
  "slos = [mk_slo ''availability'' (995 / 1000) 7 50 True, mk_slo ''api_readiness'' (995 / 1000) 7 50 True,
    mk_slo ''a2a_discovery'' (99 / 100) 7 50 True, mk_slo ''auth_journey'' (99 / 100) 7 50 True,
    mk_slo ''public_pages'' (98 / 100) 7 100 False, mk_slo ''browser_journey'' (95 / 100) 7 20 False]"

record budget_state =
  bs_sli :: string
  bs_total :: nat
  bs_bad :: nat
  bs_allowed :: rat
  bs_remaining :: "rat option"
  bs_exhausted :: bool
  bs_judged :: bool
  bs_availability :: bool

definition samples :: "kdb \<Rightarrow> slo \<Rightarrow> string \<Rightarrow> instant \<Rightarrow> observation list" where
  "samples d s target now = filter (\<lambda>r. ob_target r = target \<and> ob_sli r = sl_sli s
    \<and> now - sl_window s \<le> ob_at r \<and> ob_at r \<le> now) (kd_observations d)"

definition remaining_fraction :: "rat \<Rightarrow> nat \<Rightarrow> rat" where
  "remaining_fraction allowed bad =
    (if 0 < allowed then fl (1 - fl (of_nat bad / allowed)) else if bad = 0 then 1 else - 1)"

definition budget_for :: "kdb \<Rightarrow> slo \<Rightarrow> string \<Rightarrow> instant \<Rightarrow> budget_state" where
  "budget_for d s target now =
    (let rows = samples d s target now; total = length rows; bad = count_rows (\<lambda>r. \<not> ob_ok r) rows;
         allowed = fl (fl (1 - sl_target s) * of_nat total); judged = sl_min_samples s \<le> total;
         remaining = remaining_fraction allowed bad
     in \<lparr>bs_sli = sl_sli s, bs_total = total, bs_bad = bad, bs_allowed = allowed,
         bs_remaining = (if judged then Some remaining else None), bs_exhausted = judged \<and> remaining \<le> 0,
         bs_judged = judged, bs_availability = sl_availability s\<rparr>)"

definition budgets :: "kdb \<Rightarrow> string \<Rightarrow> instant \<Rightarrow> budget_state list" where
  "budgets d target now = map (\<lambda>s. budget_for d s target now) slos"

definition error_budget_exhausted :: "kdb \<Rightarrow> string \<Rightarrow> instant \<Rightarrow> string list" where
  "error_budget_exhausted d target now =
    map bs_sli (filter (\<lambda>b. bs_availability b \<and> bs_exhausted b) (budgets d target now))"

definition release_allowed_by_budget :: "kdb \<Rightarrow> string \<Rightarrow> priority \<Rightarrow> bool \<Rightarrow> instant \<Rightarrow> bool" where
  "release_allowed_by_budget d target p security now \<longleftrightarrow>
    error_budget_exhausted d target now = [] \<or> security \<or> p = P0 \<or> p = P1"

definition repair_latency_bound :: "priority \<Rightarrow> duration option" where
  "repair_latency_bound p = (case p of P0 \<Rightarrow> Some (hours 6) | P1 \<Rightarrow> Some (hours 24) | _ \<Rightarrow> None)"

text \<open>Cases counted, cases within the bound, and their ratio.\<close>

definition repair_latency :: "kdb \<Rightarrow> instant \<Rightarrow> duration \<Rightarrow> nat \<times> nat \<times> rat option" where
  "repair_latency d now window =
    (let rows = filter (\<lambda>c. repair_latency_bound (rc_priority c) \<noteq> None \<and> now - window \<le> rc_started_at c) (kd_cases d);
         inside = count_rows (\<lambda>c. case rc_terminal_at c of None \<Rightarrow> False
           | Some t \<Rightarrow> t - rc_started_at c \<le> the (repair_latency_bound (rc_priority c))) rows
     in (length rows, inside, if rows = [] then None else Some (fl (of_nat inside / of_nat (length rows)))))"

section \<open>Rounding decides only the boundary\<close>

abbreviation ulp :: rat where
  "ulp \<equiv> 1 / 9007199254740992"

text \<open>The rounded complement of each target is the exact budget rate, high by eight units.\<close>

lemma budget_rate:
  assumes "p \<in> {5, 10, 20, 50 :: nat}"
  shows "fl (1 - fl (1 - of_nat p / 1000)) = of_nat p / 1000 * (1 + 8 * ulp)"
proof -
  have t: "fl (995 / 1000) = of_int 8962163258467287 / 2 ^ 53" by (rule fl_eqI) simp_all
  have "fl (1 - of_int 8962163258467287 / 2 ^ 53) = of_int 5764607523034240 / 2 ^ 60" by (rule fl_eqI) simp_all
  also have "\<dots> = 5 / 1000 * (1 + 8 * ulp)" by simp
  finally have r995: "fl (1 - fl (995 / 1000)) = 5 / 1000 * (1 + 8 * ulp)" unfolding t .
  have t: "fl (990 / 1000) = of_int 8917127262193582 / 2 ^ 53" by (rule fl_eqI) simp_all
  have "fl (1 - of_int 8917127262193582 / 2 ^ 53) = of_int 5764607523034240 / 2 ^ 59" by (rule fl_eqI) simp_all
  also have "\<dots> = 10 / 1000 * (1 + 8 * ulp)" by simp
  finally have r990: "fl (1 - fl (990 / 1000)) = 10 / 1000 * (1 + 8 * ulp)" unfolding t .
  have t: "fl (980 / 1000) = of_int 8827055269646172 / 2 ^ 53" by (rule fl_eqI) simp_all
  have "fl (1 - of_int 8827055269646172 / 2 ^ 53) = of_int 5764607523034240 / 2 ^ 58" by (rule fl_eqI) simp_all
  also have "\<dots> = 20 / 1000 * (1 + 8 * ulp)" by simp
  finally have r980: "fl (1 - fl (980 / 1000)) = 20 / 1000 * (1 + 8 * ulp)" unfolding t .
  have t: "fl (950 / 1000) = of_int 8556839292003942 / 2 ^ 53" by (rule fl_eqI) simp_all
  have "fl (1 - of_int 8556839292003942 / 2 ^ 53) = of_int 7205759403792800 / 2 ^ 57" by (rule fl_eqI) simp_all
  also have "\<dots> = 50 / 1000 * (1 + 8 * ulp)" by simp
  finally have r950: "fl (1 - fl (950 / 1000)) = 50 / 1000 * (1 + 8 * ulp)" unfolding t .
  from assms have "p = 5 \<or> p = 10 \<or> p = 20 \<or> p = 50" by simp
  then show ?thesis using r995 r990 r980 r950 by (elim disjE) simp_all
qed

lemma allowed_bounds:
  assumes p: "p \<in> {5, 10, 20, 50 :: nat}" and T: "0 < T" "T \<le> 1000000000"
  defines "a \<equiv> of_nat p / 1000 * of_nat T :: rat"
  shows "a * (1 + 4 * ulp) \<le> fl (fl (1 - fl (1 - of_nat p / 1000)) * of_nat T)"
    and "fl (fl (1 - fl (1 - of_nat p / 1000)) * of_nat T) \<le> a * (1 + 12 * ulp)"
    and "1 / 1000 \<le> a" and "a \<le> 50000000"
proof -
  have p1: "(1 :: rat) \<le> of_nat p" "of_nat p \<le> (50 :: rat)" using p by auto
  have T1: "(1 :: rat) \<le> of_nat T" using T by simp
  have T2: "of_nat T \<le> (1000000000 :: rat)" using T(2) by (metis of_nat_le_iff of_nat_numeral)
  have "1 * 1 \<le> of_nat p * (of_nat T :: rat)" using p1 T1 by (intro mult_mono) simp_all
  then show lo: "1 / 1000 \<le> a" by (simp add: a_def)
  have "of_nat p * (of_nat T :: rat) \<le> 50 * 1000000000" using p1 T1 T2 by (intro mult_mono) simp_all
  then show hi: "a \<le> 50000000" by (simp add: a_def)
  let ?x = "a * (1 + 8 * ulp)"
  have x: "fl (1 - fl (1 - of_nat p / 1000)) * of_nat T = ?x" by (simp add: budget_rate [OF p] a_def)
  have small: "(1 :: rat) / 2 ^ 1000 \<le> 1 / 2 ^ 10" by (intro divide_left_mono power_increasing) simp_all
  have "1 / 2 ^ 10 \<le> (1 / 1000 :: rat)" by simp
  also have "\<dots> \<le> ?x" using lo by simp
  finally have "1 / 2 ^ 1000 \<le> ?x" using small by linarith
  moreover have "?x < 9007199254740992" using hi by simp
  ultimately have "\<bar>fl ?x - ?x\<bar> \<le> ?x / 9007199254740992" by (rule fl_error)
  then have e: "?x - ?x / 9007199254740992 \<le> fl ?x" "fl ?x \<le> ?x + ?x / 9007199254740992"
    by (simp_all only: abs_le_iff) linarith+
  show "a * (1 + 4 * ulp) \<le> fl (fl (1 - fl (1 - of_nat p / 1000)) * of_nat T)"
    unfolding x using e lo by (simp add: algebra_simps)
  show "fl (fl (1 - fl (1 - of_nat p / 1000)) * of_nat T) \<le> a * (1 + 12 * ulp)"
    unfolding x using e lo by (simp add: algebra_simps)
qed

lemma exhausted_iff:
  fixes allowed a :: rat
  assumes lo: "a * (1 + 4 * ulp) \<le> allowed" and hi: "allowed \<le> a * (1 + 12 * ulp)"
    and a1: "1 / 1000 \<le> a" and a2: "a \<le> 50000000" and bad: "of_nat bad \<le> a \<or> a + 1 / 1000 \<le> of_nat bad"
    and few: "of_nat bad \<le> (1000000000 :: rat)"
  shows "remaining_fraction allowed bad \<le> 0 \<longleftrightarrow> a < of_nat bad"
proof -
  have pos: "0 < a" using a1 by linarith
  then have "0 < a * (1 + 4 * ulp)" by (intro mult_pos_pos) simp_all
  with lo have ap: "0 < allowed" by linarith
  let ?q = "of_nat bad / allowed"
  have small: "(1 :: rat) / 2 ^ 1000 \<le> 1 / 2 ^ 100" by (intro divide_left_mono power_increasing) simp_all
  have q_low: "1 / 2 ^ 1000 \<le> ?q" if "bad \<noteq> 0"
  proof -
    have "allowed \<le> 100000000" using hi a2 pos by (simp add: field_simps)
    then have "1 / 100000000 \<le> ?q" using that ap by (intro frac_le) simp_all
    moreover have "1 / 2 ^ 100 \<le> (1 / 100000000 :: rat)" by simp
    ultimately show ?thesis using small by linarith
  qed
  show ?thesis
  proof (cases "a < of_nat bad")
    case True
    with bad have b: "a + 1 / 1000 \<le> of_nat bad" by simp
    then have "bad \<noteq> 0" using pos by (cases bad) auto
    have "1 + 4 * ulp \<le> ?q"
    proof -
      have "(1 + 4 * ulp) * allowed \<le> (1 + 4 * ulp) * (a * (1 + 12 * ulp))" using hi by (intro mult_left_mono) simp_all
      also have "\<dots> \<le> a * (1 + 17 * ulp)" using pos by (simp add: field_simps)
      also have "\<dots> \<le> a + 1 / 1000" using a2 by (simp add: field_simps)
      finally show ?thesis using b ap by (simp add: field_simps)
    qed
    moreover have "?q < 9007199254740992"
    proof -
      have "1 / 1000 \<le> allowed" using lo a1 pos by (simp add: field_simps)
      then have "of_nat bad / allowed \<le> 1000000000 / (1 / 1000)" using few by (intro frac_le) simp_all
      then show ?thesis by simp
    qed
    ultimately have "1 \<le> fl ?q"
      using fl_error [OF q_low [OF \<open>bad \<noteq> 0\<close>]] by (simp add: abs_le_iff field_simps)
    then have "remaining_fraction allowed bad \<le> 0" using ap by (simp add: remaining_fraction_def fl_nonpos)
    with True show ?thesis by simp
  next
    case False
    have f1: "fl ?q \<le> 1 - ulp \<and> 0 \<le> fl ?q"
    proof (cases "bad = 0")
      case True
      then show ?thesis by (simp add: fl_def)
    next
      case bad0: False
      have "of_nat bad \<le> a" using False by simp
      then have "?q \<le> a / (a * (1 + 4 * ulp))" using lo pos by (intro frac_le) simp_all
      also have "\<dots> \<le> 1 - 3 * ulp" using pos by (simp add: field_simps)
      finally have q: "?q \<le> 1 - 3 * ulp" .
      then have "?q < 9007199254740992" by linarith
      from fl_error [OF q_low [OF bad0] this] fl_positive [OF q_low [OF bad0] this] q
      show ?thesis by (simp add: abs_le_iff field_simps)
    qed
    have "0 < fl (1 - fl ?q)"
    proof (rule fl_positive)
      have "(1 :: rat) / 2 ^ 100 \<le> ulp" by simp
      with f1 small show "1 / 2 ^ 1000 \<le> 1 - fl ?q" by linarith
      show "1 - fl ?q < 9007199254740992" using f1 by simp
    qed
    with False ap show ?thesis by (simp add: remaining_fraction_def)
  qed
qed

text \<open>The budget of an objective, in bad samples per thousand.\<close>

definition budget_permille :: "slo \<Rightarrow> nat" where
  "budget_permille s = (case map_of [(''availability'', 5), (''api_readiness'', 5), (''a2a_discovery'', 10),
    (''auth_journey'', 10), (''public_pages'', 20), (''browser_journey'', 50)] (sl_sli s) of Some p \<Rightarrow> p | None \<Rightarrow> 0)"

lemma slo_rate:
  assumes "s \<in> set slos"
  shows "budget_permille s \<in> {5, 10, 20, 50} \<and> sl_target s = fl (1 - of_nat (budget_permille s) / 1000)"
  using assms by (auto simp: slos_def mk_slo_def budget_permille_def)

text \<open>
  C33: For every objective and up to a billion samples in its window, the budget counts as exhausted
  exactly when more bad samples were seen than the objective allows (five in a thousand for an
  availability of 99.5 percent, and so on). Floating point decides nothing but the boundary: a
  budget used up to the last sample is not exhausted, where the exact quotient would be zero.
\<close>

theorem budget_exact:
  assumes "s \<in> set slos" and "length (samples d s target now) \<le> 1000000000"
  shows "bs_exhausted (budget_for d s target now) \<longleftrightarrow>
    bs_judged (budget_for d s target now) \<and>
    budget_permille s * bs_total (budget_for d s target now) < 1000 * bs_bad (budget_for d s target now)"
proof -
  let ?T = "length (samples d s target now)" and ?bad = "count_rows (\<lambda>r. \<not> ob_ok r) (samples d s target now)"
  let ?p = "budget_permille s"
  let ?a = "of_nat ?p / 1000 * of_nat ?T :: rat"
  note p = slo_rate [OF assms(1)]
  have le: "?bad \<le> ?T" by (simp add: count_rows_def)
  have "0 < sl_min_samples s" using assms(1) by (auto simp: slos_def mk_slo_def)
  show ?thesis
  proof (cases "sl_min_samples s \<le> ?T")
    case False
    then show ?thesis by (simp add: budget_for_def Let_def)
  next
    case True
    then have T: "0 < ?T" using \<open>0 < sl_min_samples s\<close> by linarith
    have iff: "?a < of_nat ?bad \<longleftrightarrow> ?p * ?T < 1000 * ?bad"
    proof -
      have "?a < of_nat ?bad \<longleftrightarrow> of_nat (?p * ?T) < (of_nat (1000 * ?bad) :: rat)" by (simp add: field_simps)
      then show ?thesis by (simp only: of_nat_less_iff)
    qed
    have "of_nat ?bad \<le> ?a \<or> ?a + 1 / 1000 \<le> of_nat ?bad"
    proof (cases "?p * ?T < 1000 * ?bad")
      case True
      then have "?p * ?T + 1 \<le> 1000 * ?bad" by simp
      then have "of_nat (?p * ?T + 1) \<le> (of_nat (1000 * ?bad) :: rat)" by (simp only: of_nat_le_iff)
      then show ?thesis by (simp add: field_simps)
    next
      case False
      then show ?thesis using iff by linarith
    qed
    moreover have "of_nat ?bad \<le> (1000000000 :: rat)"
      using le assms(2) by (metis le_trans of_nat_le_iff of_nat_numeral)
    ultimately have "remaining_fraction (fl (fl (1 - sl_target s) * of_nat ?T)) ?bad \<le> 0 \<longleftrightarrow> ?a < of_nat ?bad"
      using allowed_bounds [OF conjunct1 [OF p] T assms(2)] unfolding conjunct2 [OF p]
      by (intro exhausted_iff) simp_all
    with True iff show ?thesis by (simp add: budget_for_def Let_def)
  qed
qed

text \<open>Twenty browser samples with \<open>k\<close> bad ones: one is the whole budget, two exhaust it.\<close>

definition demo_samples :: "nat \<Rightarrow> kdb" where
  "demo_samples k = empty_kdb\<lparr>kd_observations := map (\<lambda>i. \<lparr>ob_sli = ''browser_journey'', ob_target = ''production'',
    ob_source = ''probe'', ob_trust = TRUSTED_PROBE, ob_ok = k \<le> i, ob_fingerprint = None, ob_incident = None,
    ob_digest = [], ob_at = 0\<rparr>) [0..<20]\<rparr>"

definition browser_slo :: slo where
  "browser_slo = mk_slo ''browser_journey'' (95 / 100) 7 20 False"

theorem budget_exact_witness:
  "bs_exhausted (budget_for (demo_samples 2) browser_slo ''production'' 5) \<and>
    \<not> bs_exhausted (budget_for (demo_samples 1) browser_slo ''production'' 5)"
proof -
  have s: "browser_slo \<in> set slos" by (simp add: browser_slo_def slos_def)
  have l: "length (samples (demo_samples k) browser_slo ''production'' 5) = 20" for k
    by (simp add: samples_def demo_samples_def browser_slo_def mk_slo_def time_units)
  have b: "count_rows (\<lambda>r. \<not> ob_ok r) (samples (demo_samples k) browser_slo ''production'' 5) = length (filter (\<lambda>i. \<not> k \<le> i) [0..<20])" for k
    by (simp add: samples_def demo_samples_def browser_slo_def mk_slo_def time_units count_rows_def filter_map comp_def del: upt_rec_numeral)
  have small: "length (samples (demo_samples k) browser_slo ''production'' 5) \<le> 1000000000" for k
    unfolding l by simp
  have j: "bs_judged (budget_for (demo_samples k) browser_slo ''production'' 5)" for k
    by (simp add: budget_for_def Let_def l) (simp add: browser_slo_def mk_slo_def)
  have p: "budget_permille browser_slo = 50" by code_simp
  have n: "length (filter (\<lambda>i. \<not> 2 \<le> i) [0..<20]) = 2" "length (filter (\<lambda>i. \<not> Suc 0 \<le> i) [0..<20]) = 1"
    by code_simp+
  show ?thesis
    unfolding budget_exact [OF s small]
    using j p by (simp add: budget_for_def Let_def l b n del: upt_rec_numeral)
qed

end
