(* ===== verification/MaintPolicy.thy ===== *)
theory MaintPolicy
  imports Slo
begin

text \<open>
  The rest of the maintenance database (plans, attempts, activities, releases, promotions), the
  settings, and the trusted capacity and budget policy of
  \<open>services/registry/app/maintenance/policy.py\<close>. Money is a \<open>Decimal\<close> in the code and a rational
  here.
\<close>

section \<open>Rows and settings\<close>

record plan_row =
  pl_case :: uid
  pl_rev :: nat
  pl_files :: "string list"
  pl_tests :: "string list"
  pl_risk :: risk_class

record attempt_row =
  at_case :: uid
  at_number :: nat
  at_plan_rev :: nat
  at_outcome :: string
  at_head_sha :: "string option"

record activity_row =
  ay_case :: uid
  ay_kind :: activity_kind
  ay_plan_rev :: nat
  ay_attempt :: nat
  ay_try :: nat
  ay_status :: activity_status
  ay_cost :: rat
  ay_started_at :: instant

record release_row =
  rl_id :: uid
  rl_case :: uid
  rl_incident :: uid
  rl_status :: release_status
  rl_risk :: risk_class
  rl_head_sha :: string
  rl_failure :: "string option"
  rl_next :: instant
  rl_deadline :: instant

datatype promotion_status =
    PM_REQUESTED | PM_VALIDATING | PM_BRANCH_READY | PM_PR_OPEN | PM_CI_PENDING | PM_CI_PASSED | PM_CI_FAILED
  | PM_AWAITING_APPROVAL | PM_MERGE_ELIGIBLE | PM_MERGED | PM_REJECTED | PM_SUPERSEDED | PM_BLOCKED_EXTERNAL

fun promotion_value :: "promotion_status \<Rightarrow> string" where
  "promotion_value PM_REQUESTED = ''requested''"
| "promotion_value PM_VALIDATING = ''validating''"
| "promotion_value PM_BRANCH_READY = ''branch_ready''"
| "promotion_value PM_PR_OPEN = ''pr_open''"
| "promotion_value PM_CI_PENDING = ''ci_pending''"
| "promotion_value PM_CI_PASSED = ''ci_passed''"
| "promotion_value PM_CI_FAILED = ''ci_failed''"
| "promotion_value PM_AWAITING_APPROVAL = ''awaiting_approval''"
| "promotion_value PM_MERGE_ELIGIBLE = ''merge_eligible''"
| "promotion_value PM_MERGED = ''merged''"
| "promotion_value PM_REJECTED = ''rejected''"
| "promotion_value PM_SUPERSEDED = ''superseded''"
| "promotion_value PM_BLOCKED_EXTERNAL = ''blocked_external''"

record promotion_row =
  pm_id :: uid
  pm_status :: promotion_status
  pm_candidate_sha :: string
  pm_merged_sha :: "string option"
  pm_base_reconcile_pending :: bool
  pm_human_required :: bool
  pm_auto_merge :: bool
  pm_merge_freeze :: "string list"

record kstate =
  k_db :: kdb
  k_plans :: "plan_row list"
  k_attempts :: "attempt_row list"
  k_activities :: "activity_row list"
  k_releases :: "release_row list"
  k_promotions :: "promotion_row list"
  k_beat :: "instant option"

record settings =
  autonomy_enabled :: bool
  cognition_enabled :: bool
  green_promotion_enabled :: bool
  green_release_enabled :: bool
  st_target :: string
  max_plan_revisions :: nat
  max_repair_attempts :: nat
  max_files :: nat
  max_changed_lines :: nat
  case_max_hours :: int
  max_case_cost :: rat
  activity_max_tries :: nat
  max_active_urgent :: nat
  max_active_routine :: nat
  daily_budget :: rat
  urgent_reserve :: rat
  lease_seconds :: int
  reconcile_batch :: nat
  stall_seconds :: int
  recovery_streak :: nat
  confirm_window_seconds :: int
  case_reopen_cooldown_hours :: int
  max_cases_per_incident :: nat
  max_auto_releases_per_day :: nat
  post_deploy_healthy_observations :: nat
  post_deploy_interval_seconds :: int

text \<open>An instance for the examples: every switch on, the defaults of the limits.\<close>

definition demo_settings :: settings where
  "demo_settings = \<lparr>autonomy_enabled = True, cognition_enabled = True, green_promotion_enabled = True,
    green_release_enabled = True, st_target = ''production'', max_plan_revisions = 3, max_repair_attempts = 4, max_files = 8,
    max_changed_lines = 400,
    case_max_hours = 24, max_case_cost = 1 / 2, activity_max_tries = 3, max_active_urgent = 1, max_active_routine = 2,
    daily_budget = 1, urgent_reserve = 2 / 5, lease_seconds = 900, reconcile_batch = 5, stall_seconds = 900,
    recovery_streak = 3, confirm_window_seconds = 1800, case_reopen_cooldown_hours = 24, max_cases_per_incident = 3,
    max_auto_releases_per_day = 1, post_deploy_healthy_observations = 3, post_deploy_interval_seconds = 60\<rparr>"

section \<open>Capacity\<close>

definition urgent :: "priority \<Rightarrow> bool" where
  "urgent p \<longleftrightarrow> p = P0 \<or> p = P1"

definition busy :: "case_state \<Rightarrow> bool" where
  "busy s \<longleftrightarrow> s \<in> {TRIAGED, DIAGNOSING, PLAN_READY, BUILDING, VERIFYING, NEEDS_RESCOPE}"

definition busy_count :: "(priority \<Rightarrow> bool) \<Rightarrow> uid option \<Rightarrow> rcase list \<Rightarrow> nat" where
  "busy_count p except cs = count_rows (\<lambda>c. busy (rc_state c) \<and> Some (rc_id c) \<noteq> except \<and> p (rc_priority c)) cs"

text \<open>\<open>max(0, u - m)\<close> is truncated subtraction.\<close>

definition has_capacity :: "settings \<Rightarrow> rcase list \<Rightarrow> priority \<Rightarrow> uid option \<Rightarrow> bool" where
  "has_capacity st cs p except =
    (let u = busy_count urgent except cs; r = busy_count (\<lambda>q. \<not> urgent q) except cs in
     if urgent p then u < max_active_urgent st \<or> r + (u - max_active_urgent st) < max_active_routine st
     else r + (u - max_active_urgent st) < max_active_routine st)"

section \<open>Budget\<close>

definition spend_today :: "activity_row list \<Rightarrow> instant \<Rightarrow> rat" where
  "spend_today rows now = sum_list (map ay_cost (filter (\<lambda>a. day_start now \<le> ay_started_at a) rows))"

datatype budget_verdict = BudgetOk | CaseBudgetExhausted | DailyBudgetExhausted | RoutineBudgetExhausted

definition budget_allows :: "settings \<Rightarrow> activity_row list \<Rightarrow> rcase \<Rightarrow> instant \<Rightarrow> budget_verdict" where
  "budget_allows st rows c now =
    (let cap = max_case_cost st * (if urgent (rc_priority c) then 2 else 1);
         ceiling = (if urgent (rc_priority c) then daily_budget st else max 0 (daily_budget st - urgent_reserve st))
     in if cap \<le> rc_cost c then CaseBudgetExhausted
        else if ceiling \<le> spend_today rows now
          then (if urgent (rc_priority c) then DailyBudgetExhausted else RoutineBudgetExhausted)
        else BudgetOk)"

text \<open>A re-scope that crosses a risk boundary upward.\<close>

definition escalates :: "risk_class option \<Rightarrow> risk_class \<Rightarrow> bool" where
  "escalates previous new \<longleftrightarrow> (case previous of None \<Rightarrow> False | Some r \<Rightarrow> risk_order r < risk_order new)"

section \<open>Freezes\<close>

text \<open>
  \<open>repair_exception\<close>: whether a maintenance candidate may merge through an open incident freeze.
  \<open>linked_case\<close> is \<open>spec.maintenance.case_id\<close>, \<open>changed\<close> the candidate's changed files.
\<close>

definition repair_exception :: "kstate \<Rightarrow> uid \<Rightarrow> uid option \<Rightarrow> string list \<Rightarrow> freeze \<Rightarrow> bool" where
  "repair_exception k cand linked_case changed z =
    (case linked_case of None \<Rightarrow> False | Some cid \<Rightarrow>
     (case get_case (k_db k) cid of None \<Rightarrow> False | Some c \<Rightarrow>
      if rc_state c \<noteq> PROMOTING \<or> rc_candidate c \<noteq> Some cand then False
      else (case get_incident (k_db k) (rc_incident c) of None \<Rightarrow> False | Some inc \<Rightarrow>
       if \<not> (fz_incident z = Some (mi_id inc) \<or> fz_source z = ''public_surface'' \<and>
              mi_source inc = ''public_surface_monitor'' \<and> mi_class inc = AVAILABILITY) then False
       else (case find (\<lambda>p. pl_case p = cid \<and> pl_rev p = rc_plan_rev c) (k_plans k) of None \<Rightarrow> False | Some p \<Rightarrow>
         changed \<noteq> [] \<and> set changed \<subseteq> set (pl_files p) \<and> rc_risk c \<in> {Some MAINTENANCE_GREEN, Some AMBER}))))"

datatype freeze_reason = ErrorBudgetExhausted "string list" | P0MaintenanceActive

definition innovation_freeze_reasons :: "kstate \<Rightarrow> string \<Rightarrow> bool \<Rightarrow> instant \<Rightarrow> freeze_reason list" where
  "innovation_freeze_reasons k target maintenance now =
    (if maintenance then []
     else (let x = error_budget_exhausted (k_db k) target now in if x = [] then [] else [ErrorBudgetExhausted x]) @
       (if list_ex (\<lambda>c. rc_priority c = P0 \<and> \<not> is_terminal (rc_state c)) (kd_cases (k_db k)) then [P0MaintenanceActive] else []))"

end
