(* ===== verification/Kernel.thy ===== *)
theory Kernel
  imports MaintPolicy
begin

text \<open>
  The reconciler (\<open>services/registry/app/maintenance/reconciler.py\<close>). A database session is a pair of
  states: \<open>base\<close> is what is committed, \<open>work\<close> what the session sees; a raised exception rolls back
  to \<open>base\<close>, so an error carries the committed state it leaves. A cognitive activity commits before
  the model is called and fences afterwards; what other sessions do meanwhile is the function
  \<open>in_meanwhile\<close>, and what the model, the test runner and the providers answer are fields of the
  input record. Notifications, knowledge rows and telemetry are left out: they do not touch
  these tables.
\<close>

section \<open>Sessions and inputs\<close>

record ses =
  base :: kstate
  work :: kstate

datatype kernel_error =
    LedgerFailed ledger_error
  | LeaseLost
  | AttributeError
  | DuplicateRow
  | Crashed

record act_result =
  re_ok :: bool
  re_error :: string
  re_output :: json
  re_rescope :: "json option"
  re_cost :: rat
  re_turns :: nat

record finalized =
  fi_changed :: bool
  fi_format_only :: bool
  fi_head_sha :: string
  fi_diff_digest :: string

record verification =
  ve_passed :: bool
  ve_risk :: risk_class
  ve_feedback :: "string list"
  ve_record :: json

record kinput =
  in_worker :: string
  in_dig :: "json \<Rightarrow> string"
  in_model :: bool
  in_utc :: instant
  in_contract :: "string \<Rightarrow> bool option" \<comment> \<open>the registry's contract: whether it allows autonomous repair\<close>
  in_meanwhile :: "activity_kind \<Rightarrow> kstate \<Rightarrow> kstate"
  in_result :: "activity_kind \<Rightarrow> act_result"
  in_plan :: "(string list \<times> string list \<times> risk_class) option" \<comment> \<open>\<open>_make_plan\<close>: files, tests, trusted risk\<close>
  in_workspace_head :: "string option" \<comment> \<open>\<open>None\<close>: opening the workspace raised\<close>
  in_finalized :: "finalized option"
  in_verified :: "verification option"
  in_candidate :: "uid option"
  in_promotion :: "uid option"
  in_fresh_id :: uid
  in_package :: json

type_synonym 'a step = "(kernel_error \<times> kstate) + 'a"

definition fail :: "kernel_error \<Rightarrow> ses \<Rightarrow> 'a step" where
  "fail e s = Inl (e, base s)"

definition need :: "'a option \<Rightarrow> kernel_error \<Rightarrow> ses \<Rightarrow> 'a step" where
  "need x e s = (case x of None \<Rightarrow> fail e s | Some y \<Rightarrow> Inr y)"

definition on_db :: "(kdb \<Rightarrow> kdb) \<Rightarrow> ses \<Rightarrow> ses" where
  "on_db f s = s\<lparr>work := (work s)\<lparr>k_db := f (k_db (work s))\<rparr>\<rparr>"

definition on_case :: "uid \<Rightarrow> (rcase \<Rightarrow> rcase) \<Rightarrow> ses \<Rightarrow> ses" where
  "on_case i f = on_db (set_case i f)"

definition case_now :: "uid \<Rightarrow> ses \<Rightarrow> rcase step" where
  "case_now i s = need (get_case (k_db (work s)) i) AttributeError s"

definition commit :: "ses \<Rightarrow> ses" where
  "commit s = s\<lparr>base := work s\<rparr>"

text \<open>\<open>_fence\<close>: the lease is still ours, under a row lock.\<close>

definition fence :: "string \<Rightarrow> uid \<Rightarrow> ses \<Rightarrow> ses step" where
  "fence w i s = bindE (case_now i s) (\<lambda>c. if rc_lease_owner c = Some w then Inr s else fail LeaseLost s)"

definition move_to ::
  "uid \<Rightarrow> case_state \<Rightarrow> actor \<Rightarrow> string \<Rightarrow> bool \<Rightarrow> instant \<Rightarrow> ses \<Rightarrow> ses step" where
  "move_to i dst a reason resumable now s =
    (case transition i dst a reason resumable 0 now (k_db (work s)) of
       Inl e \<Rightarrow> fail (LedgerFailed e) s
     | Inr d \<Rightarrow> Inr (on_db (\<lambda>_. d) s))"

definition write_artifact :: "kinput \<Rightarrow> uid \<Rightarrow> string \<Rightarrow> json \<Rightarrow> trust_class \<Rightarrow> string \<Rightarrow> nat \<Rightarrow> nat \<Rightarrow> instant \<Rightarrow> ses \<Rightarrow> ses" where
  "write_artifact inp i kind content trust who r n now s =
    on_db (\<lambda>d. fst (record_artifact (in_dig inp) i kind content trust who r n now d)) s"

definition write_evidence :: "kinput \<Rightarrow> uid \<Rightarrow> string \<Rightarrow> string \<Rightarrow> trust_class \<Rightarrow> json \<Rightarrow> instant \<Rightarrow> ses \<Rightarrow> ses step" where
  "write_evidence inp i kind source trust payload now s =
    (case record_evidence (in_dig inp) i kind source trust payload now (k_db (work s)) of
       Inl e \<Rightarrow> fail (LedgerFailed e) s
     | Inr (d, _) \<Rightarrow> Inr (on_db (\<lambda>_. d) s))"

text \<open>\<open>order_by(created_at.desc()).first()\<close>.\<close>

fun newest_artifact :: "artifact list \<Rightarrow> artifact option" where
  "newest_artifact [] = None"
| "newest_artifact (a # as) =
    (case newest_artifact as of None \<Rightarrow> Some a | Some b \<Rightarrow> if ar_at a < ar_at b then Some b else Some a)"

definition latest_artifact :: "uid \<Rightarrow> string \<Rightarrow> nat option \<Rightarrow> nat option \<Rightarrow> ses \<Rightarrow> artifact option" where
  "latest_artifact i kind r n s = newest_artifact (filter (\<lambda>a. ar_case a = i \<and> ar_kind a = kind
     \<and> (r = None \<or> r = Some (ar_plan_rev a)) \<and> (n = None \<or> n = Some (ar_attempt a))) (kd_artifacts (k_db (work s))))"

section \<open>Plans, attempts and activities\<close>

definition plan_of :: "rcase \<Rightarrow> ses \<Rightarrow> plan_row option" where
  "plan_of c s = find (\<lambda>p. pl_case p = rc_id c \<and> pl_rev p = rc_plan_rev c) (k_plans (work s))"

definition attempt_of :: "rcase \<Rightarrow> ses \<Rightarrow> attempt_row option" where
  "attempt_of c s = find (\<lambda>a. at_case a = rc_id c \<and> at_number a = rc_attempts c) (k_attempts (work s))"

definition upd_attempt :: "uid \<Rightarrow> nat \<Rightarrow> (attempt_row \<Rightarrow> attempt_row) \<Rightarrow> ses \<Rightarrow> ses" where
  "upd_attempt i n f s = s\<lparr>work := (work s)\<lparr>k_attempts :=
     map (\<lambda>a. if at_case a = i \<and> at_number a = n then f a else a) (k_attempts (work s))\<rparr>\<rparr>"

definition close_attempt :: "uid \<Rightarrow> nat \<Rightarrow> string \<Rightarrow> ses \<Rightarrow> ses" where
  "close_attempt i n outcome = upd_attempt i n (\<lambda>a. a\<lparr>at_outcome := outcome\<rparr>)"

text \<open>\<open>_new_attempt\<close>: idempotent per attempt number.\<close>

definition new_attempt :: "rcase \<Rightarrow> plan_row option \<Rightarrow> ses \<Rightarrow> ses" where
  "new_attempt c p s =
    (case attempt_of c s of
       Some _ \<Rightarrow> s
     | None \<Rightarrow> s\<lparr>work := (work s)\<lparr>k_attempts := k_attempts (work s) @
         [\<lparr>at_case = rc_id c, at_number = rc_attempts c, at_plan_rev = (case p of None \<Rightarrow> 0 | Some q \<Rightarrow> pl_rev q),
           at_outcome = ''running'', at_head_sha = None\<rparr>]\<rparr>\<rparr>)"

definition store_plan :: "uid \<Rightarrow> nat \<Rightarrow> string list \<times> string list \<times> risk_class \<Rightarrow> ses \<Rightarrow> ses step" where
  "store_plan i r body s =
    (let (files, tests, risk) = body in
     if list_ex (\<lambda>p. pl_case p = i \<and> pl_rev p = r) (k_plans (work s)) then fail DuplicateRow s
     else Inr (on_case i (\<lambda>c. c\<lparr>rc_plan_rev := r\<rparr>) (s\<lparr>work := (work s)\<lparr>k_plans := k_plans (work s) @
       [\<lparr>pl_case = i, pl_rev = r, pl_files = files, pl_tests = tests, pl_risk = risk\<rparr>]\<rparr>\<rparr>)))"

definition activity_tries :: "uid \<Rightarrow> activity_kind \<Rightarrow> nat \<Rightarrow> nat \<Rightarrow> ses \<Rightarrow> nat" where
  "activity_tries i kind r n s =
    count_rows (\<lambda>a. ay_case a = i \<and> ay_kind a = kind \<and> ay_plan_rev a = r \<and> ay_attempt a = n) (k_activities (work s))"

definition upd_activities :: "(activity_row list \<Rightarrow> activity_row list) \<Rightarrow> ses \<Rightarrow> ses" where
  "upd_activities f s = s\<lparr>work := (work s)\<lparr>k_activities := f (k_activities (work s))\<rparr>\<rparr>"

text \<open>
  \<open>_run_activity_sync\<close>: abandon a stale try, record this one, commit, run the model, fence, and
  record the outcome and its cost.
\<close>

definition run_activity :: "kinput \<Rightarrow> uid \<Rightarrow> activity_kind \<Rightarrow> nat \<Rightarrow> nat \<Rightarrow> ses \<Rightarrow> (ses \<times> act_result) step" where
  "run_activity inp i kind r n s =
    (let s1 = upd_activities (upd_where (\<lambda>a. ay_case a = i \<and> ay_status a = ACT_RUNNING) (\<lambda>a. a\<lparr>ay_status := ACT_ABANDONED\<rparr>)) s;
         t = activity_tries i kind r n s1 + 1;
         s2 = upd_activities (\<lambda>as. as @ [\<lparr>ay_case = i, ay_kind = kind, ay_plan_rev = r, ay_attempt = n, ay_try = t,
                ay_status = ACT_RUNNING, ay_cost = 0, ay_started_at = in_utc inp\<rparr>]) s1;
         others = in_meanwhile inp kind (work s2);
         res = in_result inp kind
     in bindE (fence (in_worker inp) i \<lparr>base = others, work = others\<rparr>)
        (\<lambda>s3. Inr (on_case i (\<lambda>c. c\<lparr>rc_cost := rc_cost c + re_cost res, rc_model_calls := rc_model_calls c + re_turns res\<rparr>)
          (upd_activities (upd_where (\<lambda>a. ay_case a = i \<and> ay_kind a = kind \<and> ay_plan_rev a = r \<and> ay_attempt a = n \<and> ay_try a = t)
            (\<lambda>a. a\<lparr>ay_status := (if re_ok res then ACT_SUCCEEDED else ACT_FAILED), ay_cost := re_cost res\<rparr>)) s3), res)))"

definition strings_json :: "string list \<Rightarrow> json" where
  "strings_json xs = JArr (map JStr xs)"

fun kind_value :: "activity_kind \<Rightarrow> string" where
  "kind_value DIAGNOSE_INCIDENT = ''DiagnoseIncident''"
| "kind_value DESIGN_REPAIR = ''DesignRepair''"
| "kind_value AUTHOR_PATCH = ''AuthorPatch''"
| "kind_value REVIEW_PATCH = ''ReviewPatch''"
| "kind_value SECURITY_REVIEW = ''SecurityReview''"
| "kind_value EXPLAIN_ESCALATION = ''ExplainEscalation''"
| "kind_value DRAFT_POSTMORTEM = ''DraftPostmortem''"

definition activity_feedback :: "kinput \<Rightarrow> uid \<Rightarrow> activity_kind \<Rightarrow> string list \<Rightarrow> instant \<Rightarrow> ses \<Rightarrow> ses step" where
  "activity_feedback inp i kind problems now s =
    bindE (case_now i s) (\<lambda>c. Inr (write_artifact inp i ''activity_feedback''
      (JObj [(''activity'', JStr (kind_value kind)), (''problems'', strings_json (take 10 (map (take 300) problems))), (''at'', JInt now)])
      TRUSTED_EXECUTION (in_worker inp) (rc_plan_rev c) (rc_attempts c) now s))"

definition wait :: "uid \<Rightarrow> instant \<Rightarrow> duration option \<Rightarrow> ses \<Rightarrow> ses" where
  "wait i now delay = on_case i (reschedule now delay)"

section \<open>Escalation\<close>

definition explain :: "kinput \<Rightarrow> settings \<Rightarrow> uid \<Rightarrow> ses \<Rightarrow> ses step" where
  "explain inp st i s =
    bindE (case_now i s)
    (\<lambda>c. if \<not> (cognition_enabled st \<and> in_model inp) \<or> rc_lease_owner c \<noteq> Some (in_worker inp)
            \<or> budget_allows st (k_activities (work s)) c (in_utc inp) \<noteq> BudgetOk then Inr s
         else bindE (run_activity inp i EXPLAIN_ESCALATION 0 0 s) (\<lambda>(s', _). Inr s'))"

definition escalate :: "kinput \<Rightarrow> settings \<Rightarrow> uid \<Rightarrow> string \<Rightarrow> actor \<Rightarrow> bool \<Rightarrow> bool \<Rightarrow> instant \<Rightarrow> ses \<Rightarrow> ses step" where
  "escalate inp st i reason a resumable cooldown now s =
    bindE (if a \<noteq> WATCHDOG \<and> reason \<noteq> ''autonomy_disabled'' then explain inp st i s else Inr s)
    (\<lambda>s1. bindE (case_now i s1)
    (\<lambda>c. bindE (move_to i SAFELY_ESCALATED a reason resumable now
        (write_artifact inp i ''escalation_package'' (in_package inp) TRUSTED_DB (in_worker inp) (rc_plan_rev c) (rc_attempts c) now s1))
    (\<lambda>s2. Inr (if cooldown then s2 else on_db (set_incident (rc_incident c) (\<lambda>r. r\<lparr>mi_last_terminal := None\<rparr>)) s2))))"

abbreviation "final \<equiv> False"
abbreviation "by_controller inp st i reason \<equiv> escalate inp st i reason CONTROLLER final True"

definition apply_target :: "kinput \<Rightarrow> settings \<Rightarrow> uid \<Rightarrow> case_state \<Rightarrow> string \<Rightarrow> actor \<Rightarrow> instant \<Rightarrow> ses \<Rightarrow> ses step" where
  "apply_target inp st i target reason a now s =
    (if target = SAFELY_ESCALATED then escalate inp st i reason a final True now s
     else move_to i target a reason final now s)"

text \<open>\<open>_cognition_ok\<close>: whether the step may call the model now; otherwise the case escalates or waits.\<close>

definition budget_reason :: "budget_verdict \<Rightarrow> string" where
  "budget_reason v = (case v of BudgetOk \<Rightarrow> '''' | CaseBudgetExhausted \<Rightarrow> ''case_budget_exhausted''
    | DailyBudgetExhausted \<Rightarrow> ''daily_budget_exhausted'' | RoutineBudgetExhausted \<Rightarrow> ''routine_budget_exhausted'')"

definition budget_wait :: "uid \<Rightarrow> budget_verdict \<Rightarrow> instant \<Rightarrow> ses \<Rightarrow> ses" where
  "budget_wait i v now s =
    wait i now (Some (minutes 15)) (on_case i (merge_facts [(''budget_wait'', JStr (budget_reason v))]) s)"

definition cognition_ok :: "kinput \<Rightarrow> settings \<Rightarrow> uid \<Rightarrow> instant \<Rightarrow> ses \<Rightarrow> (ses \<times> bool) step" where
  "cognition_ok inp st i now s =
    (if \<not> (cognition_enabled st \<and> in_model inp)
     then bindE (by_controller inp st i ''cognition_unavailable'' now s) (\<lambda>s'. Inr (s', False))
     else bindE (case_now i s)
       (\<lambda>c. case budget_allows st (k_activities (work s)) c now of
          BudgetOk \<Rightarrow> Inr (s, True)
        | CaseBudgetExhausted \<Rightarrow> bindE (by_controller inp st i ''case_budget_exhausted'' now s) (\<lambda>s'. Inr (s', False))
        | v \<Rightarrow> Inr (budget_wait i v now s, False)))"

definition activity_outcome ::
  "kinput \<Rightarrow> settings \<Rightarrow> uid \<Rightarrow> act_result \<Rightarrow> activity_kind \<Rightarrow> nat \<Rightarrow> nat \<Rightarrow> instant \<Rightarrow> ses \<Rightarrow> (ses \<times> bool) step" where
  "activity_outcome inp st i res kind r n now s =
    (if re_ok res then Inr (s, True)
     else let tries = activity_tries i kind r n s in
       if tries < activity_max_tries st
       then bindE (activity_feedback inp i kind [re_error res] now
              (wait i now (Some (seconds (if re_error res = ''rate_limit'' then 60 else 20 * int tries))) s)) (\<lambda>s'. Inr (s', False))
       else bindE (escalate inp st i (take 64 (''activity_exhausted:'' @ kind_value kind)) ACTIVITY final True now s)
              (\<lambda>s'. Inr (s', False)))"

text \<open>\<open>_next_attempt_or_rescope\<close>.\<close>

definition next_attempt_or_rescope ::
  "kinput \<Rightarrow> settings \<Rightarrow> uid \<Rightarrow> string \<Rightarrow> string list \<Rightarrow> bool \<Rightarrow> instant \<Rightarrow> ses \<Rightarrow> ses step" where
  "next_attempt_or_rescope inp st i reason feedback from_promoting now s0 =
    bindE (case_now i s0)
    (\<lambda>c. let s = write_artifact inp i ''attempt_feedback'' (JObj [(''attempt'', JInt (int (rc_attempts c))), (''reason'', JStr reason),
             (''feedback'', strings_json (take 20 feedback))]) TRUSTED_EXECUTION (in_worker inp) (rc_plan_rev c) (rc_attempts c) now s0 in
       if rc_attempts c < max_repair_attempts st
       then let c' = c\<lparr>rc_attempts := rc_attempts c + 1\<rparr>;
                s1 = new_attempt c' (plan_of c s) (on_case i (\<lambda>r. r\<lparr>rc_attempts := rc_attempts r + 1\<rparr>) s);
                s2 = (if from_promoting then on_case i (\<lambda>r. r\<lparr>rc_candidate := None, rc_promotion := None\<rparr>) s1 else s1)
            in move_to i BUILDING (if from_promoting then CONTROLLER else ACTIVITY) reason final now s2
       else if rc_plan_rev c < max_plan_revisions st \<and> \<not> from_promoting
       then move_to i NEEDS_RESCOPE CONTROLLER (''attempts_exhausted:'' @ reason) final now s
       else by_controller inp st i (take 64 (''repair_budget_exhausted:'' @ reason)) now s)"

section \<open>Release mirroring\<close>

definition release_of :: "rcase \<Rightarrow> ses \<Rightarrow> release_row option" where
  "release_of c s = (case rc_release c of None \<Rightarrow> None | Some r \<Rightarrow> find (\<lambda>q. rl_id q = r) (k_releases (work s)))"

definition promotion_of :: "rcase \<Rightarrow> ses \<Rightarrow> promotion_row option" where
  "promotion_of c s = (case rc_promotion c of None \<Rightarrow> None | Some p \<Rightarrow> find (\<lambda>q. pm_id q = p) (k_promotions (work s)))"

text \<open>\<open>_mirror_release\<close>: whether the release's own state decided the case.\<close>

definition mirror_release :: "kinput \<Rightarrow> settings \<Rightarrow> uid \<Rightarrow> instant \<Rightarrow> ses \<Rightarrow> (ses \<times> bool) step" where
  "mirror_release inp st i now s =
    bindE (case_now i s)
    (\<lambda>c. case release_of c s of
       None \<Rightarrow> Inr (s, False)
     | Some r \<Rightarrow>
         let did = (\<lambda>x. bindE x (\<lambda>s'. Inr (s', True))) in
         if rl_status r = REL_ROLLED_BACK
         then did (move_to i AUTO_ROLLED_BACK CONTROLLER ''rolled_back_to_known_good'' final now s)
         else if rl_status r = REL_ROLLBACK_FAILED then did (by_controller inp st i ''rollback_failed'' now s)
         else if rl_status r = REL_REFUSED
         then did (by_controller inp st i (''release_refused:'' @ take 40 (case rl_failure r of None \<Rightarrow> [] | Some m \<Rightarrow> m)) now s)
         else if rl_status r = REL_ROLLING_BACK \<and> rc_state c \<noteq> RECOVERY_PENDING
         then did (move_to i RECOVERY_PENDING RELEASE ''post_deploy_regression'' final now s)
         else if (rl_status r = REL_POST_DEPLOY_VERIFYING \<or> rl_status r = REL_SUCCEEDED) \<and> rc_state c = RELEASING
         then did (move_to i POST_RELEASE_VERIFYING RELEASE
           (if rl_status r = REL_SUCCEEDED then ''release_succeeded'' else ''release_post_deploy_verifying'') final now s)
         else Inr (s, False))"

definition recovered :: "incident option \<Rightarrow> bool" where
  "recovered inc \<longleftrightarrow> (case inc of None \<Rightarrow> False | Some r \<Rightarrow> mi_status r = INC_RECOVERED)"

definition release_succeeded :: "rcase \<Rightarrow> ses \<Rightarrow> bool" where
  "release_succeeded c s \<longleftrightarrow> (case release_of c s of None \<Rightarrow> False | Some r \<Rightarrow> rl_status r = REL_SUCCEEDED)"

definition fix_ineffective :: "kinput \<Rightarrow> settings \<Rightarrow> uid \<Rightarrow> incident option \<Rightarrow> instant \<Rightarrow> ses \<Rightarrow> ses step" where
  "fix_ineffective inp st i inc now s =
    (if recovered inc then move_to i AUTO_REPAIRED CONTROLLER ''released_and_recovered_at_deadline'' final now s
     else bindE (case_now i s)
       (\<lambda>c. if max_repair_attempts st \<le> rc_attempts c \<or> max_plan_revisions st \<le> rc_plan_rev c
            then escalate inp st i ''released_fix_ineffective'' WATCHDOG final True now s
            else bindE (write_evidence inp i ''fix_ineffective'' ''maintenance_kernel'' TRUSTED_PROBE
                (JObj [(''release_id'', JInt (case rc_release c of None \<Rightarrow> 0 | Some r \<Rightarrow> int r))]) now s)
              (\<lambda>s1. move_to i DIAGNOSING WATCHDOG ''released_fix_ineffective'' final now
                (on_case i (\<lambda>r. r\<lparr>rc_release := None, rc_candidate := None, rc_promotion := None\<rparr>) s1))))"

section \<open>The state handlers\<close>

definition self_confirming :: "string \<Rightarrow> bool" where
  "self_confirming src \<longleftrightarrow> src \<in> {''maintenance_kernel'', ''maintenance_watchdog'', ''ci'', ''database_invariant'', ''release_controller''}"

definition confirmed :: "settings \<Rightarrow> incident \<Rightarrow> instant \<Rightarrow> bool" where
  "confirmed st r now \<longleftrightarrow> now - mi_last_observed r \<le> seconds (confirm_window_seconds st) \<and>
    (2 \<le> mi_observations r \<or> self_confirming (mi_source r))"

definition h_detected :: "kinput \<Rightarrow> settings \<Rightarrow> uid \<Rightarrow> incident option \<Rightarrow> instant \<Rightarrow> ses \<Rightarrow> ses step" where
  "h_detected inp st i inc now s =
    (case inc of
       None \<Rightarrow> move_to i CANNOT_REPRODUCE CONTROLLER ''incident_not_open'' final now s
     | Some r \<Rightarrow>
         if mi_status r \<noteq> INC_OPEN then move_to i CANNOT_REPRODUCE CONTROLLER ''incident_not_open'' final now s
         else if confirmed st r now
         then bindE (write_evidence inp i ''confirmation'' (mi_source r) TRUSTED_PROBE
                (JObj [(''observations'', JInt (int (mi_observations r))), (''evidence_digest'', JStr (mi_digest r))]) now s)
              (\<lambda>s1. move_to i CONFIRMED CONTROLLER ''violation_confirmed'' final now s1)
         else Inr (wait i now None s))"

definition default_contract :: "incident_class \<Rightarrow> string" where
  "default_contract c = (case c of ACCESSIBILITY \<Rightarrow> ''browser_experience'' | PERFORMANCE \<Rightarrow> ''performance_budgets''
    | ECONOMIC_INVARIANT \<Rightarrow> ''economic_invariants'' | DATA_INVARIANT \<Rightarrow> ''economic_invariants''
    | SECURITY \<Rightarrow> ''security_invariants'' | DEPENDENCY \<Rightarrow> ''dependency_posture'' | A2A \<Rightarrow> ''a2a'' | AUTH \<Rightarrow> ''human_auth''
    | _ \<Rightarrow> ''public_surface'')"

definition contract_id :: "incident \<Rightarrow> string" where
  "contract_id r = (case jget (mi_provenance r) ''contract'' of
     Some (JStr c) \<Rightarrow> if c = [] then default_contract (mi_class r) else c | _ \<Rightarrow> default_contract (mi_class r))"

definition runtime_failure :: "incident \<Rightarrow> bool" where
  "runtime_failure r \<longleftrightarrow> jget (mi_provenance r) ''failure'' \<in> {Some (JStr ''unreachable''), Some (JStr ''timeout'')}"

text \<open>The lanes that never produce a code patch; \<open>None\<close> is the repair lane.\<close>

definition triage_lane :: "kinput \<Rightarrow> settings \<Rightarrow> incident \<Rightarrow> string option" where
  "triage_lane inp st r =
    (if mi_class r = ECONOMIC_INVARIANT \<or> mi_class r = DATA_INVARIANT then Some ''data_invariant''
     else if mi_class r = EXTERNAL_DEPENDENCY then Some ''external_dependency''
     else if mi_class r = CONTROL_PLANE then Some ''control_plane_defect''
     else if mi_class r = AVAILABILITY \<and> runtime_failure r then Some ''runtime_unavailable''
     else if in_contract inp (contract_id r) = Some False then Some (''contract_not_autonomous:'' @ contract_id r)
     else if \<not> (cognition_enabled st \<and> in_model inp) then Some ''cognition_unavailable''
     else None)"

definition h_confirmed :: "kinput \<Rightarrow> settings \<Rightarrow> uid \<Rightarrow> incident option \<Rightarrow> instant \<Rightarrow> ses \<Rightarrow> ses step" where
  "h_confirmed inp st i inc now s =
    bindE (need inc AttributeError s)
    (\<lambda>r. bindE (case_now i s)
    (\<lambda>c. case triage_lane inp st r of
       Some reason \<Rightarrow>
         by_controller inp st i reason now
           (if reason = ''data_invariant'' then on_db (ensure_incident_freeze (in_fresh_id inp) r now) s else s)
     | None \<Rightarrow>
         if \<not> has_capacity st (kd_cases (k_db (work s))) (rc_priority c) (Some i)
         then Inr (wait i now None (on_case i (merge_facts [(''queued_at'',
            case jget (rc_facts c) ''queued_at'' of Some q \<Rightarrow> q | None \<Rightarrow> JInt now)]) s))
         else (case budget_allows st (k_activities (work s)) c now of
            BudgetOk \<Rightarrow> move_to i TRIAGED CONTROLLER ''triaged_repair_lane'' final now s
          | CaseBudgetExhausted \<Rightarrow> by_controller inp st i ''case_budget_exhausted'' now s
          | v \<Rightarrow> Inr (budget_wait i v now s))))"

definition h_triaged :: "kinput \<Rightarrow> settings \<Rightarrow> uid \<Rightarrow> incident option \<Rightarrow> instant \<Rightarrow> ses \<Rightarrow> ses step" where
  "h_triaged inp st i inc now s = move_to i DIAGNOSING CONTROLLER ''diagnosis_scheduled'' final now s"

text \<open>\<open>DesignRepair\<close> and the stored plan, shared by diagnosis and re-scope.\<close>

definition design_plan ::
  "kinput \<Rightarrow> settings \<Rightarrow> uid \<Rightarrow> nat \<Rightarrow> (rcase \<Rightarrow> rcase) \<Rightarrow> string \<Rightarrow> instant \<Rightarrow> ses \<Rightarrow> ses step" where
  "design_plan inp st i r f reason now s =
    bindE (run_activity inp i DESIGN_REPAIR r 0 s)
    (\<lambda>(s1, res). bindE (activity_outcome inp st i res DESIGN_REPAIR r 0 now s1)
    (\<lambda>(s2, good). if \<not> good then Inr s2
       else (case in_plan inp of
          None \<Rightarrow> bindE (activity_feedback inp i DESIGN_REPAIR [''plan rejected''] now s2) (\<lambda>s3. Inr (wait i now None s3))
        | Some body \<Rightarrow> bindE (store_plan i r body s2) (\<lambda>s3. move_to i PLAN_READY ACTIVITY reason final now (on_case i f s3)))))"

definition h_diagnosing :: "kinput \<Rightarrow> settings \<Rightarrow> uid \<Rightarrow> incident option \<Rightarrow> instant \<Rightarrow> ses \<Rightarrow> ses step" where
  "h_diagnosing inp st i inc now s =
    bindE (cognition_ok inp st i now s)
    (\<lambda>(s1, go). if \<not> go then Inr s1 else
     bindE (need inc AttributeError s1)
     (\<lambda>_. bindE (case_now i s1)
     (\<lambda>c. let r = rc_plan_rev c + 1 in
       bindE (if latest_artifact i ''diagnosis'' (Some r) None s1 \<noteq> None then Inr (s1, True)
          else bindE (run_activity inp i DIAGNOSE_INCIDENT r 0 s1)
            (\<lambda>(s2, res). bindE (activity_outcome inp st i res DIAGNOSE_INCIDENT r 0 now s2)
            (\<lambda>(s3, good). Inr (if good then write_artifact inp i ''diagnosis'' (re_output res) MODEL_HYPOTHESIS
                ''activity:DiagnoseIncident'' r 0 now s3 else s3, good))))
       (\<lambda>(s4, diagnosed). if \<not> diagnosed then Inr s4
          else design_plan inp st i r (\<lambda>q. q) (''plan_r'' @ show_nat r @ ''_ready'') now s4))))"

definition note_escalation :: "uid \<Rightarrow> risk_class \<Rightarrow> string \<times> json \<Rightarrow> rcase \<Rightarrow> ses \<Rightarrow> ses" where
  "note_escalation i risk extra c s =
    (case rc_risk c of
       None \<Rightarrow> s
     | Some r \<Rightarrow>
         if escalates (rc_risk c) risk then on_case i (merge_facts [(''risk_escalations'',
           JArr ((case jget (rc_facts c) ''risk_escalations'' of Some (JArr xs) \<Rightarrow> xs | _ \<Rightarrow> []) @
             [JObj [(''from'', JStr (risk_value r)), (''to'', JStr (risk_value risk)), extra]]))]) s
         else s)"

definition h_plan_ready :: "kinput \<Rightarrow> settings \<Rightarrow> uid \<Rightarrow> incident option \<Rightarrow> instant \<Rightarrow> ses \<Rightarrow> ses step" where
  "h_plan_ready inp st i inc now s =
    bindE (case_now i s)
    (\<lambda>c. case plan_of c s of
       None \<Rightarrow> by_controller inp st i ''plan_missing'' now s
     | Some p \<Rightarrow>
         if pl_risk p = CONSTITUTIONAL
         then move_to i POLICY_REFUSED CONTROLLER ''plan_scope_constitutional'' final now s
         else let s1 = note_escalation i (pl_risk p) (''plan_revision'', JInt (int (pl_rev p))) c s;
                  c' = c\<lparr>rc_attempts := rc_attempts c + 1\<rparr>;
                  s2 = on_case i (\<lambda>q. q\<lparr>rc_risk := Some (pl_risk p), rc_attempts := rc_attempts q + 1\<rparr>) s1
              in move_to i BUILDING CONTROLLER (''build_attempt_'' @ show_nat (rc_attempts c')) final now (new_attempt c' (Some p) s2))"

definition rescope_reason :: "json \<Rightarrow> string" where
  "rescope_reason req = (case req of JObj kvs \<Rightarrow> (case jget kvs ''reason'' of Some (JStr r) \<Rightarrow> r | _ \<Rightarrow> []) | _ \<Rightarrow> [])"

definition h_building :: "kinput \<Rightarrow> settings \<Rightarrow> uid \<Rightarrow> incident option \<Rightarrow> instant \<Rightarrow> ses \<Rightarrow> ses step" where
  "h_building inp st i inc now s =
    bindE (cognition_ok inp st i now s)
    (\<lambda>(s1, go). if \<not> go then Inr s1 else
     bindE (case_now i s1)
     (\<lambda>c. case (plan_of c s1, attempt_of c s1) of
        (Some p, Some a) \<Rightarrow>
          bindE (need (in_workspace_head inp) Crashed s1)
          (\<lambda>_. bindE (need inc AttributeError s1)
          (\<lambda>_. bindE (run_activity inp i AUTHOR_PATCH (pl_rev p) (at_number a) s1)
          (\<lambda>(s2, res).
            if \<not> re_ok res
            then if activity_tries i AUTHOR_PATCH (pl_rev p) (at_number a) s2 < activity_max_tries st
                 then bindE (activity_feedback inp i AUTHOR_PATCH [re_error res] now s2)
                        (\<lambda>s3. Inr (wait i now (Some (seconds 30)) s3))
                 else next_attempt_or_rescope inp st i (''author_patch_'' @ re_error res) [re_error res] False now
                        (close_attempt i (at_number a) ''failed'' s2)
            else (case re_rescope res of
               Some req \<Rightarrow>
                 move_to i NEEDS_RESCOPE ACTIVITY (''builder:'' @ rescope_reason req) final now
                   (write_artifact inp i ''rescope_request'' req MODEL_HYPOTHESIS ''activity:AuthorPatch'' (pl_rev p) (at_number a) now
                     (close_attempt i (at_number a) ''needs_rescope'' s2))
             | None \<Rightarrow>
                 bindE (need (in_finalized inp) Crashed s2)
                 (\<lambda>fin. if \<not> fi_changed fin \<or> fi_format_only fin
                    then next_attempt_or_rescope inp st i ''empty_patch'' [''the submitted attempt changed nothing substantive'']
                           False now (close_attempt i (at_number a) ''failed'' s2)
                    else move_to i VERIFYING ACTIVITY ''patch_ready'' final now
                      (on_case i (\<lambda>q. q\<lparr>rc_head_sha := Some (fi_head_sha fin), rc_base_sha := in_workspace_head inp\<rparr>)
                        (write_artifact inp i ''patchset'' (JObj [(''head_sha'', JStr (fi_head_sha fin)), (''diff_digest'', JStr (fi_diff_digest fin))])
                          TRUSTED_EXECUTION ''harness'' (pl_rev p) (at_number a) now
                          (upd_attempt i (at_number a) (\<lambda>q. q\<lparr>at_outcome := ''patch_ready'', at_head_sha := Some (fi_head_sha fin)\<rparr>) s2))))))))
      | _ \<Rightarrow> by_controller inp st i ''attempt_state_missing'' now s1))"

text \<open>The verdict of a model review: \<open>pass\<close> and no high or critical finding.\<close>

fun severe :: "json \<Rightarrow> bool" where
  "severe (JObj kvs) = (jget kvs ''severity'' = Some (JStr ''high'') \<or> jget kvs ''severity'' = Some (JStr ''critical''))"
| "severe _ = False"

fun review_passes :: "json \<Rightarrow> bool" where
  "review_passes (JObj kvs) = (jget kvs ''verdict'' = Some (JStr ''pass'') \<and>
    (case jget kvs ''findings'' of Some (JArr xs) \<Rightarrow> \<not> list_ex severe xs | _ \<Rightarrow> True))"
| "review_passes _ = False"

definition review_kind :: "activity_kind \<Rightarrow> string" where
  "review_kind k = (if k = SECURITY_REVIEW then ''security_review'' else ''patch_review'')"

text \<open>
  One model review of the verified patch: an earlier verdict for this attempt is reused. The result
  says whether the loop goes on to the next review; otherwise the case has been moved or waits.
\<close>

definition review_verdict ::
  "kinput \<Rightarrow> settings \<Rightarrow> uid \<Rightarrow> nat \<Rightarrow> nat \<Rightarrow> activity_kind \<Rightarrow> instant \<Rightarrow> ses \<Rightarrow> (ses \<times> json option) step" where
  "review_verdict inp st i r n kind now s =
    (case latest_artifact i (review_kind kind) (Some r) (Some n) s of
       Some a \<Rightarrow> Inr (s, Some (ar_content a))
     | None \<Rightarrow>
         bindE (cognition_ok inp st i now s)
         (\<lambda>(s1, go). if \<not> go then Inr (s1, None)
            else bindE (run_activity inp i kind r n s1)
              (\<lambda>(s2, res). bindE (activity_outcome inp st i res kind r n now s2)
              (\<lambda>(s3, good). if \<not> good then Inr (s3, None)
                 else Inr (write_artifact inp i (review_kind kind) (re_output res) MODEL_HYPOTHESIS
                   (''activity:'' @ kind_value kind) r n now s3, Some (re_output res))))))"

definition review ::
  "kinput \<Rightarrow> settings \<Rightarrow> uid \<Rightarrow> nat \<Rightarrow> nat \<Rightarrow> activity_kind \<Rightarrow> instant \<Rightarrow> ses \<Rightarrow> (ses \<times> bool) step" where
  "review inp st i r n kind now s =
    bindE (review_verdict inp st i r n kind now s)
    (\<lambda>(s4, out). case out of
        None \<Rightarrow> Inr (s4, False)
      | Some v \<Rightarrow> if review_passes v then Inr (s4, True)
          else bindE (next_attempt_or_rescope inp st i (kind_value kind @ ''_failed'') [kind_value kind] False now
                 (close_attempt i n ''rejected'' s4)) (\<lambda>s5. Inr (s5, False)))"

definition h_verifying :: "kinput \<Rightarrow> settings \<Rightarrow> uid \<Rightarrow> incident option \<Rightarrow> instant \<Rightarrow> ses \<Rightarrow> ses step" where
  "h_verifying inp st i inc now s =
    bindE (case_now i s)
    (\<lambda>c. bindE (need (attempt_of c s) AttributeError s)
    (\<lambda>a. bindE (need (in_workspace_head inp) Crashed s)
    (\<lambda>head. if at_head_sha a \<noteq> Some head
       then next_attempt_or_rescope inp st i ''attempt_head_moved''
              [''the attempt worktree no longer holds the verified head''] False now s
       else bindE (need (plan_of c s) AttributeError s)
       (\<lambda>p. bindE (need (in_verified inp) Crashed s)
       (\<lambda>v. let n = at_number a;
                s1 = write_artifact inp i ''verification'' (ve_record v) TRUSTED_EXECUTION ''qa:deterministic'' (pl_rev p) n now s in
         if ve_risk v = CONSTITUTIONAL
         then move_to i POLICY_REFUSED CONTROLLER ''patch_constitutional'' final now (close_attempt i n ''rejected'' s1)
         else if \<not> ve_passed v
         then next_attempt_or_rescope inp st i ''qa_failed'' (ve_feedback v) False now (close_attempt i n ''rejected'' s1)
         else bindE (need inc AttributeError s1)
         (\<lambda>_. bindE (review inp st i (pl_rev p) n REVIEW_PATCH now s1)
         (\<lambda>(s2, on1). if \<not> on1 then Inr s2 else
          bindE (review inp st i (pl_rev p) n SECURITY_REVIEW now s2)
          (\<lambda>(s3, on2). if \<not> on2 then Inr s3 else
           bindE (case_now i s3)
           (\<lambda>c3. let risk = (case rc_risk c3 of None \<Rightarrow> ve_risk v | Some q \<Rightarrow> risk_max q (ve_risk v));
                    s4 = close_attempt i n ''verified'' (on_case i (\<lambda>q. q\<lparr>rc_risk := Some risk\<rparr>) (note_escalation i (ve_risk v) (''at'', JStr ''verification'') c3 s3)) in
             bindE (need (in_candidate inp) Crashed s4)
             (\<lambda>cand. let s5 = on_case i (\<lambda>q. q\<lparr>rc_candidate := Some cand\<rparr>) s4 in
               if \<not> green_promotion_enabled st
               then escalate inp st i ''promotion_disabled'' CONTROLLER True True now s5
               else bindE (need (in_promotion inp) Crashed s5)
                 (\<lambda>promo. move_to i PROMOTING CONTROLLER ''verified_promotion_requested'' final now
                   (on_case i (\<lambda>q. q\<lparr>rc_promotion := Some promo\<rparr>) s5))))))))))))"

definition h_needs_rescope :: "kinput \<Rightarrow> settings \<Rightarrow> uid \<Rightarrow> incident option \<Rightarrow> instant \<Rightarrow> ses \<Rightarrow> ses step" where
  "h_needs_rescope inp st i inc now s =
    bindE (case_now i s)
    (\<lambda>c. if max_plan_revisions st \<le> rc_plan_rev c then by_controller inp st i ''plan_revisions_exhausted'' now s
       else bindE (cognition_ok inp st i now s)
       (\<lambda>(s1, go). if \<not> go then Inr s1 else
         bindE (need (plan_of c s1) AttributeError s1)
         (\<lambda>_. bindE (need inc AttributeError s1)
         (\<lambda>_. design_plan inp st i (rc_plan_rev c + 1) (\<lambda>q. q\<lparr>rc_rescopes := rc_rescopes q + 1\<rparr>)
              (''rescoped_to_r'' @ show_nat (rc_plan_rev c + 1)) now s1))))"

definition promotion_failed :: "promotion_row \<Rightarrow> bool" where
  "promotion_failed p \<longleftrightarrow> pm_status p = PM_REJECTED \<or> pm_status p = PM_CI_FAILED \<or>
    pm_status p = PM_SUPERSEDED \<and> \<not> pm_base_reconcile_pending p"

definition post_ci :: "promotion_row \<Rightarrow> bool" where
  "post_ci p \<longleftrightarrow> pm_status p \<in> {PM_CI_PASSED, PM_AWAITING_APPROVAL, PM_MERGE_ELIGIBLE}"

definition merged_sha_of :: "promotion_row \<Rightarrow> string" where
  "merged_sha_of p = (case pm_merged_sha p of Some m \<Rightarrow> if m = [] then pm_candidate_sha p else m | None \<Rightarrow> pm_candidate_sha p)"

definition h_promoting :: "kinput \<Rightarrow> settings \<Rightarrow> uid \<Rightarrow> incident option \<Rightarrow> instant \<Rightarrow> ses \<Rightarrow> ses step" where
  "h_promoting inp st i inc now s =
    bindE (case_now i s)
    (\<lambda>c. case promotion_of c s of
       None \<Rightarrow> by_controller inp st i ''promotion_missing'' now s
     | Some p \<Rightarrow>
         if rc_candidate c = None then by_controller inp st i ''promotion_missing'' now s
         else if pm_status p = PM_MERGED
         then bindE (write_evidence inp i ''merged_to_main'' ''promotion_controller'' TRUSTED_PROVIDER
                (JObj [(''promotion_id'', JInt (int (pm_id p))), (''merged_sha'', JStr (merged_sha_of p))]) now s)
              (\<lambda>s1. move_to i READY_FOR_RELEASE CONTROLLER ''merged_to_main'' final now
                (on_case i (\<lambda>q. q\<lparr>rc_merged_sha := Some (merged_sha_of p)\<rparr>) s1))
         else if promotion_failed p
         then bindE (write_evidence inp i ''promotion_failed'' ''promotion_controller'' TRUSTED_PROVIDER
                (JObj [(''promotion_id'', JInt (int (pm_id p))), (''status'', JStr (promotion_value (pm_status p)))]) now s)
              (\<lambda>s1. next_attempt_or_rescope inp st i (''promotion_'' @ promotion_value (pm_status p))
                [''promotion '' @ promotion_value (pm_status p)] True now s1)
         else if post_ci p \<and> rc_risk c \<noteq> Some MAINTENANCE_GREEN
         then escalate inp st i ''owner_approval_required'' CONTROLLER True True now s
         else if post_ci p \<and> pm_human_required p \<and> \<not> pm_auto_merge p
         then escalate inp st i ''owner_approval_required'' CONTROLLER True True now s
         else
           let s1 = (if post_ci p \<and> pm_merge_freeze p \<noteq> []
                     then on_case i (merge_facts [(''merge_freeze'', strings_json (take 10 (pm_merge_freeze p)))]) s else s) in
           if pm_status p = PM_BLOCKED_EXTERNAL
           then escalate inp st i ''promotion_provider_unavailable'' CONTROLLER True True now s1
           else Inr (wait i now None s1))"

text \<open>
  A release row is refused by the unique indexes when one exists for the case and commit, or any
  release is in flight, and by \<open>NOT NULL\<close> when there is no merged commit.
\<close>

definition new_release :: "uid \<Rightarrow> rcase \<Rightarrow> risk_class \<Rightarrow> string \<Rightarrow> instant \<Rightarrow> release_row" where
  "new_release r c risk sha now =
    \<lparr>rl_id = r, rl_case = rc_id c, rl_incident = rc_incident c, rl_status = REL_PENDING, rl_risk = risk, rl_head_sha = sha,
     rl_failure = None, rl_next = now, rl_deadline = now + hours 3\<rparr>"

definition insert_release :: "uid \<Rightarrow> rcase \<Rightarrow> risk_class \<Rightarrow> instant \<Rightarrow> ses \<Rightarrow> (ses \<times> release_row) option" where
  "insert_release r c risk now s =
    (case rc_merged_sha c of
       None \<Rightarrow> None
     | Some sha \<Rightarrow>
         if list_ex (\<lambda>q. \<not> release_terminal (rl_status q) \<or> rl_id q = r) (k_releases (work s)) then None
         else let q = new_release r c risk sha now in
           Some (s\<lparr>work := (work s)\<lparr>k_releases := k_releases (work s) @ [q]\<rparr>\<rparr>, q))"

definition h_ready_for_release :: "kinput \<Rightarrow> settings \<Rightarrow> uid \<Rightarrow> incident option \<Rightarrow> instant \<Rightarrow> ses \<Rightarrow> ses step" where
  "h_ready_for_release inp st i inc now s =
    bindE (case_now i s)
    (\<lambda>c. let risk = (case rc_risk c of None \<Rightarrow> RED | Some q \<Rightarrow> q);
              approved = (case jget (rc_facts c) ''owner_approval'' of None \<Rightarrow> False | Some j \<Rightarrow> json_truthy j) in
       if risk = RED \<or> risk = CONSTITUTIONAL \<or> risk = AMBER \<and> \<not> approved
       then by_controller inp st i ''release_requires_owner'' now s
       else if \<not> green_release_enabled st then escalate inp st i ''release_disabled'' CONTROLLER True True now s
       else
         (case find (\<lambda>q. rl_case q = i \<and> Some (rl_head_sha q) = rc_merged_sha c) (k_releases (work s)) of
            Some q \<Rightarrow> move_to i RELEASING CONTROLLER ''attested_for_release'' final now
                        (on_case i (\<lambda>x. x\<lparr>rc_release := Some (rl_id q)\<rparr>) s)
          | None \<Rightarrow>
              (case insert_release (in_fresh_id inp) c risk now s of
                 None \<Rightarrow> Inr (wait i now (Some (minutes 2))
                           (on_case i (merge_facts [(''release_wait'', JStr ''another maintenance release is in flight'')]) s))
               | Some (s1, q) \<Rightarrow> move_to i RELEASING CONTROLLER ''attested_for_release'' final now
                           (on_case i (\<lambda>x. x\<lparr>rc_release := Some (rl_id q)\<rparr>) s1))))"

definition h_releasing :: "kinput \<Rightarrow> settings \<Rightarrow> uid \<Rightarrow> incident option \<Rightarrow> instant \<Rightarrow> ses \<Rightarrow> ses step" where
  "h_releasing inp st i inc now s =
    bindE (mirror_release inp st i now s) (\<lambda>(s1, decided). Inr (if decided then s1 else wait i now None s1))"

definition h_post_release_verifying :: "kinput \<Rightarrow> settings \<Rightarrow> uid \<Rightarrow> incident option \<Rightarrow> instant \<Rightarrow> ses \<Rightarrow> ses step" where
  "h_post_release_verifying inp st i inc now s =
    bindE (mirror_release inp st i now s)
    (\<lambda>(s1, decided). if decided then Inr s1 else
      bindE (case_now i s1)
      (\<lambda>c. if release_succeeded c s1 \<and> recovered inc
           then move_to i AUTO_REPAIRED CONTROLLER ''released_and_recovered'' final now s1
           else Inr (wait i now None s1)))"

definition h_recovery_pending :: "kinput \<Rightarrow> settings \<Rightarrow> uid \<Rightarrow> incident option \<Rightarrow> instant \<Rightarrow> ses \<Rightarrow> ses step" where
  "h_recovery_pending = h_releasing"

text \<open>\<open>getattr(self, "_h_" + state)\<close>; a terminal state has no handler.\<close>

definition handler :: "case_state \<Rightarrow> kinput \<Rightarrow> settings \<Rightarrow> uid \<Rightarrow> incident option \<Rightarrow> instant \<Rightarrow> ses \<Rightarrow> ses step" where
  "handler s = (case s of
      DETECTED \<Rightarrow> h_detected | CONFIRMED \<Rightarrow> h_confirmed | TRIAGED \<Rightarrow> h_triaged | DIAGNOSING \<Rightarrow> h_diagnosing
    | PLAN_READY \<Rightarrow> h_plan_ready | BUILDING \<Rightarrow> h_building | VERIFYING \<Rightarrow> h_verifying | NEEDS_RESCOPE \<Rightarrow> h_needs_rescope
    | PROMOTING \<Rightarrow> h_promoting | READY_FOR_RELEASE \<Rightarrow> h_ready_for_release | RELEASING \<Rightarrow> h_releasing
    | POST_RELEASE_VERIFYING \<Rightarrow> h_post_release_verifying | RECOVERY_PENDING \<Rightarrow> h_recovery_pending
    | _ \<Rightarrow> (\<lambda>_ _ _ _ _ s. fail AttributeError s))"

section \<open>The step of a claimed case\<close>

fun state_value :: "case_state \<Rightarrow> string" where
  "state_value DETECTED = ''DETECTED''"
| "state_value CONFIRMED = ''CONFIRMED''"
| "state_value TRIAGED = ''TRIAGED''"
| "state_value DIAGNOSING = ''DIAGNOSING''"
| "state_value PLAN_READY = ''PLAN_READY''"
| "state_value BUILDING = ''BUILDING''"
| "state_value VERIFYING = ''VERIFYING''"
| "state_value NEEDS_RESCOPE = ''NEEDS_RESCOPE''"
| "state_value PROMOTING = ''PROMOTING''"
| "state_value READY_FOR_RELEASE = ''READY_FOR_RELEASE''"
| "state_value RELEASING = ''RELEASING''"
| "state_value POST_RELEASE_VERIFYING = ''POST_RELEASE_VERIFYING''"
| "state_value RECOVERY_PENDING = ''RECOVERY_PENDING''"
| "state_value AUTO_REPAIRED = ''AUTO_REPAIRED''"
| "state_value AUTO_ROLLED_BACK = ''AUTO_ROLLED_BACK''"
| "state_value SAFELY_ESCALATED = ''SAFELY_ESCALATED''"
| "state_value CANNOT_REPRODUCE = ''CANNOT_REPRODUCE''"
| "state_value DUPLICATE_RESOLVED = ''DUPLICATE_RESOLVED''"
| "state_value POLICY_REFUSED = ''POLICY_REFUSED''"

definition on_deadline :: "kinput \<Rightarrow> settings \<Rightarrow> uid \<Rightarrow> incident option \<Rightarrow> case_state \<Rightarrow> instant \<Rightarrow> ses \<Rightarrow> ses step" where
  "on_deadline inp st i inc state now s =
    bindE (if state \<in> {RELEASING, POST_RELEASE_VERIFYING, RECOVERY_PENDING} then mirror_release inp st i now s else Inr (s, False))
    (\<lambda>(s1, decided). if decided then Inr s1 else
      bindE (case_now i s1)
      (\<lambda>c. if state = POST_RELEASE_VERIFYING \<and> release_succeeded c s1 \<and> recovered inc
           then move_to i AUTO_REPAIRED CONTROLLER ''released_and_recovered'' final now s1
           else if state = BUILDING
           then next_attempt_or_rescope inp st i ''deadline:BUILDING'' [''attempt exceeded its deadline''] False now s1
           else if state = POST_RELEASE_VERIFYING then fix_ineffective inp st i inc now s1
           else if state = DETECTED \<and> (case inc of None \<Rightarrow> False | Some r \<Rightarrow> mi_status r = INC_OPEN \<and> confirmed st r now)
           then move_to i CONFIRMED CONTROLLER ''confirmed_at_deadline'' final now s1
           else apply_target inp st i (sp_on_deadline (spec_of state)) (''deadline:'' @ state_value state) WATCHDOG now s1))"

definition step_case :: "kinput \<Rightarrow> settings \<Rightarrow> uid \<Rightarrow> instant \<Rightarrow> ses \<Rightarrow> ses step" where
  "step_case inp st i now s0 =
    bindE (case_now i s0)
    (\<lambda>c0. let state = rc_state c0; sp = spec_of state; inc = get_incident (k_db (work s0)) (rc_incident c0);
              s = on_case i (\<lambda>c. c\<lparr>rc_tries := rc_tries c + 1\<rparr>) s0; tries = rc_tries c0 + 1 in
      if (case rc_deadline c0 of None \<Rightarrow> False | Some d \<Rightarrow> d \<le> now) then on_deadline inp st i inc state now s
      else if sp_max_tries sp < tries
      then apply_target inp st i (sp_on_exhausted sp) (''tries_exhausted:'' @ state_value state) WATCHDOG now s
      else if recovered inc \<and> pre_merge state
      then move_to i CANNOT_REPRODUCE CONTROLLER ''recovered_before_repair'' final now s
      else if (pre_merge state \<or> state = PROMOTING) \<and> rc_case_deadline c0 \<le> now
      then escalate inp st i ''case_wall_clock_exhausted'' WATCHDOG final True now s
      else handler state inp st i inc now s)"

text \<open>
  \<open>_process\<close> returns what is committed at the end: the step's work with the lease released, the
  state other sessions left when the lease was lost, or the rolled-back state after \<open>_backoff\<close>.
\<close>

definition drop_lease :: "rcase \<Rightarrow> rcase" where
  "drop_lease c = c\<lparr>rc_lease_owner := None, rc_lease_until := None\<rparr>"

definition backoff_delay :: "nat \<Rightarrow> duration" where
  "backoff_delay tries = seconds (min 900 (30 * 2 ^ min tries 5))"

definition retry_later :: "instant \<Rightarrow> rcase \<Rightarrow> rcase" where
  "retry_later now c =
    (if is_terminal (rc_state c) then c else reschedule now (Some (backoff_delay (rc_tries c))) c)"

definition backoff :: "string \<Rightarrow> uid \<Rightarrow> instant \<Rightarrow> kstate \<Rightarrow> kstate" where
  "backoff w i now k =
    (case get_case (k_db k) i of
       None \<Rightarrow> k
     | Some c \<Rightarrow>
         if rc_lease_owner c \<noteq> Some w then k
         else k\<lparr>k_db := set_case i (\<lambda>q. retry_later now (drop_lease (q\<lparr>rc_tries := rc_tries q + 1\<rparr>))) (k_db k)\<rparr>)"

definition step_and_fence :: "kinput \<Rightarrow> settings \<Rightarrow> uid \<Rightarrow> instant \<Rightarrow> kstate \<Rightarrow> ses step" where
  "step_and_fence inp st i now k =
    bindE (fence (in_worker inp) i \<lparr>base = k, work = k\<rparr>)
    (\<lambda>s. bindE (step_case inp st i now s)
    (\<lambda>s1. bindE (fence (in_worker inp) i s1)
    (\<lambda>s2. Inr (commit (on_case i drop_lease s2)))))"

definition process :: "kinput \<Rightarrow> settings \<Rightarrow> uid \<Rightarrow> instant \<Rightarrow> kstate \<Rightarrow> kstate" where
  "process inp st i now k =
    (case step_and_fence inp st i now k of
       Inr s \<Rightarrow> base s
     | Inl (LeaseLost, k') \<Rightarrow> k'
     | Inl (_, k') \<Rightarrow> backoff (in_worker inp) i now k')"

end
