(* ===== verification/Reconcile.thy ===== *)
theory Reconcile
  imports Kernel
begin

text \<open>
  The reconciliation cycle around the step of a claimed case (\<open>reconciler.py\<close>): heartbeat and
  downtime, opening cases, the kill switch, claiming, the resume sweep and the stall detector; and
  the decisions of the owner (\<open>owner.py\<close>). Rows that other transactions have locked are skipped by
  \<open>SKIP LOCKED\<close>; they are the list \<open>locked\<close>.
\<close>

section \<open>Heartbeat and downtime\<close>

definition downtime_grace :: duration where
  "downtime_grace = minutes 5"

text \<open>The kernel's heartbeat row: the previous beat is returned.\<close>

definition heartbeat :: "instant \<Rightarrow> kstate \<Rightarrow> kstate \<times> instant option" where
  "heartbeat now k = (k\<lparr>k_beat := Some now\<rparr>, k_beat k)"

definition shift_case :: "duration \<Rightarrow> rcase \<Rightarrow> rcase" where
  "shift_case gap c = (if is_terminal (rc_state c) then c
     else c\<lparr>rc_deadline := map_option (\<lambda>d. d + gap) (rc_deadline c), rc_case_deadline := rc_case_deadline c + gap\<rparr>)"

definition shift_deadlines_for_downtime :: "instant option \<Rightarrow> instant \<Rightarrow> kstate \<Rightarrow> kstate" where
  "shift_deadlines_for_downtime prev now k =
    (case prev of
       None \<Rightarrow> k
     | Some p \<Rightarrow>
         if now - p \<le> downtime_grace then k
         else k\<lparr>k_db := (k_db k)\<lparr>kd_cases := map (shift_case (now - p)) (kd_cases (k_db k))\<rparr>\<rparr>)"

definition observation_retention :: duration where
  "observation_retention = days 30"

fun delete_first :: "nat \<Rightarrow> ('r \<Rightarrow> bool) \<Rightarrow> 'r list \<Rightarrow> 'r list" where
  "delete_first n p [] = []"
| "delete_first n p (x # xs) =
    (if p x then (case n of 0 \<Rightarrow> x # xs | Suc m \<Rightarrow> delete_first m p xs) else x # delete_first n p xs)"

definition housekeeping :: "instant \<Rightarrow> kstate \<Rightarrow> kstate" where
  "housekeeping now k = k\<lparr>k_db := (k_db k)\<lparr>kd_observations :=
     delete_first 5000 (\<lambda>o'. ob_at o' < now - observation_retention \<and> ob_incident o' = None) (kd_observations (k_db k))\<rparr>\<rparr>"

section \<open>Opening cases\<close>

fun open_each :: "(nat \<Rightarrow> uid) \<Rightarrow> int \<Rightarrow> instant \<Rightarrow> incident list \<Rightarrow> kdb \<Rightarrow> kdb" where
  "open_each fresh max_hours now [] d = d"
| "open_each fresh max_hours now (r # rs) d =
    open_each (\<lambda>n. fresh (Suc n)) max_hours now rs (fst (open_case (fresh 0) r max_hours now d))"

definition open_cases :: "(nat \<Rightarrow> uid) \<Rightarrow> settings \<Rightarrow> instant \<Rightarrow> kstate \<Rightarrow> kstate" where
  "open_cases fresh st now k = k\<lparr>k_db := open_each fresh (case_max_hours st) now
     (open_incidents_without_case (k_db k) (case_reopen_cooldown_hours st) (max_cases_per_incident st) 20 now) (k_db k)\<rparr>"

section \<open>Claiming a case\<close>

definition lease_free :: "instant \<Rightarrow> rcase \<Rightarrow> bool" where
  "lease_free now c \<longleftrightarrow> (case rc_lease_until c of None \<Rightarrow> True | Some u \<Rightarrow> u < now)"

definition reached :: "instant option \<Rightarrow> instant \<Rightarrow> bool" where
  "reached t now \<longleftrightarrow> (case t of None \<Rightarrow> False | Some u \<Rightarrow> u \<le> now)"

definition due :: "instant \<Rightarrow> rcase \<Rightarrow> bool" where
  "due now c \<longleftrightarrow> \<not> is_terminal (rc_state c) \<and> (reached (rc_next c) now \<or> reached (rc_deadline c) now) \<and> lease_free now c"

text \<open>\<open>ORDER BY priority, next_action_at LIMIT 1\<close>; a missing time sorts last.\<close>

definition no_later :: "instant option \<Rightarrow> instant option \<Rightarrow> bool" where
  "no_later t u \<longleftrightarrow> (case u of None \<Rightarrow> True | Some u' \<Rightarrow> (case t of None \<Rightarrow> False | Some t' \<Rightarrow> t' \<le> u'))"

definition goes_first :: "rcase \<Rightarrow> rcase \<Rightarrow> bool" where
  "goes_first c c' \<longleftrightarrow> priority_rank (rc_priority c) < priority_rank (rc_priority c') \<or>
    rc_priority c = rc_priority c' \<and> no_later (rc_next c) (rc_next c')"

fun first_case :: "rcase list \<Rightarrow> rcase option" where
  "first_case [] = None"
| "first_case (c # cs) = (case first_case cs of None \<Rightarrow> Some c | Some b \<Rightarrow> if goes_first c b then Some c else Some b)"

definition lease_to :: "string \<Rightarrow> instant \<Rightarrow> rcase \<Rightarrow> rcase" where
  "lease_to w until c = c\<lparr>rc_lease_owner := Some w, rc_lease_until := Some until\<rparr>"

definition claim :: "string \<Rightarrow> settings \<Rightarrow> instant \<Rightarrow> uid list \<Rightarrow> kstate \<Rightarrow> kstate \<times> uid option" where
  "claim w st now locked k =
    (case first_case (filter (\<lambda>c. due now c \<and> rc_id c \<notin> set locked) (kd_cases (k_db k))) of
       None \<Rightarrow> (k, None)
     | Some c \<Rightarrow> (k\<lparr>k_db := set_case (rc_id c) (lease_to w (now + seconds (lease_seconds st))) (k_db k)\<rparr>, Some (rc_id c)))"

section \<open>The kill switch\<close>

definition mid_release :: "case_state \<Rightarrow> bool" where
  "mid_release s \<longleftrightarrow> s \<in> {RELEASING, POST_RELEASE_VERIFYING, RECOVERY_PENDING}"

definition pause_one :: "kinput \<Rightarrow> settings \<Rightarrow> instant \<Rightarrow> uid \<Rightarrow> ses \<Rightarrow> ses step" where
  "pause_one inp st now i s =
    bindE (case_now i s)
    (\<lambda>c. if mid_release (rc_state c) then bindE (mirror_release inp st i now s) (\<lambda>(s', _). Inr s')
         else if (case rc_lease_until c of None \<Rightarrow> False | Some u \<Rightarrow> now < u) then Inr s
         else escalate inp st i ''autonomy_disabled'' CONTROLLER final False now s)"

text \<open>One exception rolls the whole pass back.\<close>

definition pause_for_kill_switch :: "kinput \<Rightarrow> settings \<Rightarrow> instant \<Rightarrow> uid list \<Rightarrow> kstate \<Rightarrow> kstate" where
  "pause_for_kill_switch inp st now locked k =
    (case foldE (pause_one inp st now)
        (map rc_id (filter (\<lambda>c. \<not> is_terminal (rc_state c) \<and> rc_id c \<notin> set locked) (kd_cases (k_db k))))
        \<lparr>base = k, work = k\<rparr> of
       Inl (_, k') \<Rightarrow> k'
     | Inr s \<Rightarrow> work s)"

section \<open>The resume sweep\<close>

definition awaits_owner :: "rcase \<Rightarrow> bool" where
  "awaits_owner c \<longleftrightarrow> rc_state c = SAFELY_ESCALATED \<and> rc_resumable c \<and> rc_terminal_reason c = Some ''owner_approval_required''"

definition owner_approval :: "promotion_row \<Rightarrow> instant \<Rightarrow> json" where
  "owner_approval p now = JObj [(''kind'', JStr ''owner_merged_pr''), (''promotion_id'', JInt (int (pm_id p))),
     (''merged_sha'', case pm_merged_sha p of None \<Rightarrow> JNull | Some m \<Rightarrow> JStr m), (''observed_at'', JInt now)]"

definition resume_one :: "instant \<Rightarrow> uid \<Rightarrow> ses \<Rightarrow> ses step" where
  "resume_one now i s =
    bindE (case_now i s)
    (\<lambda>c. case promotion_of c s of
       None \<Rightarrow> Inr s
     | Some p \<Rightarrow>
         if pm_status p \<noteq> PM_MERGED then Inr s
         else move_to i READY_FOR_RELEASE OWNER ''owner_approved_merge'' final now
           (on_case i (\<lambda>q. (merge_facts [(''owner_approval'', owner_approval p now)] q)\<lparr>rc_merged_sha := Some (merged_sha_of p)\<rparr>) s))"

definition resume_sweep :: "instant \<Rightarrow> uid list \<Rightarrow> kstate \<Rightarrow> kstate" where
  "resume_sweep now locked k =
    (case foldE (resume_one now)
        (map rc_id (take 20 (filter (\<lambda>c. awaits_owner c \<and> rc_id c \<notin> set locked) (kd_cases (k_db k)))))
        \<lparr>base = k, work = k\<rparr> of
       Inl _ \<Rightarrow> k
     | Inr s \<Rightarrow> work s)"

section \<open>The stall detector\<close>

definition stranded :: "instant \<Rightarrow> int \<Rightarrow> rcase \<Rightarrow> bool" where
  "stranded now stall c \<longleftrightarrow> \<not> is_terminal (rc_state c) \<and> lease_free now c \<and>
    (case rc_next c of None \<Rightarrow> True | Some n \<Rightarrow> n < now - seconds stall)"

definition stranded_count :: "kdb \<Rightarrow> instant \<Rightarrow> int \<Rightarrow> nat" where
  "stranded_count d now stall = count_rows (stranded now stall) (kd_cases d)"

definition stall_violation :: "settings \<Rightarrow> nat \<Rightarrow> violation" where
  "stall_violation st n = \<lparr>vi_target = st_target st, vi_class = CONTROL_PLANE, vi_ref = ''kernel:case_liveness'',
     vi_failure = ''control_plane_stall'', vi_severity = MAJOR, vi_base = P1, vi_source = ''maintenance_watchdog'',
     vi_sli = ''maintenance_liveness'', vi_path = None, vi_trust = TRUSTED_DB,
     vi_payload = [(''stranded_cases'', JInt (int n))]\<rparr>"

definition stall_check ::
  "(string \<Rightarrow> string) \<Rightarrow> (json \<Rightarrow> string) \<Rightarrow> uid \<Rightarrow> uid \<Rightarrow> settings \<Rightarrow> instant \<Rightarrow> kstate \<Rightarrow> kstate" where
  "stall_check sha dig new_id freeze_id st now k =
    (let n = stranded_count (k_db k) now (stall_seconds st) in
     if n = 0 then k\<lparr>k_db := fst (observe_healthy dig (recovery_streak st) (st_target st) ''kernel:case_liveness''
          ''maintenance_liveness'' ''maintenance_watchdog'' now False (k_db k))\<rparr>
     else (case ingest_violation sha dig new_id freeze_id None (stall_violation st n) now (k_db k) of
        Inl _ \<Rightarrow> k
      | Inr (d, _, _) \<Rightarrow> k\<lparr>k_db := d\<rparr>))"

section \<open>The cycle\<close>

text \<open>
  The inputs of one cycle: identities for new rows, the rows locked by others in each pass, and the
  inputs of each processed case.
\<close>

record cycle_input =
  cy_sha :: "string \<Rightarrow> string"
  cy_fresh :: "nat \<Rightarrow> uid"
  cy_locked :: "uid list"
  cy_step :: "nat \<Rightarrow> kinput"
  cy_new_incident :: uid
  cy_freeze :: uid

fun work_through :: "(nat \<Rightarrow> kinput) \<Rightarrow> settings \<Rightarrow> uid list \<Rightarrow> instant \<Rightarrow> nat \<Rightarrow> kstate \<Rightarrow> kstate" where
  "work_through inp st locked now 0 k = k"
| "work_through inp st locked now (Suc n) k =
    (case claim (in_worker (inp n)) st now locked k of
       (k', None) \<Rightarrow> k'
     | (k', Some i) \<Rightarrow> work_through inp st locked now n (process (inp n) st i now k'))"

definition stall_pass :: "cycle_input \<Rightarrow> settings \<Rightarrow> instant \<Rightarrow> kstate \<Rightarrow> kstate" where
  "stall_pass cy st now = stall_check (cy_sha cy) (in_dig (cy_step cy 0)) (cy_new_incident cy) (cy_freeze cy) st now"

definition reconcile :: "cycle_input \<Rightarrow> settings \<Rightarrow> instant \<Rightarrow> kstate \<Rightarrow> kstate" where
  "reconcile cy st now k0 =
    (let (k1, prev) = heartbeat now k0;
         k2 = shift_deadlines_for_downtime prev now k1
     in if \<not> autonomy_enabled st
        then stall_pass cy st now (pause_for_kill_switch (cy_step cy 0) st now (cy_locked cy) k2)
        else housekeeping now (stall_pass cy st now
               (work_through (cy_step cy) st (cy_locked cy) now (reconcile_batch st)
                 (resume_sweep now (cy_locked cy) (open_cases (cy_fresh cy) st now k2)))))"

section \<open>Owner decisions\<close>

definition resume_target :: "string \<Rightarrow> case_state option" where
  "resume_target = map_of [(''promotion_disabled'', PROMOTING), (''promotion_provider_unavailable'', PROMOTING),
     (''release_disabled'', READY_FOR_RELEASE)]"

datatype owner_error = NotResumable | ResumesByEvidence string | NoReadyCandidate | MoveRefused ledger_error

text \<open>\<open>terminal_reason.split(":")[0]\<close>.\<close>

definition reason_head :: "rcase \<Rightarrow> string" where
  "reason_head c = takeWhile (\<lambda>x. x \<noteq> CHR '':'') (case rc_terminal_reason c of None \<Rightarrow> [] | Some r \<Rightarrow> r)"

text \<open>\<open>new_promotion\<close> is what requesting a promotion of the case's candidate returns.\<close>

definition owner_resume :: "string \<Rightarrow> string \<Rightarrow> uid \<Rightarrow> uid \<Rightarrow> instant \<Rightarrow> kdb \<Rightarrow> owner_error + kdb" where
  "owner_resume owner note new_promotion i now d =
    bindE (needE (get_case d i) (MoveRefused NoSuchCase))
    (\<lambda>c. bindE (guardE (rc_state c = SAFELY_ESCALATED \<and> rc_resumable c) NotResumable)
    (\<lambda>_. bindE (needE (resume_target (reason_head c)) (ResumesByEvidence (reason_head c)))
    (\<lambda>target.
      let detail = JObj [(''owner'', JStr owner), (''note'', JStr (take 300 note)), (''resumed_from'', JStr (reason_head c))] in
      bindE (if target = PROMOTING \<and> rc_promotion c = None
             then bindE (needE (rc_candidate c) NoReadyCandidate)
               (\<lambda>_. Inr (set_case i (\<lambda>q. q\<lparr>rc_promotion := Some new_promotion\<rparr>) d))
             else Inr d)
      (\<lambda>d1. mapE MoveRefused (transition i target OWNER (take 64 (''owner_resume:'' @ reason_head c)) False 0 now
         (if target = READY_FOR_RELEASE then set_case i (merge_facts [(''owner_release_resume'', detail)]) d1 else d1))))))"

definition owner_refuse :: "uid \<Rightarrow> kdb \<Rightarrow> owner_error + kdb" where
  "owner_refuse i d =
    bindE (needE (get_case d i) (MoveRefused NoSuchCase))
    (\<lambda>c. bindE (guardE (rc_state c = SAFELY_ESCALATED \<and> rc_resumable c) NotResumable)
    (\<lambda>_. Inr (set_case i (\<lambda>q. q\<lparr>rc_resumable := False\<rparr>) d)))"

end
