(* ===== verification/KernelLaws.thy ===== *)
theory KernelLaws
  imports Reconcile
begin

text \<open>
  The interface between the maintenance kernel and an invariant of its database: locale
  \<open>session_laws\<close> lists the row writes a step can make, and shows once that every handler, and with
  them \<open>process\<close>, keeps any invariant that these writes keep; \<open>cycle_laws\<close> adds the writes of the
  surrounding cycle. Each invariant of the theory \<open>KernelProps\<close> is an interpretation.
\<close>

section \<open>A calculus of steps\<close>

text \<open>
  \<open>keeps B I f x\<close>: if the step \<open>x\<close> fails, the committed state satisfies \<open>B\<close>; if it succeeds, the
  committed state of the session that \<open>f\<close> finds in its result satisfies \<open>B\<close> and the working state \<open>I\<close>.
\<close>

definition safe :: "(kstate \<Rightarrow> bool) \<Rightarrow> (kstate \<Rightarrow> bool) \<Rightarrow> ses \<Rightarrow> bool" where
  "safe B I s \<longleftrightarrow> B (base s) \<and> I (work s)"

definition keeps :: "(kstate \<Rightarrow> bool) \<Rightarrow> (kstate \<Rightarrow> bool) \<Rightarrow> ('a \<Rightarrow> ses) \<Rightarrow> 'a step \<Rightarrow> bool" where
  "keeps B I f x \<longleftrightarrow> (case x of Inl e \<Rightarrow> B (snd e) | Inr y \<Rightarrow> safe B I (f y))"

named_theorems keeps_rules \<open>structural rules for steps\<close>

lemma keeps_Inr [keeps_rules]: "safe B I (f y) \<Longrightarrow> keeps B I f (Inr y)"
  by (simp add: keeps_def)

lemma keeps_fail [keeps_rules]: "safe B I s \<Longrightarrow> keeps B I f (fail e s)"
  by (simp add: keeps_def fail_def safe_def)

lemma keepsD: "keeps B I f x \<Longrightarrow> x = Inl e \<Longrightarrow> B (snd e)" "keeps B I f x \<Longrightarrow> x = Inr y \<Longrightarrow> safe B I (f y)"
  by (simp_all add: keeps_def)

lemma keeps_bind:
  "keeps B I g x \<Longrightarrow> (\<And>y. safe B I (g y) \<Longrightarrow> keeps B I f (h y)) \<Longrightarrow> keeps B I f (bindE x h)"
  by (cases x) (simp_all add: keeps_def)

lemma keeps_bind_ses [keeps_rules]:
  "keeps B I (\<lambda>s. s) x \<Longrightarrow> (\<And>s. safe B I s \<Longrightarrow> keeps B I f (h s)) \<Longrightarrow> keeps B I f (bindE x h)"
  by (rule keeps_bind)

lemma keeps_bind_pair [keeps_rules]:
  "keeps B I fst x \<Longrightarrow> (\<And>s b. safe B I s \<Longrightarrow> keeps B I f (h s b)) \<Longrightarrow> keeps B I f (bindE x (\<lambda>(s, b). h s b))"
  by (rule keeps_bind [where g = fst]) auto

lemma keeps_need [keeps_rules]:
  "safe B I s \<Longrightarrow> (\<And>y. keeps B I f (h y)) \<Longrightarrow> keeps B I f (bindE (need x e s) h)"
  by (cases x) (auto simp: need_def keeps_fail keeps_def bindE_def fail_def safe_def split: sum.splits)

lemma keeps_case_now [keeps_rules]:
  "safe B I s \<Longrightarrow> (\<And>c. keeps B I f (h c)) \<Longrightarrow> keeps B I f (bindE (case_now i s) h)"
  unfolding case_now_def by (rule keeps_need)

lemma keeps_if [keeps_rules]:
  "(b \<Longrightarrow> keeps B I f x) \<Longrightarrow> (\<not> b \<Longrightarrow> keeps B I f y) \<Longrightarrow> keeps B I f (if b then x else y)"
  by simp

lemma keeps_option [keeps_rules]:
  "(z = None \<Longrightarrow> keeps B I f x) \<Longrightarrow> (\<And>v. z = Some v \<Longrightarrow> keeps B I f (g v)) \<Longrightarrow> keeps B I f (case z of None \<Rightarrow> x | Some v \<Rightarrow> g v)"
  by (cases z) auto

lemma keeps_let [keeps_rules]: "keeps B I f (h x) \<Longrightarrow> keeps B I f (Let x h)"
  by (simp add: Let_def)

lemma keeps_prod [keeps_rules]: "(\<And>a b. p = (a, b) \<Longrightarrow> keeps B I f (h a b)) \<Longrightarrow> keeps B I f (case p of (a, b) \<Rightarrow> h a b)"
  by (cases p) auto

lemma keeps_verdict [keeps_rules]:
  "keeps B I f a \<Longrightarrow> keeps B I f b \<Longrightarrow> keeps B I f c \<Longrightarrow> keeps B I f d \<Longrightarrow>
    keeps B I f (case v of BudgetOk \<Rightarrow> a | CaseBudgetExhausted \<Rightarrow> b | DailyBudgetExhausted \<Rightarrow> c | RoutineBudgetExhausted \<Rightarrow> d)"
  by (cases v) auto

lemma safe_if [keeps_rules]: "(b \<Longrightarrow> safe B I s) \<Longrightarrow> (\<not> b \<Longrightarrow> safe B I t) \<Longrightarrow> safe B I (if b then s else t)"
  by simp

lemma safe_fst [keeps_rules]: "safe B I s \<Longrightarrow> safe B I (fst (s, b))"
  by simp

lemma safe_fst_if [keeps_rules]: "(b \<Longrightarrow> safe B I (fst p)) \<Longrightarrow> (\<not> b \<Longrightarrow> safe B I (fst q)) \<Longrightarrow> safe B I (fst (if b then p else q))"
  by simp

text \<open>Changes of a case row that keep what the constraints and the audit trail look at.\<close>

definition harmless :: "(rcase \<Rightarrow> rcase) \<Rightarrow> bool" where
  "harmless f \<longleftrightarrow> (\<forall>c. same_shape f c \<and> (row_ok c \<longrightarrow> row_ok (f c)))"

named_theorems harmless_rules \<open>harmless changes of a case\<close>

lemma harmless_facts [harmless_rules]: "harmless (merge_facts fs)"
  by (simp add: harmless_def same_shape_def row_ok_def merge_facts_def)

lemma harmless_reschedule [harmless_rules]: "harmless (reschedule now d)"
  using reschedule_row_ok by (auto simp: harmless_def same_shape_def reschedule_def)

lemma harmless_fields [harmless_rules]:
  "harmless (\<lambda>c. c\<lparr>rc_tries := t c\<rparr>)" "harmless (\<lambda>c. c\<lparr>rc_plan_rev := r\<rparr>)" "harmless (\<lambda>c. c\<lparr>rc_attempts := n c\<rparr>)"
  "harmless (\<lambda>c. c\<lparr>rc_rescopes := n c\<rparr>)" "harmless (\<lambda>c. c\<lparr>rc_risk := q\<rparr>)"
  "harmless (\<lambda>c. c\<lparr>rc_risk := q, rc_attempts := n c\<rparr>)" "harmless (\<lambda>c. c\<lparr>rc_cost := x c, rc_model_calls := n c\<rparr>)"
  "harmless (\<lambda>c. c\<lparr>rc_candidate := u, rc_promotion := v\<rparr>)" "harmless (\<lambda>c. c\<lparr>rc_candidate := u\<rparr>)" "harmless (\<lambda>c. c\<lparr>rc_promotion := u\<rparr>)"
  "harmless (\<lambda>c. c\<lparr>rc_release := w, rc_candidate := u, rc_promotion := v\<rparr>)" "harmless (\<lambda>c. c\<lparr>rc_release := u\<rparr>)"
  "harmless (\<lambda>c. c\<lparr>rc_head_sha := h, rc_base_sha := b\<rparr>)" "harmless (\<lambda>c. c\<lparr>rc_merged_sha := m\<rparr>)" "harmless drop_lease"
  "harmless (lease_to o' u')" "harmless (\<lambda>c. c)"
  by (simp_all add: harmless_def same_shape_def row_ok_def drop_lease_def lease_to_def)

lemma harmless_comp: "harmless f \<Longrightarrow> harmless g \<Longrightarrow> harmless (\<lambda>c. f (g c))"
  by (auto simp: harmless_def same_shape_def)

lemma harmlessI: "(\<And>c. same_shape f c) \<Longrightarrow> (\<And>c. row_ok c \<Longrightarrow> row_ok (f c)) \<Longrightarrow> harmless f"
  by (simp add: harmless_def)

lemma harmlessD: "harmless f \<Longrightarrow> same_shape f c" "harmless f \<Longrightarrow> row_ok c \<Longrightarrow> row_ok (f c)"
  by (simp_all add: harmless_def)

lemma harmless_case: "harmless f \<Longrightarrow> (\<And>n. harmless (g n)) \<Longrightarrow> harmless (\<lambda>c. if p c then f c else g (n c) c)"
  by (rule harmlessI) (use harmlessD in \<open>auto simp: same_shape_def\<close>)

lemma harmless_backoff [harmless_rules]: "harmless (\<lambda>q. retry_later now (drop_lease (q\<lparr>rc_tries := rc_tries q + 1\<rparr>)))"
proof -
  have r: "harmless (retry_later now)"
    unfolding retry_later_def
    by (rule harmless_case [where f = "\<lambda>c. c" and g = "\<lambda>n. reschedule now (Some (backoff_delay n))" and n = rc_tries])
       (rule harmless_rules)+
  have d: "harmless (\<lambda>q. drop_lease (q\<lparr>rc_tries := rc_tries q + 1\<rparr>))"
    by (rule harmless_comp [where f = drop_lease and g = "\<lambda>q. q\<lparr>rc_tries := rc_tries q + 1\<rparr>"]) (rule harmless_rules)+
  show ?thesis by (rule harmless_comp [OF r d])
qed

section \<open>The laws of a session\<close>

text \<open>\<open>I\<close> holds of what a session sees, \<open>B\<close> of what is committed while its step runs.\<close>

locale session_laws =
  fixes B :: "kstate \<Rightarrow> bool" and I :: "kstate \<Rightarrow> bool"
  assumes change: "I k \<Longrightarrow> harmless f \<Longrightarrow> I (k\<lparr>k_db := set_case i f (k_db k)\<rparr>)"
    and move: "I k \<Longrightarrow> transition i dst a reason r dl now (k_db k) = Inr d \<Longrightarrow> I (k\<lparr>k_db := d\<rparr>)"
    and unstamp: "I k \<Longrightarrow> I (k\<lparr>k_db := set_incident j (\<lambda>q. q\<lparr>mi_last_terminal := None\<rparr>) (k_db k)\<rparr>)"
    and freezing: "I k \<Longrightarrow> I (k\<lparr>k_db := ensure_incident_freeze z q now (k_db k)\<rparr>)"
    and artifacts: "I k \<Longrightarrow> I (k\<lparr>k_db := fst (record_artifact dig i kind content trust who pr n now (k_db k))\<rparr>)"
    and evidences: "I k \<Longrightarrow> record_evidence dig i kind src trust payload now (k_db k) = Inr (d, e) \<Longrightarrow> I (k\<lparr>k_db := d\<rparr>)"
    and plans: "I k \<Longrightarrow> I (k\<lparr>k_plans := k_plans k @ [p]\<rparr>)"
    and attempts: "I k \<Longrightarrow> I (k\<lparr>k_attempts := as\<rparr>)"
    and activities: "I k \<Longrightarrow> I (k\<lparr>k_activities := ays\<rparr>)"
    and releases: "I k \<Longrightarrow> list_all (\<lambda>q. release_terminal (rl_status q)) (k_releases k) \<Longrightarrow>
      risk \<noteq> RED \<Longrightarrow> risk \<noteq> CONSTITUTIONAL \<Longrightarrow> I (k\<lparr>k_releases := k_releases k @ [new_release u c risk sha now]\<rparr>)"
begin

definition rely :: "kinput \<Rightarrow> bool" where
  "rely inp \<longleftrightarrow> (\<forall>kind k. I k \<longrightarrow> B (in_meanwhile inp kind k) \<and> I (in_meanwhile inp kind k))"

text \<open>Sessions.\<close>

lemma safe_case: "safe B I s \<Longrightarrow> harmless f \<Longrightarrow> safe B I (on_case i f s)"
  using change by (simp add: safe_def on_case_def on_db_def)

lemma safe_artifact: "safe B I s \<Longrightarrow> safe B I (write_artifact inp i kind content trust who r n now s)"
  using artifacts by (simp add: safe_def write_artifact_def on_db_def)

lemma safe_freeze: "safe B I s \<Longrightarrow> safe B I (on_db (ensure_incident_freeze z q now) s)"
  using freezing by (simp add: safe_def on_db_def)

lemma safe_unstamp: "safe B I s \<Longrightarrow> safe B I (on_db (set_incident j (\<lambda>q. q\<lparr>mi_last_terminal := None\<rparr>)) s)"
  using unstamp by (simp add: safe_def on_db_def)

lemma safe_attempts: "safe B I s \<Longrightarrow> safe B I (upd_attempt i n f s)" "safe B I s \<Longrightarrow> safe B I (close_attempt i n out s)"
  "safe B I s \<Longrightarrow> safe B I (new_attempt c p s)"
  using attempts by (simp_all add: safe_def upd_attempt_def close_attempt_def new_attempt_def split: option.split)

lemma safe_activities: "safe B I s \<Longrightarrow> safe B I (upd_activities f s)"
  using activities by (simp add: safe_def upd_activities_def)

lemma safe_wait: "safe B I s \<Longrightarrow> safe B I (wait i now d s)"
  unfolding wait_def by (intro safe_case harmless_rules)

lemma safe_budget_wait: "safe B I s \<Longrightarrow> safe B I (budget_wait i v now s)"
  unfolding budget_wait_def by (intro safe_case safe_wait harmless_rules)

lemma safe_note: "safe B I s \<Longrightarrow> safe B I (note_escalation i risk x c s)"
  unfolding note_escalation_def by (auto intro: safe_case harmless_rules split: option.split)

lemmas safes = safe_case safe_artifact safe_freeze safe_unstamp safe_attempts safe_activities safe_wait
  safe_budget_wait safe_note harmless_rules

text \<open>Steps.\<close>

lemma keeps_fence: "safe B I s \<Longrightarrow> keeps B I (\<lambda>s. s) (fence w i s)"
  unfolding fence_def by (intro keeps_rules)

lemma keeps_move: "safe B I s \<Longrightarrow> keeps B I (\<lambda>s. s) (move_to i dst a reason r now s)"
  using move by (auto simp: move_to_def keeps_def fail_def safe_def on_db_def split: sum.split)

lemma keeps_evidence: "safe B I s \<Longrightarrow> keeps B I (\<lambda>s. s) (write_evidence inp i kind src trust payload now s)"
  using evidences by (auto simp: write_evidence_def keeps_def fail_def safe_def on_db_def split: sum.split)

lemma keeps_store_plan: "safe B I s \<Longrightarrow> keeps B I (\<lambda>s. s) (store_plan i r body s)"
proof -
  assume s: "safe B I s"
  then have "safe B I (s\<lparr>work := (work s)\<lparr>k_plans := k_plans (work s) @ [p]\<rparr>\<rparr>)" for p
    using plans by (simp add: safe_def)
  with s show ?thesis unfolding store_plan_def by (intro keeps_rules safes) auto
qed

lemma keeps_activity:
  assumes "rely inp" and "safe B I s"
  shows "keeps B I fst (run_activity inp i kind r n s)"
proof -
  have others: "safe B I \<lparr>base = in_meanwhile inp kind (work s'), work = in_meanwhile inp kind (work s')\<rparr>" if "safe B I s'" for s'
    using that assms(1) by (simp add: safe_def rely_def)
  show ?thesis
    unfolding run_activity_def by (intro keeps_rules keeps_fence others safes assms(2))
qed

lemma keeps_feedback: "safe B I s \<Longrightarrow> keeps B I (\<lambda>s. s) (activity_feedback inp i kind ps now s)"
  unfolding activity_feedback_def by (intro keeps_rules safes)

lemma keeps_explain: "rely inp \<Longrightarrow> safe B I s \<Longrightarrow> keeps B I (\<lambda>s. s) (explain inp st i s)"
  unfolding explain_def by (intro keeps_rules keeps_activity safes)

lemma keeps_escalate: "rely inp \<Longrightarrow> safe B I s \<Longrightarrow> keeps B I (\<lambda>s. s) (escalate inp st i reason a r cd now s)"
  unfolding escalate_def by (intro keeps_rules keeps_explain keeps_move safes)

lemma keeps_target: "rely inp \<Longrightarrow> safe B I s \<Longrightarrow> keeps B I (\<lambda>s. s) (apply_target inp st i t reason a now s)"
  unfolding apply_target_def by (intro keeps_rules keeps_escalate keeps_move)

lemmas keeps_steps = keeps_rules keeps_fence keeps_move keeps_evidence keeps_store_plan keeps_activity keeps_feedback
  keeps_escalate keeps_target safes

lemma keeps_cognition: "rely inp \<Longrightarrow> safe B I s \<Longrightarrow> keeps B I fst (cognition_ok inp st i now s)"
  unfolding cognition_ok_def by (intro keeps_steps)

lemma keeps_outcome: "rely inp \<Longrightarrow> safe B I s \<Longrightarrow> keeps B I fst (activity_outcome inp st i res kind r n now s)"
  unfolding activity_outcome_def by (intro keeps_steps)

lemma keeps_next_attempt: "rely inp \<Longrightarrow> safe B I s \<Longrightarrow> keeps B I (\<lambda>s. s) (next_attempt_or_rescope inp st i reason fb fp now s)"
  unfolding next_attempt_or_rescope_def by (intro keeps_steps)

lemma keeps_mirror: "rely inp \<Longrightarrow> safe B I s \<Longrightarrow> keeps B I fst (mirror_release inp st i now s)"
  unfolding mirror_release_def by (intro keeps_steps)

lemma keeps_ineffective: "rely inp \<Longrightarrow> safe B I s \<Longrightarrow> keeps B I (\<lambda>s. s) (fix_ineffective inp st i inc now s)"
  unfolding fix_ineffective_def by (intro keeps_steps)

lemma keeps_design: "rely inp \<Longrightarrow> safe B I s \<Longrightarrow> harmless f \<Longrightarrow> keeps B I (\<lambda>s. s) (design_plan inp st i r f reason now s)"
  unfolding design_plan_def by (intro keeps_steps keeps_outcome)

lemmas keeps_all = keeps_steps keeps_cognition keeps_outcome keeps_next_attempt keeps_mirror keeps_ineffective keeps_design

lemma keeps_detected: "rely inp \<Longrightarrow> safe B I s \<Longrightarrow> keeps B I (\<lambda>s. s) (h_detected inp st i inc now s)"
  unfolding h_detected_def by (intro keeps_all)

lemma keeps_confirmed: "rely inp \<Longrightarrow> safe B I s \<Longrightarrow> keeps B I (\<lambda>s. s) (h_confirmed inp st i inc now s)"
  unfolding h_confirmed_def by (intro keeps_all)

lemma keeps_diagnosing: "rely inp \<Longrightarrow> safe B I s \<Longrightarrow> keeps B I (\<lambda>s. s) (h_diagnosing inp st i inc now s)"
  unfolding h_diagnosing_def by (intro keeps_all)

lemma keeps_plan_ready: "rely inp \<Longrightarrow> safe B I s \<Longrightarrow> keeps B I (\<lambda>s. s) (h_plan_ready inp st i inc now s)"
  unfolding h_plan_ready_def by (intro keeps_all)

lemma keeps_building: "rely inp \<Longrightarrow> safe B I s \<Longrightarrow> keeps B I (\<lambda>s. s) (h_building inp st i inc now s)"
  unfolding h_building_def by (intro keeps_all)

lemma keeps_review: "rely inp \<Longrightarrow> safe B I s \<Longrightarrow> keeps B I fst (review inp st i r n kind now s)"
  unfolding review_def review_verdict_def by (intro keeps_all)

lemma keeps_verifying: "rely inp \<Longrightarrow> safe B I s \<Longrightarrow> keeps B I (\<lambda>s. s) (h_verifying inp st i inc now s)"
  unfolding h_verifying_def by (intro keeps_all keeps_review)

lemma keeps_rescope: "rely inp \<Longrightarrow> safe B I s \<Longrightarrow> keeps B I (\<lambda>s. s) (h_needs_rescope inp st i inc now s)"
  unfolding h_needs_rescope_def by (intro keeps_all)

lemma keeps_promoting: "rely inp \<Longrightarrow> safe B I s \<Longrightarrow> keeps B I (\<lambda>s. s) (h_promoting inp st i inc now s)"
  unfolding h_promoting_def by (intro keeps_all)

lemma keeps_releasing: "rely inp \<Longrightarrow> safe B I s \<Longrightarrow> keeps B I (\<lambda>s. s) (h_releasing inp st i inc now s)"
  unfolding h_releasing_def by (intro keeps_all)

lemma keeps_verifying_release: "rely inp \<Longrightarrow> safe B I s \<Longrightarrow> keeps B I (\<lambda>s. s) (h_post_release_verifying inp st i inc now s)"
  unfolding h_post_release_verifying_def by (intro keeps_all)

lemma keeps_ready:
  assumes "rely inp" and s: "safe B I s"
  shows "keeps B I (\<lambda>s. s) (h_ready_for_release inp st i inc now s)"
proof -
  have ins: "safe B I s'" if "insert_release u c risk now s = Some (s', q)" "\<not> (risk = RED \<or> risk = CONSTITUTIONAL \<or> x)"
    for u c risk s' q x
    using that s releases [of "work s" risk u c _ now]
    by (auto simp: insert_release_def safe_def Let_def list_ex_iff list_all_iff split: option.splits if_splits)
  show ?thesis
    unfolding h_ready_for_release_def
    by (intro keeps_all assms) (use ins in \<open>auto intro: keeps_all assms\<close>)
qed

lemma keeps_handler:
  assumes "rely inp" and "safe B I s"
  shows "keeps B I (\<lambda>s. s) (handler state inp st i inc now s)"
  by (cases state) (use assms in \<open>simp_all add: handler_def h_triaged_def h_recovery_pending_def keeps_fail keeps_move
    keeps_detected keeps_confirmed keeps_diagnosing keeps_plan_ready keeps_building keeps_verifying keeps_rescope
    keeps_promoting keeps_ready keeps_releasing keeps_verifying_release\<close>)

lemma keeps_deadline: "rely inp \<Longrightarrow> safe B I s \<Longrightarrow> keeps B I (\<lambda>s. s) (on_deadline inp st i inc state now s)"
  unfolding on_deadline_def by (intro keeps_all)

lemma keeps_step: "rely inp \<Longrightarrow> safe B I s \<Longrightarrow> keeps B I (\<lambda>s. s) (step_case inp st i now s)"
  unfolding step_case_def by (intro keeps_all keeps_deadline keeps_handler)

text \<open>A step up to the commit at its end.\<close>

lemma fenced_keeps:
  assumes "rely inp" and "B k" and "I k"
  shows "keeps B I (\<lambda>s. s) (bindE (fence (in_worker inp) i \<lparr>base = k, work = k\<rparr>) (\<lambda>s. bindE (step_case inp st i now s) (fence (in_worker inp) i)))"
  by (intro keeps_all keeps_step assms(1)) (simp_all add: safe_def assms)

lemma foldE_keeps:
  assumes "safe B I s" and "\<And>i s. safe B I s \<Longrightarrow> keeps B I (\<lambda>s. s) (f i s)"
  shows "keeps B I (\<lambda>s. s) (foldE f is s)"
  using assms(1) by (induction "is" arbitrary: s) (auto intro: keeps_Inr keeps_bind_ses assms(2))

end

section \<open>The laws of a cycle\<close>

lemma ingest_frame:
  assumes "ingest_violation sha dig u z raced v now d = Inr (d', x)"
  shows "kd_cases d' = kd_cases d \<and> kd_log d' = kd_log d \<and> kd_artifacts d' = kd_artifacts d \<and> kd_evidence d' = kd_evidence d"
  using assms
  by (auto simp: ingest_violation_def Let_def bindE_Inr record_observation_def ensure_incident_freeze_def set_incident_def
      split: option.splits if_splits prod.splits)

locale cycle_laws = session_laws I I for I :: "kstate \<Rightarrow> bool" +
  assumes beat: "I k \<Longrightarrow> I (k\<lparr>k_beat := t\<rparr>)"
    and shifted: "I k \<Longrightarrow> 0 \<le> gap \<Longrightarrow> I (k\<lparr>k_db := (k_db k)\<lparr>kd_cases := map (shift_case gap) (kd_cases (k_db k))\<rparr>\<rparr>)"
    and opened: "I k \<Longrightarrow> 1 \<le> h \<Longrightarrow> I (k\<lparr>k_db := fst (open_case u r h now (k_db k))\<rparr>)"
    and monitored: "I k \<Longrightarrow> I (k\<lparr>k_db := (k_db k)\<lparr>kd_incidents := rs, kd_observations := os, kd_freezes := zs\<rparr>\<rparr>)"
begin

lemma process_keeps:
  assumes "rely inp" and k: "I k"
  shows "I (process inp st i now k)"
proof -
  have f: "keeps I I (\<lambda>s. s) (bindE (fence (in_worker inp) i \<lparr>base = k, work = k\<rparr>) (\<lambda>s. bindE (step_case inp st i now s) (fence (in_worker inp) i)))"
    by (rule fenced_keeps [OF assms(1) k k])
  have "I (base s)" if "step_and_fence inp st i now k = Inr s" for s
    using that keepsD(2) [OF f] safe_case [OF _ harmless_fields(15)]
    by (fastforce simp: step_and_fence_def bindE_Inr commit_def safe_def)
  moreover have "I k'" if "step_and_fence inp st i now k = Inl (e, k')" for e k'
    using that keepsD(1) [OF f, of "(e, k')"] by (auto simp: step_and_fence_def bindE_Inl bindE_Inr)
  moreover have "I (backoff w i now k')" if "I k'" for w k'
    using change [OF that harmless_backoff] that by (simp add: backoff_def split: option.split)
  ultimately show ?thesis
    by (auto simp: process_def split: sum.splits prod.splits kernel_error.splits)
qed

lemma claim_keeps: "I k \<Longrightarrow> I (fst (claim w st now locked k))"
  using change harmless_rules by (auto simp: claim_def split: option.split)

lemma pause_keeps:
  assumes "rely inp" and "I k"
  shows "I (pause_for_kill_switch inp st now locked k)"
proof -
  have "safe I I \<lparr>base = k, work = k\<rparr>" by (simp add: safe_def assms)
  then have f: "keeps I I (\<lambda>s. s) (foldE (pause_one inp st now) is \<lparr>base = k, work = k\<rparr>)" for "is"
    by (rule foldE_keeps) (unfold pause_one_def, intro keeps_all assms(1))
  show ?thesis
    by (auto simp: pause_for_kill_switch_def safe_def dest: keepsD [OF f] split: sum.splits)
qed

lemma sweep_keeps:
  assumes "I k"
  shows "I (resume_sweep now locked k)"
proof -
  have h: "harmless (\<lambda>q. merge_facts fs q\<lparr>rc_merged_sha := m\<rparr>)" for fs m
    by (rule harmless_comp [where g = "merge_facts fs" and f = "\<lambda>q. q\<lparr>rc_merged_sha := m\<rparr>"]) (rule harmless_rules)+
  have "safe I I \<lparr>base = k, work = k\<rparr>" by (simp add: safe_def assms)
  then have f: "keeps I I (\<lambda>s. s) (foldE (resume_one now) is \<lparr>base = k, work = k\<rparr>)" for "is"
    by (rule foldE_keeps) (unfold resume_one_def, intro keeps_all h)
  show ?thesis
    by (auto simp: resume_sweep_def safe_def assms dest: keepsD [OF f] split: sum.splits)
qed

lemma work_keeps:
  assumes "\<And>n. rely (inp n)"
  shows "I k \<Longrightarrow> I (work_through inp st locked now n k)"
proof (induction n arbitrary: k)
  case (Suc n)
  have "I (fst (claim (in_worker (inp n)) st now locked k))" by (rule claim_keeps [OF Suc.prems])
  with Suc.IH process_keeps [OF assms] show ?case
    by (auto split: prod.split option.split)
qed simp

lemma open_each_keeps: "I (k\<lparr>k_db := d\<rparr>) \<Longrightarrow> 1 \<le> h \<Longrightarrow> I (k\<lparr>k_db := open_each fresh h now rs d\<rparr>)"
proof (induction rs arbitrary: fresh d)
  case (Cons r rs)
  with opened [of "k\<lparr>k_db := d\<rparr>" h] show ?case by simp
qed simp

lemma stall_keeps: "I k \<Longrightarrow> I (stall_check sha dig u z st now k)"
proof -
  assume k: "I k"
  have frame: "\<exists>rs os zs. d' = d\<lparr>kd_incidents := rs, kd_observations := os, kd_freezes := zs\<rparr>"
    if "kd_cases d' = kd_cases d" "kd_log d' = kd_log d" "kd_artifacts d' = kd_artifacts d" "kd_evidence d' = kd_evidence d"
    for d d' :: kdb
    using that by (intro exI [of _ "kd_incidents d'"] exI [of _ "kd_observations d'"] exI [of _ "kd_freezes d'"]) simp
  have mon: "I (k\<lparr>k_db := d'\<rparr>)"
    if "kd_cases d' = kd_cases (k_db k)" "kd_log d' = kd_log (k_db k)" "kd_artifacts d' = kd_artifacts (k_db k)"
      "kd_evidence d' = kd_evidence (k_db k)" for d'
    using frame [OF that] monitored [OF k] by auto
  show ?thesis
    unfolding stall_check_def
    by (auto simp: Let_def observe_healthy_def intro!: mon k dest!: ingest_frame split: sum.splits)
qed

lemma reconcile_keeps:
  assumes "\<And>n. rely (cy_step cy n)" and "1 \<le> case_max_hours st" and "I k"
  shows "I (reconcile cy st now k)"
proof -
  have "I (shift_deadlines_for_downtime (k_beat k) now (k\<lparr>k_beat := Some now\<rparr>))" (is "I ?k")
    using shifted [OF beat [OF assms(3)]] beat [OF assms(3)]
    by (simp add: shift_deadlines_for_downtime_def downtime_grace_def time_units split: option.split)
  moreover have "I (open_cases (cy_fresh cy) st now ?k)"
    using calculation open_each_keeps [where k = ?k and d = "k_db ?k"] assms(2) by (simp add: open_cases_def)
  moreover have "I (housekeeping now k')" if "I k'" for k'
  proof -
    have "(k_db k')\<lparr>kd_incidents := kd_incidents (k_db k'), kd_observations := os, kd_freezes := kd_freezes (k_db k')\<rparr> =
      (k_db k')\<lparr>kd_observations := os\<rparr>" for os
      by (cases "k_db k'") simp
    with monitored [OF that, where rs = "kd_incidents (k_db k')" and zs = "kd_freezes (k_db k')"]
    show ?thesis by (simp add: housekeeping_def)
  qed
  ultimately show ?thesis
    using assms(1) stall_keeps pause_keeps sweep_keeps work_keeps
    by (simp add: reconcile_def heartbeat_def stall_pass_def Let_def)
qed

end

end
