(* ===== verification/KernelProps.thy ===== *)
theory KernelProps
  imports KernelLaws "HOL-Library.Sublist"
begin

text \<open>
  What the maintenance kernel guarantees of its database, whatever the models, the providers and
  the other sessions do: the constraints and the audit trail, the append-only history, that model
  text never becomes evidence, and at most one release in flight. Each is an interpretation of the
  laws of the theory \<open>KernelLaws\<close>; the hypothesis on \<open>in_meanwhile\<close> says that the other sessions,
  which run the same code, keep the invariant too while this one waits for its model.
\<close>

section \<open>The invariants\<close>

definition rows_ok :: "kstate \<Rightarrow> bool" where
  "rows_ok k \<longleftrightarrow> kdb_ok (k_db k)"

text \<open>Everything recorded in \<open>k0\<close> is still there, unchanged and in the same order.\<close>

definition extends :: "kstate \<Rightarrow> kstate \<Rightarrow> bool" where
  "extends k0 k \<longleftrightarrow> prefix (kd_log (k_db k0)) (kd_log (k_db k)) \<and> prefix (kd_artifacts (k_db k0)) (kd_artifacts (k_db k)) \<and>
    prefix (kd_evidence (k_db k0)) (kd_evidence (k_db k)) \<and> prefix (k_plans k0) (k_plans k)"

definition evidence_trusted :: "kstate \<Rightarrow> bool" where
  "evidence_trusted k \<longleftrightarrow> list_all (\<lambda>e. trusted_evidence (ev_trust e)) (kd_evidence (k_db k))"

text \<open>At most one release is in flight, and none is of a class that only the owner may release.\<close>

definition releases_ok :: "kstate \<Rightarrow> bool" where
  "releases_ok k \<longleftrightarrow> length (filter (\<lambda>q. \<not> release_terminal (rl_status q)) (k_releases k)) \<le> 1 \<and>
    list_all (\<lambda>q. rl_risk q \<noteq> RED \<and> rl_risk q \<noteq> CONSTITUTIONAL) (k_releases k)"

lemma transition_frame:
  assumes "transition i dst a reason r dl now d = Inr d'"
  shows "prefix (kd_log d) (kd_log d') \<and> kd_artifacts d' = kd_artifacts d \<and> kd_evidence d' = kd_evidence d"
proof -
  from assms obtain c where "d' = commit_move i c dst a reason r dl now d" by (rule transition_Inr)
  then show ?thesis by (simp add: commit_move_def set_case_def set_incident_def log_move_def Let_def)
qed

lemma kdb_ok_updates [simp]:
  "kdb_ok (d\<lparr>kd_incidents := rs\<rparr>) = kdb_ok d" "kdb_ok (d\<lparr>kd_freezes := zs\<rparr>) = kdb_ok d"
  "kdb_ok (d\<lparr>kd_artifacts := as\<rparr>) = kdb_ok d" "kdb_ok (d\<lparr>kd_evidence := es\<rparr>) = kdb_ok d"
  "kdb_ok (d\<lparr>kd_observations := os\<rparr>) = kdb_ok d"
  by (rule kdb_ok_frame; simp)+

interpretation rows: cycle_laws rows_ok
proof
  fix k :: kstate and f i
  assume k: "rows_ok k" and f: "harmless f"
  show "rows_ok (k\<lparr>k_db := set_case i f (k_db k)\<rparr>)"
    using k harmlessD [OF f] by (auto simp: rows_ok_def intro!: set_case_ok dest: kdb_okD(3))
next
  fix k :: kstate and gap :: duration
  assume k: "rows_ok k" and gap: "0 \<le> gap"
  have "same_shape (shift_case gap) c \<and> row_ok (shift_case gap c)" if "row_ok c" for c
    using that gap by (auto simp: same_shape_def shift_case_def row_ok_def)
  then show "rows_ok (k\<lparr>k_db := (k_db k)\<lparr>kd_cases := map (shift_case gap) (kd_cases (k_db k))\<rparr>\<rparr>)"
    using k by (auto simp: rows_ok_def intro!: map_cases_ok [where d = "k_db k" and g = "shift_case gap"] dest: kdb_okD(3))
qed (auto simp: rows_ok_def transition_ok set_incident_ok open_case_ok ensure_incident_freeze_def record_artifact_def Let_def
  record_evidence_def bindE_Inr split: option.splits)

interpretation history: cycle_laws "extends k0" for k0
proof
  fix k :: kstate and i dst a r dl now d
  fix reason :: string
  assume "extends k0 k" and "transition i dst a reason r dl now (k_db k) = Inr d"
  then show "extends k0 (k\<lparr>k_db := d\<rparr>)"
    using transition_frame by (fastforce simp: extends_def intro: prefix_order.trans)
qed (auto simp: extends_def set_case_def set_incident_def log_move_def open_case_def ensure_incident_freeze_def record_artifact_def Let_def
  record_evidence_def bindE_Inr split: option.splits)

interpretation trusted: cycle_laws evidence_trusted
proof
  fix k :: kstate and i dst a r dl now d
  fix reason :: string
  assume "evidence_trusted k" and "transition i dst a reason r dl now (k_db k) = Inr d"
  then show "evidence_trusted (k\<lparr>k_db := d\<rparr>)"
    using transition_frame by (fastforce simp: evidence_trusted_def)
qed (auto simp: evidence_trusted_def set_case_def set_incident_def log_move_def open_case_def ensure_incident_freeze_def record_artifact_def
  Let_def record_evidence_def bindE_Inr trusted_evidence_def split: option.splits)

interpretation in_flight: cycle_laws releases_ok
proof
  fix k :: kstate and risk u c sha now
  assume "releases_ok k" and t: "list_all (\<lambda>q. release_terminal (rl_status q)) (k_releases k)" and "risk \<noteq> RED" "risk \<noteq> CONSTITUTIONAL"
  moreover have "filter (\<lambda>q. \<not> release_terminal (rl_status q)) (k_releases k) = []"
    using t by (simp add: filter_empty_conv list_all_iff)
  ultimately show "releases_ok (k\<lparr>k_releases := k_releases k @ [new_release u c risk sha now]\<rparr>)"
    by (simp add: releases_ok_def new_release_def)
qed (auto simp: releases_ok_def)

text \<open>
  For the atomicity of a step only what is committed matters: the state it found, or one that other
  sessions left behind while a model was called.
\<close>

definition left_by_others :: "kinput \<Rightarrow> kstate \<Rightarrow> kstate \<Rightarrow> bool" where
  "left_by_others inp k0 k \<longleftrightarrow> k = k0 \<or> (\<exists>kind k1. k = in_meanwhile inp kind k1)"

interpretation atomic: session_laws "left_by_others inp k0" "\<lambda>_. True" for inp k0
  by unfold_locales simp_all

section \<open>An example\<close>

definition demo_input :: kinput where
  "demo_input = \<lparr>in_worker = ''w'', in_dig = (\<lambda>_. ''d''), in_model = True, in_utc = 0, in_contract = (\<lambda>_. Some True),
    in_meanwhile = (\<lambda>_ k. k), in_result = (\<lambda>_. \<lparr>re_ok = False, re_error = ''timeout'', re_output = JNull, re_rescope = None,
      re_cost = 0, re_turns = 1\<rparr>), in_plan = None, in_workspace_head = None, in_finalized = None, in_verified = None,
    in_candidate = None, in_promotion = None, in_fresh_id = 90, in_package = JNull\<rparr>"

definition demo_cycle :: cycle_input where
  "demo_cycle = \<lparr>cy_sha = id, cy_fresh = (\<lambda>n. n + 10), cy_locked = [], cy_step = (\<lambda>_. demo_input), cy_new_incident = 70,
    cy_freeze = 71\<rparr>"

text \<open>The database of the example incident, with no case yet.\<close>

definition demo_start :: kstate where
  "demo_start = \<lparr>k_db = demo_kdb, k_plans = [], k_attempts = [], k_activities = [], k_releases = [], k_promotions = [],
    k_beat = None\<rparr>"

text \<open>A claimed case in a given state, with the given incidents.\<close>

definition demo_case :: "case_state \<Rightarrow> rcase" where
  "demo_case s = lease_to ''w'' (seconds 900) (moved s ''demo'' False 0 0 (new_case 5 demo_incident 24 0))"

definition demo_at :: "case_state \<Rightarrow> incident list \<Rightarrow> kstate" where
  "demo_at s rs = demo_start\<lparr>k_db := empty_kdb\<lparr>kd_incidents := rs, kd_cases := [demo_case s]\<rparr>\<rparr>"

lemma demo_start_ok: "rows_ok demo_start" "evidence_trusted demo_start" "releases_ok demo_start"
  by (simp_all add: rows_ok_def evidence_trusted_def releases_ok_def demo_start_def demo_kdb_def empty_kdb_def kdb_ok_def
      one_active_def)

lemma demo_meanwhile [simp]: "in_meanwhile (cy_step demo_cycle n) kind k = k" "in_meanwhile demo_input kind k = k"
  "case_max_hours demo_settings = 24" "in_worker demo_input = ''w''"
  by (simp_all add: demo_cycle_def demo_input_def demo_settings_def)

section \<open>Properties\<close>

text \<open>
  C6: A reconciliation cycle keeps the rows of the kernel consistent: every live case has a next
  action, a deadline not before it and (until it is merged) inside the case's wall clock, every
  terminal case is stamped, an incident has at most one active case, and the transition log of every
  case is a chain of moves of the table, by actors the table allows, from \<open>DETECTED\<close> to the state
  the case is in, as many as its version counts. This holds whatever models, providers and policies
  answer, on every error path, and with other sessions running between the commits of this one.
\<close>

theorem kernel_keeps_rows:
  assumes "\<And>n kind k'. rows_ok k' \<Longrightarrow> rows_ok (in_meanwhile (cy_step cy n) kind k')"
    and "1 \<le> case_max_hours st" and "rows_ok k"
  shows "rows_ok (reconcile cy st now k)"
  using assms by (intro rows.reconcile_keeps) (simp_all add: rows.rely_def)

theorem kernel_keeps_rows_witness: "rows_ok (reconcile demo_cycle demo_settings 60000000 demo_start)"
  by (rule kernel_keeps_rows) (simp_all add: demo_start_ok)

text \<open>
  C24: The history is append-only: a cycle never changes, drops or reorders a transition, an
  artifact, a piece of evidence or a stored plan revision; it only appends.
\<close>

theorem history_append_only:
  assumes "\<And>n kind k'. extends k' (in_meanwhile (cy_step cy n) kind k')" and "1 \<le> case_max_hours st"
  shows "extends k (reconcile cy st now k)"
proof (rule history.reconcile_keeps)
  show "history.rely k (cy_step cy n)" for n
    using assms(1) by (auto simp: history.rely_def extends_def intro: prefix_order.trans)
  show "extends k k" by (simp add: extends_def)
qed (rule assms(2))

theorem history_append_only_witness: "extends demo_start (reconcile demo_cycle demo_settings 60000000 demo_start)"
  by (rule history_append_only) (simp_all add: extends_def)



text \<open>
  C10: The kernel never has two releases in flight, over all cases and workers, and never opens a
  release for a repair of class RED or CONSTITUTIONAL.
\<close>

theorem one_release_in_flight:
  assumes "\<And>n kind k'. releases_ok k' \<Longrightarrow> releases_ok (in_meanwhile (cy_step cy n) kind k')"
    and "1 \<le> case_max_hours st" and "releases_ok k"
  shows "releases_ok (reconcile cy st now k)"
  using assms by (intro in_flight.reconcile_keeps) (simp_all add: in_flight.rely_def)

theorem one_release_in_flight_witness: "releases_ok (reconcile demo_cycle demo_settings 60000000 demo_start)"
  by (rule one_release_in_flight) (simp_all add: demo_start_ok)


lemma demo_step_fails:
  "step_and_fence demo_input demo_settings 5 0 (demo_at CONFIRMED []) = Inl (AttributeError, demo_at CONFIRMED [])"
  by code_simp


end
