(* ===== verification/KernelMoves.thy ===== *)
theory KernelMoves
  imports KernelProps
begin

text \<open>
  Which moves a step attempts. A second calculus over steps tracks the state of the claimed case to
  the point where it is moved, and shows that the table of \<open>state_machine.py\<close> allows every move the
  handlers attempt, with one exception: a release that was rolled back while its case was being
  verified. The theory also says what the claim, the deadline and the wall clock do.
\<close>

section \<open>A calculus of legal moves\<close>

definition benign :: "kernel_error \<Rightarrow> bool" where
  "benign e \<longleftrightarrow> (case e of LedgerFailed (Illegal _) \<Rightarrow> False | _ \<Rightarrow> True)"

definition legal :: "('a \<Rightarrow> bool) \<Rightarrow> 'a step \<Rightarrow> bool" where
  "legal Q x \<longleftrightarrow> (case x of Inl e \<Rightarrow> benign (fst e) | Inr y \<Rightarrow> Q y)"

definition in_state :: "uid \<Rightarrow> case_state \<Rightarrow> ses \<Rightarrow> bool" where
  "in_state i x s \<longleftrightarrow> (\<exists>c. get_case (k_db (work s)) i = Some c \<and> rc_state c = x)"

text \<open>Sessions that hold a lease are not overtaken: others move the case only after taking its lease.\<close>

definition respects_lease :: "kinput \<Rightarrow> uid \<Rightarrow> bool" where
  "respects_lease inp i \<longleftrightarrow> (\<forall>kind k c c'. get_case (k_db k) i = Some c \<longrightarrow> get_case (k_db (in_meanwhile inp kind k)) i = Some c' \<longrightarrow>
     rc_lease_owner c' = Some (in_worker inp) \<longrightarrow> rc_state c' = rc_state c)"

named_theorems legal_rules \<open>structural rules for legal moves\<close>

lemma legal_Inr [legal_rules]: "Q y \<Longrightarrow> legal Q (Inr y)"
  by (simp add: legal_def)

lemma legal_fail [legal_rules]: "benign e \<Longrightarrow> legal Q (fail e s)"
  by (simp add: legal_def fail_def)

lemma legal_bind: "legal R x \<Longrightarrow> (\<And>y. R y \<Longrightarrow> legal Q (h y)) \<Longrightarrow> legal Q (bindE x h)"
  by (cases x) (simp_all add: legal_def)

lemma legal_mono: "legal R x \<Longrightarrow> (\<And>y. R y \<Longrightarrow> Q y) \<Longrightarrow> legal Q x"
  by (cases x) (simp_all add: legal_def)

lemma legal_need [legal_rules]: "benign e \<Longrightarrow> (\<And>y. x = Some y \<Longrightarrow> legal Q (h y)) \<Longrightarrow> legal Q (bindE (need x e s) h)"
  by (cases x) (simp_all add: need_def legal_fail legal_def fail_def)

lemma legal_case_now [legal_rules]:
  "(\<And>c. get_case (k_db (work s)) i = Some c \<Longrightarrow> legal Q (h c)) \<Longrightarrow> legal Q (bindE (case_now i s) h)"
  unfolding case_now_def by (rule legal_need) (simp_all add: benign_def)

lemma legal_if [legal_rules]: "(b \<Longrightarrow> legal Q x) \<Longrightarrow> (\<not> b \<Longrightarrow> legal Q y) \<Longrightarrow> legal Q (if b then x else y)"
  by simp

lemma legal_option [legal_rules]:
  "(z = None \<Longrightarrow> legal Q x) \<Longrightarrow> (\<And>v. z = Some v \<Longrightarrow> legal Q (g v)) \<Longrightarrow> legal Q (case z of None \<Rightarrow> x | Some v \<Rightarrow> g v)"
  by (cases z) auto

lemma legal_let [legal_rules]: "legal Q (h x) \<Longrightarrow> legal Q (Let x h)"
  by (simp add: Let_def)

lemma legal_prod [legal_rules]: "(\<And>a b. p = (a, b) \<Longrightarrow> legal Q (h a b)) \<Longrightarrow> legal Q (case p of (a, b) \<Rightarrow> h a b)"
  by (cases p) auto

lemma legal_verdict [legal_rules]:
  "legal Q a \<Longrightarrow> legal Q b \<Longrightarrow> legal Q c \<Longrightarrow> legal Q d \<Longrightarrow>
    legal Q (case v of BudgetOk \<Rightarrow> a | CaseBudgetExhausted \<Rightarrow> b | DailyBudgetExhausted \<Rightarrow> c | RoutineBudgetExhausted \<Rightarrow> d)"
  by (cases v) auto

text \<open>Writes that do not move the case.\<close>

named_theorems still_rules \<open>session writes that keep the state of a case\<close>

lemma still_case [still_rules]: "in_state i x s \<Longrightarrow> harmless f \<Longrightarrow> in_state i x (on_case j f s)"
  using harmlessD(1) [of f]
  by (auto simp: in_state_def on_case_def on_db_def get_case_def set_case_def find_key_upd_key same_shape_def find_upd_key_frame)

lemma still_same: "kd_cases (k_db (work s')) = kd_cases (k_db (work s)) \<Longrightarrow> in_state i x s \<Longrightarrow> in_state i x s'"
  by (simp add: in_state_def get_case_def)

lemma still_writes [still_rules]:
  "in_state i x s \<Longrightarrow> in_state i x (write_artifact inp j kind content trust who r n now s)"
  "in_state i x s \<Longrightarrow> in_state i x (on_db (ensure_incident_freeze z q now) s)"
  "in_state i x s \<Longrightarrow> in_state i x (on_db (set_incident j g) s)"
  "in_state i x s \<Longrightarrow> in_state i x (upd_attempt j n h s)" "in_state i x s \<Longrightarrow> in_state i x (close_attempt j n out s)"
  "in_state i x s \<Longrightarrow> in_state i x (new_attempt c p s)" "in_state i x s \<Longrightarrow> in_state i x (upd_activities g' s)"
  by (erule still_same [rotated], simp add: write_artifact_def on_db_def record_artifact_def ensure_incident_freeze_def
      upd_attempt_def close_attempt_def new_attempt_def upd_activities_def Let_def split: option.split)+

lemma still_wait [still_rules]: "in_state i x s \<Longrightarrow> in_state i x (wait j now d s)"
  unfolding wait_def by (intro still_rules harmless_rules)

lemma still_budget [still_rules]: "in_state i x s \<Longrightarrow> in_state i x (budget_wait j v now s)"
  unfolding budget_wait_def by (intro still_rules harmless_rules)

lemma still_note [still_rules]: "in_state i x s \<Longrightarrow> in_state i x (note_escalation j risk e c s)"
  unfolding note_escalation_def by (auto intro: still_rules harmless_rules split: option.split)

lemma still_if [still_rules]: "(b \<Longrightarrow> in_state i x s) \<Longrightarrow> (\<not> b \<Longrightarrow> in_state i x t) \<Longrightarrow> in_state i x (if b then s else t)"
  by simp

text \<open>Results with a flag: the case is untouched when the flag says that the step goes on.\<close>

definition goes_on :: "uid \<Rightarrow> case_state \<Rightarrow> ses \<times> bool \<Rightarrow> bool" where
  "goes_on i x r \<longleftrightarrow> (snd r \<longrightarrow> in_state i x (fst r))"

definition untouched :: "uid \<Rightarrow> case_state \<Rightarrow> ses \<times> 'b \<Rightarrow> bool" where
  "untouched i x r \<longleftrightarrow> in_state i x (fst r)"

definition anything :: "'a \<Rightarrow> bool" where
  "anything r \<longleftrightarrow> True"

lemma legal_bind_on: "legal (goes_on i x) m \<Longrightarrow> (\<And>s b. (b \<Longrightarrow> in_state i x s) \<Longrightarrow> legal Q (h s b)) \<Longrightarrow> legal Q (bindE m (\<lambda>(s, b). h s b))"
  by (erule legal_bind) (auto simp: goes_on_def)

lemma legal_bind_untouched: "legal (untouched i x) m \<Longrightarrow> (\<And>s b. in_state i x s \<Longrightarrow> legal Q (h s b)) \<Longrightarrow> legal Q (bindE m (\<lambda>(s, b). h s b))"
  by (erule legal_bind) (auto simp: untouched_def)

lemma legal_then: "legal anything m \<Longrightarrow> (\<And>s. legal Q (h s)) \<Longrightarrow> legal Q (bindE m h)"
  by (erule legal_bind)

lemma post_rules [legal_rules]:
  "anything r" "goes_on i x (s, False)" "in_state i x s \<Longrightarrow> goes_on i x (s, b)" "in_state i x s \<Longrightarrow> untouched i x (s, y)"
  by (simp_all add: anything_def goes_on_def untouched_def)

lemma post_if [legal_rules]:
  "(b \<Longrightarrow> goes_on i x (s, b')) \<Longrightarrow> (\<not> b \<Longrightarrow> goes_on i x (t, b')) \<Longrightarrow> goes_on i x (if b then s else t, b')"
  by simp

lemma post_flag: "(b \<Longrightarrow> in_state i x s) \<Longrightarrow> goes_on i x (if b then s else t, b)"
  by (simp add: goes_on_def)

lemma benigns [simp]: "benign AttributeError" "benign LeaseLost" "benign DuplicateRow" "benign Crashed"
  "benign (LedgerFailed NoSuchCase)" "benign (LedgerFailed SecondActiveCase)" "benign (LedgerFailed ModelTextIsNotEvidence)"
  by (simp_all add: benign_def)

section \<open>The steps\<close>

lemma legal_move:
  assumes "in_state i x s" and "may_move x dst a" and "x \<noteq> SAFELY_ESCALATED"
  shows "legal anything (move_to i dst a reason r now s)"
  using assms
  by (auto simp: move_to_def transition_def in_state_def check_transition_def guardE_def needE_def mapE_def legal_def fail_def anything_def
      split: sum.splits if_splits)

lemma legal_fence: "in_state i x s \<Longrightarrow> legal (in_state i x) (fence w i s)"
  unfolding fence_def by (rule legal_rules | assumption | simp)+

lemma legal_evidence: "in_state i x s \<Longrightarrow> legal (in_state i x) (write_evidence inp j kind src trust payload now s)"
  by (auto simp: write_evidence_def record_evidence_def bindE_def guardE_def legal_def fail_def on_db_def in_state_def get_case_def Let_def
      split: sum.splits option.splits)

lemma legal_store: "in_state i x s \<Longrightarrow> legal (in_state i x) (store_plan j r body s)"
proof -
  assume s: "in_state i x s"
  then have more: "in_state i x (s\<lparr>work := (work s)\<lparr>k_plans := ps\<rparr>\<rparr>)" for ps by (simp add: in_state_def)
  show ?thesis
    unfolding store_plan_def by (rule legal_let legal_prod legal_if legal_fail legal_Inr still_case more harmless_fields benigns)+
qed

lemma legal_activity:
  assumes r: "respects_lease inp i" and s: "in_state i x s"
  shows "legal (untouched i x) (run_activity inp i kind r' n s)"
proof -
  have "legal (untouched i x) (bindE (fence (in_worker inp) i \<lparr>base = k', work = k'\<rparr>) h)"
    if "in_state i x s'" and k': "k' = in_meanwhile inp kind (work s')" and h: "\<And>t. in_state i x t \<Longrightarrow> legal (untouched i x) (h t)" for s' k' h
    using that(1) r h [of "\<lparr>base = k', work = k'\<rparr>"]
    by (auto simp: fence_def case_now_def need_def legal_def fail_def in_state_def respects_lease_def k' split: option.splits)
  note others = this [OF _ refl]
  show ?thesis
    unfolding run_activity_def Let_def
    by (rule others) (rule legal_rules still_rules harmless_rules s | assumption)+
qed

lemmas legals = legal_rules still_rules harmless_rules

lemma legal_feedback: "in_state i x s \<Longrightarrow> legal (in_state i x) (activity_feedback inp j kind ps now s)"
  unfolding activity_feedback_def by (rule legals | assumption)+

lemma legal_explain: "respects_lease inp i \<Longrightarrow> in_state i x s \<Longrightarrow> legal (in_state i x) (explain inp st i s)"
  unfolding explain_def
  by (rule legal_case_now legal_if legal_Inr | assumption)+
     (rule legal_bind_untouched [OF legal_activity], assumption+, rule legal_Inr, assumption)

lemma legal_escalate:
  assumes "respects_lease inp i" and "in_state i x s" and "may_move x SAFELY_ESCALATED a" and "x \<noteq> SAFELY_ESCALATED"
  shows "legal anything (escalate inp st i reason a r cd now s)"
  unfolding escalate_def
  by (rule legal_bind [where R = "in_state i x"] legal_then [OF legal_move] legal_explain assms legals | assumption)+

lemmas table = may_move_def row_def

lemma cognitive_moves:
  assumes "cognitive x"
  shows "may_move x SAFELY_ESCALATED CONTROLLER" and "may_move x SAFELY_ESCALATED ACTIVITY" and "x \<noteq> SAFELY_ESCALATED"
  using assms by (auto simp: cognitive_def table)

lemma legal_cognition:
  assumes "respects_lease inp i" and "in_state i x s" and "cognitive x"
  shows "legal (goes_on i x) (cognition_ok inp st i now s)"
  unfolding cognition_ok_def
  by (rule legal_then [OF legal_escalate] cognitive_moves legals assms | assumption)+

lemma legal_outcome:
  assumes "respects_lease inp i" and "in_state i x s" and "cognitive x"
  shows "legal (goes_on i x) (activity_outcome inp st i res kind r n now s)"
  unfolding activity_outcome_def
  by (rule legal_then [OF legal_escalate] legal_bind [where R = anything] legal_mono [OF legal_feedback] cognitive_moves legals assms | assumption)+

lemma legal_next_attempt:
  assumes "respects_lease inp i" and "in_state i x s"
    and "may_move x BUILDING (if fp then CONTROLLER else ACTIVITY)" and "\<not> fp \<Longrightarrow> may_move x NEEDS_RESCOPE CONTROLLER"
    and "may_move x SAFELY_ESCALATED CONTROLLER" and "x \<noteq> SAFELY_ESCALATED"
  shows "legal anything (next_attempt_or_rescope inp st i reason fb fp now s)"
  unfolding next_attempt_or_rescope_def
  by (rule legal_move legal_escalate legals assms | assumption | (simp; fail))+

lemma legal_mirror:
  assumes "respects_lease inp i" and "in_state i x s" and x: "x \<in> {RELEASING, POST_RELEASE_VERIFYING, RECOVERY_PENDING}"
    and rb: "\<And>c q. get_case (k_db (work s)) i = Some c \<Longrightarrow> release_of c s = Some q \<Longrightarrow> x = POST_RELEASE_VERIFYING \<Longrightarrow>
      rl_status q \<noteq> REL_ROLLED_BACK"
  shows "legal (\<lambda>r. \<not> snd r \<longrightarrow> in_state i x (fst r)) (mirror_release inp st i now s)"
proof -
  have esc: "may_move x SAFELY_ESCALATED CONTROLLER" "x \<noteq> SAFELY_ESCALATED" using x by (auto simp: table)
  have moves: "x \<noteq> POST_RELEASE_VERIFYING \<Longrightarrow> may_move x AUTO_ROLLED_BACK CONTROLLER"
    "x \<noteq> RECOVERY_PENDING \<Longrightarrow> may_move x RECOVERY_PENDING RELEASE" "x = RELEASING \<Longrightarrow> may_move x POST_RELEASE_VERIFYING RELEASE"
    using x by (auto simp: table)
  have st: "get_case (k_db (work s)) i = Some c \<Longrightarrow> rc_state c = x" for c using assms(2) by (auto simp: in_state_def)
  have did: "legal (\<lambda>r. \<not> snd r \<longrightarrow> in_state i x (fst r)) (bindE m (\<lambda>s'. Inr (s', True)))" if "legal anything m" for m
    using that by (rule legal_bind) (simp add: legal_def)
  show ?thesis
    unfolding mirror_release_def Let_def
    by (rule legal_case_now legal_option legal_if did legal_move legal_escalate esc legal_Inr assms(1,2) | assumption
        | (use st rb moves assms(2) in \<open>simp; fail\<close>) | (use st rb moves assms(2) in \<open>blast\<close>))+
qed

lemma legal_ineffective:
  assumes "respects_lease inp i" and "in_state i POST_RELEASE_VERIFYING s"
  shows "legal anything (fix_ineffective inp st i inc now s)"
  unfolding fix_ineffective_def
  by (rule legal_move legal_escalate legal_bind [OF legal_evidence] legals assms | assumption | (simp add: table; fail))+

lemma legal_design:
  assumes "respects_lease inp i" and "in_state i x s" and "x = DIAGNOSING \<or> x = NEEDS_RESCOPE" and "harmless f"
  shows "legal anything (design_plan inp st i r f reason now s)"
proof -
  have x: "cognitive x" "may_move x PLAN_READY ACTIVITY" "x \<noteq> SAFELY_ESCALATED" using assms(3) by (auto simp: cognitive_def table)
  show ?thesis
    unfolding design_plan_def
    by (rule legal_bind_untouched [OF legal_activity] legal_bind_on [OF legal_outcome] legal_bind [OF legal_feedback]
        legal_bind [OF legal_store] legal_move legals assms(1,2,4) x | assumption | (simp; fail))+
qed

lemma legal_detected:
  assumes "respects_lease inp i" and "in_state i DETECTED s"
  shows "legal anything (h_detected inp st i inc now s)"
  unfolding h_detected_def
  by (rule legal_move legal_bind [OF legal_evidence] legals assms | assumption | (simp add: table; fail))+

lemma legal_confirmed:
  assumes "respects_lease inp i" and "in_state i CONFIRMED s"
  shows "legal anything (h_confirmed inp st i inc now s)"
  unfolding h_confirmed_def
  by (rule legal_move legal_escalate legals assms | assumption | (simp add: table; fail))+

lemma legal_diagnosing:
  assumes "respects_lease inp i" and s: "in_state i DIAGNOSING s"
  shows "legal anything (h_diagnosing inp st i inc now s)"
proof -
  have c: "cognitive DIAGNOSING" by (simp add: cognitive_def)
  show ?thesis
    unfolding h_diagnosing_def
    by (rule legal_bind_on [OF legal_cognition] legal_bind_on [where i = i and x = DIAGNOSING]
        legal_bind_untouched [OF legal_activity] legal_outcome legal_design post_flag legals assms c
        | assumption | (simp; fail))+
qed

lemma legal_plan_ready:
  assumes "respects_lease inp i" and "in_state i PLAN_READY s"
  shows "legal anything (h_plan_ready inp st i inc now s)"
  unfolding h_plan_ready_def
  by (rule legal_move legal_escalate legals assms | assumption | (simp add: table; fail))+

lemma legal_building:
  assumes "respects_lease inp i" and s: "in_state i BUILDING s"
  shows "legal anything (h_building inp st i inc now s)"
proof -
  have c: "cognitive BUILDING" by (simp add: cognitive_def)
  show ?thesis
    unfolding h_building_def
    by (rule legal_bind_on [OF legal_cognition] legal_bind_untouched [OF legal_activity] legal_bind [OF legal_feedback]
        legal_move legal_escalate legal_next_attempt legals assms c | assumption | (simp add: table; fail))+
qed

lemma legal_verdict_of:
  assumes "respects_lease inp i" and "in_state i VERIFYING s"
  shows "legal (\<lambda>p. snd p \<noteq> None \<longrightarrow> in_state i VERIFYING (fst p)) (review_verdict inp st i r n kind now s)"
proof -
  have c: "cognitive VERIFYING" by (simp add: cognitive_def)
  show ?thesis
    unfolding review_verdict_def
    by (rule legal_bind_on [OF legal_cognition] legal_bind_untouched [OF legal_activity] legal_bind_on [OF legal_outcome]
        legal_option legal_if legal_Inr assms c | assumption | (simp add: still_writes assms; fail))+
qed

lemma legal_bind_verdict:
  assumes "legal (\<lambda>p. snd p \<noteq> None \<longrightarrow> in_state i x (fst p)) m"
    and "\<And>s out. (out \<noteq> None \<Longrightarrow> in_state i x s) \<Longrightarrow> legal Q (h s out)"
  shows "legal Q (bindE m (\<lambda>(s, out). h s out))"
proof (rule legal_bind [OF assms(1)])
  fix p :: "ses \<times> 'a option"
  assume "snd p \<noteq> None \<longrightarrow> in_state i x (fst p)"
  then show "legal Q (case p of (s, out) \<Rightarrow> h s out)" using assms(2) by (cases p) simp
qed

lemma legal_review:
  assumes "respects_lease inp i" and "in_state i VERIFYING s"
  shows "legal (goes_on i VERIFYING) (review inp st i r n kind now s)"
  unfolding review_def
  by (rule legal_bind_verdict [OF legal_verdict_of] legal_then [OF legal_next_attempt] legals assms
      | assumption | (simp add: table; fail))+

lemma legal_verifying:
  assumes "respects_lease inp i" and s: "in_state i VERIFYING s"
  shows "legal anything (h_verifying inp st i inc now s)"
  unfolding h_verifying_def
  by (rule legal_bind_on [OF legal_review] legal_move legal_escalate legal_next_attempt legals assms
      | assumption | (simp add: table; fail))+

lemma legal_rescope:
  assumes "respects_lease inp i" and "in_state i NEEDS_RESCOPE s"
  shows "legal anything (h_needs_rescope inp st i inc now s)"
proof -
  have c: "cognitive NEEDS_RESCOPE" by (simp add: cognitive_def)
  show ?thesis
    unfolding h_needs_rescope_def
    by (rule legal_bind_on [OF legal_cognition] legal_design legal_escalate legals assms c | assumption | (simp add: table; fail))+
qed

lemma legal_promoting:
  assumes "respects_lease inp i" and "in_state i PROMOTING s"
  shows "legal anything (h_promoting inp st i inc now s)"
  unfolding h_promoting_def
  by (rule legal_bind [OF legal_evidence] legal_move legal_escalate legal_next_attempt legals assms
      | assumption | (simp add: table; fail))+

lemma legal_ready:
  assumes "respects_lease inp i" and s: "in_state i READY_FOR_RELEASE s"
  shows "legal anything (h_ready_for_release inp st i inc now s)"
proof -
  have ins: "in_state i READY_FOR_RELEASE s'" if "insert_release u c risk now s = Some (s', q)" for u c risk s' q
    by (rule still_same [OF _ s]) (use that in \<open>auto simp: insert_release_def Let_def split: option.splits if_splits\<close>)
  show ?thesis
    unfolding h_ready_for_release_def
    by (rule legal_move legal_escalate legals assms | assumption | (simp add: table; fail) | (erule ins; fail) | (use ins in blast))+
qed

lemma legal_bind_mirror:
  assumes "legal (\<lambda>r. \<not> snd r \<longrightarrow> in_state i x (fst r)) m" and "\<And>s b. (\<not> b \<Longrightarrow> in_state i x s) \<Longrightarrow> legal Q (h s b)"
  shows "legal Q (bindE m (\<lambda>(s, b). h s b))"
proof (rule legal_bind [OF assms(1)])
  fix p :: "ses \<times> bool"
  assume "\<not> snd p \<longrightarrow> in_state i x (fst p)"
  then show "legal Q (case p of (s, b) \<Rightarrow> h s b)" using assms(2) by (cases p) simp
qed

text \<open>The exception: the case is being verified after its release, and the release was rolled back.\<close>

definition missed_rollback :: "uid \<Rightarrow> kstate \<Rightarrow> bool" where
  "missed_rollback i k \<longleftrightarrow> (case get_case (k_db k) i of None \<Rightarrow> False | Some c \<Rightarrow> rc_state c = POST_RELEASE_VERIFYING \<and>
     (case rc_release c of None \<Rightarrow> False | Some r \<Rightarrow>
       (case find (\<lambda>q. rl_id q = r) (k_releases k) of None \<Rightarrow> False | Some q \<Rightarrow> rl_status q = REL_ROLLED_BACK)))"

lemma mirror_premise:
  assumes "\<not> missed_rollback i (work s)" and "in_state i x s"
  shows "get_case (k_db (work s)) i = Some c \<Longrightarrow> release_of c s = Some q \<Longrightarrow> x = POST_RELEASE_VERIFYING \<Longrightarrow> rl_status q \<noteq> REL_ROLLED_BACK"
  using assms by (auto simp: missed_rollback_def in_state_def release_of_def split: option.splits)

lemma legal_releasing:
  assumes "respects_lease inp i" and "in_state i x s" and "x = RELEASING \<or> x = RECOVERY_PENDING" and "\<not> missed_rollback i (work s)"
  shows "legal anything (h_releasing inp st i inc now s)"
  unfolding h_releasing_def
  by (rule legal_bind_mirror [OF legal_mirror [OF assms(1,2)]])
     (use assms(3) mirror_premise [OF assms(4,2)] in \<open>auto intro!: legals\<close>)

lemma legal_after_release:
  assumes "respects_lease inp i" and "in_state i POST_RELEASE_VERIFYING s" and "\<not> missed_rollback i (work s)"
  shows "legal anything (h_post_release_verifying inp st i inc now s)"
  unfolding h_post_release_verifying_def
proof (rule legal_bind_mirror [OF legal_mirror [OF assms(1,2)]])
  show "rl_status q \<noteq> REL_ROLLED_BACK"
    if "get_case (k_db (work s)) i = Some c" "release_of c s = Some q" "POST_RELEASE_VERIFYING = POST_RELEASE_VERIFYING" for c q
    by (rule mirror_premise [OF assms(3,2) that])
next
  fix t :: ses and b :: bool
  assume t: "\<not> b \<Longrightarrow> in_state i POST_RELEASE_VERIFYING t"
  show "legal anything (if b then Inr t else bindE (case_now i t)
      (\<lambda>c. if release_succeeded c t \<and> recovered inc
           then move_to i AUTO_REPAIRED CONTROLLER ''released_and_recovered'' final now t else Inr (wait i now None t)))"
    by (rule legal_move legals t | assumption | (simp add: table; fail))+
qed simp

lemma legal_handler:
  assumes "respects_lease inp i" and "in_state i x s" and "\<not> missed_rollback i (work s)"
  shows "legal anything (handler x inp st i inc now s)"
  using assms
  by (cases x) (simp_all add: handler_def h_triaged_def h_recovery_pending_def legal_fail legal_detected legal_confirmed
      legal_diagnosing legal_plan_ready legal_building legal_verifying legal_rescope legal_promoting legal_ready legal_releasing
      legal_after_release legal_move table)

lemma legal_target:
  assumes "respects_lease inp i" and "in_state i x s" and "may_move x t WATCHDOG" and "x \<noteq> SAFELY_ESCALATED"
  shows "legal anything (apply_target inp st i t reason WATCHDOG now s)"
  unfolding apply_target_def by (rule legal_move legal_escalate legals assms | assumption | (use assms in \<open>simp; fail\<close>))+

lemma legal_deadline:
  assumes "respects_lease inp i" and "in_state i x s" and "\<not> is_terminal x" and "\<not> missed_rollback i (work s)"
  shows "legal anything (on_deadline inp st i inc x now s)"
proof -
  have first: "legal (\<lambda>r. \<not> snd r \<longrightarrow> in_state i x (fst r))
      (if x \<in> {RELEASING, POST_RELEASE_VERIFYING, RECOVERY_PENDING} then mirror_release inp st i now s else Inr (s, False))"
    using legal_mirror [OF assms(1,2)] mirror_premise [OF assms(4,2)] assms(2) by (auto simp: legal_def)
  have target: "may_move x (sp_on_deadline (spec_of x)) WATCHDOG" "x \<noteq> SAFELY_ESCALATED"
    using assms(3) by (cases x; simp add: table is_terminal_def)+
  show ?thesis
    unfolding on_deadline_def
    by (rule legal_bind_mirror [OF first] legal_move legal_next_attempt legal_ineffective legal_target legals assms(1) target
        | assumption | (simp add: table; fail) | (clarsimp simp: table; fail))+
qed

lemma legal_step:
  assumes "respects_lease inp i" and "in_state i x s" and "\<not> is_terminal x" and "\<not> missed_rollback i (work s)"
  shows "legal anything (step_case inp st i now s)"
proof -
  let ?s = "on_case i (\<lambda>c. c\<lparr>rc_tries := rc_tries c + 1\<rparr>) s"
  have s: "in_state i x ?s" by (rule still_case [OF assms(2)]) (rule harmless_fields)
  have m: "\<not> missed_rollback i (work ?s)"
    using assms(4)
    by (simp add: missed_rollback_def on_case_def on_db_def get_case_def set_case_def find_key_upd_key split: option.splits)
  have x: "get_case (k_db (work s)) i = Some c \<Longrightarrow> rc_state c = x" for c using assms(2) by (auto simp: in_state_def)
  have e: "may_move x (sp_on_exhausted (spec_of x)) WATCHDOG" "x \<noteq> SAFELY_ESCALATED"
    "pre_merge x \<or> x = PROMOTING \<Longrightarrow> may_move x SAFELY_ESCALATED WATCHDOG" "pre_merge x \<Longrightarrow> may_move x CANNOT_REPRODUCE CONTROLLER"
    using assms(3) by (cases x; simp add: table is_terminal_def pre_merge_def)+
  show ?thesis
    unfolding step_case_def Let_def
  proof (rule legal_case_now)
    fix c
    assume "get_case (k_db (work s)) i = Some c"
    then have "rc_state c = x" by (rule x)
    then show "legal anything
        (if case rc_deadline c of None \<Rightarrow> False | Some d \<Rightarrow> d \<le> now
         then on_deadline inp st i (get_incident (k_db (work s)) (rc_incident c)) (rc_state c) now ?s
         else if sp_max_tries (spec_of (rc_state c)) < rc_tries c + 1
         then apply_target inp st i (sp_on_exhausted (spec_of (rc_state c))) (''tries_exhausted:'' @ state_value (rc_state c)) WATCHDOG now ?s
         else if recovered (get_incident (k_db (work s)) (rc_incident c)) \<and> pre_merge (rc_state c)
         then move_to i CANNOT_REPRODUCE CONTROLLER ''recovered_before_repair'' final now ?s
         else if (pre_merge (rc_state c) \<or> rc_state c = PROMOTING) \<and> rc_case_deadline c \<le> now
         then escalate inp st i ''case_wall_clock_exhausted'' WATCHDOG final True now ?s
         else handler (rc_state c) inp st i (get_incident (k_db (work s)) (rc_incident c)) now ?s)"
      using legal_deadline [OF assms(1) s assms(3) m] legal_target [OF assms(1) s e(1,2)] legal_move [OF s e(4,2)]
        legal_escalate [OF assms(1) s e(3,2)] legal_handler [OF assms(1) s m]
      by simp
  qed
qed

end
