(* ===== verification/KernelFaults.thy ===== *)
theory KernelFaults
  imports KernelMoves
begin

text \<open>
  What a step does with a given case: legal moves of active cases always commit, a passed deadline is
  recovered from, and two situations in which the kernel does not do what its documents say: a
  rollback that the kernel did not see in time, and the wall clock of a case.
\<close>

lemma get_set_case: "(\<And>c. rc_id (f c) = rc_id c) \<Longrightarrow> get_case (set_case i f d) i = map_option f (get_case d i)"
  by (simp add: get_case_def set_case_def find_key_upd_key)

lemma get_commit_move [simp]: "get_case d i = Some c \<Longrightarrow> get_case (commit_move i c dst a reason r dl now d) i = Some (moved dst reason r dl now c)"
  by (simp add: get_case_def find_key_upd_key)

text \<open>The unique index never refuses a move of a case that is active already.\<close>

lemma active_move:
  assumes ok: "kdb_ok d" and c: "get_case d i = Some c" and act: "active c"
    and chk: "check_transition (rc_state c) dst a (rc_resumable c) = Inr ()"
  shows "transition i dst a reason r dl now d = Inr (commit_move i c dst a reason r dl now d)"
proof -
  have "\<not> list_ex (\<lambda>o'. rc_id o' \<noteq> i \<and> rc_incident o' = rc_incident c \<and> active o') (kd_cases d)"
  proof
    assume "list_ex (\<lambda>o'. rc_id o' \<noteq> i \<and> rc_incident o' = rc_incident c \<and> active o') (kd_cases d)"
    then obtain o' where o': "o' \<in> set (kd_cases d)" "rc_id o' \<noteq> i" "rc_incident o' = rc_incident c" "active o'"
      by (auto simp: list_ex_iff)
    moreover have "c \<in> set (kd_cases d)" "rc_id c = i" using get_case_mem [OF c] by auto
    ultimately show False using one_activeD [OF kdb_okD(2) [OF ok] o'(1) _ o'(4) act o'(3)] by simp
  qed
  with c chk show ?thesis by (simp add: transition_def guardE_def)
qed

lemma active_move_to:
  assumes "kdb_ok (k_db (work s))" and "get_case (k_db (work s)) i = Some c" and "\<not> is_terminal (rc_state c)"
    and "may_move (rc_state c) dst a"
  shows "move_to i dst a reason r now s = Inr (on_db (\<lambda>_. commit_move i c dst a reason r 0 now (k_db (work s))) s)"
proof -
  have "check_transition (rc_state c) dst a (rc_resumable c) = Inr ()"
    using assms(3,4) by (auto simp: check_transition_ok is_terminal_def)
  then show ?thesis using active_move [OF assms(1,2), of dst a reason r 0 now] assms(3) by (simp add: move_to_def active_def)
qed

text \<open>Recording an escalation package touches no case.\<close>

lemma write_artifact_frame:
  "kd_cases (k_db (work (write_artifact inp i kind content trust who r n now s))) = kd_cases (k_db (work s))"
  "kd_log (k_db (work (write_artifact inp i kind content trust who r n now s))) = kd_log (k_db (work s))"
  "base (write_artifact inp i kind content trust who r n now s) = base s"
  by (simp_all add: write_artifact_def on_db_def record_artifact_def Let_def split: option.split)

lemma write_artifact_ok: "kdb_ok (k_db (work (write_artifact inp i kind content trust who r n now s))) \<longleftrightarrow> kdb_ok (k_db (work s))"
  by (rule kdb_ok_frame) (simp_all add: write_artifact_frame)

text \<open>An escalation by the watchdog asks no model and always succeeds.\<close>

lemma watchdog_escalates:
  assumes "kdb_ok (k_db (work s))" and c: "get_case (k_db (work s)) i = Some c" and "\<not> is_terminal (rc_state c)"
    and "may_move (rc_state c) SAFELY_ESCALATED WATCHDOG"
  shows "\<exists>s'. escalate inp st i reason WATCHDOG r True now s = Inr s' \<and> base s' = base s \<and>
    get_case (k_db (work s')) i = Some (moved SAFELY_ESCALATED reason r 0 now c)"
proof -
  let ?s = "write_artifact inp i ''escalation_package'' (in_package inp) TRUSTED_DB (in_worker inp) (rc_plan_rev c) (rc_attempts c) now s"
  have c': "get_case (k_db (work ?s)) i = Some c" using c by (simp add: get_case_def write_artifact_frame)
  have "kdb_ok (k_db (work ?s))" using assms(1) by (simp add: write_artifact_ok)
  from active_move_to [OF this c' assms(3,4)] c c' show ?thesis
    by (simp add: escalate_def case_now_def need_def on_db_def write_artifact_frame)
qed

text \<open>A step that succeeds under its lease is committed and the lease released.\<close>

lemma process_success:
  assumes "get_case (k_db k) i = Some c" and "rc_lease_owner c = Some (in_worker inp)"
    and "step_case inp st i now \<lparr>base = k, work = k\<rparr> = Inr s'"
    and "get_case (k_db (work s')) i = Some c'" and "rc_lease_owner c' = Some (in_worker inp)"
  shows "process inp st i now k = work (on_case i drop_lease s') \<and>
    get_case (k_db (process inp st i now k)) i = Some (drop_lease c')"
proof -
  have "step_and_fence inp st i now k = Inr (commit (on_case i drop_lease s'))"
    using assms by (simp add: step_and_fence_def fence_def case_now_def need_def)
  then show ?thesis
    using assms(4) by (simp add: process_def commit_def on_case_def on_db_def get_set_case drop_lease_def)
qed

lemma tick_case:
  assumes "kdb_ok (k_db (work s))" and "get_case (k_db (work s)) i = Some c"
  defines "s' \<equiv> on_case i (\<lambda>c. c\<lparr>rc_tries := rc_tries c + 1\<rparr>) s"
  shows "kdb_ok (k_db (work s'))" and "get_case (k_db (work s')) i = Some (c\<lparr>rc_tries := rc_tries c + 1\<rparr>)" and "base s' = base s"
    and "k_releases (work s') = k_releases (work s)"
proof -
  show "kdb_ok (k_db (work s'))"
    using rows.change [of "work s" "\<lambda>c. c\<lparr>rc_tries := rc_tries c + 1\<rparr>" i] assms(1) harmless_fields(1)
    by (simp add: rows_ok_def s'_def on_case_def on_db_def)
qed (use assms(2) in \<open>simp_all add: s'_def on_case_def on_db_def get_set_case\<close>)

lemma moved_lease [simp]: "rc_lease_owner (moved dst reason r dl now c) = rc_lease_owner c"
  "rc_case_deadline (moved dst reason r dl now c) = rc_case_deadline c" "rc_attempts (moved dst reason r dl now c) = rc_attempts c"
  "rc_resumable (moved dst reason False dl now c) = False"
  by (simp_all add: moved_def enter_terminal_def enter_live_def Let_def)

text \<open>What the deadline of a state does to its case, outside the release states and \<open>BUILDING\<close>.\<close>

definition recovery_state :: "settings \<Rightarrow> kdb \<Rightarrow> rcase \<Rightarrow> instant \<Rightarrow> case_state" where
  "recovery_state st d c now =
    (if rc_state c \<noteq> DETECTED then SAFELY_ESCALATED
     else (case get_incident d (rc_incident c) of
         None \<Rightarrow> CANNOT_REPRODUCE
       | Some r \<Rightarrow> if mi_status r = INC_OPEN \<and> confirmed st r now then CONFIRMED else CANNOT_REPRODUCE))"

lemma deadline_step:
  assumes ok: "kdb_ok (k_db (work s))" and c: "get_case (k_db (work s)) i = Some c"
    and live: "\<not> is_terminal (rc_state c)" and dl: "rc_deadline c = Some dl" "dl \<le> now"
    and st: "rc_state c \<notin> {BUILDING, RELEASING, POST_RELEASE_VERIFYING, RECOVERY_PENDING}"
  shows "\<exists>s' reason r. step_case inp st i now s = Inr s' \<and> base s' = base s \<and>
    get_case (k_db (work s')) i = Some (moved (recovery_state st (k_db (work s)) c now) reason False 0 now (c\<lparr>rc_tries := r\<rparr>))"
proof -
  let ?s = "on_case i (\<lambda>c. c\<lparr>rc_tries := rc_tries c + 1\<rparr>) s" and ?c = "c\<lparr>rc_tries := rc_tries c + 1\<rparr>"
  let ?inc = "get_incident (k_db (work s)) (rc_incident c)"
  note t = tick_case [OF ok c]
  have step: "step_case inp st i now s = on_deadline inp st i ?inc (rc_state c) now ?s"
    using c dl by (simp add: step_case_def case_now_def need_def Let_def)
  have "may_move (rc_state c) (sp_on_deadline (spec_of (rc_state c))) WATCHDOG"
    using live by (cases "rc_state c") (simp_all add: is_terminal_def table)
  moreover have "rc_state c \<noteq> DETECTED \<Longrightarrow> sp_on_deadline (spec_of (rc_state c)) = SAFELY_ESCALATED"
    using live st by (cases "rc_state c") (simp_all add: is_terminal_def row_def)
  ultimately have esc: "\<exists>s'. escalate inp st i reason WATCHDOG False True now ?s = Inr s' \<and> base s' = base s \<and>
      get_case (k_db (work s')) i = Some (moved SAFELY_ESCALATED reason False 0 now ?c)" if "rc_state c \<noteq> DETECTED" for reason
    using watchdog_escalates [OF t(1,2), of inp st reason False now] live that t(3) by simp
  have mv: "move_to i dst a reason False now ?s = Inr (on_db (\<lambda>_. commit_move i ?c dst a reason False 0 now (k_db (work ?s))) ?s)"
    if "may_move (rc_state c) dst a" for dst a reason
    using active_move_to [OF t(1,2)] live that by simp
  show ?thesis
  proof (cases "rc_state c = DETECTED")
    case True
    have "may_move DETECTED CONFIRMED CONTROLLER" "may_move DETECTED CANNOT_REPRODUCE WATCHDOG" by (simp_all add: table)
    with True t(2,3) mv show ?thesis
      unfolding step
      by (auto simp: on_deadline_def case_now_def need_def recovery_state_def apply_target_def row_def on_db_def
          split: option.split)
  next
    case False
    have "sp_on_deadline (spec_of (rc_state c)) = SAFELY_ESCALATED"
      using live st False by (cases "rc_state c") (simp_all add: is_terminal_def row_def)
    with False st t(2) have "step_case inp st i now s = escalate inp st i (''deadline:'' @ state_value (rc_state c)) WATCHDOG False True now ?s"
      unfolding step by (simp add: on_deadline_def case_now_def need_def apply_target_def)
    with esc [OF False] False show ?thesis by (fastforce simp: recovery_state_def)
  qed
qed

lemma deadline_process:
  assumes "rows_ok k" and c: "get_case (k_db k) i = Some c" and w: "rc_lease_owner c = Some (in_worker inp)"
    and "\<not> is_terminal (rc_state c)" and "rc_deadline c = Some dl" and "dl \<le> now"
    and "rc_state c \<notin> {BUILDING, RELEASING, POST_RELEASE_VERIFYING, RECOVERY_PENDING}"
  shows "\<exists>c'. get_case (k_db (process inp st i now k)) i = Some c' \<and> rc_state c' = recovery_state st (k_db k) c now \<and>
    rc_resumable c' = False \<and> rc_lease_owner c' = None"
proof -
  let ?s = "\<lparr>base = k, work = k\<rparr>"
  from deadline_step [of ?s i c dl now inp st] assms obtain s' reason r where
    s': "step_case inp st i now ?s = Inr s'"
    and c': "get_case (k_db (work s')) i = Some (moved (recovery_state st (k_db k) c now) reason False 0 now (c\<lparr>rc_tries := r\<rparr>))"
    by (auto simp: rows_ok_def)
  have "get_case (k_db (process inp st i now k)) i =
      Some (drop_lease (moved (recovery_state st (k_db k) c now) reason False 0 now (c\<lparr>rc_tries := r\<rparr>)))"
    using conjunct2 [OF process_success [OF c w s' c']] w by simp
  then show ?thesis by (simp add: drop_lease_def)
qed

section \<open>An example case with its history\<close>

definition demo_moves :: "(case_state \<times> actor) list \<Rightarrow> kdb" where
  "demo_moves xs = foldl (\<lambda>d (x, a). case transition 5 x a ''demo'' True 0 0 d of Inl _ \<Rightarrow> d | Inr d' \<Rightarrow> d')
     (fst (open_case 5 demo_incident 24 0 demo_kdb)) xs"

definition demo_logged :: "(case_state \<times> actor) list \<Rightarrow> kstate" where
  "demo_logged xs = demo_start\<lparr>k_db := set_case 5 (lease_to ''w'' (seconds 900)) (demo_moves xs)\<rparr>"

lemma demo_moves_ok: "kdb_ok (demo_moves xs)"
proof -
  have start: "kdb_ok (fst (open_case 5 demo_incident 24 0 demo_kdb))"
    using demo_start_ok(1) by (intro open_case_ok) (simp_all add: rows_ok_def demo_start_def)
  have "kdb_ok d \<Longrightarrow> kdb_ok (foldl (\<lambda>d (x, a). case transition 5 x a ''demo'' True 0 0 d of Inl _ \<Rightarrow> d | Inr d' \<Rightarrow> d') d xs)" for d
  proof (induction xs arbitrary: d)
    case (Cons p xs)
    show ?case
      using Cons transition_ok [OF Cons.prems]
      by (cases p; cases "transition 5 (fst p) (snd p) ''demo'' True 0 0 d") auto
  qed simp
  with start show ?thesis by (simp add: demo_moves_def)
qed

lemma demo_logged_ok: "rows_ok (demo_logged xs)"
  using rows.change [of "demo_start\<lparr>k_db := demo_moves xs\<rparr>", OF _ harmless_fields(16)] demo_moves_ok
  by (simp add: demo_logged_def rows_ok_def)

section \<open>The order of claims\<close>

lemma goes_first_order:
  "goes_first c c" "goes_first c d \<or> goes_first d c" "goes_first c d \<Longrightarrow> goes_first d e \<Longrightarrow> goes_first c e"
proof -
  have rank: "priority_rank p = priority_rank q \<longleftrightarrow> p = q" for p q by (cases p; cases q) simp_all
  show "goes_first c c" by (simp add: goes_first_def no_later_def split: option.split)
  have "no_later t u \<or> no_later u t" for t u by (auto simp: no_later_def split: option.split)
  then show "goes_first c d \<or> goes_first d c"
    using rank [of "rc_priority c" "rc_priority d"] by (auto simp: goes_first_def)
  have "no_later t u \<Longrightarrow> no_later u v \<Longrightarrow> no_later t v" for t u v by (auto simp: no_later_def split: option.splits)
  then show "goes_first c d \<Longrightarrow> goes_first d e \<Longrightarrow> goes_first c e" by (auto simp: goes_first_def)
qed

lemma first_case_None: "first_case cs = None \<longleftrightarrow> cs = []"
  by (cases cs) (auto split: option.split)

lemma first_case_min: "first_case cs = Some c \<Longrightarrow> c \<in> set cs \<and> (\<forall>d \<in> set cs. goes_first c d)"
proof (induction cs arbitrary: c)
  case (Cons x cs)
  show ?case
  proof (cases "first_case cs")
    case None
    with Cons.prems show ?thesis by (simp add: first_case_None goes_first_order(1))
  next
    case (Some b)
    from Cons.IH [OF Some] have b: "b \<in> set cs" "\<forall>d \<in> set cs. goes_first b d" by auto
    show ?thesis
    proof (cases "goes_first x b")
      case True
      with Cons.prems Some have "c = x" by simp
      with True b show ?thesis by (auto intro: goes_first_order(1,3))
    next
      case False
      with Cons.prems Some have "c = b" by simp
      with False b goes_first_order(2) [of x b] show ?thesis by auto
    qed
  qed
qed simp

section \<open>Properties\<close>

text \<open>
  C8: The table allows every move the kernel attempts. Whatever the inputs, the settings and the
  history, a step of a live case never fails because its move is illegal, as long as other sessions
  respect the lease, except when the release of the case was rolled back while the case was being
  verified (the next property).
\<close>

theorem kernel_moves_legal:
  assumes "respects_lease inp i" and "get_case (k_db k) i = Some c" and "\<not> is_terminal (rc_state c)"
    and "\<not> missed_rollback i k" and "step_and_fence inp st i now k = Inl (e, k')"
  shows "benign e"
proof -
  let ?s = "\<lparr>base = k, work = k\<rparr>"
  have s: "in_state i (rc_state c) ?s" using assms(2) by (simp add: in_state_def)
  have "legal anything (bindE (fence (in_worker inp) i ?s) (\<lambda>s. bindE (step_case inp st i now s) (fence (in_worker inp) i)))"
  proof (rule legal_bind)
    show "legal (\<lambda>t. t = ?s) (fence (in_worker inp) i ?s)"
      by (simp add: fence_def case_now_def need_def legal_def fail_def split: option.split)
    fix t :: ses
    assume t: "t = ?s"
    have "legal anything (fence (in_worker inp) i u)" for u :: ses
      by (simp add: fence_def case_now_def need_def legal_def fail_def anything_def split: option.split)
    then show "legal anything (bindE (step_case inp st i now t) (fence (in_worker inp) i))"
      unfolding t by (intro legal_then legal_step [OF assms(1) s assms(3)]) (simp_all add: assms(4))
  qed
  then show ?thesis using assms(5) by (auto simp: step_and_fence_def bindE_Inl legal_def)
qed

theorem kernel_moves_legal_witness:
  "step_and_fence demo_input demo_settings 5 0 (demo_at CONFIRMED []) = Inl (AttributeError, demo_at CONFIRMED []) \<and>
    benign AttributeError"
proof (rule conjI)
  have "get_case (k_db (demo_at CONFIRMED [])) 5 = Some (demo_case CONFIRMED)" by code_simp
  moreover have "\<not> is_terminal (rc_state (demo_case CONFIRMED))" by code_simp
  moreover have "respects_lease demo_input 5" by (simp add: respects_lease_def)
  moreover have "\<not> missed_rollback 5 (demo_at CONFIRMED [])" by code_simp
  ultimately show "benign AttributeError" using kernel_moves_legal demo_step_fails by blast
qed (rule demo_step_fails)



text \<open>
  A rollback the kernel did not see in time strands its case. When the release of a case was
  rolled back while the case was still in \<open>POST_RELEASE_VERIFYING\<close> (the kernel normally sees the
  release \<open>rolling_back\<close> first), every step from its deadline on fails, because the table has no move
  to \<open>AUTO_ROLLED_BACK\<close> from that state: the case stays where it is, with nothing logged, for every
  input, and neither the deadline recovery nor the try budget ends it. The kill-switch pass fails on
  the same move.
\<close>

theorem missed_rollback_strands_case:
  assumes m: "missed_rollback i k" and c: "get_case (k_db k) i = Some c" and w: "rc_lease_owner c = Some (in_worker inp)"
    and dl: "rc_deadline c = Some dl" "dl \<le> now"
  shows "process inp st i now k = backoff (in_worker inp) i now k \<and> missed_rollback i (process inp st i now k) \<and>
    kd_log (k_db (process inp st i now k)) = kd_log (k_db k) \<and>
    map_option (\<lambda>c'. (rc_state c', rc_deadline c', rc_tries c', rc_lease_owner c')) (get_case (k_db (process inp st i now k)) i) =
      Some (POST_RELEASE_VERIFYING, Some dl, rc_tries c + 1, None) \<and>
    pause_one inp st now i \<lparr>base = k, work = k\<rparr> =
      Inl (LedgerFailed (Illegal (NotAllowedFor POST_RELEASE_VERIFYING AUTO_ROLLED_BACK CONTROLLER)), k)"
proof -
  let ?s = "\<lparr>base = k, work = k\<rparr>" and ?e = "LedgerFailed (Illegal (NotAllowedFor POST_RELEASE_VERIFYING AUTO_ROLLED_BACK CONTROLLER))"
  from m c obtain r q where st: "rc_state c = POST_RELEASE_VERIFYING" and r: "rc_release c = Some r"
    "find (\<lambda>q. rl_id q = r) (k_releases k) = Some q" "rl_status q = REL_ROLLED_BACK"
    by (auto simp: missed_rollback_def split: option.splits)
  have no: "\<not> may_move POST_RELEASE_VERIFYING AUTO_ROLLED_BACK CONTROLLER" by (simp add: table)
  have mir: "mirror_release inp st i now s = Inl (?e, base s)"
    if "get_case (k_db (work s)) i = Some c'" "rc_state c' = POST_RELEASE_VERIFYING" "rc_release c' = Some r"
      "k_releases (work s) = k_releases k" for s c'
    using that r(2,3) no
    by (simp add: mirror_release_def case_now_def need_def release_of_def move_to_def transition_def check_transition_def
        guardE_def fail_def)
  have "step_case inp st i now ?s = Inl (?e, k)"
    using c dl st r(1) mir [of "on_case i (\<lambda>c. c\<lparr>rc_tries := rc_tries c + 1\<rparr>) ?s" "c\<lparr>rc_tries := rc_tries c + 1\<rparr>"]
    by (simp add: step_case_def case_now_def need_def on_deadline_def on_case_def on_db_def get_set_case)
  then have p: "process inp st i now k = backoff (in_worker inp) i now k"
    using c w by (simp add: process_def step_and_fence_def fence_def case_now_def need_def)
  have g: "get_case (k_db (backoff (in_worker inp) i now k)) i = Some (retry_later now (drop_lease (c\<lparr>rc_tries := rc_tries c + 1\<rparr>)))"
    using c w by (simp add: backoff_def get_set_case retry_later_def drop_lease_def reschedule_def)
  have f: "rc_state (retry_later now (drop_lease c')) = rc_state c'" "rc_deadline (retry_later now (drop_lease c')) = rc_deadline c'"
    "rc_tries (retry_later now (drop_lease c')) = rc_tries c'" "rc_lease_owner (retry_later now (drop_lease c')) = None"
    "rc_release (retry_later now (drop_lease c')) = rc_release c'" for c'
    by (simp_all add: retry_later_def drop_lease_def reschedule_def)
  have "k_releases (backoff (in_worker inp) i now k) = k_releases k" "kd_log (k_db (backoff (in_worker inp) i now k)) = kd_log (k_db k)"
    by (simp_all add: backoff_def split: option.split)
  moreover have "pause_one inp st now i ?s = Inl (?e, k)"
    using c st r(1) mir [of ?s c] by (simp add: pause_one_def case_now_def need_def mid_release_def)
  ultimately show ?thesis
    using g st r dl by (simp add: p missed_rollback_def f)
qed

definition demo_released :: kstate where
  "demo_released = (demo_at POST_RELEASE_VERIFYING [])\<lparr>k_releases := [(new_release 8 (demo_case RELEASING) MAINTENANCE_GREEN ''c'' 0)
     \<lparr>rl_status := REL_ROLLED_BACK\<rparr>], k_db := set_case 5 (\<lambda>c. c\<lparr>rc_release := Some 8\<rparr>) (k_db (demo_at POST_RELEASE_VERIFYING []))\<rparr>"

theorem missed_rollback_strands_case_witness:
  "missed_rollback 5 (process demo_input demo_settings 5 (days 3) demo_released)"
proof -
  have c: "get_case (k_db demo_released) 5 = Some ((demo_case POST_RELEASE_VERIFYING)\<lparr>rc_release := Some 8\<rparr>)" by code_simp
  have m: "missed_rollback 5 demo_released" by code_simp
  have w: "rc_lease_owner ((demo_case POST_RELEASE_VERIFYING)\<lparr>rc_release := Some 8\<rparr>) = Some (in_worker demo_input)" by code_simp
  have d: "rc_deadline ((demo_case POST_RELEASE_VERIFYING)\<lparr>rc_release := Some 8\<rparr>) = Some (hours 1)" by code_simp
  show ?thesis
    using conjunct1 [OF conjunct2 [OF missed_rollback_strands_case [OF m c w d, of "days 3" demo_settings]]]
    by (simp add: time_units)
qed

text \<open>
  The wall clock of a case never ends it by itself. A live case that is not exempt has its
  deadline inside the wall clock, so when the wall clock is over the step always takes the deadline
  branch, never the separate wall-clock check of \<open>_step\<close>; and for a case in \<open>BUILDING\<close> with attempts
  left the deadline branch starts another attempt instead of escalating, past the wall clock.
\<close>

theorem wall_clock_is_deadline:
  assumes ok: "rows_ok k" and c: "get_case (k_db k) i = Some c" and "pre_merge (rc_state c) \<or> rc_state c = PROMOTING"
    and over: "rc_case_deadline c \<le> now"
  shows "step_case inp st i now \<lparr>base = k, work = k\<rparr> =
      on_deadline inp st i (get_incident (k_db k) (rc_incident c)) (rc_state c) now
        (on_case i (\<lambda>c. c\<lparr>rc_tries := rc_tries c + 1\<rparr>) \<lparr>base = k, work = k\<rparr>) \<and>
    (rc_state c = BUILDING \<and> rc_attempts c < max_repair_attempts st \<longrightarrow>
      (case step_case inp st i now \<lparr>base = k, work = k\<rparr> of Inl _ \<Rightarrow> False
       | Inr s \<Rightarrow> map_option (\<lambda>c'. (rc_state c', rc_attempts c')) (get_case (k_db (work s)) i) = Some (BUILDING, rc_attempts c + 1)))"
proof -
  let ?z = "\<lparr>base = k, work = k\<rparr>"
  let ?s = "on_case i (\<lambda>c. c\<lparr>rc_tries := rc_tries c + 1\<rparr>) ?z" and ?c = "c\<lparr>rc_tries := rc_tries c + 1\<rparr>"
  have kok: "kdb_ok (k_db (work ?z))" and c0: "get_case (k_db (work ?z)) i = Some c" using ok c by (simp_all add: rows_ok_def)
  note t = tick_case [OF kok c0]
  have "row_ok c" using kdb_okD(3) kok get_case_mem [OF c] by simp
  then obtain dl where dl: "rc_deadline c = Some dl" "dl \<le> now"
    using assms(3) over by (auto simp: row_ok_def pre_merge_def is_terminal_def exempt_from_case_deadline_def)
  then have step: "step_case inp st i now ?z = on_deadline inp st i (get_incident (k_db k) (rc_incident c)) (rc_state c) now ?s"
    using c by (simp add: step_case_def case_now_def need_def Let_def)
  have "case next_attempt_or_rescope inp st i reason fb False now ?s of Inl _ \<Rightarrow> False
      | Inr s \<Rightarrow> map_option (\<lambda>c'. (rc_state c', rc_attempts c')) (get_case (k_db (work s)) i) = Some (BUILDING, rc_attempts c + 1)"
    if b: "rc_state c = BUILDING" "rc_attempts c < max_repair_attempts st" for reason fb
  proof -
    define s1 where "s1 = write_artifact inp i ''attempt_feedback'' (JObj [(''attempt'', JInt (int (rc_attempts c))), (''reason'', JStr reason),
             (''feedback'', strings_json (take 20 fb))]) TRUSTED_EXECUTION (in_worker inp) (rc_plan_rev c) (rc_attempts c) now ?s"
    define s2 where "s2 = on_case i (\<lambda>r. r\<lparr>rc_attempts := rc_attempts r + 1\<rparr>) s1"
    define s3 where "s3 = new_attempt (?c\<lparr>rc_attempts := rc_attempts c + 1\<rparr>) (plan_of ?c s1) s2"
    have c1: "get_case (k_db (work s1)) i = Some ?c" using t(2) by (simp add: s1_def get_case_def write_artifact_frame)
    have ok1: "kdb_ok (k_db (work s1))" using t(1) by (simp add: s1_def write_artifact_ok)
    have c2: "get_case (k_db (work s2)) i = Some (?c\<lparr>rc_attempts := rc_attempts c + 1\<rparr>)"
      using c1 by (simp add: s2_def on_case_def on_db_def get_set_case)
    have ok2: "kdb_ok (k_db (work s2))"
      using rows.change [of "work s1" "\<lambda>r. r\<lparr>rc_attempts := rc_attempts r + 1\<rparr>" i] harmless_fields(3) ok1
      by (simp add: rows_ok_def s2_def on_case_def on_db_def)
    have db3: "k_db (work s3) = k_db (work s2)" by (simp add: s3_def new_attempt_def split: option.split)
    have "may_move BUILDING BUILDING ACTIVITY" by (simp add: table)
    then have "move_to i BUILDING ACTIVITY reason False now s3 = Inr (on_db (\<lambda>_. commit_move i (?c\<lparr>rc_attempts := rc_attempts c + 1\<rparr>)
        BUILDING ACTIVITY reason False 0 now (k_db (work s2))) s3)"
      using active_move_to [of s3 i "?c\<lparr>rc_attempts := rc_attempts c + 1\<rparr>"] ok2 c2 b(1) by (simp add: db3 is_terminal_def)
    moreover have "next_attempt_or_rescope inp st i reason fb False now ?s = move_to i BUILDING ACTIVITY reason False now s3"
      using t(2) b by (simp add: next_attempt_or_rescope_def case_now_def need_def Let_def s3_def s2_def s1_def)
    ultimately show ?thesis using c2 by (simp add: on_db_def)
  qed
  note next_one = this
  have "on_deadline inp st i inc BUILDING now ?s =
      next_attempt_or_rescope inp st i ''deadline:BUILDING'' [''attempt exceeded its deadline''] False now ?s" for inc
    using t(2) by (simp add: on_deadline_def case_now_def need_def)
  with step next_one show ?thesis by simp
qed

theorem wall_clock_is_deadline_witness:
  "let k = demo_logged [(CONFIRMED, CONTROLLER), (TRIAGED, CONTROLLER), (DIAGNOSING, CONTROLLER), (PLAN_READY, ACTIVITY), (BUILDING, CONTROLLER)] in
    case step_case demo_input demo_settings 5 (days 2) \<lparr>base = k, work = k\<rparr> of Inl _ \<Rightarrow> False
      | Inr s \<Rightarrow> map_option (\<lambda>c'. (rc_state c', rc_attempts c')) (get_case (k_db (work s)) 5) = Some (BUILDING, 1)"
proof -
  let ?k = "demo_logged [(CONFIRMED, CONTROLLER), (TRIAGED, CONTROLLER), (DIAGNOSING, CONTROLLER), (PLAN_READY, ACTIVITY), (BUILDING, CONTROLLER)]"
  have "case get_case (k_db ?k) 5 of None \<Rightarrow> False
    | Some c \<Rightarrow> rc_state c = BUILDING \<and> rc_attempts c = 0 \<and> rc_case_deadline c = days 1"
    by code_simp
  then obtain c where c: "get_case (k_db ?k) 5 = Some c" "rc_state c = BUILDING" "rc_attempts c = 0" "rc_case_deadline c = days 1"
    by (auto split: option.splits)
  have "max_repair_attempts demo_settings = 4" by (simp add: demo_settings_def)
  then have "rc_state c = BUILDING \<and> rc_attempts c < max_repair_attempts demo_settings" using c(2,3) by simp
  with conjunct2 [OF wall_clock_is_deadline [OF demo_logged_ok c(1), of "days 2" demo_input demo_settings]] c(2,4)
  have "case step_case demo_input demo_settings 5 (days 2) \<lparr>base = ?k, work = ?k\<rparr> of Inl _ \<Rightarrow> False
      | Inr s \<Rightarrow> map_option (\<lambda>c'. (rc_state c', rc_attempts c')) (get_case (k_db (work s)) 5) = Some (BUILDING, rc_attempts c + 1)"
    by (simp only: pre_merge_def time_units) simp
  then show ?thesis unfolding Let_def c(3) add_0 .
qed

text \<open>
  C23: Claiming is exclusive and takes the most urgent work. A claimed case is due and no other due,
  unlocked case goes before it (by priority, then by next action); and until its lease ends no claim
  of any worker returns it again. A claim finds nothing exactly when nothing is due and unlocked.
\<close>

theorem claim_exclusive:
  assumes "claim w st now locked k = (k', Some i)" and "now' \<le> now + seconds (lease_seconds st)"
  shows "snd (claim w' st' now' locked' k') \<noteq> Some i \<and>
    (\<exists>c. c \<in> set (kd_cases (k_db k)) \<and> rc_id c = i \<and> due now c \<and> i \<notin> set locked \<and>
      filter (\<lambda>c'. due now c' \<and> rc_id c' \<notin> set locked \<and> \<not> goes_first c c') (kd_cases (k_db k)) = []) \<and>
    (snd (claim w' st' now' locked' k') = None \<longleftrightarrow> filter (\<lambda>c'. due now' c' \<and> rc_id c' \<notin> set locked') (kd_cases (k_db k')) = [])"
proof -
  from assms(1) obtain c where c: "first_case (filter (\<lambda>c. due now c \<and> rc_id c \<notin> set locked) (kd_cases (k_db k))) = Some c" "rc_id c = i"
    and k': "k' = k\<lparr>k_db := set_case i (lease_to w (now + seconds (lease_seconds st))) (k_db k)\<rparr>"
    by (auto simp: claim_def split: option.splits)
  have leased: "\<not> due now' x" if x: "x \<in> set (kd_cases (k_db k'))" "rc_id x = i" for x
  proof -
    from x(1) obtain y where y: "x = (if rc_id y = i then lease_to w (now + seconds (lease_seconds st)) y else y)"
      unfolding k' by (auto simp: set_upd_key)
    with x(2) have "rc_lease_until x = Some (now + seconds (lease_seconds st))" by (cases "rc_id y = i") (simp_all add: lease_to_def)
    with assms(2) show ?thesis by (simp add: due_def lease_free_def)
  qed
  have "snd (claim w' st' now' locked' k') \<noteq> Some i"
  proof
    assume "snd (claim w' st' now' locked' k') = Some i"
    then obtain x where "first_case (filter (\<lambda>c. due now' c \<and> rc_id c \<notin> set locked') (kd_cases (k_db k'))) = Some x" "rc_id x = i"
      by (auto simp: claim_def split: option.splits)
    then show False using first_case_min leased by fastforce
  qed
  moreover have "\<exists>c. c \<in> set (kd_cases (k_db k)) \<and> rc_id c = i \<and> due now c \<and> i \<notin> set locked \<and>
      filter (\<lambda>c'. due now c' \<and> rc_id c' \<notin> set locked \<and> \<not> goes_first c c') (kd_cases (k_db k)) = []"
    using first_case_min [OF c(1)] c(2) by (intro exI [of _ c]) (auto simp: filter_empty_conv)
  moreover have "snd (claim w' st' now' locked' k') = None \<longleftrightarrow> filter (\<lambda>c'. due now' c' \<and> rc_id c' \<notin> set locked') (kd_cases (k_db k')) = []"
    using first_case_None [of "filter (\<lambda>c'. due now' c' \<and> rc_id c' \<notin> set locked') (kd_cases (k_db k'))"]
    by (auto simp: claim_def split: option.splits)
  ultimately show ?thesis by (intro conjI)
qed

theorem claim_exclusive_witness:
  "snd (claim ''w'' demo_settings 0 [] (demo_start\<lparr>k_db := demo_moves []\<rparr>)) = Some 5 \<and>
    snd (claim ''v'' demo_settings (minutes 15) [] (fst (claim ''w'' demo_settings 0 [] (demo_start\<lparr>k_db := demo_moves []\<rparr>)))) \<noteq> Some 5"
proof -
  let ?k = "demo_start\<lparr>k_db := demo_moves []\<rparr>"
  have s: "snd (claim ''w'' demo_settings 0 [] ?k) = Some 5" by code_simp
  then have "claim ''w'' demo_settings 0 [] ?k = (fst (claim ''w'' demo_settings 0 [] ?k), Some 5)" by (metis prod.collapse)
  from claim_exclusive [OF this, of "minutes 15"] s show ?thesis
    by (simp add: time_units demo_settings_def)
qed

text \<open>
  Resuming a promotion after the wall clock ends the case. The owner's resumption of an
  escalated case is accepted and moves it to \<open>PROMOTING\<close>, but if the wall clock of the case is over
  its new deadline is the wall clock itself, in the past: the next step escalates the case again,
  this time for good.
\<close>

theorem late_resume_is_undone:
  assumes ok: "kdb_ok (k_db k)" and c: "get_case (k_db k) i = Some c" and st: "rc_state c = SAFELY_ESCALATED" "rc_resumable c"
    and target: "resume_target (reason_head c) = Some PROMOTING" and p: "rc_promotion c = Some p" and over: "rc_case_deadline c \<le> now"
  shows "\<exists>d'. owner_resume owner note u i now (k_db k) = Inr d' \<and> map_option rc_state (get_case d' i) = Some PROMOTING \<and>
    map_option (\<lambda>c'. (rc_state c', rc_resumable c'))
      (get_case (k_db (process inp st' i now (k\<lparr>k_db := set_case i (lease_to (in_worker inp) until) d'\<rparr>))) i) =
      Some (SAFELY_ESCALATED, False)"
proof -
  have "may_move SAFELY_ESCALATED PROMOTING OWNER" by (simp add: table)
  then have chk: "check_transition (rc_state c) PROMOTING OWNER (rc_resumable c) = Inr ()"
    using st by (simp add: check_transition_ok)
  let ?r = "take 64 (''owner_resume:'' @ reason_head c)"
  define d' where "d' = commit_move i c PROMOTING OWNER ?r False 0 now (k_db k)"
  define m where "m = moved PROMOTING ?r False 0 now c"
  have tr: "transition i PROMOTING OWNER ?r False 0 now (k_db k) = Inr d'"
    using active_move [OF ok c _ chk] st by (simp add: active_def d'_def)
  have ok': "kdb_ok d'" by (rule transition_ok [OF ok tr])
  have m: "get_case d' i = Some m" using c by (simp add: d'_def m_def)
  have dl: "rc_deadline m = Some (rc_case_deadline c)" "rc_state m = PROMOTING"
    using over by (simp_all add: m_def moved_def enter_live_def is_terminal_def exempt_from_case_deadline_def deadline_for_def row_def
        time_units Let_def)
  have resume: "owner_resume owner note u i now (k_db k) = Inr d'"
    using c st target p tr by (simp add: owner_resume_def guardE_def Let_def)
  let ?k = "k\<lparr>k_db := set_case i (lease_to (in_worker inp) until) d'\<rparr>" and ?m = "lease_to (in_worker inp) until m"
  have rows: "rows_ok ?k"
    using rows.change [of "k\<lparr>k_db := d'\<rparr>", OF _ harmless_fields(16)] ok' by (simp add: rows_ok_def)
  have cm: "get_case (k_db ?k) i = Some ?m" using m by (simp add: get_set_case lease_to_def)
  have "\<exists>c'. get_case (k_db (process inp st' i now ?k)) i = Some c' \<and> rc_state c' = recovery_state st' (k_db ?k) ?m now \<and>
      rc_resumable c' = False \<and> rc_lease_owner c' = None"
    by (rule deadline_process [OF rows cm _ _ _ over]) (use dl in \<open>simp_all add: lease_to_def is_terminal_def\<close>)
  moreover have "recovery_state st' (k_db ?k) ?m now = SAFELY_ESCALATED"
    using dl by (simp add: recovery_state_def lease_to_def)
  ultimately show ?thesis using resume m dl by auto
qed

definition demo_escalated :: kstate where
  "demo_escalated = demo_start\<lparr>k_db := set_case 5 (\<lambda>c. c\<lparr>rc_promotion := Some 3, rc_terminal_reason := Some ''promotion_disabled''\<rparr>)
     (demo_moves [(SAFELY_ESCALATED, CONTROLLER)])\<rparr>"

theorem late_resume_is_undone_witness:
  "\<exists>d'. owner_resume ''owner'' ''go on'' 9 5 (days 2) (k_db demo_escalated) = Inr d' \<and> map_option rc_state (get_case d' 5) = Some PROMOTING \<and>
    map_option (\<lambda>c'. (rc_state c', rc_resumable c'))
      (get_case (k_db (process demo_input demo_settings 5 (days 2) (demo_escalated\<lparr>k_db := set_case 5 (lease_to ''w'' (days 3)) d'\<rparr>))) 5) =
      Some (SAFELY_ESCALATED, False)"
proof -
  have "case get_case (k_db demo_escalated) 5 of None \<Rightarrow> False | Some c \<Rightarrow> rc_state c = SAFELY_ESCALATED \<and> rc_resumable c \<and>
      resume_target (reason_head c) = Some PROMOTING \<and> rc_promotion c = Some 3 \<and> rc_case_deadline c = days 1"
    by code_simp
  then obtain c where c: "get_case (k_db demo_escalated) 5 = Some c" "rc_state c = SAFELY_ESCALATED" "rc_resumable c"
      "resume_target (reason_head c) = Some PROMOTING" "rc_promotion c = Some 3" "rc_case_deadline c = days 1"
    by (auto split: option.splits)
  have "harmless (\<lambda>c. c\<lparr>rc_promotion := Some 3, rc_terminal_reason := Some ''promotion_disabled''\<rparr>)"
    by (simp add: harmless_def same_shape_def row_ok_def)
  then have ok: "kdb_ok (k_db demo_escalated)"
    using rows.change [of "demo_start\<lparr>k_db := demo_moves [(SAFELY_ESCALATED, CONTROLLER)]\<rparr>"] demo_moves_ok
    by (simp add: demo_escalated_def rows_ok_def)
  have over: "rc_case_deadline c \<le> days 2" by (simp add: c(6) time_units)
  have w: "in_worker demo_input = ''w''" by simp
  from late_resume_is_undone [OF ok c(1-5) over, of "''owner''" "''go on''" 9 demo_input demo_settings "days 3", unfolded w]
  show ?thesis .
qed

end
