(* ===== verification/Glob.thy ===== *)
theory Glob
  imports Fingerprint
begin

text \<open>
  The string matching the risk classifier rests on: \<open>fnmatch.fnmatchcase\<close> for patterns built from
  literals, \<open>*\<close> and \<open>?\<close>, the part of \<open>re\<close> its patterns use, and \<open>str.splitlines\<close>; on ASCII
  strings. \<open>ends r s i\<close> are the positions of \<open>s\<close> where a match of \<open>r\<close> begun at \<open>i\<close> can end, and
  \<open>rmatch\<close> is the declarative reading of the same patterns, against which \<open>ends\<close> is proved exact.
\<close>

text \<open>The case of a letter is one bit of its code, which the evaluation of concrete patterns uses.\<close>

lemma lower_char_bits [code]:
  "lower_char (Char b0 b1 b2 b3 b4 b5 b6 b7) =
    (if \<not> b7 \<and> b6 \<and> \<not> b5 \<and> (b0 \<or> b1 \<or> b2 \<or> b3 \<or> b4) \<and> \<not> (b4 \<and> b3 \<and> (b2 \<or> b1 \<and> b0))
     then Char b0 b1 b2 b3 b4 True b6 b7 else Char b0 b1 b2 b3 b4 b5 b6 b7)"
  by (cases b0; cases b1; cases b2; cases b3; cases b4; cases b5; cases b6; cases b7; simp add: lower_char_def char_of_def bit_0)

section \<open>File name patterns\<close>

fun glob :: "string \<Rightarrow> string \<Rightarrow> bool" where
  "glob [] s = (s = [])"
| "glob (p # ps) [] = (p = CHR ''*'' \<and> glob ps [])"
| "glob (p # ps) (c # cs) =
    (if p = CHR ''*'' then (if glob ps (c # cs) then True else glob (p # ps) cs)
     else if p = CHR ''?'' \<or> p = c then glob ps cs else False)"

definition plain :: "string \<Rightarrow> bool" where
  "plain p \<longleftrightarrow> list_all (\<lambda>c. c \<noteq> CHR ''*'' \<and> c \<noteq> CHR ''?'') p"

lemma glob_star: "glob (CHR ''*'' # p) s \<longleftrightarrow> (\<exists>a b. s = a @ b \<and> glob p b)"
proof (induction s)
  case Nil
  then show ?case by simp
next
  case (Cons c cs)
  have "(\<exists>a b. c # cs = a @ b \<and> glob p b) \<longleftrightarrow> glob p (c # cs) \<or> (\<exists>a b. cs = a @ b \<and> glob p b)"
    by (auto simp: Cons_eq_append_conv)
  with Cons show ?case by simp
qed

lemma glob_plain_append: "plain l \<Longrightarrow> glob (l @ p) s \<longleftrightarrow> (\<exists>b. s = l @ b \<and> glob p b)"
proof (induction l arbitrary: s)
  case Nil
  then show ?case by simp
next
  case (Cons x xs)
  then show ?case by (cases s) (auto simp: plain_def)
qed

lemma glob_plain: "plain p \<Longrightarrow> glob p s \<longleftrightarrow> s = p"
  using glob_plain_append [of p "[]" s] by simp

lemma glob_all [simp]: "glob ''*'' s"
  by (simp add: glob_star)

lemma glob_prefix: "plain l \<Longrightarrow> glob (l @ ''*'') s \<longleftrightarrow> (\<exists>b. s = l @ b)"
  by (simp add: glob_plain_append)

lemma glob_infix: "plain l \<Longrightarrow> glob (''*'' @ l @ ''*'') s \<longleftrightarrow> (\<exists>a b. s = a @ l @ b)"
  by (auto simp: glob_star glob_prefix)

lemma glob_append: "glob p s \<Longrightarrow> glob q t \<Longrightarrow> glob (p @ q) (s @ t)"
proof (induction p s rule: glob.induct)
  case (2 p ps)
  then show ?case by (simp add: glob_star) (metis append_Nil)
next
  case (3 p ps c cs)
  then show ?case by (auto split: if_splits)
qed simp

section \<open>Regular expressions\<close>

datatype rx =
    Cls "char \<Rightarrow> bool" | Eps | Seq rx rx | Alt rx rx | Star rx | Bol | Eol | Wb

definition word_char :: "char \<Rightarrow> bool" where
  "word_char c \<longleftrightarrow> is_alnum c \<or> c = CHR ''_''"

text \<open>\<open>\b\<close>, and \<open>$\<close> without \<open>re.MULTILINE\<close>: the end, or before a final newline.\<close>

definition word_at :: "string \<Rightarrow> nat \<Rightarrow> bool" where
  "word_at s i \<longleftrightarrow> i < length s \<and> word_char (s ! i)"

definition boundary :: "string \<Rightarrow> nat \<Rightarrow> bool" where
  "boundary s i \<longleftrightarrow> (0 < i \<and> word_at s (i - 1)) \<noteq> word_at s i"

definition at_end :: "string \<Rightarrow> nat \<Rightarrow> bool" where
  "at_end s i \<longleftrightarrow> i = length s \<or> Suc i = length s \<and> s ! i = CHR 0x0A"

fun repeat :: "nat \<Rightarrow> (nat \<Rightarrow> nat list) \<Rightarrow> nat \<Rightarrow> nat list" where
  "repeat 0 f i = [i]"
| "repeat (Suc n) f i = i # concat (map (repeat n f) (filter (\<lambda>j. i < j) (f i)))"

fun ends :: "rx \<Rightarrow> string \<Rightarrow> nat \<Rightarrow> nat list" where
  "ends (Cls p) s i = (if i < length s \<and> p (s ! i) then [Suc i] else [])"
| "ends Eps s i = [i]"
| "ends (Seq a b) s i = concat (map (ends b s) (ends a s i))"
| "ends (Alt a b) s i = ends a s i @ ends b s i"
| "ends (Star a) s i = repeat (length s) (ends a s) i"
| "ends Bol s i = (if i = 0 then [i] else [])"
| "ends Eol s i = (if at_end s i then [i] else [])"
| "ends Wb s i = (if boundary s i then [i] else [])"

definition search :: "rx \<Rightarrow> string \<Rightarrow> bool" where
  "search r s \<longleftrightarrow> list_ex (\<lambda>i. ends r s i \<noteq> []) [0..<Suc (length s)]"

inductive rmatch :: "string \<Rightarrow> rx \<Rightarrow> nat \<Rightarrow> nat \<Rightarrow> bool" for s where
  m_cls: "i < length s \<Longrightarrow> p (s ! i) \<Longrightarrow> rmatch s (Cls p) i (Suc i)"
| m_eps: "rmatch s Eps i i"
| m_seq: "rmatch s a i j \<Longrightarrow> rmatch s b j k \<Longrightarrow> rmatch s (Seq a b) i k"
| m_left: "rmatch s a i j \<Longrightarrow> rmatch s (Alt a b) i j"
| m_right: "rmatch s b i j \<Longrightarrow> rmatch s (Alt a b) i j"
| m_done: "rmatch s (Star a) i i"
| m_more: "rmatch s a i j \<Longrightarrow> rmatch s (Star a) j k \<Longrightarrow> rmatch s (Star a) i k"
| m_bol: "rmatch s Bol 0 0"
| m_eol: "at_end s i \<Longrightarrow> rmatch s Eol i i"
| m_wb: "boundary s i \<Longrightarrow> rmatch s Wb i i"

inductive_simps rmatch_simps:
  "rmatch s (Cls p) i j" "rmatch s Eps i j" "rmatch s (Seq a b) i j" "rmatch s (Alt a b) i j"
  "rmatch s Bol i j" "rmatch s Eol i j" "rmatch s Wb i j"

lemma rmatch_mono: "rmatch s r i j \<Longrightarrow> i \<le> j"
  by (induction rule: rmatch.induct) auto

lemma rmatch_inside: "rmatch s r i j \<Longrightarrow> i \<le> length s \<Longrightarrow> j \<le> length s"
  by (induction rule: rmatch.induct) auto

text \<open>The iterations of a star advance, so \<open>length s\<close> of them are enough.\<close>

lemma repeat_sound:
  assumes f: "\<And>i j. j \<in> set (f i) \<Longrightarrow> rmatch s a i j"
  shows "j \<in> set (repeat n f i) \<Longrightarrow> rmatch s (Star a) i j"
proof (induction n arbitrary: i)
  case (Suc n)
  then show ?case by (auto intro: m_done m_more f)
qed (simp add: m_done)

lemma repeat_complete:
  assumes "\<And>i j. i \<le> length s \<Longrightarrow> rmatch s a i j \<Longrightarrow> j \<in> set (f i)"
    and "rmatch s (Star a) i j" and "i \<le> length s" and "length s - i \<le> n"
  shows "j \<in> set (repeat n f i)"
  using assms(2-4)
proof (induction "Star a" i j arbitrary: n rule: rmatch.induct)
  case (m_done i)
  then show ?case by (cases n) auto
next
  case (m_more i j k)
  have jl: "j \<le> length s" and ij: "i \<le> j" and jk: "j \<le> k"
    using m_more.hyps m_more.prems rmatch_inside rmatch_mono by blast+
  show ?case
  proof (cases "i = j")
    case True
    then show ?thesis using m_more by blast
  next
    case False
    with ij jl m_more.prems obtain m where n: "n = Suc m" and m: "length s - j \<le> m"
      by (cases n) auto
    have "j \<in> set (f i)"
      using assms(1) m_more by blast
    moreover have "k \<in> set (repeat m f j)"
      using m_more jl m by blast
    ultimately show ?thesis using False ij n by auto
  qed
qed

lemma ends_sound: "j \<in> set (ends r s i) \<Longrightarrow> rmatch s r i j"
proof (induction r arbitrary: i j)
  case (Seq a b)
  then show ?case by (auto simp: rmatch_simps) blast
next
  case (Star a)
  then show ?case using repeat_sound [of "ends a s" s a] by simp
qed (auto simp: rmatch_simps split: if_splits)

lemma ends_complete: "rmatch s r i j \<Longrightarrow> i \<le> length s \<Longrightarrow> j \<in> set (ends r s i)"
proof (induction r arbitrary: i j)
  case (Seq a b)
  then show ?case by (auto simp: rmatch_simps) (meson rmatch_inside)
next
  case (Star a)
  then show ?case using repeat_complete [of s a "ends a s"] by simp
qed (auto simp: rmatch_simps)

theorem ends_exact: "i \<le> length s \<Longrightarrow> j \<in> set (ends r s i) \<longleftrightarrow> rmatch s r i j"
  using ends_sound ends_complete by blast

lemma search_exact: "search r s \<longleftrightarrow> (\<exists>i j. i \<le> length s \<and> rmatch s r i j)"
proof -
  have "ends r s i \<noteq> [] \<longleftrightarrow> (\<exists>j. rmatch s r i j)" if "i \<le> length s" for i
    using ends_exact [OF that] by (metis list.set_intros(1) list.set_cases neq_Nil_conv empty_iff list.set(1))
  then show ?thesis
    by (auto simp: search_def list_ex_iff less_Suc_eq_le simp del: upt_Suc)
qed

section \<open>Patterns built from words\<close>

definition lit :: "string \<Rightarrow> rx" where
  "lit w = foldr (\<lambda>c. Seq (Cls (\<lambda>x. x = c))) w Eps"

text \<open>\<open>re.I\<close>.\<close>

definition ilit :: "string \<Rightarrow> rx" where
  "ilit w = foldr (\<lambda>c. Seq (Cls (\<lambda>x. lower_char x = lower_char c))) w Eps"

definition seqs :: "rx list \<Rightarrow> rx" where
  "seqs rs = foldr Seq rs Eps"

fun alts :: "rx list \<Rightarrow> rx" where
  "alts [] = Cls (\<lambda>c. False)"
| "alts [r] = r"
| "alts (r # q # rs) = Alt r (alts (q # rs))"

definition opt :: "rx \<Rightarrow> rx" where
  "opt r = Alt r Eps"

definition plus :: "rx \<Rightarrow> rx" where
  "plus r = Seq r (Star r)"

definition one_of :: "string \<Rightarrow> rx" where
  "one_of w = Cls (\<lambda>c. c \<in> set w)"

definition none_of :: "string \<Rightarrow> rx" where
  "none_of w = Cls (\<lambda>c. c \<notin> set w)"

text \<open>\<open>\s*\<close>, \<open>\w\<close> and \<open>.*\<close>.\<close>

definition ws :: rx where
  "ws = Star (Cls whitespace)"

definition wc :: rx where
  "wc = Cls word_char"

definition anything :: rx where
  "anything = Star (Cls (\<lambda>c. c \<noteq> CHR 0x0A))"

lemmas rx_defs = lit_def ilit_def seqs_def opt_def plus_def one_of_def none_of_def ws_def wc_def anything_def

lemma drop_Cons_nth: "i < length s \<Longrightarrow> drop i s = s ! i # drop (Suc i) s"
  by (simp add: Cons_nth_drop_Suc)

lemma rmatch_ilit:
  "i \<le> length s \<Longrightarrow> rmatch s (ilit w) i j \<longleftrightarrow> j = i + length w \<and> starts_with (lower w) (lower (drop i s))"
proof (induction w arbitrary: i)
  case Nil
  then show ?case by (auto simp: ilit_def rmatch_simps lower_def starts_with_def)
next
  case (Cons c w)
  show ?case
  proof (cases "i < length s")
    case True
    have "rmatch s (ilit (c # w)) i j \<longleftrightarrow> lower_char (s ! i) = lower_char c \<and> rmatch s (ilit w) (Suc i) j"
      using True by (auto simp: ilit_def rmatch_simps)
    then show ?thesis
      using True Cons.IH [of "Suc i"]
      by (auto simp: drop_Cons_nth lower_def starts_with_def)
  next
    case False
    with Cons.prems show ?thesis
      by (auto simp: ilit_def rmatch_simps lower_def starts_with_def)
  qed
qed

lemma rmatch_alts: "rmatch s (alts rs) i j \<longleftrightarrow> (\<exists>r \<in> set rs. rmatch s r i j)"
  by (induction rs rule: alts.induct) (auto simp: rmatch_simps)

text \<open>\<open>\b(w1|w2|...)\b\<close> with \<open>re.I\<close>, and what it finds.\<close>

definition whole_words :: "string list \<Rightarrow> rx" where
  "whole_words vs = Seq Wb (Seq (alts (map ilit vs)) Wb)"

lemma search_whole_words:
  "search (whole_words vs) s \<longleftrightarrow>
    (\<exists>i \<le> length s. \<exists>w \<in> set vs. starts_with (lower w) (lower (drop i s)) \<and> boundary s i \<and> boundary s (i + length w))"
proof -
  have "(\<exists>j. rmatch s (whole_words vs) i j) \<longleftrightarrow>
      (\<exists>w \<in> set vs. starts_with (lower w) (lower (drop i s)) \<and> boundary s i \<and> boundary s (i + length w))"
    if "i \<le> length s" for i
    using rmatch_ilit [OF that] by (simp add: whole_words_def rmatch_simps rmatch_alts) blast
  then show ?thesis unfolding search_exact by blast
qed

section \<open>Lines\<close>

text \<open>\<open>str.splitlines()\<close>: a carriage return followed by a line feed is one terminator.\<close>

definition line_end :: "char \<Rightarrow> bool" where
  "line_end c \<longleftrightarrow> (let n = of_char c :: nat in 10 \<le> n \<and> n \<le> 13 \<or> 28 \<le> n \<and> n \<le> 30)"

fun lines_from :: "string \<Rightarrow> string \<Rightarrow> string list" where
  "lines_from acc [] = (if acc = [] then [] else [rev acc])"
| "lines_from acc (c # cs) =
    (if line_end c then rev acc # (case cs of d # ds \<Rightarrow> lines_from [] (if c = CHR 0x0D \<and> d = CHR 0x0A then ds else cs) | [] \<Rightarrow> [])
     else lines_from (c # acc) cs)"

definition splitlines :: "string \<Rightarrow> string list" where
  "splitlines s = lines_from [] s"

lemma lines_from_line:
  "list_all (\<lambda>c. \<not> line_end c) l \<Longrightarrow> lines_from acc (l @ s) = lines_from (rev l @ acc) s"
  by (induction l arbitrary: acc) auto

lemma splitlines_one:
  assumes "list_all (\<lambda>c. \<not> line_end c) l" and "line_end e" and "e \<noteq> CHR 0x0D"
  shows "splitlines (l @ e # s) = l # splitlines s"
  using assms by (cases s) (auto simp: splitlines_def lines_from_line)

lemma splitlines_last: "list_all (\<lambda>c. \<not> line_end c) l \<Longrightarrow> l \<noteq> [] \<Longrightarrow> splitlines l = [l]"
  using lines_from_line [of l "[]" "[]"] by (simp add: splitlines_def)

end
