(* ===== verification/Risk.thy ===== *)
theory Risk
  imports Glob
begin

text \<open>
  The trusted change-risk classifier (\<open>services/registry/app/society/risk.py\<close>): the pattern lists, the
  tier of a path, the scan of a unified diff for gate-disabling edits, and the assessment of a
  change. Paths and diffs are ASCII strings; no pattern of the lists contains a bracket, so
  \<open>fnmatch\<close> is \<open>glob\<close>.
\<close>

section \<open>Tiers\<close>

datatype tier = TIER_GREEN | TIER_AMBER | TIER_RED | TIER_NEVER

fun tier_value :: "tier \<Rightarrow> string" where
  "tier_value TIER_GREEN = ''green''"
| "tier_value TIER_AMBER = ''amber''"
| "tier_value TIER_RED = ''red''"
| "tier_value TIER_NEVER = ''never''"

fun tier_order :: "tier \<Rightarrow> nat" where
  "tier_order TIER_GREEN = 0"
| "tier_order TIER_AMBER = 1"
| "tier_order TIER_RED = 2"
| "tier_order TIER_NEVER = 3"

lemma tier_order_inj: "tier_order a = tier_order b \<longleftrightarrow> a = b"
  by (cases a; cases b) simp_all

instantiation tier :: linorder
begin

definition less_eq_tier :: "tier \<Rightarrow> tier \<Rightarrow> bool" where
  "a \<le> b \<longleftrightarrow> tier_order a \<le> tier_order b"

definition less_tier :: "tier \<Rightarrow> tier \<Rightarrow> bool" where
  "a < b \<longleftrightarrow> tier_order a < tier_order b"

instance
  by standard (auto simp: less_eq_tier_def less_tier_def tier_order_inj)

end

definition max_tier :: "tier list \<Rightarrow> tier" where
  "max_tier ts = foldl (\<lambda>best t. if tier_order best < tier_order t then t else best) TIER_GREEN ts"

definition tier_at_least :: "tier \<Rightarrow> tier \<Rightarrow> bool" where
  "tier_at_least t floor_tier \<longleftrightarrow> tier_order floor_tier \<le> tier_order t"

lemma tier_green_least [simp]: "TIER_GREEN \<le> t"
  by (simp add: less_eq_tier_def)

lemma tier_never_greatest [simp]: "t \<le> TIER_NEVER"
  by (cases t) (simp_all add: less_eq_tier_def)

lemma max_tier_max: "max_tier ts = foldl max TIER_GREEN ts"
proof -
  have "(\<lambda>best t. if tier_order best < tier_order t then t else best) = (max :: tier \<Rightarrow> tier \<Rightarrow> tier)"
    by (intro ext) (auto simp: max_def less_eq_tier_def tier_order_inj)
  then show ?thesis by (simp add: max_tier_def)
qed

lemma foldl_max_le: "foldl max a ts \<le> b \<longleftrightarrow> a \<le> b \<and> (\<forall>t \<in> set ts. t \<le> b)" for a b :: "'a :: linorder"
  by (induction ts arbitrary: a) auto

lemma max_tier_Nil [simp]: "max_tier [] = TIER_GREEN"
  by (simp add: max_tier_def)

lemma max_tier_le: "max_tier ts \<le> b \<longleftrightarrow> (\<forall>t \<in> set ts. t \<le> b)"
  by (simp add: max_tier_max foldl_max_le)

section \<open>Pattern lists\<close>

definition never_write_patterns :: "string list" where
  "never_write_patterns =
   [''.env*'', ''*/.env*'', ''.git/*'', ''*.pem'', ''*.key'', ''*.p12'', ''*.pfx'', ''*secret*'',
     ''*/secrets/*'', ''*credential*'', ''id_rsa*'', ''*.keystore'']"

definition never_read_patterns :: "string list" where
  "never_read_patterns =
   never_write_patterns @ [''*.sqlite'', ''*.db'', ''*/node_modules/*'', ''*/__pycache__/*'', ''*.pyc'',
     ''*.log'', ''*/.venv/*'', ''*/.service-envs/*'', ''*/.sdk-envs/*'']"

definition red_patterns :: "string list" where
  "red_patterns =
   [''services/registry/app/society/*'', ''services/registry/app/society/**'', ''tests/society/*'',
     ''tests/society/**'', ''services/*/app/auth.py'', ''services/*/app/authz.py'',
     ''services/*/app/security.py'', ''services/*/app/config.py'', ''services/*/app/api/rate_limiter.py'',
     ''services/registry/app/task_service.py'', ''services/registry/app/task_contract.py'',
     ''services/registry/app/websocket_manager.py'', ''services/registry/app/api/routes/websocket.py'',
     ''services/registry/app/api/routes/auth.py'', ''services/registry/app/api/routes/tokens.py'',
     ''services/registry/app/api/routes/society.py'', ''services/registry/app/db_bootstrap.py'',
     ''services/registry/app/schema_app_sql.py'', ''services/payment/*'', ''services/payment/**'',
     ''services/registry/init-db/*'', ''services/registry/migrations/*'',
     ''services/registry/migrations/**'', ''*/Dockerfile'', ''Dockerfile'', ''*/entrypoint.sh'',
     ''docker-compose*.yml'', ''deploy/*'', ''deploy/**'', ''.github/*'', ''.github/**'',
     ''*requirements*.txt'', ''requirements-dev.txt'', ''pytest.ini'', ''scripts/ci/*'', ''scripts/ci/**'',
     ''Makefile'', ''services/dashboard/tests/test_public_surface.py'',
     ''services/registry/app/maintenance/*'', ''services/registry/app/maintenance/**'',
     ''services/registry/app/api/routes/maintenance.py'',
     ''services/dashboard/tests/test_experience_contract.py'',
     ''docs/adr/0010-autonomous-maintenance-os.md'', ''.railway/*'', ''.railway/**'']"

definition green_patterns :: "string list" where
  "green_patterns =
   [''docs/*'', ''docs/**'', ''*.md'', ''*.rst'', ''*.txt'', ''services/dashboard/app/templates/*'',
     ''services/dashboard/app/templates/**'', ''services/dashboard/app/static/**'', ''tests/fixtures/**'',
     ''examples/**/*.md'']"

definition owner_merge_patterns :: "string list" where
  "owner_merge_patterns =
   [''services/registry/app/society/risk.py'', ''services/registry/app/society/fitness.py'',
     ''services/registry/app/society/promotion.py'', ''services/registry/app/society/promotion_github.py'',
     ''services/registry/app/society/promotion_queue.py'', ''services/registry/app/society/policy.py'',
     ''services/registry/app/society/approvals.py'', ''services/registry/app/society/operator_auth.py'',
     ''services/registry/app/society/config.py'', ''services/registry/app/society/github_credentials.py'',
     ''services/registry/app/society/secret_redaction.py'', ''services/registry/app/society/toolbox.py'',
     ''tests/society/test_toolbox.py'', ''services/registry/app/maintenance/policy.py'',
     ''tests/society/test_promotion.py'', ''tests/society/test_auto_merge_tiers.py'',
     ''tests/society/test_risk_and_meta_change.py'', ''tests/society/test_fitness.py'',
     ''services/registry/app/society/engineering/qa.py'', ''services/registry/app/society/spec_gate.py'',
     ''services/registry/app/society/design_review.py'', ''services/registry/app/society/surface.py'',
     ''services/registry/app/society/public_surface_contract.json'',
     ''services/registry/app/maintenance/release*.py'',
     ''services/registry/app/maintenance/desired_state.json'',
     ''services/dashboard/tests/test_public_surface.py'',
     ''services/dashboard/tests/test_experience_contract.py'', ''tests/society/test_engineering.py'',
     ''tests/society/test_qa_env.py'', ''tests/society/test_spec_gate.py'',
     ''tests/society/test_ticket_spec_gate.py'', ''tests/society/test_design_review.py'',
     ''tests/society/test_public_surface_monitor.py'',
     ''tests/society/maintenance/test_release_preview.py'',
     ''tests/society/maintenance/test_boundaries.py'', ''deploy/*'', ''deploy/**'', ''.railway/*'',
     ''.railway/**'', ''.github/*'', ''.github/**'', ''pytest.ini'', ''scripts/ci/*'', ''scripts/ci/**'']"

definition judge_paths :: "string list" where
  "judge_paths =
   [''services/registry/app/society/engineering/qa.py'', ''services/registry/app/society/spec_gate.py'',
     ''services/registry/app/society/design_review.py'', ''services/registry/app/society/surface.py'',
     ''services/registry/app/society/public_surface_contract.json'',
     ''services/registry/app/society/risk.py'', ''services/registry/app/society/fitness.py'',
     ''services/registry/app/society/promotion.py'', ''services/registry/app/society/policy.py'',
     ''services/registry/app/society/toolbox.py'', ''services/registry/app/maintenance/release.py'',
     ''services/registry/app/maintenance/release_worker.py'',
     ''services/registry/app/maintenance/release_providers.py'',
     ''services/registry/app/maintenance/desired_state.json'',
     ''services/dashboard/tests/test_public_surface.py'',
     ''services/dashboard/tests/test_experience_contract.py'', ''tests/society/test_engineering.py'',
     ''tests/society/test_qa_env.py'', ''tests/society/test_spec_gate.py'',
     ''tests/society/test_design_review.py'', ''tests/society/test_fitness.py'',
     ''tests/society/test_risk_and_meta_change.py'', ''deploy/railway/phase5_live.py'',
     ''.github/workflows/ci.yml'', ''pytest.ini'', ''scripts/ci/check_test_discovery.py'']"

definition green_override_patterns :: "string list" where
  "green_override_patterns =
   [''tests/society/acceptance/*'']"

section \<open>Paths\<close>

fun strip_dot :: "string \<Rightarrow> string" where
  "strip_dot (a # b # s) = (if a = CHR ''.'' \<and> b = CHR ''/'' then strip_dot s else a # b # s)"
| "strip_dot s = s"

definition ends_with :: "string \<Rightarrow> string \<Rightarrow> bool" where
  "ends_with x s \<longleftrightarrow> length x \<le> length s \<and> drop (length s - length x) s = x"

definition norm_path :: "string \<Rightarrow> string" where
  "norm_path path = lower (strip_dot path)"

definition match_one :: "string \<Rightarrow> string \<Rightarrow> bool" where
  "match_one p pat \<longleftrightarrow> glob pat p \<or> glob (''*/'' @ pat) p \<or>
     ends_with ''/*'' pat \<and> starts_with (take (length pat - 1) pat) p \<or>
     ends_with ''/**'' pat \<and> starts_with (take (length pat - 2) pat) p"

definition match_any :: "string \<Rightarrow> string list \<Rightarrow> bool" where
  "match_any path patterns \<longleftrightarrow> list_ex (\<lambda>raw. match_one (norm_path path) (lower raw)) patterns"

definition is_never_writable :: "string \<Rightarrow> bool" where
  "is_never_writable path \<longleftrightarrow> match_any path never_write_patterns"

definition is_never_readable :: "string \<Rightarrow> bool" where
  "is_never_readable path \<longleftrightarrow> match_any path never_read_patterns"

definition tier_for_path :: "string \<Rightarrow> tier" where
  "tier_for_path path =
    (if is_never_writable path then TIER_NEVER
     else if match_any path green_override_patterns then TIER_GREEN
     else if match_any path red_patterns then TIER_RED
     else if match_any path green_patterns then TIER_GREEN
     else TIER_AMBER)"

definition owner_merge_paths :: "string list \<Rightarrow> string list" where
  "owner_merge_paths paths = filter (\<lambda>p. match_any p owner_merge_patterns) paths"

definition judges_not_owner_only :: "string list option \<Rightarrow> string list" where
  "judges_not_owner_only patterns =
    filter (\<lambda>p. \<not> match_any p (case patterns of None \<Rightarrow> owner_merge_patterns | Some ps \<Rightarrow> ps)) judge_paths"

text \<open>Paths that differ in a leading \<open>./\<close> or in letter case are one path to the classifier.\<close>

lemma match_any_norm: "norm_path p = norm_path q \<Longrightarrow> match_any p pats = match_any q pats"
  by (simp add: match_any_def)

lemma tier_for_path_norm: "norm_path p = norm_path q \<Longrightarrow> tier_for_path p = tier_for_path q"
  by (simp add: tier_for_path_def is_never_writable_def match_any_norm [of p q])

section \<open>The diff scan\<close>

definition never_added :: "(rx \<times> string) list" where
  "never_added =
   [(seqs [Bol, ws, lit ''@pytest.mark.skip'', Wb], ''test skipped''),
    (seqs [Bol, ws, lit ''pytest.skip(''], ''test skipped''),
    (seqs [Bol, ws, lit ''@pytest.mark.xfail'', Wb], ''test marked xfail''),
    (seqs [Bol, ws, lit ''ignore::''], ''warning gate ignored''),
    (seqs [Bol, ws, alts [lit ''addopts'', lit ''filterwarnings''], ws, lit ''=''], ''pytest gate rewritten''),
    (seqs [Bol, ws, lit ''ALLOWED_INTENT_TYPES'', ws, lit ''='', ws, lit ''frozenset('', ws, opt (lit ''(''), ws, lit ''t'',
       plus (Cls whitespace), lit ''for'', plus (Cls whitespace), lit ''t'', plus (Cls whitespace), lit ''in'',
       plus (Cls whitespace), lit ''IntentType'', ws, opt (lit '')''), ws, lit '')''], ''forbidden intents unblocked''),
    (seqs [Wb, lit ''subprocess.'', alts [lit ''run'', lit ''Popen'', lit ''call'', lit ''check_output''], ws, lit ''('', anything,
       lit ''shell'', ws, lit ''='', ws, lit ''True''], ''unrestricted shell added''),
    (seqs [Wb, lit ''os.system'', ws, lit ''(''], ''unrestricted shell added''),
    (alts [seqs [Wb, lit ''GITHUB_TOKEN'', Wb], seqs [Wb, lit ''SOCIETY_GITHUB_TOKEN'', Wb],
       seqs [Wb, lit ''SOCIETY_MODEL_API_KEY'', Wb]], ''credential reference added outside the secret boundary''),
    (seqs [Wb, lit ''continue-on-error:'', ws, lit ''true'', Wb], ''CI job made non-blocking''),
    (seqs [Bol, ws, lit ''if:'', ws, lit ''false'', Wb], ''CI job disabled'')]"

definition never_removed :: "(rx \<times> string) list" where
  "never_removed =
   [(seqs [Bol, ws, lit ''def test_'', plus wc, ws, lit ''(''], ''test removed''),
    (seqs [Bol, ws, lit ''error::''], ''warning gate removed''),
    (seqs [Bol, ws, lit ''assert'', Wb], ''assertion removed'')]"

definition or_else :: "string \<Rightarrow> string \<Rightarrow> string" where
  "or_else s d = (if s = [] then d else s)"

definition drop_prefix :: "string \<Rightarrow> string \<Rightarrow> string" where
  "drop_prefix p s = (if starts_with p s then drop (length p) s else s)"

text \<open>How a line of a diff is read: a file header, an added or a removed line, or context.\<close>

datatype diff_line = NewFile string | OldFile string | Added string | Removed string | Other

definition read_line :: "string \<Rightarrow> diff_line" where
  "read_line line =
    (if starts_with ''+++ '' line then NewFile (drop_prefix ''b/'' (strip (drop 4 line)))
     else if starts_with ''--- '' line then OldFile (drop_prefix ''a/'' (strip (drop 4 line)))
     else if starts_with ''+'' line \<and> \<not> starts_with ''+++'' line then Added (drop 1 line)
     else if starts_with ''-'' line \<and> \<not> starts_with ''---'' line then Removed (drop 1 line)
     else Other)"

record scan =
  sc_file :: string
  sc_found :: "string list"
  sc_deleted :: "string list"

definition found :: "(rx \<times> string) option \<Rightarrow> scan \<Rightarrow> scan" where
  "found hit s = (case hit of None \<Rightarrow> s
    | Some (_, label) \<Rightarrow> s\<lparr>sc_found := sc_found s @ [label @ '': '' @ or_else (sc_file s) ''?'']\<rparr>)"

definition scan_line :: "scan \<Rightarrow> string \<Rightarrow> scan" where
  "scan_line s line =
    (case read_line line of
       NewFile f \<Rightarrow> s\<lparr>sc_file := f, sc_found := sc_found s @ (if f = ''/dev/null'' then [''file deleted''] else [])\<rparr>
     | OldFile f \<Rightarrow> (if f \<noteq> ''/dev/null'' then s\<lparr>sc_deleted := f # sc_deleted s\<rparr> else s)
     | Added body \<Rightarrow> found (find (\<lambda>(r, l). search r body) never_added) s
     | Removed body \<Rightarrow> found (find (\<lambda>(r, l). search r body \<and>
         (starts_with ''tests/'' (sc_file s) \<or> ends_with ''pytest.ini'' (sc_file s) \<or> l \<noteq> ''assertion removed'')) never_removed) s
     | Other \<Rightarrow> s)"

definition scan_lines :: "string list \<Rightarrow> scan" where
  "scan_lines lines = foldl scan_line \<lparr>sc_file = [], sc_found = [], sc_deleted = []\<rparr> lines"

definition deleted_tests :: "string list \<Rightarrow> scan \<Rightarrow> string list" where
  "deleted_tests changed s = map (\<lambda>p. ''test file deleted: '' @ p)
    (filter (\<lambda>p. starts_with ''tests/'' (norm_path p) \<and> ''file deleted'' \<in> set (sc_found s) \<and> p \<in> set (sc_deleted s)) changed)"

text \<open>Duplicates dropped, the first occurrences kept in order.\<close>

fun dedup_from :: "string list \<Rightarrow> string list \<Rightarrow> string list" where
  "dedup_from seen [] = []"
| "dedup_from seen (f # fs) = (if f \<in> set seen then dedup_from seen fs else f # dedup_from (f # seen) fs)"

definition dedup :: "string list \<Rightarrow> string list" where
  "dedup fs = dedup_from [] fs"

definition diff_never_findings :: "string \<Rightarrow> string list \<Rightarrow> string list" where
  "diff_never_findings diff changed =
    (let s = scan_lines (splitlines diff) in take 40 (dedup (sc_found s @ deleted_tests changed s)))"

section \<open>The assessment\<close>

record assessment =
  as_tier :: tier
  as_per_path :: "(string \<times> tier) list"
  as_never :: "string list"
  as_reasons :: "string list"

text \<open>\<open>per_path\<close> is a dict over the paths: repeated paths collapse.\<close>

definition assess :: "string list \<Rightarrow> string \<Rightarrow> string \<Rightarrow> assessment" where
  "assess paths diff spec_kind =
    (let per_path = map (\<lambda>p. (p, tier_for_path p)) (dedup paths);
         t1 = (if per_path = [] then TIER_GREEN else max_tier (map snd per_path));
         reasons = take 20 (map (\<lambda>(p, t). p @ '': '' @ tier_value t) (filter (\<lambda>(p, t). t \<noteq> TIER_GREEN) per_path));
         never = diff_never_findings diff paths;
         t2 = (if never \<noteq> [] then TIER_NEVER else t1);
         floors = (spec_kind = ''code'' \<and> t2 = TIER_GREEN)
     in \<lparr>as_tier = (if floors then TIER_AMBER else t2), as_per_path = per_path, as_never = never,
         as_reasons = reasons @ never @ (if floors then [''kind=code floors the tier at AMBER''] else [])\<rparr>)"

lemma set_dedup_from: "set (dedup_from seen fs) = set fs - set seen"
  by (induction seen fs rule: dedup_from.induct) auto

lemma set_dedup [simp]: "set (dedup fs) = set fs"
  by (simp add: dedup_def set_dedup_from)

lemma dedup_Nil_iff [simp]: "dedup fs = [] \<longleftrightarrow> fs = []"
  by (metis set_dedup set_empty)

text \<open>What decides the tier of an assessment.\<close>

lemma assess_tier_le:
  "as_tier (assess paths diff kind) \<le> t \<longleftrightarrow>
    (\<forall>p \<in> set paths. tier_for_path p \<le> t) \<and> (diff_never_findings diff paths = [] \<or> t = TIER_NEVER) \<and>
    (t = TIER_GREEN \<longrightarrow> kind \<noteq> ''code'')"
proof -
  have never: "TIER_NEVER \<le> t \<longleftrightarrow> t = TIER_NEVER" and amber: "TIER_AMBER \<le> t \<longleftrightarrow> t \<noteq> TIER_GREEN"
    and green: "u \<le> TIER_GREEN \<longleftrightarrow> u = TIER_GREEN" for u
    by (cases t; cases u; simp add: less_eq_tier_def)+
  let ?m = "max_tier (map snd (map (\<lambda>p. (p, tier_for_path p)) (dedup paths)))"
  have m: "?m \<le> u \<longleftrightarrow> (\<forall>p \<in> set paths. tier_for_path p \<le> u)" for u
    by (simp add: max_tier_le)
  have tier: "as_tier (assess paths diff kind) =
      (if diff_never_findings diff paths \<noteq> [] then TIER_NEVER
       else if kind = ''code'' \<and> ?m = TIER_GREEN then TIER_AMBER else ?m)"
    by (cases "paths = []") (auto simp: assess_def Let_def dedup_def)
  show ?thesis
    using m [of t] m [of TIER_GREEN] by (cases "t = TIER_GREEN") (auto simp: tier never amber green)
qed

section \<open>What the scan does not see\<close>

text \<open>A diff given by its lines, and lines without a terminator inside.\<close>

definition unlines :: "string list \<Rightarrow> string" where
  "unlines ls = concat (map (\<lambda>l. l @ [CHR 0x0A]) ls)"

definition clean :: "string \<Rightarrow> bool" where
  "clean l \<longleftrightarrow> list_all (\<lambda>c. \<not> line_end c) l"

lemma splitlines_newline: "clean l \<Longrightarrow> splitlines (l @ CHR 0x0A # s) = l # splitlines s"
  by (simp add: splitlines_one clean_def line_end_def)

lemma splitlines_form_feed: "clean l \<Longrightarrow> splitlines (l @ CHR 0x0C # s) = l # splitlines s"
  by (simp add: splitlines_one clean_def line_end_def)

lemma splitlines_unlines: "list_all clean ls \<Longrightarrow> splitlines (unlines ls @ s) = ls @ splitlines s"
  by (induction ls) (simp_all add: unlines_def splitlines_newline)

lemma clean_Cons: "clean (c # l) \<longleftrightarrow> \<not> line_end c \<and> clean l"
  by (simp add: clean_def)

lemma scan_skips: "read_line l = Other \<Longrightarrow> scan_lines (ls @ l # rest) = scan_lines (ls @ rest)"
  by (simp add: scan_lines_def scan_line_def)

lemma read_line_context: "c \<noteq> CHR ''+'' \<Longrightarrow> c \<noteq> CHR ''-'' \<Longrightarrow> read_line (c # l) = Other"
  by (simp add: read_line_def starts_with_def)

lemma read_line_plus: "c \<noteq> CHR '' '' \<Longrightarrow> read_line (''+++'' @ c # l) = Other"
  by (simp add: read_line_def starts_with_def)

lemma plus_clean: "\<not> line_end CHR ''+''"
  by (simp add: line_end_def)

text \<open>
  A change can hide added code from the scan of its own diff. What follows a form feed in an
  added line is read as a context line, because \<open>splitlines\<close> ends a line there and git does not, and an
  added line whose text begins with two plus signs is taken for neither an addition nor a file
  header: in both cases the findings are those of the diff without the hidden text.
\<close>

theorem diff_scan_evaded:
  assumes "list_all clean ls" and "clean shown" and "clean (c # hidden)"
    and "c \<notin> {CHR ''+'', CHR ''-'', CHR '' ''}"
  shows "diff_never_findings (unlines ls @ CHR ''+'' # shown @ CHR 0x0C # c # hidden @ CHR 0x0A # rest) changed =
        diff_never_findings (unlines ls @ CHR ''+'' # shown @ CHR 0x0A # rest) changed \<and>
      diff_never_findings (unlines ls @ ''+++'' @ c # hidden @ CHR 0x0A # rest) changed =
        diff_never_findings (unlines ls @ rest) changed"
proof -
  have c: "c \<noteq> CHR ''+''" "c \<noteq> CHR ''-''" "c \<noteq> CHR '' ''"
    using assms(4) by auto
  have shown: "clean (CHR ''+'' # shown)" and hidden: "clean (''+++'' @ c # hidden)"
    using assms by (simp_all add: clean_Cons plus_clean)
  have a: "splitlines (CHR ''+'' # shown @ CHR 0x0C # c # hidden @ CHR 0x0A # rest) =
      (CHR ''+'' # shown) # (c # hidden) # splitlines rest"
    using splitlines_form_feed [OF shown] splitlines_newline [OF assms(3)] by simp
  have b: "splitlines (CHR ''+'' # shown @ CHR 0x0A # rest) = (CHR ''+'' # shown) # splitlines rest"
    using splitlines_newline [OF shown] by simp
  have d: "splitlines (''+++'' @ c # hidden @ CHR 0x0A # rest) = (''+++'' @ c # hidden) # splitlines rest"
    using splitlines_newline [OF hidden] by simp
  have "scan_lines ((ls @ [CHR ''+'' # shown]) @ (c # hidden) # splitlines rest) =
      scan_lines ((ls @ [CHR ''+'' # shown]) @ splitlines rest)"
    using c by (intro scan_skips read_line_context)
  then have one: "diff_never_findings (unlines ls @ CHR ''+'' # shown @ CHR 0x0C # c # hidden @ CHR 0x0A # rest) changed =
      diff_never_findings (unlines ls @ CHR ''+'' # shown @ CHR 0x0A # rest) changed"
    by (simp add: diff_never_findings_def splitlines_unlines [OF assms(1)] a b)
  have "scan_lines (ls @ (''+++'' @ c # hidden) # splitlines rest) = scan_lines (ls @ splitlines rest)"
    using c by (intro scan_skips read_line_plus)
  then have "diff_never_findings (unlines ls @ ''+++'' @ c # hidden @ CHR 0x0A # rest) changed =
      diff_never_findings (unlines ls @ rest) changed"
    using d by (simp add: diff_never_findings_def splitlines_unlines [OF assms(1)])
  with one show ?thesis ..
qed

definition demo_hidden :: string where
  "demo_hidden = ''os.system(cmd)''"

theorem diff_scan_evaded_witness:
  "diff_never_findings (unlines [''+'' @ demo_hidden]) [] \<noteq> [] \<and>
   diff_never_findings (unlines [''+x = 1;'' @ [CHR 0x0C] @ demo_hidden]) [] = [] \<and>
   diff_never_findings (unlines [''+++'' @ demo_hidden]) [] = []"
proof -
  have "diff_never_findings (unlines [''+'' @ demo_hidden]) [] \<noteq> []"
    by code_simp
  moreover have "diff_never_findings (unlines [''+x = 1;'' @ [CHR 0x0C] @ demo_hidden]) [] =
      diff_never_findings (unlines [''+x = 1;'']) []"
    using diff_scan_evaded [of "[]" "''x = 1;''" "CHR ''o''" "tl demo_hidden" "[]" "[]"]
    by (simp add: unlines_def clean_def demo_hidden_def line_end_def)
  moreover have "diff_never_findings (unlines [''+x = 1;'']) [] = []"
    by code_simp
  moreover have "diff_never_findings (unlines [''+++'' @ demo_hidden]) [] = diff_never_findings [] []"
    using diff_scan_evaded [of "[]" "[]" "CHR ''o''" "tl demo_hidden" "[]" "[]"]
    by (simp add: unlines_def clean_def demo_hidden_def line_end_def)
  moreover have "diff_never_findings [] [] = []"
    by code_simp
  ultimately show ?thesis by simp
qed

end
