(* ===== verification/PatchPolicy.thy ===== *)
theory PatchPolicy
  imports Risk MaintPolicy
begin

text \<open>
  The trusted maintenance risk of a change (\<open>maintenance/policy.py\<close> on top of \<open>society/risk.py\<close>), the
  desired-state contracts it protects (\<open>maintenance/contracts.py\<close>), and the validation of a
  model-designed plan (\<open>_make_plan\<close> of \<open>maintenance/reconciler.py\<close>). The contract registry, a JSON
  file, is a list of contracts; the repository's files are three predicates on path strings.
\<close>

section \<open>Contracts\<close>

record contract =
  ct_id :: string
  ct_source_of_truth :: string
  ct_detectors :: "string list"
  ct_tests :: "string list"
  ct_sli :: "string option"
  ct_item_sli :: "(string \<times> string) list"
  ct_autonomous :: bool

definition or_none :: "string option \<Rightarrow> string option \<Rightarrow> string option" where
  "or_none a b = (case a of None \<Rightarrow> b | Some s \<Rightarrow> if s = [] then b else a)"

definition sli_for_item :: "contract \<Rightarrow> string \<Rightarrow> string" where
  "sli_for_item c item =
    (case map_of (ct_item_sli c) item of
       Some s \<Rightarrow> s
     | None \<Rightarrow> (case or_none (map_of (ct_item_sli c) ''*'') (or_none (ct_sli c) (Some (ct_id c))) of
         None \<Rightarrow> [] | Some s \<Rightarrow> s))"

definition get_contract :: "contract list \<Rightarrow> string \<Rightarrow> contract option" where
  "get_contract reg i = find (\<lambda>c. ct_id c = i) reg"

definition registry_repo_path :: string where
  "registry_repo_path = ''services/registry/app/maintenance/desired_state.json''"

definition kernel_paths :: "string list" where
  "kernel_paths =
   [''services/registry/app/maintenance/**'', ''services/registry/app/society/risk.py'',
    ''services/registry/app/society/policy.py'', ''services/registry/app/society/fitness.py'',
    ''services/registry/app/society/promotion.py'', ''services/registry/app/society/promotion_github.py'',
    ''services/registry/app/society/surface.py'', ''services/registry/app/society/public_surface_contract.json'',
    ''tests/society/maintenance/**'', ''services/registry/app/api/routes/maintenance.py'', ''deploy/maintenance/**'',
    ''docs/adr/0010-autonomous-maintenance-os.md'', ''docs/MAINTENANCE_POLICY.md'', ''docs/MAINTENANCE_RELEASE.md'',
    ''docs/MAINTENANCE_STATE_MACHINE.md'', ''.railway/**'']"

text \<open>A set of paths in the code; only membership is ever asked.\<close>

definition evaluation_paths :: "contract list \<Rightarrow> string list" where
  "evaluation_paths reg =
    filter (\<lambda>p. p \<noteq> []) (registry_repo_path #
      concat (map (\<lambda>c. ct_detectors c @ ct_tests c @
        (if ends_with ''.json'' (ct_source_of_truth c) \<or> ends_with ''.py'' (ct_source_of_truth c)
         then [ct_source_of_truth c] else [])) reg) @ kernel_paths)"

section \<open>Patterns of the policy\<close>

definition policy_norm :: "string \<Rightarrow> string" where
  "policy_norm path = strip_dot (map (\<lambda>c. if c = CHR 0x5C then CHR ''/'' else c) path)"

definition policy_match :: "string \<Rightarrow> string list \<Rightarrow> bool" where
  "policy_match path patterns =
    (let p = policy_norm path in list_ex (\<lambda>pat.
       if ends_with ''/**'' pat
       then starts_with (take (length pat - 3) pat @ ''/'') p \<or> p = take (length pat - 3) pat
       else if ends_with ''/'' pat then starts_with pat p
       else glob pat p \<or> glob (''*/'' @ pat) p) patterns)"

definition infra_paths :: "string list" where
  "infra_paths = [''*/Dockerfile'', ''Dockerfile'', ''docker-compose*.yml'', ''.railway/*'', ''deploy/*'', ''.github/*'',
    ''*requirements*.txt'', ''services/*/gunicorn.conf.py'']"

definition is_evaluation_path :: "contract list \<Rightarrow> string \<Rightarrow> bool" where
  "is_evaluation_path reg path = policy_match path (evaluation_paths reg)"

section \<open>Sensitive semantics\<close>

definition money_rx :: rx where
  "money_rx = whole_words [''wallet'', ''escrow'', ''balance_credits'', ''balance_usdc'', ''reserved_credits'', ''transaction'',
    ''platform_fee'', ''spending_cap'', ''refund'']"

definition auth_words :: "string list" where
  "auth_words = [''login_user'', ''logout'', ''password'', ''jwt'', ''access_token'', ''refresh_token'', ''csrf'', ''set_cookie'',
    ''SESSION_COOKIE'', ''verify_token'', ''authorization'', ''X-API-Key'']"

definition auth_rx :: rx where
  "auth_rx = whole_words (''session['' # auth_words)"

definition cloudflare_rx :: rx where
  "cloudflare_rx = alts [seqs [Wb, ilit ''cloudflare'', Wb], seqs [Wb, ilit ''CF_API'', Wb]]"

definition quote :: string where
  "quote = [CHR 0x22, CHR 0x27]"

definition hack_added :: "(rx \<times> string) list" where
  "hack_added =
   [(seqs [Bol, ws, lit ''except'', ws, opt (alts [lit ''Exception'', lit ''BaseException'']), ws,
       opt (seqs [lit ''as'', plus (Cls whitespace), plus wc]), ws, lit '':'', ws,
       opt (alts [lit ''pass'', seqs [lit ''return'', Wb, anything]]), ws, Eol], ''catch_all_exception_added''),
    (lit ''url_build_error_handlers'', ''url_build_fallback_added''),
    (seqs [lit ''return'', plus (Cls whitespace), one_of quote, lit ''#'', one_of quote], ''placeholder_link_fallback_added''),
    (seqs [lit ''errorhandler('', ws, alts [lit ''404'', lit ''500'', lit ''Exception''], ws, lit '')''], ''error_handler_rewritten''),
    (seqs [lit ''.'', alts [ilit ''flash'', ilit ''flash-message'', ilit ''alert''], Wb, Star (none_of ''{''), lit ''{'',
       Star (none_of ''}''), ilit ''display'', ws, lit '':'', ws, ilit ''none''], ''error_banner_hidden''),
    (seqs [ilit ''class='', one_of quote, Star (none_of quote), Wb, ilit ''alert'', Wb, Star (none_of quote), one_of quote,
       Star (none_of ''>''), ilit ''style='', one_of quote, Star (none_of quote), ilit ''display'', ws, lit '':'', ws, ilit ''none''],
       ''error_banner_hidden''),
    (alts [seqs [Wb, lit ''FEATURE_'', plus wc, lit ''_ENABLED'', ws, lit ''='', ws, lit ''False'', Wb],
       seqs [one_of quote, lit ''disabled'', one_of quote, ws, lit '':'', ws, lit ''True'']], ''feature_disabled'')]"

definition hack_removed :: "(rx \<times> string) list" where
  "hack_removed = [(seqs [Bol, ws, lit ''flash(''], ''error_message_removed'')]"

section \<open>Anti-reward-hacking\<close>

text \<open>The header of the new file, without its \<open>b/\<close>, names the current file; the old one is skipped.\<close>

definition hack_line :: "string \<times> string list \<Rightarrow> string \<Rightarrow> string \<times> string list" where
  "hack_line s line =
    (let hit = (\<lambda>pats body. case find (\<lambda>(r, l). search r body) pats of
           None \<Rightarrow> s | Some (_, label) \<Rightarrow> (fst s, snd s @ [label @ '': '' @ fst s]))
     in case read_line line of
          NewFile f \<Rightarrow> (f, snd s)
        | OldFile f \<Rightarrow> s
        | Added body \<Rightarrow> hit hack_added body
        | Removed body \<Rightarrow> hit hack_removed body
        | Other \<Rightarrow> s)"

definition reward_hacking_findings :: "string \<Rightarrow> string list" where
  "reward_hacking_findings diff = dedup (snd (foldl hack_line (''?'', []) (splitlines diff)))"

definition added_lines :: "string \<Rightarrow> string list" where
  "added_lines diff = map (drop 1) (filter (\<lambda>l. starts_with ''+'' l \<and> \<not> starts_with ''+++'' l) (splitlines diff))"

definition removed_lines :: "string \<Rightarrow> string list" where
  "removed_lines diff = map (drop 1) (filter (\<lambda>l. starts_with ''-'' l \<and> \<not> starts_with ''---'' l) (splitlines diff))"

definition changed_line_count :: "string \<Rightarrow> nat" where
  "changed_line_count diff = length (filter (\<lambda>l. starts_with ''+'' l \<and> \<not> starts_with ''+++'' l \<or>
     starts_with ''-'' l \<and> \<not> starts_with ''---'' l) (splitlines diff))"

section \<open>The decision\<close>

record decision =
  dc_class :: risk_class
  dc_reasons :: "string list"
  dc_base :: tier
  dc_findings :: "string list"

fun class_of_tier :: "tier \<Rightarrow> risk_class" where
  "class_of_tier TIER_GREEN = MAINTENANCE_GREEN"
| "class_of_tier TIER_AMBER = AMBER"
| "class_of_tier TIER_RED = RED"
| "class_of_tier TIER_NEVER = CONSTITUTIONAL"

definition raise_to :: "risk_class \<Rightarrow> string \<Rightarrow> decision \<Rightarrow> decision" where
  "raise_to c reason d = d\<lparr>dc_class := risk_max (dc_class d) c, dc_reasons := dc_reasons d @ [reason]\<rparr>"

definition applyif :: "bool \<Rightarrow> ('a \<Rightarrow> 'a) \<Rightarrow> 'a \<Rightarrow> 'a" where
  "applyif b f x = (if b then f x else x)"

definition classify_path :: "contract list \<Rightarrow> decision \<Rightarrow> string \<Rightarrow> decision" where
  "classify_path reg d p =
    applyif (policy_match p infra_paths) (raise_to RED (''infrastructure path: '' @ p))
    (applyif (is_evaluation_path reg p) (raise_to RED (''trusted evaluation / kernel path: '' @ p))
    (applyif (is_never_writable p) (\<lambda>d. d\<lparr>dc_class := CONSTITUTIONAL,
       dc_findings := dc_findings d @ [''never-writable path: '' @ p]\<rparr>) d))"

definition newline :: string where
  "newline = [CHR 0x0A]"

definition classify_diff :: "settings \<Rightarrow> string \<Rightarrow> decision \<Rightarrow> decision" where
  "classify_diff st diff d =
    (let added = join newline (added_lines diff); removed = join newline (removed_lines diff);
         hacks = reward_hacking_findings diff; n = changed_line_count diff;
         d1 = applyif (search money_rx added \<or> search money_rx removed) (raise_to RED ''money/economics semantics in the diff'') d;
         d2 = applyif (search auth_rx added \<or> search auth_rx removed)
           (\<lambda>d. raise_to (if dc_class d = MAINTENANCE_GREEN then AMBER else dc_class d) ''auth/session semantics in the diff'' d) d1;
         d3 = applyif (search cloudflare_rx added) (raise_to RED ''DNS/edge change'') d2;
         d4 = applyif (hacks \<noteq> []) (\<lambda>d. d\<lparr>dc_class := CONSTITUTIONAL, dc_findings := dc_findings d @ hacks,
           dc_reasons := dc_reasons d @ [''anti-reward-hacking finding'']\<rparr>) d3
     in applyif (max_changed_lines st < n) (raise_to AMBER (''diff exceeds the GREEN bound ('' @ show_nat n @ '' > '' @
          show_nat (max_changed_lines st) @ '' lines)'')) d4)"

definition classify_patch :: "contract list \<Rightarrow> settings \<Rightarrow> string list \<Rightarrow> string \<Rightarrow> bool \<Rightarrow> decision" where
  "classify_patch reg st paths diff plan_time =
    (let base_as = assess paths diff [];
         d0 = \<lparr>dc_class = class_of_tier (as_tier base_as), dc_reasons = as_reasons base_as, dc_base = as_tier base_as,
           dc_findings = as_never base_as\<rparr>
     in if paths = [] then d0\<lparr>dc_class := AMBER, dc_reasons := [''empty scope'']\<rparr>
        else let d1 = foldl (classify_path reg) d0 paths;
                 d2 = applyif (list_ex (\<lambda>p. \<not> is_evaluation_path reg p) paths \<and> list_ex (is_evaluation_path reg) paths)
                   (raise_to RED (''evaluation laundering: product and the contract/detector/test that judges it '' @
                     ''in one change'')) d1;
                 d3 = applyif (\<not> plan_time) (classify_diff st diff) d2;
                 d4 = applyif (max_files st < length paths) (raise_to AMBER (''scope exceeds the GREEN bound ('' @
                   show_nat (length paths) @ '' > '' @ show_nat (max_files st) @ '' files)'')) d3
             in d4\<lparr>dc_reasons := take 30 (dc_reasons d4), dc_findings := take 30 (dc_findings d4)\<rparr>)"

definition classify_paths :: "contract list \<Rightarrow> settings \<Rightarrow> string list \<Rightarrow> decision" where
  "classify_paths reg st paths = classify_patch reg st paths [] True"

section \<open>The decision fails upward\<close>

lemma max_green [simp]: "max a b = MAINTENANCE_GREEN \<longleftrightarrow> a = MAINTENANCE_GREEN \<and> b = MAINTENANCE_GREEN"
  by (cases a; cases b) (simp_all add: max_def less_eq_risk_class_def)

lemma constitutional_greatest [simp]: "a \<le> CONSTITUTIONAL"
  by (cases a) (simp_all add: less_eq_risk_class_def)

lemma constitutional_only [simp]: "CONSTITUTIONAL \<le> a \<longleftrightarrow> a = CONSTITUTIONAL"
  by (cases a) (simp_all add: less_eq_risk_class_def)

lemma class_of_tier_mono: "a \<le> b \<Longrightarrow> class_of_tier a \<le> class_of_tier b"
  by (cases a; cases b) (simp_all add: less_eq_risk_class_def less_eq_tier_def)

lemma class_of_tier_green [simp]: "class_of_tier t = MAINTENANCE_GREEN \<longleftrightarrow> t = TIER_GREEN"
  by (cases t) simp_all

lemma class_of_raise [simp]: "dc_class (raise_to c r d) = max (dc_class d) c"
  by (simp add: raise_to_def)

lemma class_applyif: "dc_class (applyif b f d) = (if b then dc_class (f d) else dc_class d)"
  by (simp add: applyif_def)

lemma classify_path_up: "dc_class d \<le> dc_class (classify_path reg d p)"
  by (simp add: classify_path_def class_applyif)

lemma classify_path_green: "dc_class (classify_path reg d p) = MAINTENANCE_GREEN \<longleftrightarrow>
    dc_class d = MAINTENANCE_GREEN \<and> \<not> is_never_writable p \<and> \<not> is_evaluation_path reg p \<and> \<not> policy_match p infra_paths"
  by (auto simp: classify_path_def class_applyif)

lemma classify_each_up: "dc_class d \<le> dc_class (foldl (classify_path reg) d ps)"
proof (induction ps arbitrary: d)
  case (Cons p ps)
  show ?case using classify_path_up [of d reg p] Cons.IH [of "classify_path reg d p"] by simp
qed simp

lemma classify_each_green: "dc_class (foldl (classify_path reg) d ps) = MAINTENANCE_GREEN \<longleftrightarrow>
    dc_class d = MAINTENANCE_GREEN \<and>
    (\<forall>p \<in> set ps. \<not> is_never_writable p \<and> \<not> is_evaluation_path reg p \<and> \<not> policy_match p infra_paths)"
  by (induction ps arbitrary: d) (auto simp: classify_path_green)

lemma classify_diff_up: "dc_class d \<le> dc_class (classify_diff st diff d)"
  by (simp add: classify_diff_def Let_def class_applyif le_max_iff_disj)

definition sensitive :: "string \<Rightarrow> bool" where
  "sensitive diff \<longleftrightarrow>
    (let added = join newline (added_lines diff); removed = join newline (removed_lines diff) in
     search money_rx added \<or> search money_rx removed \<or> search auth_rx added \<or> search auth_rx removed \<or>
     search cloudflare_rx added)"

lemma classify_diff_green: "dc_class (classify_diff st diff d) = MAINTENANCE_GREEN \<longleftrightarrow>
    dc_class d = MAINTENANCE_GREEN \<and> \<not> sensitive diff \<and> reward_hacking_findings diff = [] \<and>
    changed_line_count diff \<le> max_changed_lines st"
  by (auto simp: classify_diff_def Let_def class_applyif sensitive_def)

lemma classify_patch_class:
  assumes "paths \<noteq> []"
  shows "dc_class (classify_patch reg st paths diff plan_time) =
    (let d1 = foldl (classify_path reg) \<lparr>dc_class = class_of_tier (as_tier (assess paths diff [])),
           dc_reasons = as_reasons (assess paths diff []), dc_base = as_tier (assess paths diff []),
           dc_findings = as_never (assess paths diff [])\<rparr> paths;
         d2 = applyif (list_ex (\<lambda>p. \<not> is_evaluation_path reg p) paths \<and> list_ex (is_evaluation_path reg) paths)
           (raise_to RED (''evaluation laundering: product and the contract/detector/test that judges it '' @ ''in one change'')) d1;
         d3 = applyif (\<not> plan_time) (classify_diff st diff) d2
     in if max_files st < length paths then max (dc_class d3) AMBER else dc_class d3)"
  using assms by (simp add: classify_patch_def Let_def class_applyif)

lemma assess_bounds:
  shows "p \<in> set paths \<Longrightarrow> tier_for_path p \<le> as_tier (assess paths diff kind)"
    and "diff_never_findings diff paths \<noteq> [] \<Longrightarrow> as_tier (assess paths diff kind) = TIER_NEVER"
  using assess_tier_le [of paths diff kind "as_tier (assess paths diff kind)"] by auto

lemma classify_patch_base:
  assumes "paths \<noteq> []"
  shows "class_of_tier (as_tier (assess paths diff [])) \<le> dc_class (classify_patch reg st paths diff plan_time)"
proof -
  let ?d0 = "\<lparr>dc_class = class_of_tier (as_tier (assess paths diff [])),
    dc_reasons = as_reasons (assess paths diff []), dc_base = as_tier (assess paths diff []),
    dc_findings = as_never (assess paths diff [])\<rparr>"
  have "class_of_tier (as_tier (assess paths diff [])) \<le> dc_class (foldl (classify_path reg) ?d0 paths)"
    using classify_each_up [of ?d0 reg paths] by simp
  then show ?thesis
    unfolding classify_patch_class [OF assms]
    by (auto simp: Let_def class_applyif le_max_iff_disj intro: order_trans [OF _ classify_diff_up])
qed

text \<open>
  C9: The maintenance risk of a change fails upward. Its class is never below the tier of any path,
  a NEVER finding in the diff makes it CONSTITUTIONAL, and it is MAINTENANCE_GREEN exactly when
  every condition holds at once: all paths green, none of them an evaluation artefact or
  infrastructure, no finding and no sensitive word in the diff, and both size bounds kept.
\<close>

theorem risk_fails_upward:
  assumes "paths \<noteq> []"
  shows "(\<forall>p \<in> set paths. class_of_tier (tier_for_path p) \<le> dc_class (classify_patch reg st paths diff False)) \<and>
    (diff_never_findings diff paths \<noteq> [] \<longrightarrow> dc_class (classify_patch reg st paths diff False) = CONSTITUTIONAL) \<and>
    (dc_class (classify_patch reg st paths diff False) = MAINTENANCE_GREEN \<longleftrightarrow>
      (\<forall>p \<in> set paths. tier_for_path p = TIER_GREEN \<and> \<not> is_evaluation_path reg p \<and> \<not> policy_match p infra_paths) \<and>
      diff_never_findings diff paths = [] \<and> reward_hacking_findings diff = [] \<and> \<not> sensitive diff \<and>
      length paths \<le> max_files st \<and> changed_line_count diff \<le> max_changed_lines st)"
proof (intro conjI ballI impI)
  note up = classify_patch_base [OF assms, of diff reg st False]
  show "class_of_tier (tier_for_path p) \<le> dc_class (classify_patch reg st paths diff False)" if "p \<in> set paths" for p
    using class_of_tier_mono [OF assess_bounds(1) [OF that, of diff "[]"]] up by (rule order_trans)
  show "dc_class (classify_patch reg st paths diff False) = CONSTITUTIONAL" if "diff_never_findings diff paths \<noteq> []"
    using up assess_bounds(2) [OF that, of "[]"] by simp
  have base: "as_tier (assess paths diff []) = TIER_GREEN \<longleftrightarrow>
      (\<forall>p \<in> set paths. tier_for_path p = TIER_GREEN) \<and> diff_never_findings diff paths = []"
    using assess_tier_le [of paths diff "[]" TIER_GREEN] by (simp add: antisym_conv)
  have writable: "tier_for_path p = TIER_GREEN \<Longrightarrow> \<not> is_never_writable p" for p
    by (auto simp: tier_for_path_def)
  have laundering: "\<not> list_ex (is_evaluation_path reg) paths" if "\<forall>p \<in> set paths. \<not> is_evaluation_path reg p"
    using that by (simp add: list_ex_iff)
  show "dc_class (classify_patch reg st paths diff False) = MAINTENANCE_GREEN \<longleftrightarrow>
      (\<forall>p \<in> set paths. tier_for_path p = TIER_GREEN \<and> \<not> is_evaluation_path reg p \<and> \<not> policy_match p infra_paths) \<and>
      diff_never_findings diff paths = [] \<and> reward_hacking_findings diff = [] \<and> \<not> sensitive diff \<and>
      length paths \<le> max_files st \<and> changed_line_count diff \<le> max_changed_lines st"
    unfolding classify_patch_class [OF assms]
    using writable laundering
    by (auto simp: Let_def class_applyif classify_each_green classify_diff_green base)
qed

theorem risk_fails_upward_witness:
  "dc_class (classify_patch [] demo_settings [''docs/guide.md''] [] False) = MAINTENANCE_GREEN \<and>
   dc_class (classify_patch [] demo_settings [''docs/guide.md'', ''services/payment/app/main.py''] [] False)
     \<noteq> MAINTENANCE_GREEN"
proof
  show "dc_class (classify_patch [] demo_settings [''docs/guide.md''] [] False) = MAINTENANCE_GREEN"
  proof -
    have "tier_for_path ''docs/guide.md'' = TIER_GREEN" "is_evaluation_path [] ''docs/guide.md'' = False"
      "policy_match ''docs/guide.md'' infra_paths = False" "diff_never_findings [] [''docs/guide.md''] = []"
      "reward_hacking_findings [] = []" "sensitive [] = False" "changed_line_count [] = 0"
      by code_simp+
    then show ?thesis
      using risk_fails_upward [of "[''docs/guide.md'']" "[]" demo_settings "[]"]
      by (simp add: demo_settings_def)
  qed
  have "tier_for_path ''services/payment/app/main.py'' = TIER_RED"
    by code_simp
  then show "dc_class (classify_patch [] demo_settings
      [''docs/guide.md'', ''services/payment/app/main.py''] [] False) \<noteq> MAINTENANCE_GREEN"
    using risk_fails_upward [of "[''docs/guide.md'', ''services/payment/app/main.py'']" "[]" "demo_settings" "[]"]
    by auto
qed

end
