(* ===== verification/PlanRules.thy ===== *)
theory PlanRules
  imports PatchPolicy
begin

text \<open>
  The deterministic validation of a model-designed repair plan (\<open>_make_plan\<close> of
  \<open>maintenance/reconciler.py\<close>): which files the Builder may touch and which tests judge the result.
  The repository is read through three predicates on path strings, and the fields of the model's
  answer are lists of strings (the code applies \<open>str\<close>).
\<close>

record repo_view =
  rv_exists :: "string \<Rightarrow> bool" \<comment> \<open>\<open>(root / f).exists()\<close>\<close>
  rv_parent_dir :: "string \<Rightarrow> bool" \<comment> \<open>\<open>(root / f).parent.is_dir()\<close>\<close>
  rv_file :: "string \<Rightarrow> bool" \<comment> \<open>\<open>(root / f).is_file()\<close>\<close>

datatype plan_problem =
    InvalidPath string | NoSuchDirectory string | NoFilesAllowed | TooManyFiles nat
  | SelfJudging "string list" | NoTrustedTest

definition plan_path :: "string \<Rightarrow> string" where
  "plan_path f = strip_dot (strip f)"

definition invalid_path :: "string \<Rightarrow> bool" where
  "invalid_path f \<longleftrightarrow> f = [] \<or> starts_with ''/'' f \<or> ''..'' \<in> set (split_on (CHR ''/'') f)"

definition add_new :: "'a \<Rightarrow> 'a list \<Rightarrow> 'a list" where
  "add_new x xs = (if x \<in> set xs then xs else xs @ [x])"

definition plan_file :: "repo_view \<Rightarrow> string list \<times> plan_problem list \<Rightarrow> string \<Rightarrow> string list \<times> plan_problem list" where
  "plan_file rv acc raw =
    (let f = plan_path raw in
     if invalid_path f then (fst acc, snd acc @ [InvalidPath f])
     else if \<not> (rv_exists rv f \<or> rv_parent_dir rv f) then (fst acc, snd acc @ [NoSuchDirectory f])
     else (add_new f (fst acc), snd acc))"

text \<open>\<open>t.split("::")[0]\<close> and \<open>PurePosixPath(p).name\<close>.\<close>

fun before_colons :: "string \<Rightarrow> string" where
  "before_colons (a # b # s) = (if a = CHR '':'' \<and> b = CHR '':'' then [] else a # before_colons (b # s))"
| "before_colons s = s"

definition path_name :: "string \<Rightarrow> string" where
  "path_name p = (case filter (\<lambda>w. w \<noteq> [] \<and> w \<noteq> ''.'') (split_on (CHR ''/'') p) of [] \<Rightarrow> [] | w # words \<Rightarrow> last (w # words))"

definition acceptance_test :: "repo_view \<Rightarrow> string \<Rightarrow> bool" where
  "acceptance_test rv t \<longleftrightarrow> rv_file rv (before_colons t) \<and> starts_with ''test_'' (path_name (before_colons t))"

definition plan_tests :: "repo_view \<Rightarrow> string list \<Rightarrow> string list \<Rightarrow> string list" where
  "plan_tests rv trusted asked =
    foldl (\<lambda>ts raw. let t = strip raw in if acceptance_test rv t then add_new t ts else ts) trusted asked"

definition trusted_tests :: "repo_view \<Rightarrow> contract list \<Rightarrow> string \<Rightarrow> string list" where
  "trusted_tests rv reg cid =
    (case get_contract reg cid of None \<Rightarrow> [] | Some c \<Rightarrow> filter (\<lambda>t. rv_file rv (before_colons t)) (ct_tests c))"

definition self_judging :: "string list \<Rightarrow> string list \<Rightarrow> string list" where
  "self_judging files tests = filter (\<lambda>f. f \<in> set (map before_colons tests)) files"

text \<open>
  \<open>parent_files\<close> is \<open>Some\<close> of the files of the parent revision for a re-scope (of \<open>[]\<close> when its row
  is missing).
\<close>

definition make_plan ::
  "repo_view \<Rightarrow> contract list \<Rightarrow> settings \<Rightarrow> string \<Rightarrow> string list \<Rightarrow> string list \<Rightarrow> string list option \<Rightarrow>
   plan_problem list + (string list \<times> string list \<times> decision)" where
  "make_plan rv reg st cid asked_files asked_tests parent_files =
    (let (own, p1) = foldl (plan_file rv) ([], []) asked_files;
         files = (case parent_files of None \<Rightarrow> own | Some fs \<Rightarrow> foldl (\<lambda>acc f. add_new f acc) own fs);
         p2 = p1 @ (if files = [] then [NoFilesAllowed] else []);
         p3 = p2 @ (if max_files st * 2 < length files then [TooManyFiles (length files)] else []);
         tests = plan_tests rv (trusted_tests rv reg cid) asked_tests;
         judged = self_judging files tests;
         p4 = p3 @ (if judged \<noteq> [] then [SelfJudging judged] else []);
         p5 = p4 @ (if tests = [] then [NoTrustedTest] else [])
     in if p5 \<noteq> [] then Inl p5 else Inr (files, tests, classify_paths reg st files))"

section \<open>Lemmas\<close>

lemma set_add_new [simp]: "set (add_new x xs) = insert x (set xs)"
  by (auto simp: add_new_def)

lemma distinct_add_new [simp]: "distinct (add_new x xs) = distinct xs"
  by (simp add: add_new_def)

lemma add_each: "set (foldl (\<lambda>acc f. add_new f acc) xs fs) = set xs \<union> set fs"
  by (induction fs arbitrary: xs) auto

lemma distinct_add_each: "distinct (foldl (\<lambda>acc f. add_new f acc) xs fs) = distinct xs"
  by (induction fs arbitrary: xs) auto

lemma plan_files_ok:
  assumes "foldl (plan_file rv) (fs0, ps0) raws = (fs, ps)"
  shows "(\<exists>more. ps = ps0 @ more) \<and> (distinct fs0 \<longrightarrow> distinct fs) \<and>
    (list_all (\<lambda>f. \<not> invalid_path f) fs0 \<longrightarrow> list_all (\<lambda>f. \<not> invalid_path f) fs) \<and> set fs \<subseteq> set fs0 \<union> plan_path ` set raws \<and>
    set fs0 \<subseteq> set fs \<and> (ps = ps0 \<longrightarrow> plan_path ` set raws \<subseteq> set fs)"
  using assms
proof (induction raws arbitrary: fs0 ps0)
  case (Cons r raws)
  obtain f1 p1 where s: "plan_file rv (fs0, ps0) r = (f1, p1)"
    by fastforce
  with Cons.prems have t: "foldl (plan_file rv) (f1, p1) raws = (fs, ps)"
    by simp
  show ?case
    using Cons.IH [OF t] s by (auto simp: plan_file_def Let_def list_all_iff split: if_splits)
qed simp

lemma plan_tests_keep: "set trusted \<subseteq> set (plan_tests rv trusted asked)"
proof (induction asked arbitrary: trusted)
  case (Cons r asked)
  show ?case
    using Cons.IH [of trusted] Cons.IH [of "add_new (strip r) trusted"] by (auto simp: plan_tests_def Let_def)
qed (simp add: plan_tests_def)

lemma plan_tests_only:
  "t \<in> set (plan_tests rv trusted asked) \<Longrightarrow> t \<in> set trusted \<or> acceptance_test rv t \<and> t \<in> strip ` set asked"
  unfolding plan_tests_def
proof (induction asked arbitrary: trusted)
  case (Cons r asked)
  then show ?case
    by (auto simp: Let_def split: if_splits) fastforce+
qed simp

lemma plan_tests_asked: "r \<in> set asked \<Longrightarrow> acceptance_test rv (strip r) \<Longrightarrow> strip r \<in> set (plan_tests rv trusted asked)"
proof (induction asked arbitrary: trusted)
  case (Cons q asked)
  then show ?case
    using plan_tests_keep [of "add_new (strip q) trusted" rv asked] by (auto simp: plan_tests_def Let_def)
qed simp

lemma strip_prefixed:
  assumes "strip f = f" and "f \<noteq> []" and "\<not> whitespace a"
  shows "strip (a # u @ f) = a # u @ f"
proof -
  obtain x xs where r: "rev f = x # xs"
    using assms(2) by (cases "rev f") auto
  have "\<not> whitespace x"
  proof
    assume x: "whitespace x"
    have "length (strip f) \<le> length (dropWhile whitespace (rev (dropWhile whitespace f)))"
      by (simp add: strip_def)
    also have "\<dots> < length f"
    proof (cases "dropWhile whitespace f = f")
      case True
      then show ?thesis
        using r x length_dropWhile_le [of whitespace xs] arg_cong [OF r, of length] by simp
    next
      case False
      then have "length (dropWhile whitespace f) < length f"
        by (metis dropWhile_eq_self_iff length_dropWhile_le le_neq_implies_less length_append add_cancel_left_left
            length_0_conv append_Nil takeWhile_dropWhile_id)
      then show ?thesis
        using length_dropWhile_le [of whitespace "rev (dropWhile whitespace f)"] by simp
    qed
    finally show False using assms(1) by simp
  qed
  then show ?thesis
    using assms(3) r by (simp add: strip_def)
qed

lemma make_plan_Inr:
  "make_plan rv reg st cid af ats pf = Inr (files, tests, d) \<longleftrightarrow>
    (\<exists>own. foldl (plan_file rv) ([], []) af = (own, []) \<and>
      files = (case pf of None \<Rightarrow> own | Some fs \<Rightarrow> foldl (\<lambda>acc f. add_new f acc) own fs)) \<and>
    files \<noteq> [] \<and> length files \<le> max_files st * 2 \<and> tests = plan_tests rv (trusted_tests rv reg cid) ats \<and>
    self_judging files tests = [] \<and> tests \<noteq> [] \<and> d = classify_paths reg st files"
  by (auto simp: make_plan_def Let_def split: prod.splits if_splits)

section \<open>Accepted plans\<close>


definition demo_view :: repo_view where
  "demo_view = \<lparr>rv_exists = (\<lambda>_. True), rv_parent_dir = (\<lambda>_. True), rv_file = (\<lambda>_. True)\<rparr>"

definition demo_contract :: contract where
  "demo_contract = \<lparr>ct_id = ''pages'', ct_source_of_truth = ''surface.json'', ct_detectors = [''probe.py''],
    ct_tests = [''tests/test_pages.py''], ct_sli = None, ct_item_sli = [], ct_autonomous = True\<rparr>"

definition demo_plan :: "plan_problem list + (string list \<times> string list \<times> decision)" where
  "demo_plan = make_plan demo_view [demo_contract] demo_settings ''pages'' [''./app/page.py''] [] (Some [''app/nav.py''])"

lemma demo_plan_ok: "make_plan demo_view [demo_contract] demo_settings ''pages'' [''./app/page.py''] [] (Some [''app/nav.py'']) =
    Inr ([''app/page.py'', ''app/nav.py''], [''tests/test_pages.py''],
      classify_paths [demo_contract] demo_settings [''app/page.py'', ''app/nav.py''])"
  by (simp add: make_plan_def Let_def plan_file_def plan_path_def strip_def whitespace_def invalid_path_def starts_with_def add_new_def
      demo_view_def plan_tests_def trusted_tests_def get_contract_def demo_contract_def self_judging_def demo_settings_def)


text \<open>
  The check that a plan may not contain the tests that judge it compares spellings. A model that
  asks for a test of its own under the name \<open>./f\<close> and for the file \<open>f\<close> itself gets both, since only
  the files are stripped of the leading \<open>./\<close>; the repair can then edit its own acceptance test.
\<close>

theorem self_judging_by_spelling:
  assumes "strip f = f" and "strip_dot f = f" and "\<not> invalid_path f" and "before_colons f = f"
    and "starts_with ''test_'' (path_name f)"
    and "rv_exists rv f" and "rv_file rv (''./'' @ f)" and "1 \<le> max_files st"
    and "f \<notin> before_colons ` set (trusted_tests rv reg cid)"
  shows "\<exists>tests d. make_plan rv reg st cid [f] [''./'' @ f] None = Inr ([f], tests, d) \<and> (''./'' @ f) \<in> set tests"
proof -
  have f: "f \<noteq> []"
    using assms(3) by (auto simp: invalid_path_def)
  have strip: "strip (''./'' @ f) = ''./'' @ f"
    using strip_prefixed [OF assms(1) f, of "CHR ''.''" "''/''"] by (simp add: whitespace_def Let_def)
  have colons: "before_colons (''./'' @ f) = ''./'' @ f"
    using assms(4) f by (cases f) simp_all
  have "path_name (''./'' @ f) = path_name f"
    by (simp add: path_name_def)
  then have asked: "acceptance_test rv (''./'' @ f)"
    using assms by (simp add: acceptance_test_def colons [simplified])
  let ?tests = "plan_tests rv (trusted_tests rv reg cid) [''./'' @ f]"
  have mem: "(''./'' @ f) \<in> set ?tests"
    using plan_tests_asked [of "''./'' @ f"] asked strip by simp
  have "f \<notin> before_colons ` set ?tests"
  proof
    assume "f \<in> before_colons ` set ?tests"
    then obtain t where t: "t \<in> set ?tests" "before_colons t = f"
      by auto
    have "before_colons (''./'' @ f) \<noteq> f"
      unfolding colons by simp
    with t(2) have "t \<noteq> ''./'' @ f"
      by blast
    moreover have "t \<notin> set (trusted_tests rv reg cid)"
      using t(2) assms(9) by blast
    ultimately show False
      using plan_tests_only [OF t(1)] strip by auto
  qed
  then have "self_judging [f] ?tests = []"
    by (auto simp: self_judging_def)
  moreover have "foldl (plan_file rv) ([], []) [f] = ([f], [])"
    using assms by (simp add: plan_file_def plan_path_def add_new_def)
  moreover have "?tests \<noteq> []"
    using mem by auto
  ultimately have "make_plan rv reg st cid [f] [''./'' @ f] None = Inr ([f], ?tests, classify_paths reg st [f])"
    using assms(8) unfolding make_plan_Inr by simp
  with mem show ?thesis by blast
qed

theorem self_judging_by_spelling_witness:
  "\<exists>tests d. make_plan demo_view [] demo_settings ''pages'' [''tests/test_new.py''] [''./tests/test_new.py''] None =
     Inr ([''tests/test_new.py''], tests, d) \<and> ''./tests/test_new.py'' \<in> set tests"
  using self_judging_by_spelling [of "''tests/test_new.py''" demo_view demo_settings "[]" "''pages''"]
  by (simp add: strip_def whitespace_def invalid_path_def starts_with_def path_name_def demo_view_def demo_settings_def
      trusted_tests_def get_contract_def)

end
