(* ===== verification/Attestation.thy ===== *)
theory Attestation
  imports TaskContract
begin

text \<open>
  Release attestations (\<open>maintenance/attestation.py\<close>): the required fields, the canonical bytes that
  are hashed and signed, and their verification. \<open>sha\<close> stands for
  \<open>hashlib.sha256(\<dots>).hexdigest()\<close>, \<open>mac k\<close> for the HMAC under the key \<open>k\<close>; the key is a string, empty
  when it is not configured.
\<close>

definition attestation_version :: string where
  "attestation_version = ''maint-attest/1''"

definition required_fields :: "string list" where
  "required_fields = [''version'', ''incident_id'', ''repair_case_id'', ''base_sha'', ''head_sha'', ''merged_sha'', ''tree_sha'',
    ''diff_digest'', ''changed_files'', ''risk_decision'', ''ci'', ''qa_verdict'', ''security_verdict'', ''staging_proof'',
    ''browser_proof'', ''contract_proof'', ''slo_state'', ''known_good_production_sha'', ''owner_approval'', ''created_at'']"

type_synonym attestation = "(string \<times> json) list"

definition missing_fields :: "attestation \<Rightarrow> string list" where
  "missing_fields att = filter (\<lambda>f. jget att f = None) required_fields"

definition canonical_bytes :: "attestation \<Rightarrow> string" where
  "canonical_bytes att = dumps_json (JObj att)"

definition unsigned :: string where
  "unsigned = ''unsigned''"

definition sign :: "(string \<Rightarrow> string) \<Rightarrow> (string \<Rightarrow> string \<Rightarrow> string) \<Rightarrow> string \<Rightarrow> attestation \<Rightarrow> string list + (string \<times> string)" where
  "sign sha mac key att =
    (if missing_fields att \<noteq> [] then Inl (missing_fields att)
     else let body = canonical_bytes att in Inr (sha body, if key \<noteq> [] then mac key body else unsigned))"

datatype att_verdict =
    AttOk | AttUnsignedOk | MissingFields "string list" | UnknownVersion | DigestMismatch | AttUnsigned | NoKey | SignatureMismatch

definition att_accepts :: "att_verdict \<Rightarrow> bool" where
  "att_accepts v \<longleftrightarrow> v = AttOk \<or> v = AttUnsignedOk"

definition verify_attestation ::
  "(string \<Rightarrow> string) \<Rightarrow> (string \<Rightarrow> string \<Rightarrow> string) \<Rightarrow> string \<Rightarrow> attestation \<Rightarrow> string \<Rightarrow> string \<Rightarrow> bool \<Rightarrow> att_verdict" where
  "verify_attestation sha mac key att digest signature require_signature =
    (if missing_fields att \<noteq> [] then MissingFields (missing_fields att)
     else if jget att ''version'' \<noteq> Some (JStr attestation_version) then UnknownVersion
     else let body = canonical_bytes att in
       if sha body \<noteq> digest then DigestMismatch
       else if signature = unsigned then (if require_signature then AttUnsigned else AttUnsignedOk)
       else if key = [] then NoKey
       else if mac key body \<noteq> signature then SignatureMismatch
       else AttOk)"

lemma verify_accepts:
  "att_accepts (verify_attestation sha mac key att digest signature require) \<longleftrightarrow>
    missing_fields att = [] \<and> jget att ''version'' = Some (JStr attestation_version) \<and> sha (canonical_bytes att) = digest \<and>
    (if signature = unsigned then \<not> require else key \<noteq> [] \<and> mac key (canonical_bytes att) = signature)"
  by (simp add: verify_attestation_def att_accepts_def Let_def)


definition demo_attestation :: attestation where
  "demo_attestation = map (\<lambda>f. (f, if f = ''version'' then JStr attestation_version else JNull)) required_fields"


end
