(* ===== verification/Release.thy ===== *)
theory Release
  imports PatchPolicy Attestation
begin

text \<open>
  The Maintenance Release Controller (\<open>maintenance/release.py\<close>). The row of a release extends the part
  the kernel reads. GitHub, Railway, the public probe and the preview are third parties: a record of
  their answers during one step, each a value or one of the two exceptions of \<open>release_providers.py\<close>
  or any other exception. A handler is a state transformer that may raise; what it changed before
  an exception stays, as in the code, and the calls that change the outside world are recorded.

  A JSON column is written when its attribute has been assigned a new object. \<open>deployments\<close> and
  \<open>rollback\<close> are assigned a local dictionary that is flushed and then changed and assigned again, the
  same object: the mapper sees no change and the row keeps what was flushed. \<open>w_deps_flushed\<close> and
  \<open>w_rb_flushed\<close> hold the flushed value, and \<open>store_row\<close> is what the commit leaves.
  Failure reasons are given without the values the code interpolates into them.
\<close>

section \<open>Providers\<close>

datatype rexn = ProviderTransient string | ProviderRefused string | OtherError

type_synonym 'a reply = "rexn + 'a"

record compare_result =
  cp_behind :: nat
  cp_files :: "string list"
  cp_patch :: string
  cp_truncated :: bool

record pull_state =
  pu_number :: nat
  pu_head :: string
  pu_merged :: bool
  pu_merge_sha :: "string option"
  pu_mergeable :: "bool option"
  pu_checks :: string

record deployment =
  dp_id :: string
  dp_status :: string
  dp_sha :: "string option"

record providers =
  gh_compare :: "string \<Rightarrow> string \<Rightarrow> compare_result reply"
  gh_tree :: "string \<Rightarrow> string reply"
  gh_head :: "string \<Rightarrow> string reply"
  gh_checks :: "string \<Rightarrow> string reply"
  gh_ensure :: "string \<Rightarrow> string \<Rightarrow> unit reply"
  gh_open_pr :: "string \<Rightarrow> string \<Rightarrow> pull_state reply"
  gh_pr :: "nat option \<Rightarrow> pull_state reply"
  gh_merge :: "nat option \<Rightarrow> string \<Rightarrow> string reply"
  gh_commit :: "string \<Rightarrow> string \<Rightarrow> string \<Rightarrow> string reply"
  gh_merged_by :: "nat \<Rightarrow> string option reply"
  rw_discover :: "(string \<times> bool) list reply"
  rw_healthy :: "bool reply"
  rw_deployments :: "string \<Rightarrow> deployment list reply"
  rw_current :: "string \<Rightarrow> deployment option reply"
  rw_deploy :: "string \<Rightarrow> string option \<Rightarrow> string reply"
  rw_rollback :: "string \<Rightarrow> string reply"
  rw_get :: "string \<Rightarrow> deployment reply"
  pb_check :: "(string \<times> bool) list reply"
  pv_validate :: "(string \<Rightarrow> string list \<Rightarrow> (string \<times> bool) list \<Rightarrow> string list \<Rightarrow> (string \<times> string) reply) option"

text \<open>The calls that change something outside.\<close>

datatype event =
    EvBranch string string | EvOpenPr string string | EvMerge "nat option" string | EvDeploy string "string option"
  | EvRollback string string | EvCommit string string

section \<open>Rows and settings\<close>

record rollback_doc =
  rb_baseline :: "(string \<times> bool) list option"
  rb_reason :: "string option"
  rb_services :: "(string \<times> string) list"
  rb_healthy :: nat
  rb_result :: "string option"
  rb_reconciliation :: "nat option"

record release = release_row +
  rl_tree :: "string option"
  rl_att :: attestation
  rl_digest :: string
  rl_signature :: string
  rl_services :: "string list"
  rl_branch :: "string option"
  rl_pr :: "nat option"
  rl_merge_sha :: "string option"
  rl_deps :: "(string \<times> string) list"
  rl_merged_at :: "instant option"
  rl_known_good :: "uid option"
  rl_rollback :: rollback_doc
  rl_streak :: nat
  rl_attempt :: nat
  rl_lease_owner :: "string option"
  rl_lease_until :: "instant option"
  rl_created :: instant
  rl_completed :: "instant option"
  rl_waits :: nat
  rl_prod_head :: "string option" \<comment> \<open>\<open>verification["checks"]["production_head"]\<close>\<close>
  rl_verified_at :: "instant option"
  rl_history :: "(instant \<times> release_status \<times> string) list"

record known_good =
  kg_id :: uid
  kg_sha :: "string option"
  kg_tree :: "string option"
  kg_deps :: "(string \<times> string) list"
  kg_at :: instant

record release_freeze =
  rf_reason :: string
  rf_release :: uid
  rf_tree :: "string option"
  rf_pr :: "nat option"
  rf_owner_only :: bool
  rf_opened :: instant
  rf_lifted :: "instant option"

record release_settings =
  rs_main :: string
  rs_production :: string
  rs_service_ids :: "string list"
  rs_owners :: "string list"
  rs_require_signature :: bool
  rs_deploy_grace :: int
  rs_backoff :: int
  rs_max_transient :: nat

text \<open>What a step reads beside its row: the settings, the answers, the other tables, and the clock.\<close>

record rctx =
  cx_st :: settings
  cx_rs :: release_settings
  cx_p :: providers
  cx_k :: kstate
  cx_reg :: "contract list"
  cx_releases :: "release list"
  cx_now :: instant
  cx_fresh :: uid
  cx_uid_str :: "uid \<Rightarrow> string"
  cx_sha :: "string \<Rightarrow> string"
  cx_mac :: "string \<Rightarrow> string \<Rightarrow> string"
  cx_key :: string

record work =
  w_row :: release
  w_deps_flushed :: "(string \<times> string) list option"
  w_rb_flushed :: "rollback_doc option"
  w_known :: "known_good list"
  w_freezes :: "release_freeze list"
  w_events :: "event list"

section \<open>Steps that may raise\<close>

type_synonym 'a rm = "work \<Rightarrow> (rexn + 'a) \<times> work"

definition ret :: "'a \<Rightarrow> 'a rm" where
  "ret x w = (Inr x, w)"

definition bindR :: "'a rm \<Rightarrow> ('a \<Rightarrow> 'b rm) \<Rightarrow> 'b rm" where
  "bindR m f w = (case m w of (Inl e, w') \<Rightarrow> (Inl e, w') | (Inr x, w') \<Rightarrow> f x w')"

definition ask :: "'a reply \<Rightarrow> 'a rm" where
  "ask r w = (r, w)"

definition act :: "event \<Rightarrow> 'a reply \<Rightarrow> 'a rm" where
  "act e r w = (r, w\<lparr>w_events := w_events w @ [e]\<rparr>)"

definition change :: "(release \<Rightarrow> release) \<Rightarrow> unit rm" where
  "change f w = (Inr (), w\<lparr>w_row := f (w_row w)\<rparr>)"

definition row :: "release rm" where
  "row w = (Inr (w_row w), w)"

text \<open>\<open>try: \<dots> except ProviderRefused: \<dots>\<close>\<close>

definition or_if_refused :: "'a rm \<Rightarrow> 'a rm \<Rightarrow> 'a rm" where
  "or_if_refused m alt w = (case m w of (Inl (ProviderRefused e), w') \<Rightarrow> alt w' | other \<Rightarrow> other)"

section \<open>Transitions\<close>

definition set_status :: "release_status \<Rightarrow> instant \<Rightarrow> int \<Rightarrow> string option \<Rightarrow> release \<Rightarrow> release" where
  "set_status s now delay reason r =
    r\<lparr>rl_status := s, rl_next := now + seconds delay,
      rl_failure := (case reason of Some t \<Rightarrow> if t = [] then rl_failure r else Some (take 500 t) | None \<Rightarrow> rl_failure r),
      rl_completed := (if release_terminal s then Some now else rl_completed r),
      rl_history := (let h = rl_history r @ [(now, s, take 200 (case reason of Some t \<Rightarrow> t | None \<Rightarrow> []))] in drop (length h - 60) h)\<rparr>"

definition refuse :: "instant \<Rightarrow> string \<Rightarrow> unit rm" where
  "refuse now reason = change (set_status REL_REFUSED now 0 (Some reason))"

text \<open>\<open>seconds or step_backoff_seconds\<close>: zero counts as absent.\<close>

definition wait_row :: "rctx \<Rightarrow> string \<Rightarrow> int option \<Rightarrow> release \<Rightarrow> release" where
  "wait_row cx reason secs r =
    (let n = rl_waits r + 1; r1 = r\<lparr>rl_waits := n\<rparr>; now = cx_now cx in
     if rl_deadline r \<le> now \<or> rs_max_transient (cx_rs cx) < n
     then set_status REL_REFUSED now 0 (Some (''inconclusive: '' @ reason)) r1
     else r1\<lparr>rl_next := now + seconds (case secs of None \<Rightarrow> rs_backoff (cx_rs cx) | Some s \<Rightarrow> if s = 0 then rs_backoff (cx_rs cx) else s)\<rparr>)"

definition hold :: "rctx \<Rightarrow> string \<Rightarrow> int option \<Rightarrow> unit rm" where
  "hold cx reason secs = change (wait_row cx reason secs)"

definition open_freeze :: "release_freeze list \<Rightarrow> bool" where
  "open_freeze fs \<longleftrightarrow> list_ex (\<lambda>f. rf_lifted f = None) fs"

definition add_freeze :: "string \<Rightarrow> string option \<Rightarrow> nat option \<Rightarrow> bool \<Rightarrow> instant \<Rightarrow> unit rm" where
  "add_freeze reason tree pr owner_only now w =
    (Inr (), w\<lparr>w_freezes := w_freezes w @ [\<lparr>rf_reason = reason, rf_release = rl_id (w_row w), rf_tree = tree, rf_pr = pr,
      rf_owner_only = owner_only, rf_opened = now, rf_lifted = None\<rparr>]\<rparr>)"

text \<open>Assigning a new rollback document, and assigning the local one again.\<close>

definition new_rollback :: "(rollback_doc \<Rightarrow> rollback_doc) \<Rightarrow> unit rm" where
  "new_rollback f w = (Inr (), w\<lparr>w_row := (w_row w)\<lparr>rl_rollback := f (rl_rollback (w_row w))\<rparr>, w_rb_flushed := None\<rparr>)"

definition put_rollback :: "rollback_doc \<Rightarrow> unit rm" where
  "put_rollback d = change (\<lambda>r. r\<lparr>rl_rollback := d\<rparr>)"

definition keep_first :: "'a option \<Rightarrow> 'a \<Rightarrow> 'a option" where
  "keep_first old x = (case old of None \<Rightarrow> Some x | Some y \<Rightarrow> Some y)"

definition flush_rollback :: "unit rm" where
  "flush_rollback w = (Inr (), w\<lparr>w_rb_flushed := keep_first (w_rb_flushed w) (rl_rollback (w_row w))\<rparr>)"

definition flush_deps :: "unit rm" where
  "flush_deps w = (Inr (), w\<lparr>w_deps_flushed := keep_first (w_deps_flushed w) (rl_deps (w_row w))\<rparr>)"

definition store_row :: "work \<Rightarrow> release" where
  "store_row w =
    (let r1 = (case w_deps_flushed w of None \<Rightarrow> w_row w | Some d \<Rightarrow> (w_row w)\<lparr>rl_deps := d\<rparr>)
     in case w_rb_flushed w of None \<Rightarrow> r1 | Some d \<Rightarrow> r1\<lparr>rl_rollback := d\<rparr>)"

definition rollback_failed :: "instant \<Rightarrow> string \<Rightarrow> unit rm" where
  "rollback_failed now reason =
    bindR (new_rollback (\<lambda>d. d\<lparr>rb_result := Some ''failed''\<rparr>))
    (\<lambda>_. bindR (add_freeze ''rollback_failed_p0'' None None True now)
    (\<lambda>_. change (set_status REL_ROLLBACK_FAILED now 0 (Some reason))))"

definition start_rollback :: "instant \<Rightarrow> string \<Rightarrow> unit rm" where
  "start_rollback now reason =
    bindR (new_rollback (\<lambda>d. d\<lparr>rb_reason := Some (take 300 reason), rb_services := []\<rparr>))
    (\<lambda>_. bindR (change (\<lambda>r. r\<lparr>rl_streak := 0\<rparr>))
    (\<lambda>_. change (set_status REL_ROLLING_BACK now 0 (Some reason))))"

section \<open>Independent verification\<close>

definition service_paths :: "(string \<times> string list) list" where
  "service_paths = [(''services/dashboard/'', [''dashboard'']), (''services/registry/'', [''registry'']),
    (''services/payment/'', [''payment'']), (''services/worker/'', [''worker'']), (''services/simulation/'', [''simulation'']),
    (''sdk/'', []), (''docs/'', []), (''tests/'', []), (''examples/'', [])]"

definition add_services :: "string list \<Rightarrow> string \<Rightarrow> string list" where
  "add_services out p =
    (case find (\<lambda>(prefix, svcs). starts_with prefix p) service_paths of
       Some (_, svcs) \<Rightarrow> foldl (\<lambda>acc s. if s \<in> set acc then acc else acc @ [s]) out svcs
     | None \<Rightarrow> if ends_with ''.md'' p then out
         else foldl (\<lambda>acc s. if s \<in> set acc then acc else acc @ [s]) out [''registry'', ''payment'', ''worker'', ''dashboard''])"

definition services_for :: "string list \<Rightarrow> string list" where
  "services_for paths = foldl add_services [] paths"

datatype verdict = Passed | Refused string | Pending string

record facts =
  fa_prod :: "string option"
  fa_tree :: "string option"
  fa_services :: "string list"

text \<open>\<open>att.get("changed_files") or []\<close>, and the owner's pull request of the attestation (a number).\<close>

fun json_strings :: "json list \<Rightarrow> string list option" where
  "json_strings [] = Some []"
| "json_strings (JStr s # js) = (case json_strings js of None \<Rightarrow> None | Some ss \<Rightarrow> Some (s # ss))"
| "json_strings (_ # js) = None"

definition attested_files :: "attestation \<Rightarrow> string list reply" where
  "attested_files att =
    (case jget att ''changed_files'' of
       Some (JArr js) \<Rightarrow> (case json_strings js of None \<Rightarrow> Inl OtherError | Some fs \<Rightarrow> Inr fs)
     | Some j \<Rightarrow> if json_truthy j then Inl OtherError else Inr []
     | None \<Rightarrow> Inr [])"

definition approval_pr :: "attestation \<Rightarrow> nat option reply" where
  "approval_pr att =
    (case jget att ''owner_approval'' of
       Some (JObj kvs) \<Rightarrow>
         (case jget kvs ''pr'' of
            Some (JInt n) \<Rightarrow> Inr (if n = 0 then None else Some (nat n))
          | Some j \<Rightarrow> if json_truthy j then Inl OtherError else Inr None
          | None \<Rightarrow> Inr None)
     | Some j \<Rightarrow> if json_truthy j then Inl OtherError else Inr None
     | None \<Rightarrow> Inr None)"

definition releases_today :: "release list \<Rightarrow> instant \<Rightarrow> uid \<Rightarrow> nat" where
  "releases_today rels now except = count_rows (\<lambda>q. rl_id q \<noteq> except \<and> day_start now \<le> rl_created q \<and>
     rl_status q \<notin> {REL_REFUSED, REL_PENDING, REL_VERIFYING}) rels"

definition foreign_freeze :: "uid \<Rightarrow> freeze \<Rightarrow> bool" where
  "foreign_freeze inc z \<longleftrightarrow> \<not> fz_lifted z \<and> fz_incident z \<noteq> Some inc \<and> fz_source z \<noteq> ''public_surface''"

definition owner_approved :: "rctx \<Rightarrow> attestation \<Rightarrow> bool reply" where
  "owner_approved cx att =
    bindE (approval_pr att)
    (\<lambda>pr. case pr of None \<Rightarrow> Inr False
      | Some n \<Rightarrow> bindE (gh_merged_by (cx_p cx) n)
          (\<lambda>by_whom. Inr (case by_whom of None \<Rightarrow> False | Some u \<Rightarrow> u \<noteq> [] \<and> u \<in> set (rs_owners (cx_rs cx)))))"

text \<open>The checks that follow the classification: CI, the provider, freezes, the error budget and the cap.\<close>

definition verify_runtime :: "rctx \<Rightarrow> release \<Rightarrow> release_freeze list \<Rightarrow> rcase \<Rightarrow> string list \<Rightarrow> facts \<Rightarrow> (verdict \<times> facts) reply" where
  "verify_runtime cx r freezes c shipped f =
    (let p = cx_p cx; st = cx_st cx; k = cx_k cx; now = cx_now cx; no = (\<lambda>v. Inr (v, f)) in
     bindE (gh_checks p (rl_head_sha r))
     (\<lambda>ci. if ci = ''failed'' then no (Refused ''required checks failed on the attested sha'')
      else if ci \<noteq> ''passed'' then no (Pending ''required checks pending on the attested sha'')
      else bindE (case gh_tree p (rl_head_sha r) of Inl (ProviderRefused _) \<Rightarrow> Inr None | Inl e \<Rightarrow> Inl e | Inr t \<Rightarrow> Inr (Some t))
      (\<lambda>tree. let f1 = f\<lparr>fa_tree := tree\<rparr>; no1 = (\<lambda>v. Inr (v, f1)) in
       bindE (rw_discover p)
       (\<lambda>schema. if \<not> list_all snd schema then no1 (Refused ''Railway schema lacks required mutations'')
        else bindE (rw_healthy p)
        (\<lambda>healthy. if \<not> healthy then no1 (Pending ''provider unhealthy; not deploying into it'')
         else if open_freeze freezes then no1 (Pending ''production release freeze open'')
         else if list_ex (foreign_freeze (rl_incident r)) (kd_freezes (k_db k))
         then no1 (Pending ''incident freeze open for another incident'')
         else if \<not> release_allowed_by_budget (k_db k) (st_target st) (rc_priority c)
             (case get_incident (k_db k) (rl_incident r) of None \<Rightarrow> False | Some i \<Rightarrow> mi_class i = SECURITY) now
         then no1 (Pending ''error budget exhausted; only P0/P1 and security repairs release'')
         else if max_auto_releases_per_day st \<le> releases_today (cx_releases cx) now (rl_id r)
         then no1 (Pending ''daily autonomous release cap reached'')
         else Inr (Passed, f1\<lparr>fa_services := services_for shipped\<rparr>))))))"

text \<open>The diff that would really ship, and its trusted classification.\<close>

definition verify_diff :: "rctx \<Rightarrow> release \<Rightarrow> release_freeze list \<Rightarrow> rcase \<Rightarrow> facts \<Rightarrow> (verdict \<times> facts) reply" where
  "verify_diff cx r freezes c f0 =
    (let p = cx_p cx in
     bindE (gh_head p (rs_production (cx_rs cx)))
     (\<lambda>prod. let f = f0\<lparr>fa_prod := Some prod\<rparr>; no = (\<lambda>v. Inr (v, f)) in
      bindE (gh_head p (rs_main (cx_rs cx)))
      (\<lambda>main. bindE (gh_compare p (rl_head_sha r) main)
      (\<lambda>on_main. if 0 < cp_behind on_main then no (Refused ''the attested sha is not on main'')
       else bindE (gh_compare p prod (rl_head_sha r))
       (\<lambda>cmp. if 0 < cp_behind cmp then no (Refused ''production has commits that are not on main (branch parity broken)'')
        else if cp_truncated cmp then no (Refused ''the production..sha diff is too large to verify completely'')
        else bindE (attested_files (rl_att r))
        (\<lambda>attested. let shipped = sort (cp_files cmp) in
         if shipped \<noteq> sort attested then no (Refused ''the release would ship unrelated unreleased changes'')
         else let risk = dc_class (classify_patch (cx_reg cx) (cx_st cx) shipped (cp_patch cmp) False) in
           if risk = AMBER
           then bindE (owner_approved cx (rl_att r))
             (\<lambda>ok. if ok then verify_runtime cx r freezes c shipped f else no (Refused ''AMBER release without a verified owner approval''))
           else if risk \<noteq> MAINTENANCE_GREEN
           then no (Refused (''trusted classification is '' @ risk_value risk @ ''; autonomous release refused''))
           else verify_runtime cx r freezes c shipped f))))))"

definition verify_release :: "rctx \<Rightarrow> release \<Rightarrow> release_freeze list \<Rightarrow> (verdict \<times> facts) reply" where
  "verify_release cx r freezes =
    (let f = \<lparr>fa_prod = None, fa_tree = None, fa_services = []\<rparr>; no = (\<lambda>v. Inr (v, f)) in
     if \<not> att_accepts (verify_attestation (cx_sha cx) (cx_mac cx) (cx_key cx) (rl_att r) (rl_digest r) (rl_signature r)
          (rs_require_signature (cx_rs cx)))
     then no (Refused ''attestation'')
     else if jget (rl_att r) ''merged_sha'' \<noteq> Some (JStr (rl_head_sha r)) \<or>
       jget (rl_att r) ''repair_case_id'' \<noteq> Some (JStr (cx_uid_str cx (rl_case r)))
     then no (Refused ''attestation does not describe this release'')
     else case get_case (k_db (cx_k cx)) (rl_case r) of
       None \<Rightarrow> no (Refused ''the repair case is not releasing this row'')
     | Some c \<Rightarrow>
         if rc_state c \<noteq> RELEASING \<or> rc_release c \<noteq> Some (rl_id r)
         then no (Refused ''the repair case is not releasing this row'')
         else verify_diff cx r freezes c f)"

section \<open>Known-good records\<close>

fun current_deployments :: "providers \<Rightarrow> string list \<Rightarrow> (string \<times> string) list reply" where
  "current_deployments p [] = Inr []"
| "current_deployments p (svc # svcs) =
    bindE (rw_current p svc)
    (\<lambda>cur. bindE (current_deployments p svcs)
    (\<lambda>rest. Inr (case cur of None \<Rightarrow> rest | Some d \<Rightarrow> (svc, dp_id d) # rest)))"

definition record_known_good :: "rctx \<Rightarrow> facts \<Rightarrow> uid rm" where
  "record_known_good cx f =
    bindR (ask (current_deployments (cx_p cx) (sort (remdups (rs_service_ids (cx_rs cx) @ fa_services f)))))
    (\<lambda>deps. let prod = (case fa_prod f of None \<Rightarrow> [] | Some s \<Rightarrow> s) in
      bindR (ask (gh_tree (cx_p cx) prod))
      (\<lambda>tree w. (Inr (cx_fresh cx), w\<lparr>w_known := w_known w @ [\<lparr>kg_id = cx_fresh cx, kg_sha = Some prod, kg_tree = Some tree,
        kg_deps = deps, kg_at = cx_now cx\<rparr>]\<rparr>)))"

text \<open>The merge of the earlier deployments with the new ones; the production sha is a mandatory column.\<close>

definition record_new_known_good :: "rctx \<Rightarrow> unit rm" where
  "record_new_known_good cx w =
    (let r = w_row w;
         prev = (case rl_known_good r of None \<Rightarrow> None | Some i \<Rightarrow> find (\<lambda>g. kg_id g = i) (w_known w));
         new = map (\<lambda>s. (s, map_of (rl_deps r) s)) (rl_services r);
         kept = (case prev of None \<Rightarrow> [] | Some g \<Rightarrow> filter (\<lambda>(s, d). \<not> (\<exists>d'. map_of new s = Some (Some d'))) (kg_deps g))
     in if rl_merge_sha r = None then (Inl OtherError, w)
        else (Inr (), w\<lparr>w_known := w_known w @ [\<lparr>kg_id = cx_fresh cx, kg_sha = rl_merge_sha r, kg_tree = rl_tree r,
          kg_deps = kept @ concat (map (\<lambda>(s, d). case d of None \<Rightarrow> [] | Some x \<Rightarrow> [(s, x)]) new), kg_at = cx_now cx\<rparr>]\<rparr>))"

section \<open>The steps\<close>

definition s_verifying :: "rctx \<Rightarrow> unit rm" where
  "s_verifying cx =
    bindR (\<lambda>w. (verify_release cx (w_row w) (w_freezes w), w))
    (\<lambda>(v, f). bindR (change (\<lambda>r. r\<lparr>rl_prod_head := fa_prod f, rl_verified_at := (if v = Passed then Some (cx_now cx) else None)\<rparr>))
     (\<lambda>_. case v of
        Pending reason \<Rightarrow> hold cx reason None
      | Refused reason \<Rightarrow> refuse (cx_now cx) reason
      | Passed \<Rightarrow>
          bindR (record_known_good cx f)
          (\<lambda>kg. bindR (change (\<lambda>r. r\<lparr>rl_known_good := Some kg, rl_services := fa_services f, rl_tree := fa_tree f\<rparr>))
          (\<lambda>_. bindR (ask (pb_check (cx_p cx)))
          (\<lambda>probe. bindR (new_rollback (\<lambda>d. d\<lparr>rb_baseline := Some probe\<rparr>))
          (\<lambda>_. change (set_status REL_PREVIEW_VALIDATING (cx_now cx) 0 None)))))))"

definition s_pending :: "rctx \<Rightarrow> unit rm" where
  "s_pending cx =
    (if \<not> autonomy_enabled (cx_st cx) then refuse (cx_now cx) ''MAINTENANCE_AUTONOMY_ENABLED is false (owner kill switch)''
     else if \<not> green_release_enabled (cx_st cx)
     then refuse (cx_now cx) ''MAINTENANCE_GREEN_RELEASE_ENABLED is false in release-control''
     else bindR (change (set_status REL_VERIFYING (cx_now cx) 0 None)) (\<lambda>_. s_verifying cx))"

definition release_branch :: "string \<Rightarrow> string" where
  "release_branch sha = ''release/prod-'' @ take 12 sha"

definition baseline_of :: "release \<Rightarrow> (string \<times> bool) list" where
  "baseline_of r = (case rb_baseline (rl_rollback r) of None \<Rightarrow> [] | Some b \<Rightarrow> b)"

definition s_preview :: "rctx \<Rightarrow> unit rm" where
  "s_preview cx =
    (case pv_validate (cx_p cx) of
       None \<Rightarrow> refuse (cx_now cx) ''no release-preview surface is configured (fail closed)''
     | Some validate \<Rightarrow>
         bindR row
         (\<lambda>r. bindR (ask (validate (rl_head_sha r) (rl_services r) (baseline_of r)
                (case get_incident (k_db (cx_k cx)) (rl_incident r) of None \<Rightarrow> [] | Some i \<Rightarrow> [mi_ref i])))
          (\<lambda>(state, reason).
            if state = ''pending'' then hold cx ''release preview pending'' (Some 60)
            else if state \<noteq> ''passed'' then refuse (cx_now cx) (''release preview failed: '' @ take 200 reason)
            else let b = release_branch (rl_head_sha r) in
              bindR (act (EvBranch b (rl_head_sha r)) (gh_ensure (cx_p cx) b (rl_head_sha r)))
              (\<lambda>_. bindR (act (EvOpenPr b (rs_production (cx_rs cx))) (gh_open_pr (cx_p cx) b (rs_production (cx_rs cx))))
              (\<lambda>pr. bindR (change (\<lambda>r. r\<lparr>rl_branch := Some b, rl_pr := Some (pu_number pr)\<rparr>))
              (\<lambda>_. change (set_status REL_PR_OPEN (cx_now cx) 30 None)))))))"

definition s_merged :: "rctx \<Rightarrow> unit rm" where
  "s_merged cx = change (\<lambda>r. set_status REL_DEPLOYING (cx_now cx) 0 None (r\<lparr>rl_merged_at := Some (cx_now cx)\<rparr>))"

definition enter_merged :: "rctx \<Rightarrow> string option \<Rightarrow> unit rm" where
  "enter_merged cx sha =
    bindR (change (\<lambda>r. set_status REL_MERGED (cx_now cx) 0 None (r\<lparr>rl_merge_sha := sha\<rparr>))) (\<lambda>_. s_merged cx)"

definition s_pr_open :: "rctx \<Rightarrow> unit rm" where
  "s_pr_open cx =
    bindR row
    (\<lambda>r. bindR (ask (gh_pr (cx_p cx) (rl_pr r)))
    (\<lambda>pr. if pu_merged pr then enter_merged cx (pu_merge_sha pr)
      else bindR (ask (gh_head (cx_p cx) (rs_production (cx_rs cx))))
      (\<lambda>prod.
        if Some prod \<noteq> rl_prod_head r then refuse (cx_now cx) ''production moved after verification; re-attestation required (no stale release)''
        else if pu_head pr \<noteq> rl_head_sha r then refuse (cx_now cx) ''release branch head is not the attested sha''
        else if pu_mergeable pr = Some False then refuse (cx_now cx) ''production PR has a merge conflict (no force push, no rebase)''
        else if pu_checks pr = ''failed'' then refuse (cx_now cx) ''required production CI failed''
        else if pu_checks pr \<noteq> ''passed'' \<or> pu_mergeable pr = None then hold cx ''production CI pending'' (Some 60)
        else (\<lambda>w. (if open_freeze (w_freezes w) then hold cx ''production release freeze open'' (Some 120)
          else bindR (act (EvMerge (rl_pr r) (rl_head_sha r)) (gh_merge (cx_p cx) (rl_pr r) (rl_head_sha r)))
            (\<lambda>sha. enter_merged cx (Some sha))) w))))"

text \<open>One service: what is known of its deployment, adopting or triggering one.\<close>

definition deploy_service :: "rctx \<Rightarrow> instant \<Rightarrow> (string \<times> string) list \<Rightarrow> string \<Rightarrow> ((string \<times> string) list \<times> string) rm" where
  "deploy_service cx merged_at deps svc =
    bindR row
    (\<lambda>r. bindR
      (case map_of deps svc of
         Some d \<Rightarrow> ret (deps, Some d)
       | None \<Rightarrow>
           bindR (ask (rw_deployments (cx_p cx) svc))
           (\<lambda>ds. case find (\<lambda>d. dp_sha d = rl_merge_sha r) ds of
              Some d \<Rightarrow> ret (deps @ [(svc, dp_id d)], Some (dp_id d))
            | None \<Rightarrow>
                if cx_now cx - merged_at < seconds (rs_deploy_grace (cx_rs cx)) then ret (deps, None)
                else bindR (act (EvDeploy svc (rl_merge_sha r)) (rw_deploy (cx_p cx) svc (rl_merge_sha r)))
                  (\<lambda>d. let deps' = deps @ [(svc, d)] in
                    bindR (change (\<lambda>q. q\<lparr>rl_deps := deps'\<rparr>)) (\<lambda>_. bindR flush_deps (\<lambda>_. ret (deps', Some d))))))
      (\<lambda>(deps', known). case known of
         None \<Rightarrow> ret (deps', ''WAITING_FOR_TRIGGER'')
       | Some d \<Rightarrow> bindR (ask (rw_get (cx_p cx) d)) (\<lambda>x. ret (deps', dp_status x))))"

fun deploy_each :: "rctx \<Rightarrow> instant \<Rightarrow> (string \<times> string) list \<Rightarrow> string list \<Rightarrow> ((string \<times> string) list \<times> string list) rm" where
  "deploy_each cx m deps [] = ret (deps, [])"
| "deploy_each cx m deps (svc # svcs) =
    bindR (deploy_service cx m deps svc)
    (\<lambda>(deps', s). bindR (deploy_each cx m deps' svcs) (\<lambda>(deps'', ss). ret (deps'', s # ss)))"

definition failed_state :: "string \<Rightarrow> bool" where
  "failed_state s \<longleftrightarrow> s \<in> {''FAILED'', ''CRASHED'', ''REMOVED''}"

definition s_deploying :: "rctx \<Rightarrow> unit rm" where
  "s_deploying cx =
    bindR row
    (\<lambda>r. bindR (deploy_each cx (case rl_merged_at r of None \<Rightarrow> cx_now cx | Some t \<Rightarrow> t) (rl_deps r) (rl_services r))
    (\<lambda>(deps, states). bindR (change (\<lambda>q. q\<lparr>rl_deps := deps\<rparr>))
    (\<lambda>_. if list_ex failed_state states then start_rollback (cx_now cx) ''deployment failed''
      else if list_all (\<lambda>s. s = ''SUCCESS'') states
      then change (set_status REL_POST_DEPLOY_VERIFYING (cx_now cx) (post_deploy_interval_seconds (cx_st cx)) None)
      else if rl_deadline r \<le> cx_now cx then start_rollback (cx_now cx) ''deployment did not finish before the deadline''
      else change (\<lambda>q. q\<lparr>rl_next := cx_now cx + seconds 30\<rparr>))))"

definition regressions :: "release \<Rightarrow> (string \<times> bool) list \<Rightarrow> string list" where
  "regressions r probe =
    sort (map fst (filter (\<lambda>(k, good). \<not> good \<and> (case map_of (baseline_of r) k of None \<Rightarrow> True | Some b \<Rightarrow> b)) probe))"

definition s_post_deploy :: "rctx \<Rightarrow> unit rm" where
  "s_post_deploy cx =
    bindR (ask (pb_check (cx_p cx)))
    (\<lambda>probe. bindR row
    (\<lambda>r. if regressions r probe \<noteq> [] then start_rollback (cx_now cx) ''post-deploy regression''
      else bindR (change (\<lambda>q. q\<lparr>rl_streak := rl_streak q + 1\<rparr>))
      (\<lambda>_. if post_deploy_healthy_observations (cx_st cx) \<le> rl_streak r + 1
        then bindR (record_new_known_good cx) (\<lambda>_. change (set_status REL_SUCCEEDED (cx_now cx) 0 None))
        else change (\<lambda>q. q\<lparr>rl_next := cx_now cx + seconds (post_deploy_interval_seconds (cx_st cx))\<rparr>))))"

text \<open>One service of a rollback; a refused rollback (an expired image) redeploys the known-good sha.\<close>

definition roll_service :: "rctx \<Rightarrow> known_good \<Rightarrow> rollback_doc \<Rightarrow> string \<Rightarrow> (rollback_doc \<times> string) rm" where
  "roll_service cx kg d svc =
    bindR
      (case map_of (rb_services d) svc of
         Some i \<Rightarrow> ret (d, i)
       | None \<Rightarrow>
           bindR (let redeploy = act (EvDeploy svc (kg_sha kg)) (rw_deploy (cx_p cx) svc (kg_sha kg)) in
             case map_of (kg_deps kg) svc of
               None \<Rightarrow> redeploy
             | Some t \<Rightarrow> if t = [] then redeploy
                 else or_if_refused (act (EvRollback svc t) (rw_rollback (cx_p cx) t)) redeploy)
           (\<lambda>i. let d' = d\<lparr>rb_services := rb_services d @ [(svc, i)]\<rparr> in
             bindR (put_rollback d') (\<lambda>_. bindR flush_rollback (\<lambda>_. ret (d', i)))))
      (\<lambda>(d', i). bindR (ask (rw_get (cx_p cx) i)) (\<lambda>x. ret (d', dp_status x)))"

fun roll_each :: "rctx \<Rightarrow> known_good \<Rightarrow> rollback_doc \<Rightarrow> string list \<Rightarrow> (rollback_doc \<times> string list) rm" where
  "roll_each cx kg d [] = ret (d, [])"
| "roll_each cx kg d (svc # svcs) =
    bindR (roll_service cx kg d svc)
    (\<lambda>(d', s). bindR (roll_each cx kg d' svcs) (\<lambda>(d'', ss). ret (d'', s # ss)))"

definition branch_reconciliation :: "rctx \<Rightarrow> known_good \<Rightarrow> unit rm" where
  "branch_reconciliation cx kg =
    bindR row
    (\<lambda>r. let b = ''reconcile/prod-'' @ take 8 (cx_uid_str cx (rl_id r)); sha = (case kg_sha kg of None \<Rightarrow> [] | Some s \<Rightarrow> s) in
     bindR (ask (gh_head (cx_p cx) (rs_production (cx_rs cx))))
     (\<lambda>head. bindR (ask (case kg_tree kg of Some t \<Rightarrow> if t = [] then gh_tree (cx_p cx) sha else Inr t | None \<Rightarrow> gh_tree (cx_p cx) sha))
     (\<lambda>tree. bindR (act (EvCommit b tree) (gh_commit (cx_p cx) b head tree))
     (\<lambda>_. bindR (act (EvOpenPr b (rs_production (cx_rs cx))) (gh_open_pr (cx_p cx) b (rs_production (cx_rs cx))))
     (\<lambda>pr. bindR (new_rollback (\<lambda>d. d\<lparr>rb_reconciliation := Some (pu_number pr)\<rparr>))
     (\<lambda>_. add_freeze ''rollback_parity'' (Some tree) (Some (pu_number pr)) False (cx_now cx)))))))"

definition finish_rollback :: "rctx \<Rightarrow> known_good \<Rightarrow> rollback_doc \<Rightarrow> (string \<times> bool) list \<Rightarrow> unit rm" where
  "finish_rollback cx kg d probe =
    bindR row
    (\<lambda>r. let reg = regressions r probe; d1 = d\<lparr>rb_healthy := (if reg \<noteq> [] then 0 else rb_healthy d + 1)\<rparr>;
             later = change (\<lambda>q. q\<lparr>rl_next := cx_now cx + seconds (post_deploy_interval_seconds (cx_st cx))\<rparr>) in
     bindR (put_rollback d1)
     (\<lambda>_. if reg \<noteq> [] then
          (if rl_deadline r + hours 1 \<le> cx_now cx
           then rollback_failed (cx_now cx) ''public desired state not restored after rollback'' else later)
        else if rb_healthy d1 < post_deploy_healthy_observations (cx_st cx) then later
        else bindR (put_rollback (d1\<lparr>rb_result := Some ''restored''\<rparr>))
          (\<lambda>_. bindR (branch_reconciliation cx kg) (\<lambda>_. change (set_status REL_ROLLED_BACK (cx_now cx) 0 None)))))"

definition after_roll :: "rctx \<Rightarrow> known_good \<Rightarrow> instant \<Rightarrow> rollback_doc \<Rightarrow> string list \<Rightarrow> unit rm" where
  "after_roll cx kg deadline d states =
    (if list_ex failed_state states
     then bindR (put_rollback d) (\<lambda>_. rollback_failed (cx_now cx) ''rollback deployment failed'')
     else if \<not> list_all (\<lambda>s. s = ''SUCCESS'') states
     then bindR (put_rollback d)
       (\<lambda>_. if deadline + hours 1 \<le> cx_now cx then rollback_failed (cx_now cx) ''rollback did not complete''
         else change (\<lambda>q. q\<lparr>rl_next := cx_now cx + seconds 30\<rparr>))
     else bindR (ask (pb_check (cx_p cx))) (\<lambda>probe. finish_rollback cx kg d probe))"

definition roll_back_to :: "rctx \<Rightarrow> known_good \<Rightarrow> unit rm" where
  "roll_back_to cx kg =
    bindR row
    (\<lambda>r. bindR (roll_each cx kg (rl_rollback r) (rl_services r))
    (\<lambda>(d, states). after_roll cx kg (rl_deadline r) d states))"

definition s_rolling_back :: "rctx \<Rightarrow> unit rm" where
  "s_rolling_back cx =
    bindR (\<lambda>w. (Inr (case rl_known_good (w_row w) of None \<Rightarrow> None | Some i \<Rightarrow> find (\<lambda>g. kg_id g = i) (w_known w)), w))
    (\<lambda>known. case known of
       None \<Rightarrow> rollback_failed (cx_now cx) ''no known-good record to roll back to''
     | Some kg \<Rightarrow> roll_back_to cx kg)"

text \<open>\<open>getattr(self, f"_s_{status}")\<close>: a terminal status has no handler.\<close>

definition handle :: "rctx \<Rightarrow> release_status \<Rightarrow> unit rm" where
  "handle cx s = (case s of
      REL_PENDING \<Rightarrow> s_pending cx | REL_VERIFYING \<Rightarrow> s_verifying cx | REL_PREVIEW_VALIDATING \<Rightarrow> s_preview cx
    | REL_PR_OPEN \<Rightarrow> s_pr_open cx | REL_MERGED \<Rightarrow> s_merged cx | REL_DEPLOYING \<Rightarrow> s_deploying cx
    | REL_POST_DEPLOY_VERIFYING \<Rightarrow> s_post_deploy cx | REL_ROLLING_BACK \<Rightarrow> s_rolling_back cx
    | _ \<Rightarrow> (\<lambda>w. (Inl OtherError, w)))"

text \<open>How \<open>_step\<close> ends: the two exceptions of the providers are decided by the status the step began in.\<close>

definition settle :: "rctx \<Rightarrow> release_status \<Rightarrow> rexn + unit \<Rightarrow> unit rm" where
  "settle cx status r =
    (case r of
       Inl (ProviderTransient e) \<Rightarrow>
         (\<lambda>w. (if status \<in> {REL_DEPLOYING, REL_POST_DEPLOY_VERIFYING, REL_ROLLING_BACK} \<and> rl_deadline (w_row w) \<le> cx_now cx
          then (if status = REL_ROLLING_BACK then rollback_failed (cx_now cx) (''provider unavailable during rollback: '' @ e)
                else start_rollback (cx_now cx) (''provider unavailable after merge: '' @ e))
          else hold cx (''provider transient: '' @ e) None) w)
     | Inl (ProviderRefused e) \<Rightarrow>
         (if status \<in> {REL_PENDING, REL_VERIFYING, REL_PREVIEW_VALIDATING, REL_PR_OPEN}
          then refuse (cx_now cx) (''provider refused: '' @ e)
          else if status = REL_ROLLING_BACK then rollback_failed (cx_now cx) (''rollback refused: '' @ e)
          else start_rollback (cx_now cx) (''provider refused after merge: '' @ e))
     | _ \<Rightarrow> ask r)"

definition release_step :: "rctx \<Rightarrow> unit rm" where
  "release_step cx w =
    (let status = rl_status (w_row w) in
     case handle cx status w of (r, w') \<Rightarrow> settle cx status r w')"

section \<open>A cycle\<close>

record release_db =
  rd_releases :: "release list"
  rd_known :: "known_good list"
  rd_freezes :: "release_freeze list"
  rd_events :: "event list"

definition claimable :: "instant \<Rightarrow> release \<Rightarrow> bool" where
  "claimable now r \<longleftrightarrow> \<not> release_terminal (rl_status r) \<and> rl_next r \<le> now \<and>
    (case rl_lease_until r of None \<Rightarrow> True | Some u \<Rightarrow> u < now)"

fun oldest :: "release list \<Rightarrow> release option" where
  "oldest [] = None"
| "oldest (r # rs) = (case oldest rs of None \<Rightarrow> Some r | Some q \<Rightarrow> if rl_created q < rl_created r then Some q else Some r)"

definition set_release :: "uid \<Rightarrow> (release \<Rightarrow> release) \<Rightarrow> release_db \<Rightarrow> release_db" where
  "set_release i f d = d\<lparr>rd_releases := upd_key rl_id i f (rd_releases d)\<rparr>"

definition claim_release :: "string \<Rightarrow> instant \<Rightarrow> release_db \<Rightarrow> release_db \<times> uid option" where
  "claim_release me now d =
    (case oldest (filter (claimable now) (rd_releases d)) of
       None \<Rightarrow> (d, None)
     | Some r \<Rightarrow> (set_release (rl_id r) (\<lambda>q. q\<lparr>rl_lease_owner := Some me, rl_lease_until := Some (now + minutes 10),
         rl_attempt := rl_attempt q + 1\<rparr>) d, Some (rl_id r)))"

definition release_backoff :: "rctx \<Rightarrow> uid \<Rightarrow> release_db \<Rightarrow> release_db" where
  "release_backoff cx i d = set_release i (\<lambda>r. r\<lparr>rl_lease_owner := None, rl_lease_until := None,
     rl_next := cx_now cx + seconds (min 900 (rs_backoff (cx_rs cx) * 2 ^ min (rl_attempt r) 5))\<rparr>) d"

text \<open>
  One claimed release: the step, the lease given back, the commit. An exception other than the two of
  the providers rolls the tables back; what was done outside stays done.
\<close>

definition work_on :: "rctx \<Rightarrow> bool \<Rightarrow> uid \<Rightarrow> release_db \<Rightarrow> release_db" where
  "work_on cx0 configured i d =
    (let cx = cx0\<lparr>cx_releases := rd_releases d\<rparr> in
     case find (\<lambda>r. rl_id r = i) (rd_releases d) of
       None \<Rightarrow> release_backoff cx i d
     | Some r \<Rightarrow>
         (case (if configured then release_step cx else refuse (cx_now cx) ''no release provider configured in release-control'')
             \<lparr>w_row = r, w_deps_flushed = None, w_rb_flushed = None, w_known = rd_known d, w_freezes = rd_freezes d,
              w_events = rd_events d\<rparr> of
            (Inr _, w) \<Rightarrow> \<lparr>rd_releases = upd_key rl_id i (\<lambda>_. (store_row w)\<lparr>rl_lease_owner := None, rl_lease_until := None\<rparr>) (rd_releases d),
              rd_known = w_known w, rd_freezes = w_freezes w, rd_events = w_events w\<rparr>
          | (Inl _, w) \<Rightarrow> release_backoff cx i (d\<lparr>rd_events := w_events w\<rparr>)))"

fun work_items :: "(nat \<Rightarrow> rctx) \<Rightarrow> bool \<Rightarrow> string \<Rightarrow> nat \<Rightarrow> release_db \<Rightarrow> release_db" where
  "work_items cxs configured me 0 d = d"
| "work_items cxs configured me (Suc n) d =
    (case claim_release me (cx_now (cxs n)) d of
       (d1, None) \<Rightarrow> d1
     | (d1, Some i) \<Rightarrow> work_items cxs configured me n (work_on (cxs n) configured i d1))"

text \<open>
  The parity sweep: a green reconciliation pull request is merged, and the freeze lifted once the
  production tree is the known-good tree. The provider's exceptions skip a freeze (\<open>Some\<close>), any other
  one undoes the sweep's changes (\<open>None\<close>).
\<close>

definition parity_done :: "release_freeze \<Rightarrow> 'a reply \<Rightarrow> ('a \<Rightarrow> release_freeze option) \<Rightarrow> release_freeze option" where
  "parity_done z r f = (case r of Inl OtherError \<Rightarrow> None | Inl e \<Rightarrow> Some z | Inr x \<Rightarrow> f x)"

definition parity_one :: "rctx \<Rightarrow> release_freeze \<Rightarrow> release_freeze option \<times> event list" where
  "parity_one cx z =
    (if rf_lifted z \<noteq> None \<or> rf_reason z \<noteq> ''rollback_parity'' then (Some z, [])
     else case rf_pr z of None \<Rightarrow> (None, [])
     | Some n \<Rightarrow>
       (case gh_pr (cx_p cx) (Some n) of
          Inl e \<Rightarrow> (if e = OtherError then None else Some z, [])
        | Inr pr \<Rightarrow>
          (let green = (\<not> pu_merged pr \<and> pu_checks pr = ''passed'' \<and> pu_mergeable pr = Some True);
               lift = parity_done z (bindE (gh_head (cx_p cx) (rs_production (cx_rs cx))) (gh_tree (cx_p cx)))
                 (\<lambda>tree. Some (if Some tree = rf_tree z then z\<lparr>rf_lifted := Some (cx_now cx)\<rparr> else z))
           in if green
              then (parity_done z (gh_merge (cx_p cx) (Some (pu_number pr)) (pu_head pr)) (\<lambda>_. lift),
                    [EvMerge (Some (pu_number pr)) (pu_head pr)])
              else (lift, []))))"

fun parity_each :: "rctx \<Rightarrow> release_freeze list \<Rightarrow> release_freeze list option \<times> event list" where
  "parity_each cx [] = (Some [], [])"
| "parity_each cx (z # zs) =
    (case parity_one cx z of
       (None, ev) \<Rightarrow> (None, ev)
     | (Some z', ev) \<Rightarrow> (case parity_each cx zs of (r, ev') \<Rightarrow> (map_option (\<lambda>zs'. z' # zs') r, ev @ ev')))"

definition parity_sweep :: "rctx \<Rightarrow> release_db \<Rightarrow> release_db" where
  "parity_sweep cx d =
    (case parity_each cx (rd_freezes d) of (r, ev) \<Rightarrow>
       d\<lparr>rd_freezes := (case r of None \<Rightarrow> rd_freezes d | Some zs \<Rightarrow> zs), rd_events := rd_events d @ ev\<rparr>)"

definition run_once :: "(nat \<Rightarrow> rctx) \<Rightarrow> bool \<Rightarrow> string \<Rightarrow> nat \<Rightarrow> release_db \<Rightarrow> release_db" where
  "run_once cxs configured me max_items d =
    (let d1 = work_items cxs configured me max_items d in if configured then parity_sweep (cxs 0) d1 else d1)"

end
