(* ===== verification/ReleaseProps.thy ===== *)
theory ReleaseProps
  imports Release
begin

text \<open>
  What the release controller guarantees whatever its providers answer, by weakest preconditions
  computed over the steps, and the situations in which it does not keep its promise.
\<close>

named_theorems wp_simps \<open>weakest preconditions of the primitive steps\<close>

section \<open>Weakest preconditions\<close>

definition wp :: "'a rm \<Rightarrow> (rexn + 'a \<Rightarrow> work \<Rightarrow> bool) \<Rightarrow> work \<Rightarrow> bool" where
  "wp m Q w \<longleftrightarrow> (case m w of (r, w') \<Rightarrow> Q r w')"

lemma wp_ret [wp_simps]: "wp (ret x) Q w = Q (Inr x) w"
  by (simp add: wp_def ret_def)

lemma wp_bind [wp_simps]:
  "wp (bindR m f) Q w = wp m (\<lambda>r w'. case r of Inl e \<Rightarrow> Q (Inl e) w' | Inr x \<Rightarrow> wp (f x) Q w') w"
  by (simp add: wp_def bindR_def split: prod.split sum.split)

lemma wp_ask [wp_simps]: "wp (ask r) Q w = Q r w"
  by (simp add: wp_def ask_def)

lemma wp_act [wp_simps]: "wp (act e r) Q w = Q r (w\<lparr>w_events := w_events w @ [e]\<rparr>)"
  by (simp add: wp_def act_def)

lemma wp_change [wp_simps]: "wp (change f) Q w = Q (Inr ()) (w\<lparr>w_row := f (w_row w)\<rparr>)"
  by (simp add: wp_def change_def)

lemma wp_row [wp_simps]: "wp row Q w = Q (Inr (w_row w)) w"
  by (simp add: wp_def row_def)

lemma wp_fun [wp_simps]: "wp (\<lambda>w. (g w, h w)) Q w = Q (g w) (h w)"
  by (simp add: wp_def)

lemma wp_new_rollback [wp_simps]: "wp (new_rollback f) Q w =
    Q (Inr ()) (w\<lparr>w_row := (w_row w)\<lparr>rl_rollback := f (rl_rollback (w_row w))\<rparr>, w_rb_flushed := None\<rparr>)"
  by (simp add: wp_def new_rollback_def)

lemma wp_flush_rollback [wp_simps]: "wp flush_rollback Q w =
    Q (Inr ()) (w\<lparr>w_rb_flushed := keep_first (w_rb_flushed w) (rl_rollback (w_row w))\<rparr>)"
  by (simp add: wp_def flush_rollback_def)

lemma wp_flush_deps [wp_simps]: "wp flush_deps Q w =
    Q (Inr ()) (w\<lparr>w_deps_flushed := keep_first (w_deps_flushed w) (rl_deps (w_row w))\<rparr>)"
  by (simp add: wp_def flush_deps_def)

lemma wp_add_freeze [wp_simps]: "wp (add_freeze reason tree pr oo now) Q w =
    Q (Inr ()) (w\<lparr>w_freezes := w_freezes w @ [\<lparr>rf_reason = reason, rf_release = rl_id (w_row w), rf_tree = tree, rf_pr = pr,
      rf_owner_only = oo, rf_opened = now, rf_lifted = None\<rparr>]\<rparr>)"
  by (simp add: wp_def add_freeze_def)

lemma wp_if [wp_simps]: "wp (if b then m else n) Q w = (if b then wp m Q w else wp n Q w)"
  by simp

lemma wp_or_if_refused [wp_simps]:
  "wp (or_if_refused m alt) Q w = wp m (\<lambda>x w'. case x of Inl (ProviderRefused e) \<Rightarrow> wp alt Q w' | _ \<Rightarrow> Q x w') w"
  by (auto simp: wp_def or_if_refused_def split: prod.splits sum.splits rexn.splits)

lemma wp_mono: "wp m P w \<Longrightarrow> (\<And>r w'. P r w' \<Longrightarrow> Q r w') \<Longrightarrow> wp m Q w"
  by (simp add: wp_def split: prod.splits)

lemma wp_bind_row: "wp (bindR row f) Q w = wp (f (w_row w)) Q w"
  by (simp add: wp_simps)

lemma wp_bind_inv:
  assumes "wp m (\<lambda>r. I) w" and "\<And>e w'. I w' \<Longrightarrow> Q (Inl e) w'" and "\<And>x w'. I w' \<Longrightarrow> wp (f x) Q w'"
  shows "wp (bindR m f) Q w"
  unfolding wp_bind using assms by (auto intro: wp_mono [OF assms(1)] split: sum.split)

lemma wp_result: "wp m Q w \<Longrightarrow> Q (fst (m w)) (snd (m w))"
  by (simp add: wp_def split: prod.splits)

lemma status_set_status [simp]: "rl_status (set_status s now d reason r) = s"
  by (simp add: set_status_def)

lemma set_status_keeps [simp]:
  "rl_head_sha (set_status s now d reason r) = rl_head_sha r" "rl_id (set_status s now d reason r) = rl_id r"
  "rl_deps (set_status s now d reason r) = rl_deps r" "rl_rollback (set_status s now d reason r) = rl_rollback r"
  "rl_services (set_status s now d reason r) = rl_services r" "rl_merge_sha (set_status s now d reason r) = rl_merge_sha r"
  "rl_streak (set_status s now d reason r) = rl_streak r" "rl_waits (set_status s now d reason r) = rl_waits r"
  "rl_deadline (set_status s now d reason r) = rl_deadline r" "rl_att (set_status s now d reason r) = rl_att r"
  "rl_digest (set_status s now d reason r) = rl_digest r" "rl_signature (set_status s now d reason r) = rl_signature r"
  "rl_case (set_status s now d reason r) = rl_case r" "rl_incident (set_status s now d reason r) = rl_incident r"
  "rl_prod_head (set_status s now d reason r) = rl_prod_head r"
  by (simp_all add: set_status_def)

lemmas step_defs = refuse_def hold_def put_rollback_def rollback_failed_def start_rollback_def enter_merged_def s_merged_def

section \<open>The life of a release\<close>

text \<open>Where one step can take a release.\<close>

fun release_moves :: "release_status \<Rightarrow> release_status list" where
  "release_moves REL_PENDING = [REL_VERIFYING, REL_PREVIEW_VALIDATING, REL_REFUSED]"
| "release_moves REL_VERIFYING = [REL_VERIFYING, REL_PREVIEW_VALIDATING, REL_REFUSED]"
| "release_moves REL_PREVIEW_VALIDATING = [REL_PREVIEW_VALIDATING, REL_PR_OPEN, REL_REFUSED]"
| "release_moves REL_PR_OPEN = [REL_PR_OPEN, REL_DEPLOYING, REL_REFUSED]"
| "release_moves REL_MERGED = [REL_DEPLOYING]"
| "release_moves REL_DEPLOYING = [REL_DEPLOYING, REL_POST_DEPLOY_VERIFYING, REL_ROLLING_BACK, REL_REFUSED]"
| "release_moves REL_POST_DEPLOY_VERIFYING = [REL_POST_DEPLOY_VERIFYING, REL_SUCCEEDED, REL_ROLLING_BACK, REL_REFUSED]"
| "release_moves REL_ROLLING_BACK = [REL_ROLLING_BACK, REL_ROLLED_BACK, REL_ROLLBACK_FAILED, REL_REFUSED]"
| "release_moves s = [s]"

text \<open>What a step may do outside, and what must hold when it does.\<close>

definition merge_ok :: "rctx \<Rightarrow> work \<Rightarrow> nat option \<Rightarrow> string \<Rightarrow> bool" where
  "merge_ok cx w n sha \<longleftrightarrow> rl_status (w_row w) = REL_PR_OPEN \<and> n = rl_pr (w_row w) \<and> sha = rl_head_sha (w_row w) \<and>
    \<not> open_freeze (w_freezes w) \<and>
    (\<exists>pr prod. gh_pr (cx_p cx) n = Inr pr \<and> gh_head (cx_p cx) (rs_production (cx_rs cx)) = Inr prod \<and>
      rl_prod_head (w_row w) = Some prod \<and> pu_head pr = sha \<and> \<not> pu_merged pr \<and> pu_checks pr = ''passed'' \<and> pu_mergeable pr = Some True)"

definition deploy_ok :: "work \<Rightarrow> string \<Rightarrow> string option \<Rightarrow> bool" where
  "deploy_ok w svc sha \<longleftrightarrow> svc \<in> set (rl_services (w_row w)) \<and>
    (rl_status (w_row w) = REL_DEPLOYING \<and> sha = rl_merge_sha (w_row w) \<or>
     rl_status (w_row w) = REL_ROLLING_BACK \<and> (\<exists>g \<in> set (w_known w). Some (kg_id g) = rl_known_good (w_row w) \<and> sha = kg_sha g))"

fun event_ok :: "rctx \<Rightarrow> work \<Rightarrow> event \<Rightarrow> bool" where
  "event_ok cx w (EvMerge n sha) = merge_ok cx w n sha"
| "event_ok cx w (EvDeploy svc sha) = deploy_ok w svc sha"
| "event_ok cx w (EvRollback svc t) = (svc \<in> set (rl_services (w_row w)) \<and> rl_status (w_row w) = REL_ROLLING_BACK \<and>
     (\<exists>g \<in> set (w_known w). Some (kg_id g) = rl_known_good (w_row w) \<and> map_of (kg_deps g) svc = Some t))"
| "event_ok cx w (EvBranch b sha) = (rl_status (w_row w) = REL_PREVIEW_VALIDATING \<and> sha = rl_head_sha (w_row w))"
| "event_ok cx w (EvOpenPr b base) = (rl_status (w_row w) \<in> {REL_PREVIEW_VALIDATING, REL_ROLLING_BACK})"
| "event_ok cx w (EvCommit b t) = (rl_status (w_row w) = REL_ROLLING_BACK)"

definition extends_ok :: "rctx \<Rightarrow> work \<Rightarrow> work \<Rightarrow> bool" where
  "extends_ok cx w0 w \<longleftrightarrow> (\<exists>es. w_events w = w_events w0 @ es \<and> list_all (event_ok cx w0) es)"

lemma extends_ok_refl: "w_events w = w_events w0 \<Longrightarrow> extends_ok cx w0 w"
  by (simp add: extends_ok_def)

lemma extends_ok_more: "extends_ok cx w0 w \<Longrightarrow> w_events w' = w_events w @ [e] \<Longrightarrow> event_ok cx w0 e \<Longrightarrow> extends_ok cx w0 w'"
  by (fastforce simp: extends_ok_def)

lemma extends_ok_same: "extends_ok cx w0 w \<Longrightarrow> w_events w' = w_events w \<Longrightarrow> extends_ok cx w0 w'"
  by (simp add: extends_ok_def)


text \<open>What the loops over the services leave alone.\<close>

definition same_core :: "work \<Rightarrow> work \<Rightarrow> bool" where
  "same_core w0 w \<longleftrightarrow> rl_status (w_row w) = rl_status (w_row w0) \<and> rl_services (w_row w) = rl_services (w_row w0) \<and>
    rl_merge_sha (w_row w) = rl_merge_sha (w_row w0) \<and> rl_deadline (w_row w) = rl_deadline (w_row w0) \<and>
    rl_known_good (w_row w) = rl_known_good (w_row w0) \<and> rl_streak (w_row w) = rl_streak (w_row w0) \<and>
    rl_id (w_row w) = rl_id (w_row w0) \<and> w_known w = w_known w0 \<and> w_freezes w = w_freezes w0"

lemma same_core_refl [simp]: "same_core w w"
  by (simp add: same_core_def)

definition loop_inv :: "rctx \<Rightarrow> work \<Rightarrow> work \<Rightarrow> bool" where
  "loop_inv cx w0 w \<longleftrightarrow> same_core w0 w \<and> extends_ok cx w0 w"

lemma deploy_service_inv:
  assumes "loop_inv cx w0 w" and "rl_status (w_row w0) = REL_DEPLOYING" and "svc \<in> set (rl_services (w_row w0))"
  shows "wp (deploy_service cx m deps svc) (\<lambda>r. loop_inv cx w0) w"
proof -
  have "event_ok cx w0 (EvDeploy svc (rl_merge_sha (w_row w0)))"
    using assms(2,3) by (simp add: deploy_ok_def)
  then show ?thesis
    using assms(1)
    by (auto simp: deploy_service_def wp_simps step_defs Let_def loop_inv_def same_core_def extends_ok_def split: option.splits sum.splits)
qed

lemma deploy_each_inv:
  assumes "loop_inv cx w0 w" and "rl_status (w_row w0) = REL_DEPLOYING" and "set svcs \<subseteq> set (rl_services (w_row w0))"
  shows "wp (deploy_each cx m deps svcs) (\<lambda>r. loop_inv cx w0) w"
  using assms
proof (induction svcs arbitrary: deps w)
  case (Cons svc svcs)
  have "wp (deploy_service cx m deps svc) (\<lambda>r. loop_inv cx w0) w"
    using Cons.prems by (intro deploy_service_inv) auto
  then show ?case
    by (simp add: wp_simps split_beta) (rule wp_mono, assumption, use Cons in \<open>auto simp: wp_simps split_beta split: sum.split intro: wp_mono\<close>)
qed (simp add: wp_simps)

text \<open>A rollback keeps the baseline too.\<close>

definition roll_inv :: "rctx \<Rightarrow> work \<Rightarrow> work \<Rightarrow> bool" where
  "roll_inv cx w0 w \<longleftrightarrow> loop_inv cx w0 w \<and> rb_baseline (rl_rollback (w_row w)) = rb_baseline (rl_rollback (w_row w0))"

definition roll_post :: "rctx \<Rightarrow> work \<Rightarrow> rexn + (rollback_doc \<times> 'a) \<Rightarrow> work \<Rightarrow> bool" where
  "roll_post cx w0 r w \<longleftrightarrow> roll_inv cx w0 w \<and>
    (case r of Inl e \<Rightarrow> True | Inr x \<Rightarrow> rb_baseline (fst x) = rb_baseline (rl_rollback (w_row w0)))"

lemma roll_service_inv:
  assumes "roll_inv cx w0 w" and "rb_baseline d = rb_baseline (rl_rollback (w_row w0))"
    and "rl_status (w_row w0) = REL_ROLLING_BACK" and "svc \<in> set (rl_services (w_row w0))"
    and "kg \<in> set (w_known w0)" and "rl_known_good (w_row w0) = Some (kg_id kg)"
  shows "wp (roll_service cx kg d svc) (roll_post cx w0) w"
proof -
  have "event_ok cx w0 (EvDeploy svc (kg_sha kg))"
    using assms(3-6) by (auto simp: deploy_ok_def)
  moreover have "event_ok cx w0 (EvRollback svc t)" if "map_of (kg_deps kg) svc = Some t" for t
    using assms(3-6) that by auto
  ultimately show ?thesis
    using assms(1,2)
    by (auto simp: roll_service_def wp_simps step_defs Let_def loop_inv_def roll_inv_def roll_post_def same_core_def extends_ok_def
        split: option.splits sum.splits rexn.splits)
qed

lemma roll_each_inv:
  assumes "roll_inv cx w0 w" and "rb_baseline d = rb_baseline (rl_rollback (w_row w0))"
    and "rl_status (w_row w0) = REL_ROLLING_BACK" and "set svcs \<subseteq> set (rl_services (w_row w0))"
    and "kg \<in> set (w_known w0)" and "rl_known_good (w_row w0) = Some (kg_id kg)"
  shows "wp (roll_each cx kg d svcs) (roll_post cx w0) w"
  using assms
proof (induction svcs arbitrary: d w)
  case Nil
  then show ?case by (simp add: wp_simps roll_post_def)
next
  case (Cons svc svcs)
  have one: "wp (roll_service cx kg d svc) (roll_post cx w0) w"
    using Cons.prems by (intro roll_service_inv) auto
  show ?case
    unfolding roll_each.simps wp_bind
  proof (rule wp_mono [OF one], split sum.split, intro conjI allI impI)
    fix r :: "rexn + (rollback_doc \<times> string)" and w' e
    assume "roll_post cx w0 r w'" and "r = Inl e"
    then show "roll_post cx w0 (Inl e) w'" by (simp add: roll_post_def)
  next
    fix r :: "rexn + (rollback_doc \<times> string)" and w' x
    assume p: "roll_post cx w0 r w'" and r: "r = Inr x"
    have "wp (roll_each cx kg (fst x) svcs) (roll_post cx w0) w'"
      using p r Cons.prems by (intro Cons.IH) (auto simp: roll_post_def)
    then show "wp (case x of (d', s) \<Rightarrow> bindR (roll_each cx kg d' svcs) (\<lambda>(d'', ss). ret (d'', s # ss))) (roll_post cx w0) w'"
      by (simp add: split_beta wp_bind)
        (rule wp_mono, assumption, auto simp: wp_simps roll_post_def split: sum.split)
  qed
qed

section \<open>One step\<close>

lemma verify_set_status [simp]: "verify_release cx (set_status s now d reason r) fs = verify_release cx r fs"
  unfolding verify_release_def verify_diff_def verify_runtime_def Let_def set_status_keeps ..

text \<open>What a step that reaches one of these statuses has seen.\<close>

definition outcome_ok :: "rctx \<Rightarrow> work \<Rightarrow> work \<Rightarrow> bool" where
  "outcome_ok cx w0 w \<longleftrightarrow>
    (case rl_status (w_row w) of
       REL_PREVIEW_VALIDATING \<Rightarrow> rl_status (w_row w0) = REL_PREVIEW_VALIDATING \<or>
         (\<exists>f. verify_release cx (w_row w0) (w_freezes w0) = Inr (Passed, f) \<and> rl_prod_head (w_row w) = fa_prod f \<and>
           rl_services (w_row w) = fa_services f)
     | REL_SUCCEEDED \<Rightarrow> (\<exists>probe. pb_check (cx_p cx) = Inr probe \<and> regressions (w_row w0) probe = []) \<and>
         rl_streak (w_row w) = rl_streak (w_row w0) + 1 \<and> post_deploy_healthy_observations (cx_st cx) \<le> rl_streak (w_row w)
     | REL_ROLLED_BACK \<Rightarrow> (\<exists>probe. pb_check (cx_p cx) = Inr probe \<and> regressions (w_row w0) probe = []) \<and>
         (\<exists>z \<in> set (w_freezes w). rf_reason z = ''rollback_parity'' \<and> rf_release z = rl_id (w_row w0) \<and> rf_lifted z = None)
     | REL_ROLLBACK_FAILED \<Rightarrow>
         (\<exists>z \<in> set (w_freezes w). rf_reason z = ''rollback_failed_p0'' \<and> rf_release z = rl_id (w_row w0) \<and>
            rf_owner_only z \<and> rf_lifted z = None)
     | _ \<Rightarrow> True)"

definition step_post :: "rctx \<Rightarrow> work \<Rightarrow> rexn + unit \<Rightarrow> work \<Rightarrow> bool" where
  "step_post cx w0 r w \<longleftrightarrow> extends_ok cx w0 w \<and> rl_id (w_row w) = rl_id (w_row w0) \<and>
    (case r of
       Inr _ \<Rightarrow> rl_status (w_row w) \<in> set (release_moves (rl_status (w_row w0))) \<and> outcome_ok cx w0 w
     | Inl _ \<Rightarrow> rl_status (w_row w0) \<noteq> REL_MERGED \<and> rl_status (w_row w) = (if rl_status (w_row w0) = REL_PENDING then REL_VERIFYING else rl_status (w_row w0)))"

lemma s_verifying_post:
  assumes "rl_status (w_row w) \<in> {REL_PENDING, REL_VERIFYING}"
  shows "wp (s_verifying cx) (step_post cx w) (w\<lparr>w_row := set_status REL_VERIFYING now 0 None (w_row w)\<rparr>)"
  using assms
  by (auto simp: s_verifying_def record_known_good_def wp_simps step_defs wait_row_def Let_def step_post_def outcome_ok_def extends_ok_def
      split: verdict.splits sum.splits option.splits prod.splits)

lemmas post_defs = step_post_def outcome_ok_def extends_ok_def wait_row_def

lemma s_verifying_post':
  assumes "rl_status (w_row w) = REL_VERIFYING"
  shows "wp (s_verifying cx) (step_post cx w) w"
  using assms
  by (auto simp: s_verifying_def record_known_good_def wp_simps step_defs Let_def post_defs
      split: verdict.splits sum.splits option.splits prod.splits)

lemma s_pending_post:
  assumes "rl_status (w_row w) = REL_PENDING"
  shows "wp (s_pending cx) (step_post cx w) w"
  using assms s_verifying_post [of w cx "cx_now cx"]
  by (auto simp: s_pending_def wp_simps step_defs post_defs)

lemma s_preview_post:
  assumes "rl_status (w_row w) = REL_PREVIEW_VALIDATING"
  shows "wp (s_preview cx) (step_post cx w) w"
  using assms
  by (auto simp: s_preview_def wp_simps step_defs Let_def post_defs split: sum.splits option.splits prod.splits)

lemma wp_lam_if [wp_simps]: "wp (\<lambda>w. (if b w then m else n) w) Q w = (if b w then wp m Q w else wp n Q w)"
  by (simp add: wp_def)

lemma s_pr_open_post:
  assumes "rl_status (w_row w) = REL_PR_OPEN"
  shows "wp (s_pr_open cx) (step_post cx w) w"
  using assms
  by (auto simp: s_pr_open_def wp_simps step_defs Let_def post_defs merge_ok_def split: sum.splits)

lemma s_merged_post:
  assumes "rl_status (w_row w) = REL_MERGED"
  shows "wp (s_merged cx) (step_post cx w) w"
  using assms by (auto simp: wp_simps step_defs post_defs)

lemma s_deploying_post:
  assumes "rl_status (w_row w) = REL_DEPLOYING"
  shows "wp (s_deploying cx) (step_post cx w) w"
proof -
  have inv: "wp (deploy_each cx (case rl_merged_at (w_row w) of None \<Rightarrow> cx_now cx | Some t \<Rightarrow> t) (rl_deps (w_row w))
      (rl_services (w_row w))) (\<lambda>r. loop_inv cx w) w"
    using assms by (intro deploy_each_inv) (simp_all add: loop_inv_def extends_ok_refl)
  show ?thesis
    unfolding s_deploying_def wp_bind_row
    by (rule wp_bind_inv [OF inv]) (use assms in \<open>auto simp: wp_simps step_defs post_defs loop_inv_def same_core_def\<close>)
qed

lemma s_post_deploy_post:
  assumes "rl_status (w_row w) = REL_POST_DEPLOY_VERIFYING"
  shows "wp (s_post_deploy cx) (step_post cx w) w"
  using assms
  by (auto simp: s_post_deploy_def record_new_known_good_def wp_simps wp_def [of "record_new_known_good cx"] step_defs Let_def post_defs
      split: sum.splits)

lemma regressions_frame:
  "rb_baseline (rl_rollback r) = rb_baseline (rl_rollback q) \<Longrightarrow> regressions r p = regressions q p"
  by (simp add: regressions_def baseline_of_def)

lemma finish_rollback_post:
  assumes "rl_status (w_row w0) = REL_ROLLING_BACK" and "loop_inv cx w0 w" and "pb_check (cx_p cx) = Inr probe"
    and "rb_baseline (rl_rollback (w_row w)) = rb_baseline (rl_rollback (w_row w0))"
  shows "wp (finish_rollback cx kg d probe) (step_post cx w0) w"
proof -
  have reg: "regressions (w_row w) probe = regressions (w_row w0) probe"
    using assms(4) by (rule regressions_frame)
  show ?thesis
    using assms(1-3) reg
    by (auto simp: finish_rollback_def branch_reconciliation_def wp_simps step_defs Let_def post_defs loop_inv_def same_core_def
        split: sum.splits option.splits)
qed

lemma rollback_failed_post:
  assumes "rl_status (w_row w0) = REL_ROLLING_BACK" and "loop_inv cx w0 w"
  shows "wp (rollback_failed now reason) (step_post cx w0) w"
  using assms by (auto simp: wp_simps step_defs post_defs loop_inv_def same_core_def)

lemma after_roll_post:
  assumes "rl_status (w_row w0) = REL_ROLLING_BACK" and "roll_inv cx w0 w"
  shows "wp (after_roll cx kg deadline d states) (step_post cx w0) w"
proof -
  have "wp (finish_rollback cx kg d probe) (step_post cx w0) w" if "pb_check (cx_p cx) = Inr probe" for probe
    using assms that by (intro finish_rollback_post) (auto simp: roll_inv_def)
  then show ?thesis
    using assms
    by (auto simp: after_roll_def wp_simps step_defs post_defs roll_inv_def loop_inv_def same_core_def split: sum.splits)
qed

lemma roll_back_to_post:
  assumes "rl_status (w_row w) = REL_ROLLING_BACK" and "kg \<in> set (w_known w)" and "rl_known_good (w_row w) = Some (kg_id kg)"
  shows "wp (roll_back_to cx kg) (step_post cx w) w"
  unfolding roll_back_to_def wp_bind_row
proof (rule wp_bind_inv [where I = "roll_inv cx w"])
  have "wp (roll_each cx kg (rl_rollback (w_row w)) (rl_services (w_row w))) (roll_post cx w) w"
    using assms by (intro roll_each_inv) (simp_all add: roll_inv_def loop_inv_def extends_ok_refl)
  then show "wp (roll_each cx kg (rl_rollback (w_row w)) (rl_services (w_row w))) (\<lambda>r. roll_inv cx w) w"
    by (rule wp_mono) (simp add: roll_post_def)
qed (use assms in \<open>auto simp: step_post_def roll_inv_def loop_inv_def same_core_def intro!: after_roll_post\<close>)

lemma s_rolling_back_post:
  assumes "rl_status (w_row w) = REL_ROLLING_BACK"
  shows "wp (s_rolling_back cx) (step_post cx w) w"
  using rollback_failed_post [OF assms, of cx w] roll_back_to_post [OF assms]
  by (auto simp: s_rolling_back_def wp_bind wp_fun loop_inv_def extends_ok_refl split: option.split dest: find_SomeD)

lemma handle_post:
  assumes "\<not> release_terminal (rl_status (w_row w))"
  shows "wp (handle cx (rl_status (w_row w))) (step_post cx w) w"
  using assms
  by (cases "rl_status (w_row w)")
    (auto simp: handle_def release_terminal_def s_pending_post s_verifying_post' s_preview_post s_pr_open_post s_merged_post
      s_deploying_post s_post_deploy_post s_rolling_back_post)

text \<open>
  Every step of the controller, whatever its providers answer: the exceptions of the providers are
  handled inside the table too.
\<close>

lemma settle_post:
  assumes "step_post cx w0 r w" and "\<not> release_terminal (rl_status (w_row w0))"
  shows "wp (settle cx (rl_status (w_row w0)) r) (\<lambda>r' w'. case r' of Inl e \<Rightarrow> e = OtherError | Inr u \<Rightarrow> step_post cx w0 (Inr u) w') w"
  using assms
  by (cases "rl_status (w_row w0)")
    (auto simp: settle_def wp_simps step_defs post_defs Let_def release_terminal_def split: sum.splits rexn.splits)

lemma release_step_post:
  assumes "\<not> release_terminal (rl_status (w_row w))"
  shows "wp (release_step cx) (\<lambda>r w'. case r of Inl e \<Rightarrow> e = OtherError | Inr u \<Rightarrow> step_post cx w (Inr u) w') w"
proof -
  obtain r w' where h: "handle cx (rl_status (w_row w)) w = (r, w')"
    by fastforce
  have "step_post cx w r w'"
    using handle_post [OF assms, of cx] h by (simp add: wp_def)
  from settle_post [OF this assms] show ?thesis
    by (simp add: wp_def release_step_def h)
qed

section \<open>What a release has been checked for\<close>

definition fully_verified :: "rctx \<Rightarrow> release \<Rightarrow> release_freeze list \<Rightarrow> bool" where
  "fully_verified cx r freezes \<longleftrightarrow>
    att_accepts (verify_attestation (cx_sha cx) (cx_mac cx) (cx_key cx) (rl_att r) (rl_digest r) (rl_signature r)
      (rs_require_signature (cx_rs cx))) \<and>
    jget (rl_att r) ''merged_sha'' = Some (JStr (rl_head_sha r)) \<and>
    (\<exists>c. get_case (k_db (cx_k cx)) (rl_case r) = Some c \<and> rc_state c = RELEASING \<and> rc_release c = Some (rl_id r)) \<and>
    (\<exists>prod main on_main shipped attested.
      gh_head (cx_p cx) (rs_production (cx_rs cx)) = Inr prod \<and> gh_head (cx_p cx) (rs_main (cx_rs cx)) = Inr main \<and>
      gh_compare (cx_p cx) (rl_head_sha r) main = Inr on_main \<and> cp_behind on_main = 0 \<and>
      gh_compare (cx_p cx) prod (rl_head_sha r) = Inr shipped \<and> cp_behind shipped = 0 \<and> \<not> cp_truncated shipped \<and>
      attested_files (rl_att r) = Inr attested \<and> sort (cp_files shipped) = sort attested \<and>
      (dc_class (classify_patch (cx_reg cx) (cx_st cx) (sort (cp_files shipped)) (cp_patch shipped) False) = MAINTENANCE_GREEN \<or>
       dc_class (classify_patch (cx_reg cx) (cx_st cx) (sort (cp_files shipped)) (cp_patch shipped) False) = AMBER \<and>
         owner_approved cx (rl_att r) = Inr True)) \<and>
    gh_checks (cx_p cx) (rl_head_sha r) = Inr ''passed'' \<and> rw_healthy (cx_p cx) = Inr True \<and>
    \<not> open_freeze freezes \<and> \<not> list_ex (foreign_freeze (rl_incident r)) (kd_freezes (k_db (cx_k cx))) \<and>
    releases_today (cx_releases cx) (cx_now cx) (rl_id r) < max_auto_releases_per_day (cx_st cx)"

lemma verify_runtime_passed:
  assumes "verify_runtime cx r freezes c shipped f = Inr (Passed, f')"
  shows "gh_checks (cx_p cx) (rl_head_sha r) = Inr ''passed'' \<and> rw_healthy (cx_p cx) = Inr True \<and>
    \<not> open_freeze freezes \<and> \<not> list_ex (foreign_freeze (rl_incident r)) (kd_freezes (k_db (cx_k cx))) \<and>
    releases_today (cx_releases cx) (cx_now cx) (rl_id r) < max_auto_releases_per_day (cx_st cx) \<and> fa_prod f' = fa_prod f"
  using assms by (auto simp: verify_runtime_def Let_def bindE_Inr split: if_splits)

lemma verify_passed:
  assumes "verify_release cx r freezes = Inr (Passed, f)"
  shows "fully_verified cx r freezes"
proof -
  obtain c where c: "get_case (k_db (cx_k cx)) (rl_case r) = Some c" "rc_state c = RELEASING" "rc_release c = Some (rl_id r)"
    and att: "att_accepts (verify_attestation (cx_sha cx) (cx_mac cx) (cx_key cx) (rl_att r) (rl_digest r) (rl_signature r)
        (rs_require_signature (cx_rs cx)))" "jget (rl_att r) ''merged_sha'' = Some (JStr (rl_head_sha r))"
    and diff: "verify_diff cx r freezes c \<lparr>fa_prod = None, fa_tree = None, fa_services = []\<rparr> = Inr (Passed, f)"
    using assms by (auto simp: verify_release_def Let_def split: if_splits option.splits)
  show ?thesis
    using diff c att unfolding verify_diff_def Let_def fully_verified_def
    by (auto simp: bindE_Inr split: if_splits dest!: verify_runtime_passed)
qed

section \<open>Properties\<close>

text \<open>
  C5: Whatever the providers answer, a step of the release controller follows the table of moves and
  acts outside only where it may: it merges the production pull request only for the attested sha,
  with production where verification saw it, required checks passed, no conflict and no open
  freeze; it deploys only the release's services, at the merged sha or, rolling back, at the recorded
  known-good one. A release leaves verification only fully verified, succeeds only on the configured
  number of regression-free observations, and a failed rollback leaves an owner-only freeze.
\<close>

theorem release_step_guarded:
  assumes "\<not> release_terminal (rl_status (w_row w))" and "release_step cx w = (Inr u, w')"
  shows "rl_status (w_row w') \<in> set (release_moves (rl_status (w_row w))) \<and>
    (\<exists>es. w_events w' = w_events w @ es \<and> list_all (event_ok cx w) es) \<and>
    (rl_status (w_row w') = REL_PREVIEW_VALIDATING \<and> rl_status (w_row w) \<noteq> REL_PREVIEW_VALIDATING \<longrightarrow>
      fully_verified cx (w_row w) (w_freezes w)) \<and>
    (rl_status (w_row w') = REL_SUCCEEDED \<longrightarrow>
      (\<exists>probe. pb_check (cx_p cx) = Inr probe \<and> regressions (w_row w) probe = []) \<and>
      post_deploy_healthy_observations (cx_st cx) \<le> rl_streak (w_row w) + 1) \<and>
    (rl_status (w_row w') = REL_ROLLBACK_FAILED \<longrightarrow>
      (\<exists>z \<in> set (w_freezes w'). rf_release z = rl_id (w_row w) \<and> rf_owner_only z \<and> rf_lifted z = None))"
proof -
  have "step_post cx w (Inr u) w'"
    using wp_result [OF release_step_post [OF assms(1), of cx]] assms(2) by simp
  then show ?thesis
    by (auto simp: step_post_def outcome_ok_def extends_ok_def dest: verify_passed)
qed

section \<open>Terminal releases\<close>

definition ids_distinct :: "release_db \<Rightarrow> bool" where
  "ids_distinct d \<longleftrightarrow> distinct (map rl_id (rd_releases d))"

definition keeps_others :: "uid \<Rightarrow> release_db \<Rightarrow> release_db \<Rightarrow> bool" where
  "keeps_others i d d' \<longleftrightarrow> map rl_id (rd_releases d') = map rl_id (rd_releases d) \<and>
    (\<forall>r \<in> set (rd_releases d). rl_id r \<noteq> i \<longrightarrow> r \<in> set (rd_releases d'))"

lemma keeps_others_upd:
  assumes "\<And>r. rl_id r = i \<Longrightarrow> rl_id (f r) = i" and "rd_releases d' = upd_key rl_id i f (rd_releases d)"
  shows "keeps_others i d d'"
  using assms by (auto simp: keeps_others_def map_key_upd_key upd_key_keep)

lemma oldest_mem: "oldest rs = Some r \<Longrightarrow> r \<in> set rs"
  by (induction rs arbitrary: r) (auto split: option.splits if_splits)

lemma claim_release_claims:
  assumes "claim_release me now d = (d1, Some i)" and "ids_distinct d"
  obtains r where "find (\<lambda>q. rl_id q = i) (rd_releases d1) = Some r" and "\<not> release_terminal (rl_status r)"
    and "keeps_others i d d1" and "\<And>q. q \<in> set (rd_releases d) \<Longrightarrow> rl_id q = i \<Longrightarrow> \<not> release_terminal (rl_status q)"
proof -
  obtain r where r: "oldest (filter (claimable now) (rd_releases d)) = Some r" and i: "i = rl_id r"
    and d1: "d1 = set_release i (\<lambda>q. q\<lparr>rl_lease_owner := Some me, rl_lease_until := Some (now + minutes 10),
      rl_attempt := rl_attempt q + 1\<rparr>) d"
    using assms(1) by (auto simp: claim_release_def split: option.splits)
  have mem: "r \<in> set (rd_releases d)" and open_r: "\<not> release_terminal (rl_status r)"
    using oldest_mem [OF r] by (auto simp: claimable_def)
  have found: "find (\<lambda>q. rl_id q = i) (rd_releases d) = Some r"
    using assms(2) mem by (simp add: ids_distinct_def i find_distinct_key)
  show thesis
  proof
    show "find (\<lambda>q. rl_id q = i) (rd_releases d1) = Some (r\<lparr>rl_lease_owner := Some me, rl_lease_until := Some (now + minutes 10),
        rl_attempt := rl_attempt r + 1\<rparr>)"
      using found by (simp add: d1 set_release_def find_key_upd_key)
    show "keeps_others i d d1"
      by (rule keeps_others_upd) (auto simp: d1 set_release_def)
    show "\<not> release_terminal (rl_status q)" if "q \<in> set (rd_releases d)" "rl_id q = i" for q
      using that mem open_r assms(2) i by (metis (no_types) distinct_map ids_distinct_def inj_on_def)
  qed (simp add: open_r)
qed

lemma store_row_id [simp]: "rl_id (store_row w) = rl_id (w_row w)"
  by (simp add: store_row_def Let_def split: option.split)

lemma refuse_id [simp]: "refuse now reason w = (r, w') \<Longrightarrow> rl_id (w_row w') = rl_id (w_row w)"
  by (auto simp: refuse_def change_def)

lemma work_on_keeps:
  assumes "find (\<lambda>q. rl_id q = i) (rd_releases d) = Some r" and "\<not> release_terminal (rl_status r)"
  shows "keeps_others i d (work_on cx configured i d)"
proof -
  let ?cx = "cx\<lparr>cx_releases := rd_releases d\<rparr>"
  let ?w = "\<lparr>w_row = r, w_deps_flushed = None, w_rb_flushed = None, w_known = rd_known d, w_freezes = rd_freezes d,
    w_events = rd_events d\<rparr>"
  let ?m = "if configured then release_step ?cx else refuse (cx_now ?cx) ''no release provider configured in release-control''"
  obtain res w' where m: "?m ?w = (res, w')"
    by fastforce
  have i: "rl_id r = i"
    using assms(1) by (auto dest: find_SomeD)
  have id: "rl_id (w_row w') = i" if "res = Inr u" for u
    using m that wp_result [OF release_step_post [of ?w ?cx]] assms(2) i by (auto simp: step_post_def split: if_splits)
  show ?thesis
  proof (cases res)
    case (Inl e)
    have "keeps_others i d (release_backoff ?cx i (d\<lparr>rd_events := w_events w'\<rparr>))"
      by (rule keeps_others_upd [where f = "\<lambda>q. q\<lparr>rl_lease_owner := None, rl_lease_until := None,
        rl_next := cx_now cx + seconds (min 900 (rs_backoff (cx_rs cx) * 2 ^ min (rl_attempt q) 5))\<rparr>"])
        (simp_all add: release_backoff_def set_release_def)
    then show ?thesis using Inl m assms(1) by (simp add: work_on_def Let_def)
  next
    case (Inr u)
    have "keeps_others i d \<lparr>rd_releases = upd_key rl_id i (\<lambda>_. (store_row w')\<lparr>rl_lease_owner := None, rl_lease_until := None\<rparr>)
        (rd_releases d), rd_known = w_known w', rd_freezes = w_freezes w', rd_events = w_events w'\<rparr>"
      using id [OF Inr] by (intro keeps_others_upd) auto
    then show ?thesis using Inr m assms(1) by (simp add: work_on_def Let_def)
  qed
qed

lemma work_items_final:
  assumes "ids_distinct d" and "r \<in> set (rd_releases d)" and "release_terminal (rl_status r)"
  shows "r \<in> set (rd_releases (work_items cxs configured me n d)) \<and>
    map rl_id (rd_releases (work_items cxs configured me n d)) = map rl_id (rd_releases d)"
  using assms
proof (induction n arbitrary: d)
  case (Suc n)
  obtain d1 c where claim: "claim_release me (cx_now (cxs n)) d = (d1, c)"
    by fastforce
  show ?case
  proof (cases c)
    case None
    with claim Suc.prems show ?thesis
      by (auto simp: claim_release_def split: option.splits)
  next
    case (Some i)
    obtain q where q: "find (\<lambda>q. rl_id q = i) (rd_releases d1) = Some q" "\<not> release_terminal (rl_status q)" "keeps_others i d d1"
      "\<And>q. q \<in> set (rd_releases d) \<Longrightarrow> rl_id q = i \<Longrightarrow> \<not> release_terminal (rl_status q)"
      using claim_release_claims [of me "cx_now (cxs n)" d d1 i] claim Some Suc.prems(1) by metis
    let ?d2 = "work_on (cxs n) configured i d1"
    have two: "keeps_others i d1 ?d2"
      using work_on_keeps [OF q(1,2)] .
    have "rl_id r \<noteq> i"
      using q(4) Suc.prems by blast
    then have mem: "r \<in> set (rd_releases ?d2)" and ids: "map rl_id (rd_releases ?d2) = map rl_id (rd_releases d)"
      using q(3) two Suc.prems(2) unfolding keeps_others_def by auto
    then show ?thesis
      using Suc.IH [of ?d2] Suc.prems claim Some by (simp add: ids_distinct_def)
  qed
qed simp

text \<open>
  C32: A terminal release is final: no cycle of the release controller, whatever its providers
  answer and however many releases it works on, changes its row.
\<close>

theorem terminal_release_final:
  assumes "ids_distinct d" and "r \<in> set (rd_releases d)" and "release_terminal (rl_status r)"
  shows "r \<in> set (rd_releases (run_once cxs configured me n d))"
  using work_items_final [OF assms, of cxs configured me n]
  by (cases configured) (simp_all add: run_once_def Let_def parity_sweep_def split_beta)

section \<open>A release abandoned after its merge\<close>

text \<open>
  A release that is already in production can be given up without a rollback. The bound on
  transient waits is counted over the whole release and refuses whatever the status is: once it is
  used up, one provider error before the deadline takes a release that is deploying, being verified in
  production or rolling back to \<open>refused\<close>, with no further call outside and no freeze, and no cycle ever
  claims it again.
\<close>

theorem abandoned_after_merge:
  assumes "rl_status (w_row w) \<in> {REL_DEPLOYING, REL_POST_DEPLOY_VERIFYING, REL_ROLLING_BACK}"
    and "handle cx (rl_status (w_row w)) w = (Inl (ProviderTransient e), w1)"
    and "cx_now cx < rl_deadline (w_row w1)" and "rs_max_transient (cx_rs cx) \<le> rl_waits (w_row w1)"
  shows "\<exists>w'. release_step cx w = (Inr (), w') \<and> rl_status (w_row w') = REL_REFUSED \<and> w_events w' = w_events w1 \<and>
    w_freezes w' = w_freezes w1 \<and> (\<forall>later. \<not> claimable later (store_row w'))"
proof -
  have step: "release_step cx w = hold cx (''provider transient: '' @ e) None w1"
    using assms(1-3) by (auto simp: release_step_def settle_def Let_def)
  have status: "rl_status (store_row v) = rl_status (w_row v)" for v
    by (simp add: store_row_def Let_def split: option.split)
  show ?thesis
    unfolding step using assms(4)
    by (simp add: hold_def change_def wait_row_def Let_def claimable_def status release_terminal_def)
qed

section \<open>Examples\<close>

definition silent :: providers where
  "silent = \<lparr>gh_compare = (\<lambda>_ _. Inl OtherError), gh_tree = (\<lambda>_. Inl OtherError), gh_head = (\<lambda>_. Inl OtherError),
    gh_checks = (\<lambda>_. Inl OtherError), gh_ensure = (\<lambda>_ _. Inl OtherError), gh_open_pr = (\<lambda>_ _. Inl OtherError),
    gh_pr = (\<lambda>_. Inl OtherError), gh_merge = (\<lambda>_ _. Inl OtherError), gh_commit = (\<lambda>_ _ _. Inl OtherError),
    gh_merged_by = (\<lambda>_. Inl OtherError), rw_discover = Inl OtherError, rw_healthy = Inl OtherError,
    rw_deployments = (\<lambda>_. Inl OtherError), rw_current = (\<lambda>_. Inl OtherError), rw_deploy = (\<lambda>_ _. Inl OtherError),
    rw_rollback = (\<lambda>_. Inl OtherError), rw_get = (\<lambda>_. Inl OtherError), pb_check = Inl OtherError, pv_validate = None\<rparr>"

definition demo_kstate :: kstate where
  "demo_kstate = \<lparr>k_db = \<lparr>kd_incidents = [], kd_cases = [], kd_log = [], kd_artifacts = [], kd_evidence = [], kd_observations = [],
    kd_freezes = []\<rparr>, k_plans = [], k_attempts = [], k_activities = [], k_releases = [], k_promotions = [], k_beat = None\<rparr>"

definition demo_context :: "providers \<Rightarrow> rctx" where
  "demo_context p = \<lparr>cx_st = demo_settings, cx_rs = \<lparr>rs_main = ''main'', rs_production = ''production'', rs_service_ids = [],
    rs_owners = [], rs_require_signature = True, rs_deploy_grace = 180, rs_backoff = 30, rs_max_transient = 20\<rparr>, cx_p = p,
    cx_k = demo_kstate, cx_reg = [], cx_releases = [], cx_now = 0, cx_fresh = 9, cx_uid_str = (\<lambda>_. ''id''), cx_sha = id,
    cx_mac = (\<lambda>_ m. m), cx_key = []\<rparr>"

definition demo_release :: "release_status \<Rightarrow> release" where
  "demo_release s = \<lparr>rl_id = 1, rl_case = 1, rl_incident = 1, rl_status = s, rl_risk = MAINTENANCE_GREEN, rl_head_sha = ''abc'',
    rl_failure = None, rl_next = 0, rl_deadline = hours 3, rl_tree = None, rl_att = [], rl_digest = [], rl_signature = [],
    rl_services = [''dashboard'', ''registry''], rl_branch = None, rl_pr = Some 7, rl_merge_sha = Some ''m1'', rl_deps = [],
    rl_merged_at = Some 0, rl_known_good = Some 5, rl_rollback = \<lparr>rb_baseline = None, rb_reason = None, rb_services = [],
    rb_healthy = 0, rb_result = None, rb_reconciliation = None\<rparr>, rl_streak = 0, rl_attempt = 0, rl_lease_owner = None,
    rl_lease_until = None, rl_created = 0, rl_completed = None, rl_waits = 20, rl_prod_head = Some ''p0'', rl_verified_at = Some 0,
    rl_history = []\<rparr>"

definition demo_work :: "release_status \<Rightarrow> work" where
  "demo_work s = \<lparr>w_row = demo_release s, w_deps_flushed = None, w_rb_flushed = None,
    w_known = [\<lparr>kg_id = 5, kg_sha = Some ''p0'', kg_tree = None, kg_deps = [(''dashboard'', ''d1''), (''registry'', ''r1'')], kg_at = 0\<rparr>],
    w_freezes = [], w_events = []\<rparr>"

definition green_pull :: providers where
  "green_pull = silent\<lparr>gh_head := (\<lambda>_. Inr ''p0''), gh_merge := (\<lambda>_ _. Inr ''m1''),
    gh_pr := (\<lambda>_. Inr \<lparr>pu_number = 7, pu_head = ''abc'', pu_merged = False, pu_merge_sha = None, pu_mergeable = Some True,
      pu_checks = ''passed''\<rparr>)\<rparr>"

theorem release_step_guarded_witness:
  "event_ok (demo_context green_pull) (demo_work REL_PR_OPEN) (EvMerge (Some 7) ''abc'') \<and>
   rl_status (w_row (snd (release_step (demo_context green_pull) (demo_work REL_PR_OPEN)))) \<in> set (release_moves REL_PR_OPEN)"
proof -
  let ?w = "snd (release_step (demo_context green_pull) (demo_work REL_PR_OPEN))"
  have ev: "release_step (demo_context green_pull) (demo_work REL_PR_OPEN) = (Inr (), ?w) \<and> w_events ?w = [EvMerge (Some 7) ''abc'']"
    by (simp add: release_step_def handle_def s_pr_open_def bindR_def row_def ask_def act_def enter_merged_def s_merged_def change_def
        settle_def demo_work_def demo_release_def demo_context_def green_pull_def silent_def open_freeze_def Let_def)
  have start: "rl_status (w_row (demo_work REL_PR_OPEN)) = REL_PR_OPEN" "w_events (demo_work REL_PR_OPEN) = []"
    by (simp_all add: demo_work_def demo_release_def)
  show ?thesis
    using release_step_guarded [of "demo_work REL_PR_OPEN" "demo_context green_pull" "()" ?w] ev start
    by (simp add: release_terminal_def del: event_ok.simps)
qed

theorem terminal_release_final_witness:
  "demo_release REL_REFUSED \<in> set (rd_releases (run_once (\<lambda>_. demo_context silent) True ''w'' 3
     \<lparr>rd_releases = [demo_release REL_REFUSED], rd_known = [], rd_freezes = [], rd_events = []\<rparr>))"
  by (rule terminal_release_final) (simp_all add: ids_distinct_def demo_release_def release_terminal_def)

theorem abandoned_after_merge_witness:
  "rl_status (w_row (snd (release_step (demo_context (silent\<lparr>rw_rollback := (\<lambda>_. Inl (ProviderTransient ''503''))\<rparr>)) (demo_work REL_ROLLING_BACK))))
    = REL_REFUSED"
proof -
  let ?cx = "demo_context (silent\<lparr>rw_rollback := (\<lambda>_. Inl (ProviderTransient ''503''))\<rparr>)"
  let ?w = "demo_work REL_ROLLING_BACK"
  let ?w1 = "?w\<lparr>w_events := [EvRollback ''dashboard'' ''d1'']\<rparr>"
  have h: "handle ?cx (rl_status (w_row ?w)) ?w = (Inl (ProviderTransient ''503''), ?w1)"
    by (simp add: handle_def s_rolling_back_def roll_back_to_def roll_service_def or_if_refused_def bindR_def row_def ask_def act_def ret_def
        demo_work_def demo_release_def demo_context_def silent_def Let_def)
  have "\<exists>w'. release_step ?cx ?w = (Inr (), w') \<and> rl_status (w_row w') = REL_REFUSED \<and> w_events w' = w_events ?w1 \<and>
      w_freezes w' = w_freezes ?w1 \<and> (\<forall>later. \<not> claimable later (store_row w'))"
    by (rule abandoned_after_merge [OF _ h]) (simp_all add: demo_work_def demo_release_def demo_context_def hours_def minutes_def seconds_def)
  then show ?thesis by auto
qed

section \<open>A rollback issued twice\<close>

definition resume_work :: "work \<Rightarrow> work" where
  "resume_work w = w\<lparr>w_row := store_row w, w_deps_flushed := None, w_rb_flushed := None\<rparr>"

text \<open>
  Of the rollbacks a step issues, only the first is recorded. When two services roll back and the
  provider is still building after the first step, the row that was committed knows the first service
  only, and the next step issues the rollback of the second service again.
\<close>

theorem rollback_issued_twice:
  assumes "rl_status (w_row w) = REL_ROLLING_BACK" and "rl_services (w_row w) = [a, b]" and "a \<noteq> b"
    and "rl_known_good (w_row w) = Some i" and "find (\<lambda>g. kg_id g = i) (w_known w) = Some kg"
    and "map_of (kg_deps kg) a = Some ta" and "map_of (kg_deps kg) b = Some tb" and "ta \<noteq> []" and "tb \<noteq> []"
    and "rb_services (rl_rollback (w_row w)) = []" and "w_rb_flushed w = None" and "w_deps_flushed w = None"
    and "rw_rollback (cx_p cx) ta = Inr ia" and "rw_rollback (cx_p cx) tb = Inr ib"
    and "rw_get (cx_p cx) ia = Inr xa" and "rw_get (cx_p cx) ib = Inr xb" and "dp_status xa = ''BUILDING''" and "dp_status xb = ''BUILDING''"
    and "cx_now cx < rl_deadline (w_row w) + hours 1"
  shows "\<exists>w1 w2. release_step cx w = (Inr (), w1) \<and> release_step cx (resume_work w1) = (Inr (), w2) \<and>
    w_events w2 = w_events w @ [EvRollback a ta, EvRollback b tb, EvRollback b tb]"
proof -
  note unfolds = release_step_def handle_def s_rolling_back_def roll_back_to_def roll_service_def or_if_refused_def bindR_def row_def
    ask_def act_def ret_def put_rollback_def flush_rollback_def change_def settle_def after_roll_def failed_state_def Let_def keep_first_def
  let ?d = "(rl_rollback (w_row w))\<lparr>rb_services := [(a, ia)]\<rparr>"
  let ?d' = "(rl_rollback (w_row w))\<lparr>rb_services := [(a, ia), (b, ib)]\<rparr>"
  let ?r1 = "(w_row w)\<lparr>rl_rollback := ?d', rl_next := cx_now cx + seconds 30\<rparr>"
  let ?w1 = "w\<lparr>w_row := ?r1, w_rb_flushed := Some ?d, w_events := w_events w @ [EvRollback a ta, EvRollback b tb]\<rparr>"
  have one: "release_step cx w = (Inr (), ?w1)"
    using assms by (simp add: unfolds)
  have again: "resume_work ?w1 = ?w1\<lparr>w_row := ?r1\<lparr>rl_rollback := ?d\<rparr>, w_rb_flushed := None\<rparr>"
    using assms(12) by (simp add: resume_work_def store_row_def)
  have "\<exists>w2. release_step cx (resume_work ?w1) = (Inr (), w2) \<and>
      w_events w2 = w_events w @ [EvRollback a ta, EvRollback b tb, EvRollback b tb]"
    unfolding again using assms by (simp add: unfolds)
  with one show ?thesis by blast
qed

definition building :: providers where
  "building = silent\<lparr>rw_rollback := (\<lambda>t. Inr (''new-'' @ t)), rw_get := (\<lambda>i. Inr \<lparr>dp_id = i, dp_status = ''BUILDING'', dp_sha = None\<rparr>)\<rparr>"

theorem rollback_issued_twice_witness:
  "\<exists>w1 w2. release_step (demo_context building) (demo_work REL_ROLLING_BACK) = (Inr (), w1) \<and>
    release_step (demo_context building) (resume_work w1) = (Inr (), w2) \<and>
    w_events w2 = [EvRollback ''dashboard'' ''d1'', EvRollback ''registry'' ''r1'', EvRollback ''registry'' ''r1'']"
  using rollback_issued_twice [of "demo_work REL_ROLLING_BACK" "''dashboard''" "''registry''" 5 "hd (w_known (demo_work REL_ROLLING_BACK))"
    "''d1''" "''r1''" "demo_context building"]
  by (simp add: demo_work_def demo_release_def demo_context_def building_def hours_def minutes_def seconds_def)

end
