(* ===== verification/Worktree.thy ===== *)
theory Worktree
  imports Risk
begin

text \<open>
  The worktree a repair is written into, and the containment and exact-text editing every writer of it
  shares (\<open>society/engineering/workspace.py\<close>). A location is an absolute path as its list of
  components. A symbolic link carries the location it denotes once it is followed; a file that is not
  UTF-8 is \<open>Raw\<close>. Texts are strings of the code points below 256.
\<close>

section \<open>Files\<close>

type_synonym loc = "string list"

datatype node = File string | Raw | Dir | Link loc

type_synonym tree = "loc \<Rightarrow> node option"

text \<open>Following the links of a path, component by component (\<open>Path.resolve()\<close>).\<close>

fun walk :: "tree \<Rightarrow> loc \<Rightarrow> string list \<Rightarrow> loc" where
  "walk t loc [] = loc"
| "walk t loc (p # ps) = walk t (case t (loc @ [p]) of Some (Link d) \<Rightarrow> d | _ \<Rightarrow> loc @ [p]) ps"

definition resolve :: "tree \<Rightarrow> loc \<Rightarrow> loc" where
  "resolve t path = walk t [] path"

definition exists :: "tree \<Rightarrow> loc \<Rightarrow> bool" where
  "exists t path \<longleftrightarrow> t (resolve t path) \<noteq> None"

definition is_file :: "tree \<Rightarrow> loc \<Rightarrow> bool" where
  "is_file t path \<longleftrightarrow> (case t (resolve t path) of Some (File s) \<Rightarrow> True | Some Raw \<Rightarrow> True | _ \<Rightarrow> False)"

text \<open>The directory entry a path names: its last component is not followed.\<close>

definition entry :: "tree \<Rightarrow> loc \<Rightarrow> loc" where
  "entry t path = resolve t (butlast path) @ [last path]"

definition is_symlink :: "tree \<Rightarrow> loc \<Rightarrow> bool" where
  "is_symlink t path \<longleftrightarrow> path \<noteq> [] \<and> (case t (entry t path) of Some (Link d) \<Rightarrow> True | _ \<Rightarrow> False)"

text \<open>\<open>read_text\<close> turns every line ending into a newline, and raises on a file that is not UTF-8.\<close>

fun universal_newlines :: "string \<Rightarrow> string" where
  "universal_newlines [] = []"
| "universal_newlines [c] = [if c = CHR 0x0D then CHR 0x0A else c]"
| "universal_newlines (c # d # s) =
    (if c = CHR 0x0D then CHR 0x0A # universal_newlines (if d = CHR 0x0A then s else d # s)
     else c # universal_newlines (d # s))"

definition read_text :: "tree \<Rightarrow> loc \<Rightarrow> string option" where
  "read_text t path = (case t (resolve t path) of Some (File s) \<Rightarrow> Some (universal_newlines s) | _ \<Rightarrow> None)"

text \<open>
  \<open>mkdir(parents=True, exist_ok=True)\<close> walks down the path and creates what is missing; a component
  that exists and is no directory raises, and then nothing has been created.
\<close>

fun mkdirs :: "tree \<Rightarrow> loc \<Rightarrow> string list \<Rightarrow> tree option" where
  "mkdirs t loc [] = Some t"
| "mkdirs t loc (p # ps) =
    (case t (loc @ [p]) of
       None \<Rightarrow> mkdirs (t(loc @ [p] \<mapsto> Dir)) (loc @ [p]) ps
     | Some Dir \<Rightarrow> mkdirs t (loc @ [p]) ps
     | Some (Link d) \<Rightarrow> (if t d = Some Dir then mkdirs t d ps else None)
     | Some _ \<Rightarrow> None)"

text \<open>\<open>write_text\<close> follows links and needs the directory of what it writes.\<close>

definition write_text :: "tree \<Rightarrow> loc \<Rightarrow> string \<Rightarrow> tree option" where
  "write_text t path s =
    (let q = resolve t path in
     if q \<noteq> [] \<and> t (butlast q) = Some Dir \<and> (case t q of Some Dir \<Rightarrow> False | Some (Link d) \<Rightarrow> False | _ \<Rightarrow> True)
     then Some (t(q \<mapsto> File s)) else None)"

definition unlink :: "tree \<Rightarrow> loc \<Rightarrow> tree option" where
  "unlink t path =
    (case t (entry t path) of None \<Rightarrow> None | Some Dir \<Rightarrow> None | Some _ \<Rightarrow> Some (t(entry t path := None)))"

section \<open>Containment\<close>

definition path_parts :: "string \<Rightarrow> string list" where
  "path_parts rel = filter (\<lambda>p. p \<noteq> [] \<and> p \<noteq> ''.'') (split_on (CHR ''/'') rel)"

datatype ws_error = NotAllowed | Traversal | Escapes | ThroughSymlink

definition bad_start :: "string \<Rightarrow> bool" where
  "bad_start rel \<longleftrightarrow> starts_with ''/'' rel \<or> starts_with ''~'' rel \<or> CHR 0x5C \<in> set rel \<or> CHR 0x00 \<in> set rel"

text \<open>The deepest ancestor of the target that exists, no higher than the root of the worktree.\<close>

primrec probe :: "tree \<Rightarrow> loc \<Rightarrow> string list \<Rightarrow> nat \<Rightarrow> loc" where
  "probe t base parts 0 = base"
| "probe t base parts (Suc n) =
    (if exists t (base @ take (Suc n) parts) then base @ take (Suc n) parts else probe t base parts n)"

definition inside :: "loc \<Rightarrow> loc \<Rightarrow> bool" where
  "inside base q \<longleftrightarrow> take (length base) q = base"

definition contained_path :: "tree \<Rightarrow> loc \<Rightarrow> string \<Rightarrow> ws_error + loc" where
  "contained_path t ws_root rel =
    (if rel = [] \<or> bad_start rel then Inl NotAllowed
     else let parts = path_parts rel in
     if parts = [] \<or> ''..'' \<in> set parts then Inl Traversal
     else let base = resolve t ws_root; target = base @ parts in
     if \<not> inside base (resolve t (probe t base parts (length parts))) then Inl Escapes
     else if exists t target \<and> is_symlink t target then Inl ThroughSymlink
     else Inr target)"

definition is_protected :: "string \<Rightarrow> bool" where
  "is_protected rel \<longleftrightarrow> is_never_writable rel"

section \<open>Exact text\<close>

text \<open>\<open>text.count(needle)\<close> counts occurrences from the left that do not overlap.\<close>

fun count_sub :: "'a list \<Rightarrow> 'a list \<Rightarrow> nat" where
  "count_sub n [] = (if n = [] then 1 else 0)"
| "count_sub n (x # xs) =
    (if n = [] then Suc (count_sub n xs)
     else if take (length n) (x # xs) = n then Suc (count_sub n (drop (length n - 1) xs))
     else count_sub n xs)"

text \<open>\<open>text.index(needle)\<close>, once it is known to occur.\<close>

fun index_sub :: "'a list \<Rightarrow> 'a list \<Rightarrow> nat" where
  "index_sub n [] = 0"
| "index_sub n (x # xs) = (if take (length n) (x # xs) = n then 0 else Suc (index_sub n xs))"

text \<open>The positions at which a needle really occurs.\<close>

definition occurs_at :: "'a list \<Rightarrow> 'a list \<Rightarrow> nat \<Rightarrow> bool" where
  "occurs_at n s i \<longleftrightarrow> i \<le> length s \<and> take (length n) (drop i s) = n"

definition overlap_free :: "'a list \<Rightarrow> bool" where
  "overlap_free n \<longleftrightarrow> (\<forall>k. 0 < k \<and> k < length n \<longrightarrow> drop k n \<noteq> take (length n - k) n)"

definition occurs_once :: "'a list \<Rightarrow> 'a list \<Rightarrow> bool" where
  "occurs_once n s \<longleftrightarrow> (\<exists>!i. occurs_at n s i)"

lemma occurs_at_Cons:
  "occurs_at n (x # s) i \<longleftrightarrow> (i = 0 \<and> take (length n) (x # s) = n) \<or> (\<exists>j. i = Suc j \<and> occurs_at n s j)"
  by (cases i) (auto simp: occurs_at_def)

lemma occurs_at_Nil [simp]: "occurs_at n [] i \<longleftrightarrow> n = [] \<and> i = 0"
  by (auto simp: occurs_at_def)

lemma occurs_at_append: "occurs_at n s i \<Longrightarrow> s = take i s @ n @ drop (i + length n) s"
  unfolding occurs_at_def by (metis append_take_drop_id drop_drop add.commute)

lemma occurs_at_drop: "k \<le> length s \<Longrightarrow> occurs_at n (drop k s) i \<longleftrightarrow> occurs_at n s (k + i)"
  by (auto simp: occurs_at_def add.commute)

text \<open>A needle that overlaps no shift of itself has no second occurrence that meets the first.\<close>

lemma overlap_free_apart:
  assumes "overlap_free n" "occurs_at n s 0" "occurs_at n s i" "0 < i"
  shows "length n \<le> i"
proof (rule ccontr)
  assume a: "\<not> length n \<le> i"
  have s: "take (length n) s = n" and si: "take (length n) (drop i s) = n"
    using assms(2,3) by (simp_all add: occurs_at_def)
  have "drop i n = take (length n - i) (drop i s)" using s by (metis drop_take)
  also have "\<dots> = take (length n - i) n" using si a by (metis min.absorb1 diff_le_self take_take)
  finally have "drop i n = take (length n - i) n" .
  then show False using assms(1,4) a by (simp add: overlap_free_def)
qed

lemma count_sub_zero: "n \<noteq> [] \<Longrightarrow> count_sub n s = 0 \<longleftrightarrow> (\<forall>i. \<not> occurs_at n s i)"
proof (induction n s rule: count_sub.induct)
  case (2 n x xs)
  then show ?case by (cases "take (length n) (x # xs) = n") (auto simp: occurs_at_Cons)
qed simp

lemma index_sub_first: "n \<noteq> [] \<Longrightarrow> count_sub n s \<noteq> 0 \<Longrightarrow> occurs_at n s (index_sub n s)"
proof (induction n s rule: index_sub.induct)
  case (2 n x xs)
  then show ?case by (cases "take (length n) (x # xs) = n") (auto simp: occurs_at_Cons)
qed simp

text \<open>
  For such needles, to count once is to occur once, so the edit is the edit of the only occurrence.
\<close>

lemma count_sub_once:
  assumes "n \<noteq> []" "overlap_free n"
  shows "count_sub n s = 1 \<longleftrightarrow> occurs_once n s"
  using assms
proof (induction n s rule: count_sub.induct)
  case (1 n)
  then show ?case by (auto simp: occurs_once_def)
next
  case (2 n x xs)
  show ?case
  proof (cases "take (length n) (x # xs) = n")
    case True
    have here: "occurs_at n (x # xs) 0" using True by (simp add: occurs_at_Cons)
    have c: "count_sub n (x # xs) = Suc (count_sub n (drop (length n - 1) xs))" using 2 True by simp
    have le: "length n \<le> Suc (length xs)" using True by (metis length_Cons length_take min.cobounded1)
    have dr: "drop (length n - 1) xs = drop (length n) (x # xs)" using 2(4) by (cases n) auto
    have "count_sub n (drop (length n - 1) xs) = 0 \<longleftrightarrow> (\<forall>i. \<not> occurs_at n (drop (length n) (x # xs)) i)"
      using count_sub_zero [OF 2(4)] unfolding dr by blast
    also have "\<dots> \<longleftrightarrow> (\<forall>i. occurs_at n (x # xs) i \<longrightarrow> i = 0)"
    proof
      assume none: "\<forall>i. \<not> occurs_at n (drop (length n) (x # xs)) i"
      show "\<forall>i. occurs_at n (x # xs) i \<longrightarrow> i = 0"
      proof (intro allI impI)
        fix i assume o: "occurs_at n (x # xs) i"
        show "i = 0"
        proof (rule ccontr)
          assume "i \<noteq> 0"
          then have "length n \<le> i" using overlap_free_apart [OF 2(5) here o] by simp
          then have "occurs_at n (drop (length n) (x # xs)) (i - length n)"
            using o le by (subst occurs_at_drop) simp_all
          then show False using none by blast
        qed
      qed
    next
      assume only: "\<forall>i. occurs_at n (x # xs) i \<longrightarrow> i = 0"
      show "\<forall>i. \<not> occurs_at n (drop (length n) (x # xs)) i"
      proof (intro allI notI)
        fix i assume "occurs_at n (drop (length n) (x # xs)) i"
        then have "occurs_at n (x # xs) (length n + i)" using le by (subst (asm) occurs_at_drop) simp_all
        then show False using only 2(4) by auto
      qed
    qed
    finally show ?thesis using here c by (auto simp: occurs_once_def)
  next
    case False
    have "count_sub n (x # xs) = count_sub n xs" using 2 False by simp
    moreover have "occurs_once n (x # xs) \<longleftrightarrow> occurs_once n xs"
      using False by (auto simp: occurs_once_def occurs_at_Cons)
    ultimately show ?thesis using 2 False by simp
  qed
qed

section \<open>What writing changes\<close>

text \<open>Links decide where a path leads, and no write touches them.\<close>

definition same_links :: "tree \<Rightarrow> tree \<Rightarrow> bool" where
  "same_links t t' \<longleftrightarrow> (\<forall>p d. t p = Some (Link d) \<longleftrightarrow> t' p = Some (Link d))"

lemma same_links_refl [simp]: "same_links t t"
  by (simp add: same_links_def)

lemma same_links_trans: "same_links t u \<Longrightarrow> same_links u v \<Longrightarrow> same_links t v"
  by (simp add: same_links_def)

lemma same_links_step:
  "same_links t t' \<Longrightarrow> (case t p of Some (Link d) \<Rightarrow> d | _ \<Rightarrow> p) = (case t' p of Some (Link d) \<Rightarrow> d | _ \<Rightarrow> p)"
proof -
  assume "same_links t t'"
  then have "\<forall>d. t p = Some (Link d) \<longleftrightarrow> t' p = Some (Link d)" by (simp add: same_links_def)
  then show ?thesis by (cases "t p"; cases "t' p") (auto split: node.splits)
qed

lemma walk_same_links: "same_links t t' \<Longrightarrow> walk t loc ps = walk t' loc ps"
  by (induction ps arbitrary: loc) (simp_all add: same_links_step)

lemma resolve_same_links: "same_links t t' \<Longrightarrow> resolve t = resolve t'"
  by (intro ext) (simp add: resolve_def walk_same_links)

lemma entry_same_links: "same_links t t' \<Longrightarrow> entry t = entry t'"
  by (intro ext) (simp add: entry_def resolve_same_links)

lemma is_symlink_link: "is_symlink t path \<longleftrightarrow> path \<noteq> [] \<and> (\<exists>d. t (entry t path) = Some (Link d))"
  by (auto simp: is_symlink_def split: option.splits node.splits)

lemma is_symlink_same_links: "same_links t t' \<Longrightarrow> is_symlink t = is_symlink t'"
  using entry_same_links [of t t'] by (intro ext) (simp add: is_symlink_link same_links_def)

lemma walk_append: "walk t loc (ps @ qs) = walk t (walk t loc ps) qs"
  by (induction ps arbitrary: loc) auto

lemma resolve_snoc:
  "resolve t (ps @ [x]) = (case t (resolve t ps @ [x]) of Some (Link d) \<Rightarrow> d | _ \<Rightarrow> resolve t ps @ [x])"
  by (simp add: resolve_def walk_append cong: option.case_cong node.case_cong)

lemma resolve_entry: "path \<noteq> [] \<Longrightarrow> \<not> is_symlink t path \<Longrightarrow> resolve t path = entry t path"
  using resolve_snoc [of t "butlast path" "last path"]
  by (auto simp: is_symlink_link entry_def split: option.splits node.splits)

text \<open>\<open>only_changes L t t'\<close>: what differs is at a location of \<open>L\<close>, or a directory that was missing.\<close>

definition only_changes :: "loc set \<Rightarrow> loc set \<Rightarrow> tree \<Rightarrow> tree \<Rightarrow> bool" where
  "only_changes L D t t' \<longleftrightarrow> same_links t t' \<and>
    (\<forall>q. t' q = t q \<or> q \<in> L \<or> (q \<in> D \<and> t q = None \<and> t' q = Some Dir))"

lemma only_changes_refl [simp]: "only_changes L D t t"
  by (simp add: only_changes_def)

lemma only_changes_trans:
  assumes "only_changes L D t u" "only_changes L D u v"
  shows "only_changes L D t v"
  using assms unfolding only_changes_def by (metis same_links_trans)

lemma only_changes_mono: "only_changes L D t u \<Longrightarrow> L \<subseteq> L' \<Longrightarrow> D \<subseteq> D' \<Longrightarrow> only_changes L' D' t u"
  unfolding only_changes_def by blast

lemma mkdirs_changes:
  "mkdirs t loc ps = Some t' \<Longrightarrow> only_changes {} {walk t loc (take k ps) | k. k \<le> length ps} t t'"
proof (induction t loc ps rule: mkdirs.induct)
  case (1 t loc)
  then show ?case by simp
next
  case (2 t loc p ps)
  let ?here = "loc @ [p]"
  define D where "D = {walk t loc (take k (p # ps)) | k. k \<le> length (p # ps)}"
  have deeper: "walk t (case t ?here of Some (Link d) \<Rightarrow> d | _ \<Rightarrow> ?here) (take k ps) \<in> D" if "k \<le> length ps" for k
    using that unfolding D_def by (auto intro!: exI [of _ "Suc k"])
  consider "t ?here = None" | "t ?here = Some Dir" | d where "t ?here = Some (Link d)" "t d = Some Dir"
    using 2(4) by (auto split: option.splits node.splits if_splits)
  then have "only_changes {} D t t'"
  proof cases
    case 1
    let ?u = "t(?here \<mapsto> Dir)"
    have links: "same_links t ?u" using 1 by (auto simp: same_links_def)
    have "only_changes {} {walk ?u ?here (take k ps) | k. k \<le> length ps} ?u t'"
      by (rule 2(1) [OF 1]) (use 2(4) 1 in \<open>simp add: fun_upd_def\<close>)
    moreover have "{walk ?u ?here (take k ps) | k. k \<le> length ps} \<subseteq> D"
      using deeper 1 walk_same_links [OF links] by auto
    ultimately have rest: "only_changes {} D ?u t'" by (blast intro: only_changes_mono)
    have "?here \<in> D" using deeper [of 0] 1 by simp
    then have "only_changes {} D t ?u" using links 1 by (auto simp: only_changes_def)
    then show ?thesis using rest by (rule only_changes_trans)
  next
    case c: 2
    have "only_changes {} {walk t ?here (take k ps) | k. k \<le> length ps} t t'" using 2(2) [OF c] 2(4) c by simp
    moreover have "{walk t ?here (take k ps) | k. k \<le> length ps} \<subseteq> D" using deeper c by auto
    ultimately show ?thesis by (blast intro: only_changes_mono)
  next
    case (3 d)
    have "only_changes {} {walk t d (take k ps) | k. k \<le> length ps} t t'" using 2(3) [OF 3(1) _ 3(2)] 2(4) 3 by simp
    moreover have "{walk t d (take k ps) | k. k \<le> length ps} \<subseteq> D" using deeper 3 by auto
    ultimately show ?thesis by (blast intro: only_changes_mono)
  qed
  then show ?case by (simp add: D_def)
qed

lemma write_text_changes:
  assumes "write_text t path s = Some t'"
  shows "only_changes {resolve t path} {} t t'" and "t' (resolve t path) = Some (File s)"
  using assms
  by (auto simp: write_text_def Let_def only_changes_def same_links_def split: if_splits option.splits node.splits)

lemma unlink_changes:
  assumes "unlink t path = Some t'" and "path \<noteq> []" and "\<not> is_symlink t path"
  shows "only_changes {resolve t path} {} t t'" and "t' (resolve t path) = None"
  using assms resolve_entry [OF assms(2,3)]
  by (auto simp: unlink_def only_changes_def same_links_def is_symlink_link split: option.splits node.splits if_splits)

section \<open>A contained path stays in the worktree\<close>

text \<open>
  What a file system is: an entry has a directory. The last condition is what containment needs:
  every link leads somewhere.
\<close>

definition rooted :: "tree \<Rightarrow> bool" where
  "rooted t \<longleftrightarrow> (\<forall>p x. t (p @ [x]) \<noteq> None \<longrightarrow> t p \<noteq> None)"

definition no_dangling :: "tree \<Rightarrow> bool" where
  "no_dangling t \<longleftrightarrow> (\<forall>p d. t p = Some (Link d) \<longrightarrow> t d \<noteq> None)"

lemma walk_from_missing: "rooted t \<Longrightarrow> t loc = None \<Longrightarrow> walk t loc ps = loc @ ps \<and> t (loc @ ps) = None"
proof (induction ps arbitrary: loc)
  case (Cons p ps)
  then have "t (loc @ [p]) = None" unfolding rooted_def by blast
  then show ?case using Cons.IH [of "loc @ [p]"] Cons.prems by simp
qed simp

lemma resolve_missing_step:
  assumes "rooted t" "no_dangling t" "t (resolve t (ps @ [x])) = None"
  shows "resolve t (ps @ [x]) = resolve t ps @ [x]"
proof (cases "\<exists>d. t (resolve t ps @ [x]) = Some (Link d)")
  case True
  then show ?thesis using assms(2,3) unfolding no_dangling_def resolve_snoc by fastforce
next
  case False
  then show ?thesis unfolding resolve_snoc by (auto split: option.splits node.splits)
qed

lemma resolve_beyond:
  assumes "rooted t" "no_dangling t" "t (resolve t (ps @ [x])) = None"
  shows "resolve t (ps @ [x] @ qs) = resolve t ps @ [x] @ qs"
proof -
  have "resolve t (ps @ [x] @ qs) = walk t (resolve t (ps @ [x])) qs"
    unfolding resolve_def by (metis append.assoc walk_append)
  then show ?thesis
    using walk_from_missing [OF assms(1,3)] resolve_missing_step [OF assms] by simp
qed

lemma exists_prefix:
  assumes "rooted t" "no_dangling t" "exists t (ps @ qs)"
  shows "exists t ps"
  using assms(3)
proof (induction qs rule: rev_induct)
  case (snoc x qs)
  have "t (resolve t (ps @ qs)) \<noteq> None"
  proof
    assume none: "t (resolve t (ps @ qs)) = None"
    then have "t (resolve t (ps @ qs) @ [x]) = None" using assms(1) unfolding rooted_def by blast
    then show False using snoc(2) resolve_snoc [of t "ps @ qs" x] by (simp add: exists_def)
  qed
  then show ?case using snoc by (simp add: exists_def)
qed simp

lemma probe_spec:
  "\<exists>n \<le> m. probe t base parts m = base @ take n parts \<and> (0 < n \<longrightarrow> exists t (base @ take n parts)) \<and>
     (\<forall>k. n < k \<and> k \<le> m \<longrightarrow> \<not> exists t (base @ take k parts))"
proof (induction m)
  case (Suc m)
  show ?case
  proof (cases "exists t (base @ take (Suc m) parts)")
    case True
    then show ?thesis by (intro exI [of _ "Suc m"]) auto
  next
    case False
    then show ?thesis using Suc by (auto simp: le_Suc_eq)
  qed
qed simp

lemma inside_append: "inside base q \<Longrightarrow> inside base (q @ r)"
  unfolding inside_def by (metis append_eq_conv_conj append_take_drop_id append.assoc)

lemma contained_path_Inr:
  assumes "contained_path t ws_root rel = Inr target"
  shows "target = resolve t ws_root @ path_parts rel" "path_parts rel \<noteq> []" "''..'' \<notin> set (path_parts rel)"
    "exists t target \<Longrightarrow> \<not> is_symlink t target"
    "inside (resolve t ws_root) (resolve t (probe t (resolve t ws_root) (path_parts rel) (length (path_parts rel))))"
  using assms by (auto simp: contained_path_def Let_def split: if_splits)

text \<open>Neither the file nor a directory that has to be created for it can lie outside the worktree.\<close>

lemma contained_path_inside:
  assumes "rooted t" "no_dangling t" "contained_path t ws_root rel = Inr target"
    and k: "k \<le> length (path_parts rel)"
    and new: "k = length (path_parts rel) \<or> t (resolve t (resolve t ws_root @ take k (path_parts rel))) = None"
  shows "inside (resolve t ws_root) (resolve t (resolve t ws_root @ take k (path_parts rel)))"
proof -
  define base where "base = resolve t ws_root"
  define parts where "parts = path_parts rel"
  obtain n where n: "n \<le> length parts" "probe t base parts (length parts) = base @ take n parts"
      "0 < n \<longrightarrow> exists t (base @ take n parts)"
      "\<And>j. n < j \<Longrightarrow> j \<le> length parts \<Longrightarrow> \<not> exists t (base @ take j parts)"
    using probe_spec [of "length parts" t base parts] by auto
  have here: "inside base (resolve t (base @ take n parts))"
    using contained_path_Inr(5) [OF assms(3)] n(2) by (simp add: base_def parts_def)
  consider "k = n" | "k < n" | "n < k" by linarith
  then have "inside base (resolve t (base @ take k parts))"
  proof cases
    case 2
    have "exists t (base @ take k parts)"
    proof (rule exists_prefix [OF assms(1,2)])
      have "take n parts = take k parts @ take (n - k) (drop k parts)" using 2 by (metis le_add_diff_inverse less_imp_le take_add)
      then show "exists t ((base @ take k parts) @ take (n - k) (drop k parts))" using n(3) 2 by simp
    qed
    then have "k = length parts" using new by (auto simp: exists_def base_def parts_def)
    then show ?thesis using 2 n(1) by simp
  next
    case 3
    then have lt: "n < length parts" using k by (simp add: parts_def)
    have split: "take k parts = take n parts @ [parts ! n] @ take (k - Suc n) (drop (Suc n) parts)"
    proof -
      have "take k parts = take (Suc n) parts @ take (k - Suc n) (drop (Suc n) parts)"
        using 3 by (metis Suc_leI le_add_diff_inverse take_add)
      then show ?thesis using lt by (simp add: take_Suc_conv_app_nth)
    qed
    have "t (resolve t ((base @ take n parts) @ [parts ! n])) = None"
      using n(4) [of "Suc n"] lt by (simp add: exists_def take_Suc_conv_app_nth)
    from resolve_beyond [OF assms(1,2) this]
    have "resolve t (base @ take k parts) = resolve t (base @ take n parts) @ [parts ! n] @ take (k - Suc n) (drop (Suc n) parts)"
      unfolding split by simp
    then show ?thesis using inside_append [OF here] by simp
  qed (use here in simp)
  then show ?thesis by (simp add: base_def parts_def)
qed

end
