(* ===== verification/PatchSet.thy ===== *)
theory PatchSet
  imports Worktree
begin

text \<open>
  Typed patch sets (\<open>maintenance/patchset.py\<close>), the edits of a Builder's submission
  (\<open>apply_edits\<close> of \<open>society/engineering/workspace.py\<close>), and the patch tool of an attempt
  (\<open>maintenance/harness.py\<close>). Writing is a loop over files that an error of the operating system can
  interrupt, so an operation returns its outcome with the tree it leaves behind. The base revision
  and the Python parser are parameters.
\<close>

section \<open>Patch sets and their schema\<close>

datatype op_kind = ReplaceExact | InsertAfter | InsertBefore | Create | Delete

record patch_op =
  po_op :: op_kind
  po_old :: "string option"
  po_new :: "string option"
  po_anchor :: "string option"
  po_text :: "string option"

record file_patch =
  fp_path :: string
  fp_operations :: "patch_op list"

record patch_set =
  ps_base_sha :: string
  ps_files :: "file_patch list"

definition max_ops_per_file :: nat where "max_ops_per_file = 24"
definition max_files :: nat where "max_files = 12"
definition max_op_text :: nat where "max_op_text = 40000"
definition max_file_bytes :: nat where "max_file_bytes = 400000"

definition op_schema :: "patch_op \<Rightarrow> bool" where
  "op_schema p \<longleftrightarrow>
    list_all (\<lambda>v. case v of None \<Rightarrow> True | Some s \<Rightarrow> length s \<le> max_op_text) [po_old p, po_new p, po_anchor p, po_text p]"

definition file_schema :: "file_patch \<Rightarrow> bool" where
  "file_schema f \<longleftrightarrow>
    1 \<le> length (fp_path f) \<and> length (fp_path f) \<le> 300 \<and>
    1 \<le> length (fp_operations f) \<and> length (fp_operations f) \<le> max_ops_per_file \<and> list_all op_schema (fp_operations f) \<and>
    \<not> (starts_with ''/'' (fp_path f) \<or> starts_with ''~'' (fp_path f) \<or> CHR 0x5C \<in> set (fp_path f) \<or>
       CHR 0x00 \<in> set (fp_path f) \<or> ''..'' \<in> set (split_on (CHR ''/'') (fp_path f)))"

definition patch_schema :: "patch_set \<Rightarrow> bool" where
  "patch_schema ps \<longleftrightarrow>
    7 \<le> length (ps_base_sha ps) \<and> length (ps_base_sha ps) \<le> 64 \<and>
    1 \<le> length (ps_files ps) \<and> length (ps_files ps) \<le> max_files \<and> list_all file_schema (ps_files ps)"

section \<open>Validation\<close>

datatype patch_code =
    InvalidPatch | NoMatch | Ambiguous | StaleBase | DuplicateFile | OutOfScope | Protected | PathRefused | FileExists | TooLarge

text \<open>A file that is not UTF-8 and an error of the operating system are not turned into a \<open>PatchError\<close>.\<close>

datatype patch_failure = PatchError patch_code | NotUtf8 | OsError

definition or_empty :: "string option \<Rightarrow> string" where
  "or_empty v = (case v of None \<Rightarrow> [] | Some s \<Rightarrow> s)"

definition required :: "patch_op \<Rightarrow> bool" where
  "required p =
    (case po_op p of
       ReplaceExact \<Rightarrow> or_empty (po_old p) \<noteq> [] \<and> po_new p \<noteq> None
     | InsertAfter \<Rightarrow> or_empty (po_anchor p) \<noteq> [] \<and> po_text p \<noteq> None
     | InsertBefore \<Rightarrow> or_empty (po_anchor p) \<noteq> [] \<and> po_text p \<noteq> None
     | Create \<Rightarrow> po_text p \<noteq> None
     | Delete \<Rightarrow> True)"

definition once :: "string \<Rightarrow> string \<Rightarrow> patch_failure + nat" where
  "once s needle =
    (if count_sub needle s = 0 then Inl (PatchError NoMatch)
     else if 1 < count_sub needle s then Inl (PatchError Ambiguous)
     else Inr (index_sub needle s))"

text \<open>The bytes of a text in UTF-8.\<close>

definition utf8_length :: "string \<Rightarrow> nat" where
  "utf8_length s = length s + length (filter (\<lambda>c. 128 \<le> (of_char c :: nat)) s)"

text \<open>
  One operation on the text of a file that existed or not, and how many operations the file has. The
  result carries the text and whether the file is to be deleted.
\<close>

definition apply_op :: "bool \<Rightarrow> bool \<Rightarrow> nat \<Rightarrow> patch_op \<Rightarrow> string option \<times> bool \<Rightarrow> patch_failure + string option \<times> bool" where
  "apply_op existed at_base ops p st =
    bindE (guardE (required p) (PatchError InvalidPatch)) (\<lambda>_.
    bindE (case po_op p of
        Create \<Rightarrow> if fst st \<noteq> None then Inl (PatchError FileExists) else Inr (Some (or_empty (po_text p)), snd st)
      | Delete \<Rightarrow>
          if ops \<noteq> 1 then Inl (PatchError InvalidPatch)
          else if \<not> existed then Inl (PatchError NoMatch)
          else if at_base then Inl (PatchError Protected)
          else Inr (fst st, True)
      | k \<Rightarrow> bindE (needE (fst st) (PatchError NoMatch)) (\<lambda>s.
          case k of
            ReplaceExact \<Rightarrow> bindE (once s (or_empty (po_old p))) (\<lambda>i.
              Inr (Some (take i s @ or_empty (po_new p) @ drop (i + length (or_empty (po_old p))) s), snd st))
          | InsertAfter \<Rightarrow> bindE (once s (or_empty (po_anchor p))) (\<lambda>i.
              let j = i + length (or_empty (po_anchor p)) in Inr (Some (take j s @ or_empty (po_text p) @ drop j s), snd st))
          | _ \<Rightarrow> bindE (once s (or_empty (po_anchor p))) (\<lambda>i. Inr (Some (take i s @ or_empty (po_text p) @ drop i s), snd st))))
    (\<lambda>st'. if (case fst st' of None \<Rightarrow> False | Some s \<Rightarrow> max_file_bytes < utf8_length s)
            then Inl (PatchError TooLarge) else Inr st'))"

record workspace =
  ws_path :: loc
  ws_base_sha :: string
  ws_at_base :: "string \<Rightarrow> bool" \<comment> \<open>\<open>git cat-file -e <base>:<path>\<close>\<close>

definition rstrip_star :: "string \<Rightarrow> string" where
  "rstrip_star s = rev (dropWhile (\<lambda>c. c = CHR ''*'') (rev s))"

definition in_protected :: "string list \<Rightarrow> string \<Rightarrow> bool" where
  "in_protected protected rel \<longleftrightarrow>
    list_ex (\<lambda>p. rel = p \<or> starts_with (rstrip_slash (rstrip_star p) @ ''/'') rel) protected"

definition slashes :: "string \<Rightarrow> string" where
  "slashes s = map (\<lambda>c. if c = CHR 0x5C then CHR ''/'' else c) s"

type_synonym planned_file = "loc \<times> string \<times> string option"

definition current_text :: "tree \<Rightarrow> loc \<Rightarrow> patch_failure + string option" where
  "current_text t target = (if is_file t target then bindE (needE (read_text t target) NotUtf8) (\<lambda>s. Inr (Some s)) else Inr None)"

definition plan_patch ::
  "workspace \<Rightarrow> tree \<Rightarrow> string list \<Rightarrow> string list \<Rightarrow> file_patch \<Rightarrow> string list \<times> planned_file list
    \<Rightarrow> patch_failure + string list \<times> planned_file list" where
  "plan_patch w t files_allowed protected f acc =
    (let rel = fp_path f in
     bindE (guardE (rel \<notin> set (fst acc)) (PatchError DuplicateFile)) (\<lambda>_.
     bindE (guardE (rel \<in> slashes ` set files_allowed) (PatchError OutOfScope)) (\<lambda>_.
     bindE (guardE (\<not> (is_protected rel \<or> in_protected protected rel)) (PatchError Protected)) (\<lambda>_.
     bindE (mapE (\<lambda>_. PatchError PathRefused) (contained_path t (ws_path w) rel)) (\<lambda>target.
     bindE (current_text t target) (\<lambda>before.
     bindE (foldE (apply_op (is_file t target) (ws_at_base w rel) (length (fp_operations f))) (fp_operations f) (before, False)) (\<lambda>st.
       Inr (fst acc @ [rel], snd acc @ [(target, rel, if snd st then None else fst st)]))))))))"

section \<open>Application\<close>

record applied =
  ap_written :: "string list"
  ap_deleted :: "string list"

definition write_planned :: "tree \<Rightarrow> planned_file \<Rightarrow> tree option" where
  "write_planned t pf =
    (case pf of
       (target, rel, None) \<Rightarrow> unlink t target
     | (target, rel, Some s) \<Rightarrow> (case mkdirs t [] (butlast target) of None \<Rightarrow> None | Some t1 \<Rightarrow> write_text t1 target s))"

text \<open>What the write of a file leaves behind when it raises after creating its directory.\<close>

definition half_written :: "tree \<Rightarrow> planned_file \<Rightarrow> tree" where
  "half_written t pf =
    (case pf of
       (target, rel, None) \<Rightarrow> t
     | (target, rel, Some s) \<Rightarrow> (case mkdirs t [] (butlast target) of None \<Rightarrow> t | Some t1 \<Rightarrow> t1))"

fun write_plan :: "planned_file list \<Rightarrow> tree \<Rightarrow> applied \<Rightarrow> (patch_failure + applied) \<times> tree" where
  "write_plan [] t out = (Inr out, t)"
| "write_plan (pf # pfs) t out =
    (case write_planned t pf of
       None \<Rightarrow> (Inl OsError, half_written t pf)
     | Some t' \<Rightarrow> write_plan pfs t'
         (if snd (snd pf) = None then out\<lparr>ap_deleted := ap_deleted out @ [fst (snd pf)]\<rparr>
          else out\<lparr>ap_written := ap_written out @ [fst (snd pf)]\<rparr>))"

definition apply_patchset ::
  "workspace \<Rightarrow> tree \<Rightarrow> patch_set \<Rightarrow> string list \<Rightarrow> string list \<Rightarrow> (patch_failure + applied) \<times> tree" where
  "apply_patchset w t patch files_allowed protected =
    (case bindE (guardE (starts_with (ps_base_sha patch) (ws_base_sha w)) (PatchError StaleBase)) (\<lambda>_.
            foldE (plan_patch w t files_allowed protected) (ps_files patch) ([], [])) of
       Inl e \<Rightarrow> (Inl e, t)
     | Inr (seen, plan) \<Rightarrow> write_plan plan t \<lparr>ap_written = [], ap_deleted = []\<rparr>)"

definition workspace_file_exists :: "workspace \<Rightarrow> tree \<Rightarrow> string \<Rightarrow> bool" where
  "workspace_file_exists w t rel =
    (case contained_path t (ws_path w) rel of Inl e \<Rightarrow> False | Inr target \<Rightarrow> is_file t target)"

section \<open>The edits of a submission\<close>

record file_edit =
  fe_path :: string
  fe_content :: "string option"
  fe_replacements :: "(string \<times> string) list option"

datatype edit_failure = WorkspaceError | EditUndecodable | EditOsError

text \<open>\<open>text.replace(old, new, 1)\<close> on a text in which \<open>old\<close> occurs.\<close>

definition apply_replacement :: "string \<times> string \<Rightarrow> string \<Rightarrow> edit_failure + string" where
  "apply_replacement r s =
    (if count_sub (fst r) s \<noteq> 1 then Inl WorkspaceError
     else let i = index_sub (fst r) s in Inr (take i s @ snd r @ drop (i + length (fst r)) s))"

definition apply_replacements ::
  "tree \<Rightarrow> loc \<Rightarrow> string \<Rightarrow> (string \<times> string) list \<Rightarrow> (string \<times> string) list \<Rightarrow> edit_failure + string" where
  "apply_replacements t target rel replacements planned =
    bindE (case map_of planned rel of
        Some s \<Rightarrow> Inr s
      | None \<Rightarrow> if is_file t target then needE (read_text t target) EditUndecodable else Inl WorkspaceError)
     (foldE apply_replacement replacements)"

text \<open>\<open>planned\<close> is the dictionary of texts so far, newest first.\<close>

definition plan_edit ::
  "workspace \<Rightarrow> tree \<Rightarrow> string list \<Rightarrow> file_edit \<Rightarrow> (string \<times> string) list \<times> planned_file list
    \<Rightarrow> edit_failure + (string \<times> string) list \<times> planned_file list" where
  "plan_edit w t allowed e acc =
    (let rel = fe_path e in
     bindE (guardE (rel \<in> set allowed) WorkspaceError) (\<lambda>_.
     bindE (guardE (\<not> is_protected rel) WorkspaceError) (\<lambda>_.
     bindE (mapE (\<lambda>_. WorkspaceError) (contained_path t (ws_path w) rel)) (\<lambda>target.
     bindE (case fe_replacements e of None \<Rightarrow> Inr (or_empty (fe_content e)) | Some rs \<Rightarrow> apply_replacements t target rel rs (fst acc)) (\<lambda>s.
       Inr ((rel, s) # fst acc, snd acc @ [(target, rel, Some s)]))))))"

definition apply_edits ::
  "workspace \<Rightarrow> tree \<Rightarrow> file_edit list \<Rightarrow> string list \<Rightarrow> (edit_failure + string list) \<times> tree" where
  "apply_edits w t edits allowed =
    (case foldE (plan_edit w t allowed) edits ([], []) of
       Inl e \<Rightarrow> (Inl e, t)
     | Inr acc \<Rightarrow> (case write_plan (snd acc) t \<lparr>ap_written = [], ap_deleted = []\<rparr> of
          (Inl e, t') \<Rightarrow> (Inl EditOsError, t')
        | (Inr out, t') \<Rightarrow> (Inr (ap_written out), t')))"

section \<open>The patch tool of an attempt\<close>

text \<open>
  The tool snapshots the listed files, applies the patch, and restores the snapshot when a written
  Python file does not parse. An error that is not answered to the model ends the attempt.
\<close>

datatype tool_answer =
    PatchApplied "string list" "string list" | PatchRefused patch_code | PatchInvalid | PatchSyntaxError | PatchCrashed

record attempt =
  at_ws :: workspace
  at_files_allowed :: "string list"
  at_patches_applied :: nat
  at_patch_digests :: "string list"

definition snapshot :: "workspace \<Rightarrow> tree \<Rightarrow> string \<Rightarrow> patch_failure + string option" where
  "snapshot w t rel =
    (case contained_path t (ws_path w) rel of Inl e \<Rightarrow> Inr None | Inr target \<Rightarrow> current_text t target)"

definition restore :: "workspace \<Rightarrow> string \<times> string option \<Rightarrow> tree \<Rightarrow> patch_failure + tree" where
  "restore w b t =
    (case contained_path t (ws_path w) (fst b) of
       Inl e \<Rightarrow> Inl (PatchError PathRefused)
     | Inr target \<Rightarrow>
         (case snd b of
            None \<Rightarrow> if t (entry t target) = None then Inr t else needE (unlink t target) OsError
          | Some s \<Rightarrow> needE (write_text t target s) OsError))"

definition python_errors :: "(string \<Rightarrow> bool) \<Rightarrow> workspace \<Rightarrow> tree \<Rightarrow> string list \<Rightarrow> bool" where
  "python_errors parses w t paths \<longleftrightarrow>
    list_ex (\<lambda>rel. case contained_path t (ws_path w) rel of
        Inl e \<Rightarrow> False
      | Inr target \<Rightarrow> ends_with ''.py'' rel \<and> is_file t target \<and>
          (case read_text t target of None \<Rightarrow> False | Some s \<Rightarrow> \<not> parses s)) paths"

definition restore_all :: "workspace \<Rightarrow> (string \<times> string option) list \<Rightarrow> tree \<Rightarrow> patch_failure + tree" where
  "restore_all w before t = foldE (restore w) before t"

definition apply_patch_tool ::
  "(patch_set \<Rightarrow> string) \<Rightarrow> (string \<Rightarrow> bool) \<Rightarrow> attempt \<Rightarrow> tree \<Rightarrow> patch_set \<Rightarrow> tool_answer \<times> attempt \<times> tree" where
  "apply_patch_tool digest parses a t patch =
    (if \<not> patch_schema patch then (PatchInvalid, a, t)
     else case foldE (\<lambda>f before. bindE (snapshot (at_ws a) t (fp_path f)) (\<lambda>s. Inr (before @ [(fp_path f, s)]))) (ps_files patch) [] of
       Inl e \<Rightarrow> (PatchInvalid, a, t)
     | Inr before \<Rightarrow>
         (case apply_patchset (at_ws a) t patch (at_files_allowed a) [] of
            (Inl (PatchError c), t') \<Rightarrow> (PatchRefused c, a, t')
          | (Inl NotUtf8, t') \<Rightarrow> (PatchInvalid, a, t')
          | (Inl OsError, t') \<Rightarrow> (PatchCrashed, a, t')
          | (Inr out, t') \<Rightarrow>
              if python_errors parses (at_ws a) t' (ap_written out)
              then (case restore_all (at_ws a) before t' of Inl e \<Rightarrow> (PatchCrashed, a, t') | Inr t'' \<Rightarrow> (PatchSyntaxError, a, t''))
              else (PatchApplied (ap_written out) (ap_deleted out),
                    a\<lparr>at_patches_applied := at_patches_applied a + 1, at_patch_digests := at_patch_digests a @ [digest patch]\<rparr>, t')))"

end
