(* ===== verification/PatchProps.thy ===== *)
theory PatchProps
  imports PatchSet
begin

text \<open>
  What applying a patch can change, what it does to the listed files, and the situations in which the
  containment or the all-or-nothing promise of \<open>maintenance/patchset.py\<close> does not hold.
\<close>

section \<open>What a patch set may change\<close>

definition in_scope :: "workspace \<Rightarrow> tree \<Rightarrow> string list \<Rightarrow> string list \<Rightarrow> string \<Rightarrow> loc \<Rightarrow> bool" where
  "in_scope w t files_allowed protected rel target \<longleftrightarrow>
    rel \<in> slashes ` set files_allowed \<and> \<not> is_protected rel \<and> \<not> in_protected protected rel \<and>
    contained_path t (ws_path w) rel = Inr target"

text \<open>
  The declarative meaning of an operation on a text: the text around the place of the edit is kept,
  and for a needle that cannot overlap itself the place is the only one.
\<close>

definition edits_text :: "patch_op \<Rightarrow> string \<Rightarrow> string \<Rightarrow> bool" where
  "edits_text p s s' \<longleftrightarrow>
    (\<exists>a b needle. s = a @ needle @ b \<and> needle \<noteq> [] \<and> (overlap_free needle \<longrightarrow> occurs_once needle s) \<and>
      (case po_op p of
         ReplaceExact \<Rightarrow> po_old p = Some needle \<and> s' = a @ or_empty (po_new p) @ b
       | InsertAfter \<Rightarrow> po_anchor p = Some needle \<and> s' = a @ needle @ or_empty (po_text p) @ b
       | InsertBefore \<Rightarrow> po_anchor p = Some needle \<and> s' = a @ or_empty (po_text p) @ needle @ b
       | _ \<Rightarrow> False))"

text \<open>A sequence of operations: a file may be created first, and then only edits follow.\<close>

fun edits :: "patch_op list \<Rightarrow> string option \<Rightarrow> string option \<Rightarrow> bool" where
  "edits [] v v' \<longleftrightarrow> v' = v"
| "edits (p # ps) v v' \<longleftrightarrow>
    (case v of
       None \<Rightarrow> po_op p = Create \<and> edits ps (po_text p) v'
     | Some s \<Rightarrow> (\<exists>s'. edits_text p s s' \<and> edits ps (Some s') v'))"

lemma once_splits:
  assumes "once s needle = Inr i" "needle \<noteq> []"
  obtains a b where "s = a @ needle @ b" "i = length a" "overlap_free needle \<longrightarrow> occurs_once needle s"
proof -
  have c: "count_sub needle s = 1" and i: "i = index_sub needle s"
    using assms(1) by (auto simp: once_def split: if_splits)
  have o: "occurs_at needle s i" using index_sub_first [OF assms(2)] c i by simp
  have "overlap_free needle \<longrightarrow> occurs_once needle s" using c count_sub_once [OF assms(2)] by blast
  moreover have "i = length (take i s)" using o by (simp add: occurs_at_def)
  ultimately show thesis using that occurs_at_append [OF o] by blast
qed

lemma given_nonempty: "or_empty v \<noteq> [] \<Longrightarrow> v = Some (or_empty v)"
  by (auto simp: or_empty_def split: option.splits)

lemma apply_op_edits:
  assumes "apply_op existed at_base ops p (v, d) = Inr (v', d')" and "po_op p \<noteq> Delete"
  shows "d' = d" and "edits [p] v v'" and "v' \<noteq> None"
proof -
  have req: "required p" using assms(1) by (auto simp: apply_op_def bindE_Inr)
  have out: "d' = d \<and> edits [p] v v' \<and> v' \<noteq> None"
  proof (cases "po_op p")
    case Create
    then show ?thesis using assms(1) req
      by (auto simp: apply_op_def bindE_Inr required_def or_empty_def split: if_splits option.splits)
  next
    case ReplaceExact
    then obtain s i where v: "v = Some s" and o: "once s (or_empty (po_old p)) = Inr i"
        and r: "v' = Some (take i s @ or_empty (po_new p) @ drop (i + length (or_empty (po_old p))) s)" "d' = d"
      using assms(1) by (auto simp: apply_op_def bindE_Inr Let_def split: if_splits)
    have ne: "or_empty (po_old p) \<noteq> []" using req ReplaceExact by (simp add: required_def)
    obtain a b where s: "s = a @ or_empty (po_old p) @ b" "i = length a"
        "overlap_free (or_empty (po_old p)) \<longrightarrow> occurs_once (or_empty (po_old p)) s"
      using once_splits [OF o ne] by blast
    have "edits_text p s (the v')"
      unfolding edits_text_def
      by (rule exI [of _ a], rule exI [of _ b], rule exI [of _ "or_empty (po_old p)"])
        (use ReplaceExact ne s r given_nonempty [OF ne] in simp)
    then show ?thesis using v r by simp
  next
  case InsertAfter
    then obtain s i where v: "v = Some s" and o: "once s (or_empty (po_anchor p)) = Inr i"
        and r: "v' = Some (take (i + length (or_empty (po_anchor p))) s @ or_empty (po_text p) @ drop (i + length (or_empty (po_anchor p))) s)" "d' = d"
      using assms(1) by (auto simp: apply_op_def bindE_Inr Let_def split: if_splits)
    have ne: "or_empty (po_anchor p) \<noteq> []" using req InsertAfter by (simp add: required_def)
    obtain a b where s: "s = a @ or_empty (po_anchor p) @ b" "i = length a"
        "overlap_free (or_empty (po_anchor p)) \<longrightarrow> occurs_once (or_empty (po_anchor p)) s"
      using once_splits [OF o ne] by blast
    have "edits_text p s (the v')"
      unfolding edits_text_def
      by (rule exI [of _ a], rule exI [of _ b], rule exI [of _ "or_empty (po_anchor p)"])
        (use InsertAfter ne s r given_nonempty [OF ne] in simp)
    then show ?thesis using v r by simp
  next
  case InsertBefore
    then obtain s i where v: "v = Some s" and o: "once s (or_empty (po_anchor p)) = Inr i"
        and r: "v' = Some (take i s @ or_empty (po_text p) @ drop i s)" "d' = d"
      using assms(1) by (auto simp: apply_op_def bindE_Inr Let_def split: if_splits)
    have ne: "or_empty (po_anchor p) \<noteq> []" using req InsertBefore by (simp add: required_def)
    obtain a b where s: "s = a @ or_empty (po_anchor p) @ b" "i = length a"
        "overlap_free (or_empty (po_anchor p)) \<longrightarrow> occurs_once (or_empty (po_anchor p)) s"
      using once_splits [OF o ne] by blast
    have "edits_text p s (the v')"
      unfolding edits_text_def
      by (rule exI [of _ a], rule exI [of _ b], rule exI [of _ "or_empty (po_anchor p)"])
        (use InsertBefore ne s r given_nonempty [OF ne] in simp)
    then show ?thesis using v r by simp
  qed (use assms(2) in simp)
  then show "d' = d" "edits [p] v v'" "v' \<noteq> None" by auto
qed

definition fits :: "string option \<Rightarrow> bool" where
  "fits v \<longleftrightarrow> (case v of None \<Rightarrow> True | Some s \<Rightarrow> utf8_length s \<le> max_file_bytes)"

lemma apply_op_fits: "apply_op existed at_base ops p st = Inr st' \<Longrightarrow> fits (fst st')"
  by (auto simp: apply_op_def bindE_Inr fits_def split: if_splits option.splits)

lemma apply_op_delete:
  assumes "apply_op existed at_base ops p st = Inr st'" "po_op p = Delete"
  shows "ops = 1 \<and> existed \<and> \<not> at_base \<and> st' = (fst st, True)"
  using assms by (auto simp: apply_op_def bindE_Inr split: if_splits)

lemma edits_Cons: "edits [p] v v' \<Longrightarrow> edits ps v' v'' \<Longrightarrow> v' \<noteq> None \<Longrightarrow> edits (p # ps) v v''"
  by (auto split: option.splits)

lemma apply_ops:
  assumes "foldE (apply_op existed at_base ops) ps (v, d) = Inr (v', d')" and "\<forall>p \<in> set ps. po_op p \<noteq> Delete"
  shows "d' = d \<and> edits ps v v' \<and> (ps \<noteq> [] \<longrightarrow> v' \<noteq> None \<and> fits v')"
  using assms
proof (induction ps arbitrary: v d)
  case (Cons p ps)
  then obtain v1 d1 where step: "apply_op existed at_base ops p (v, d) = Inr (v1, d1)"
      and rest: "foldE (apply_op existed at_base ops) ps (v1, d1) = Inr (v', d')"
    by (auto simp: bindE_Inr)
  note one = apply_op_edits [OF step]
  have "d' = d1 \<and> edits ps v1 v' \<and> (ps \<noteq> [] \<longrightarrow> v' \<noteq> None \<and> fits v')" using Cons.IH [OF rest] Cons.prems(2) by simp
  then show ?case
    using one Cons.prems(2) edits_Cons apply_op_fits [OF step] rest by (cases "ps = []") simp_all
qed simp

text \<open>What the plan holds for a file of the patch.\<close>

definition outcome_of :: "workspace \<Rightarrow> tree \<Rightarrow> file_patch \<Rightarrow> loc \<Rightarrow> string option \<Rightarrow> bool" where
  "outcome_of w t f target v \<longleftrightarrow>
    (if \<exists>p \<in> set (fp_operations f). po_op p = Delete
     then length (fp_operations f) = 1 \<and> is_file t target \<and> \<not> ws_at_base w (fp_path f) \<and> v = None
     else fits v \<and> v \<noteq> None \<and> edits (fp_operations f) (read_text t target) v)"

definition planned_for :: "workspace \<Rightarrow> tree \<Rightarrow> string list \<Rightarrow> string list \<Rightarrow> file_patch \<Rightarrow> planned_file \<Rightarrow> bool" where
  "planned_for w t files_allowed protected f pf \<longleftrightarrow>
    (case pf of (target, rel, v) \<Rightarrow>
      rel = fp_path f \<and> in_scope w t files_allowed protected rel target \<and> outcome_of w t f target v)"

lemma read_text_is_file: "\<not> is_file t target \<Longrightarrow> read_text t target = None"
  by (auto simp: is_file_def read_text_def split: option.splits node.splits)

lemma current_text_Inr: "current_text t target = Inr v \<Longrightarrow> v = read_text t target"
  by (auto simp: current_text_def bindE_Inr read_text_is_file split: if_splits)

lemma plan_patch_planned:
  assumes "plan_patch w t files_allowed protected f acc = Inr acc'" and "fp_operations f \<noteq> []"
  obtains target v where "acc' = (fst acc @ [fp_path f], snd acc @ [(target, fp_path f, v)])"
    "fp_path f \<notin> set (fst acc)" "planned_for w t files_allowed protected f (target, fp_path f, v)"
proof -
  obtain target st where c: "contained_path t (ws_path w) (fp_path f) = Inr target"
      and scope: "fp_path f \<in> slashes ` set files_allowed" "\<not> is_protected (fp_path f)" "\<not> in_protected protected (fp_path f)"
        "fp_path f \<notin> set (fst acc)"
      and ops: "foldE (apply_op (is_file t target) (ws_at_base w (fp_path f)) (length (fp_operations f))) (fp_operations f)
        (read_text t target, False) = Inr st"
      and out: "acc' = (fst acc @ [fp_path f], snd acc @ [(target, fp_path f, if snd st then None else fst st)])"
    using assms(1) unfolding plan_patch_def Let_def bindE_Inr guardE_Inr mapE_Inr
    by (metis current_text_Inr sum.inject(2))
  obtain v d where st: "st = (v, d)" by (cases st)
  have "outcome_of w t f target (if d then None else v)"
  proof (cases "\<exists>p \<in> set (fp_operations f). po_op p = Delete")
    case False
    then have "d = False \<and> edits (fp_operations f) (read_text t target) v \<and> v \<noteq> None \<and> fits v"
      using apply_ops [OF ops [unfolded st]] assms(2) by auto
    then show ?thesis using False by (simp add: outcome_of_def)
  next
    case True
    then obtain ps p qs where split: "fp_operations f = ps @ p # qs" and del: "po_op p = Delete"
      by (meson split_list)
    have "\<exists>st1 st2. apply_op (is_file t target) (ws_at_base w (fp_path f)) (length (fp_operations f)) p st1 = Inr st2"
    proof (rule ccontr)
      assume none: "\<nexists>st1 st2. apply_op (is_file t target) (ws_at_base w (fp_path f)) (length (fp_operations f)) p st1 = Inr st2"
      have "foldE (apply_op (is_file t target) (ws_at_base w (fp_path f)) (length (fp_operations f))) (as @ p # bs) x \<noteq> Inr y" for as bs x y
        using none by (induction as arbitrary: x) (auto simp: bindE_Inr)
      then show False using ops split by metis
    qed
    then have one: "length (fp_operations f) = 1" "is_file t target" "\<not> ws_at_base w (fp_path f)"
      using apply_op_delete [OF _ del] by blast+
    then have "fp_operations f = [p]" using split by (cases ps) auto
    then have "apply_op (is_file t target) (ws_at_base w (fp_path f)) (length (fp_operations f)) p (read_text t target, False) = Inr (v, d)"
      using ops st by (simp add: bindE_Inr)
    then have "d" using apply_op_delete [OF _ del] by blast
    then show ?thesis using True one by (simp add: outcome_of_def)
  qed
  then have "planned_for w t files_allowed protected f (target, fp_path f, if d then None else v)"
    using c scope by (simp add: planned_for_def in_scope_def)
  moreover have "acc' = (fst acc @ [fp_path f], snd acc @ [(target, fp_path f, if d then None else v)])"
    using out st by simp
  ultimately show thesis using that scope(4) by blast
qed

lemma plan_patches_planned:
  assumes "foldE (plan_patch w t files_allowed protected) files acc = Inr acc'" and "\<forall>f \<in> set files. fp_operations f \<noteq> []"
  shows "\<exists>plan. snd acc' = snd acc @ plan \<and> list_all2 (planned_for w t files_allowed protected) files plan
    \<and> fst acc' = fst acc @ map fp_path files \<and> distinct (map fp_path files) \<and> set (map fp_path files) \<inter> set (fst acc) = {}"
  using assms
proof (induction files arbitrary: acc)
  case (Cons f files)
  then obtain acc1 where step: "plan_patch w t files_allowed protected f acc = Inr acc1"
      and rest: "foldE (plan_patch w t files_allowed protected) files acc1 = Inr acc'"
    by (auto simp: bindE_Inr)
  obtain target v where a: "acc1 = (fst acc @ [fp_path f], snd acc @ [(target, fp_path f, v)])"
      "fp_path f \<notin> set (fst acc)" "planned_for w t files_allowed protected f (target, fp_path f, v)"
    using plan_patch_planned [OF step] Cons.prems(2) by auto
  obtain plan where "snd acc' = snd acc1 @ plan" "list_all2 (planned_for w t files_allowed protected) files plan"
      "fst acc' = fst acc1 @ map fp_path files" "distinct (map fp_path files)" "set (map fp_path files) \<inter> set (fst acc1) = {}"
    using Cons.IH [OF rest] Cons.prems(2) by auto
  then show ?case using a by (intro exI [of _ "(target, fp_path f, v) # plan"]) auto
qed simp

section \<open>What writing the plan changes\<close>

definition targets_of :: "tree \<Rightarrow> planned_file list \<Rightarrow> loc set" where
  "targets_of t pfs = (\<lambda>pf. resolve t (fst pf)) ` set pfs"

definition parents_of :: "tree \<Rightarrow> planned_file list \<Rightarrow> loc set" where
  "parents_of t pfs = {resolve t (take k (butlast (fst pf))) | k pf. pf \<in> set pfs}"

definition writable_plan :: "tree \<Rightarrow> planned_file list \<Rightarrow> bool" where
  "writable_plan t pfs \<longleftrightarrow>
    (\<forall>pf \<in> set pfs. fst pf \<noteq> [] \<and> (snd (snd pf) = None \<longrightarrow> \<not> is_symlink t (fst pf)))"

lemma mkdirs_parents:
  assumes "mkdirs t [] (butlast target) = Some t'"
  shows "only_changes {} (parents_of t [(target, rel, v)]) t t'"
  by (rule only_changes_mono [OF mkdirs_changes [OF assms]])
    (auto simp: parents_of_def resolve_def)

lemma write_planned_changes:
  assumes "write_planned t pf = Some t'" and "writable_plan t [pf]"
  shows "only_changes (targets_of t [pf]) (parents_of t [pf]) t t'"
    and "t' (resolve t (fst pf)) = map_option File (snd (snd pf))"
proof -
  obtain target rel v where pf: "pf = (target, rel, v)" by (cases pf)
  have "only_changes (targets_of t [pf]) (parents_of t [pf]) t t' \<and> t' (resolve t target) = map_option File v"
  proof (cases v)
    case None
    then show ?thesis using assms pf unlink_changes [of t target t']
      by (auto simp: write_planned_def writable_plan_def targets_of_def intro: only_changes_mono)
  next
    case (Some s)
    then obtain t1 where t1: "mkdirs t [] (butlast target) = Some t1" "write_text t1 target s = Some t'"
      using assms(1) pf by (auto simp: write_planned_def split: option.splits)
    have dirs: "only_changes {} (parents_of t [pf]) t t1" using mkdirs_parents [OF t1(1)] pf by blast
    then have same: "resolve t1 = resolve t" using resolve_same_links unfolding only_changes_def by metis
    have "only_changes (targets_of t [pf]) (parents_of t [pf]) t t1"
      using dirs by (rule only_changes_mono) simp_all
    moreover have "only_changes (targets_of t [pf]) (parents_of t [pf]) t1 t'"
      using write_text_changes(1) [OF t1(2)] by (rule only_changes_mono) (simp_all add: pf same targets_of_def)
    ultimately show ?thesis
      using write_text_changes(2) [OF t1(2)] Some same by (auto intro: only_changes_trans)
  qed
  then show "only_changes (targets_of t [pf]) (parents_of t [pf]) t t'" "t' (resolve t (fst pf)) = map_option File (snd (snd pf))"
    using pf by auto
qed

lemma half_written_changes: "only_changes (targets_of t [pf]) (parents_of t [pf]) t (half_written t pf)"
proof -
  obtain target rel v where "pf = (target, rel, v)" by (cases pf)
  then show ?thesis
    by (auto simp: half_written_def split: option.splits intro: only_changes_mono [OF mkdirs_parents])
qed

lemma plan_same_links:
  assumes "same_links t u"
  shows "targets_of u pfs = targets_of t pfs" "parents_of u pfs = parents_of t pfs" "writable_plan u pfs = writable_plan t pfs"
  using resolve_same_links [OF assms] is_symlink_same_links [OF assms]
  by (simp_all add: targets_of_def parents_of_def writable_plan_def)

lemma write_plan_changes:
  assumes "write_plan pfs t out = (r, t')" and "writable_plan t pfs"
  shows "only_changes (targets_of t pfs) (parents_of t pfs) t t'"
  using assms
proof (induction pfs t out rule: write_plan.induct)
  case (2 pf pfs t out)
  have sub: "targets_of t [pf] \<subseteq> targets_of t (pf # pfs)" "targets_of t pfs \<subseteq> targets_of t (pf # pfs)"
    "parents_of t [pf] \<subseteq> parents_of t (pf # pfs)" "parents_of t pfs \<subseteq> parents_of t (pf # pfs)"
    by (auto simp: targets_of_def parents_of_def)
  have w: "writable_plan t [pf]" "writable_plan t pfs" using 2(3) by (simp_all add: writable_plan_def)
  show ?case
  proof (cases "write_planned t pf")
    case None
    then have "t' = half_written t pf" using 2(2) by simp
    then show ?thesis using half_written_changes sub by (metis only_changes_mono)
  next
    case (Some u)
    note one = write_planned_changes(1) [OF Some w(1)]
    then have links: "same_links t u" by (simp add: only_changes_def)
    have "only_changes (targets_of u pfs) (parents_of u pfs) u t'"
      using 2(1) [OF Some] 2(2) Some w(2) plan_same_links(3) [OF links] by (simp split: if_splits)
    then have "only_changes (targets_of t pfs) (parents_of t pfs) u t'" by (simp add: plan_same_links [OF links])
    from only_changes_trans [OF only_changes_mono [OF one sub(1,3)] only_changes_mono [OF this sub(2,4)]]
    show ?thesis .
  qed
qed simp

text \<open>When no two files of the plan are the same location, each ends up as planned.\<close>

lemma write_plan_content:
  assumes "write_plan pfs t out = (Inr out', t')" and "writable_plan t pfs" and "pf \<in> set pfs"
    and "distinct (map (\<lambda>pf. resolve t (fst pf)) pfs)"
  shows "t' (resolve t (fst pf)) = map_option File (snd (snd pf)) \<or>
    snd (snd pf) = None \<and> t' (resolve t (fst pf)) = Some Dir"
  using assms
proof (induction pfs t out rule: write_plan.induct)
  case (2 pf' pfs t out)
  obtain u where u: "write_planned t pf' = Some u" using 2(2) by (auto split: option.splits)
  let ?out = "if snd (snd pf') = None then out\<lparr>ap_deleted := ap_deleted out @ [fst (snd pf')]\<rparr>
          else out\<lparr>ap_written := ap_written out @ [fst (snd pf')]\<rparr>"
  have rest: "write_plan pfs u ?out = (Inr out', t')" using 2(2) u by simp
  have w: "writable_plan t [pf']" "writable_plan t pfs" using 2(3) by (simp_all add: writable_plan_def)
  note one = write_planned_changes [OF u w(1)]
  then have links: "same_links t u" by (simp add: only_changes_def)
  note same = resolve_same_links [OF links] plan_same_links [OF links]
  show ?case
  proof (cases "pf = pf'")
    case True
    have "only_changes (targets_of t pfs) (parents_of t pfs) u t'"
      using write_plan_changes [OF rest] w(2) by (simp add: same)
    moreover have "resolve t (fst pf') \<notin> targets_of t pfs" using 2(5) by (auto simp: targets_of_def)
    ultimately have "t' (resolve t (fst pf')) = u (resolve t (fst pf')) \<or>
        u (resolve t (fst pf')) = None \<and> t' (resolve t (fst pf')) = Some Dir"
      unfolding only_changes_def by blast
    then show ?thesis using one(2) True by auto
  next
    case False
    then show ?thesis using 2(1) [OF u rest] w(2) 2(4,5) by (simp add: same(1) [symmetric] same(4))
  qed
qed simp

section \<open>The patch as a whole\<close>

lemma apply_patchset_cases:
  assumes "apply_patchset w t patch files_allowed protected = (r, t')" and "patch_schema patch"
  obtains (refused) e where "r = Inl e" "t' = t"
  | (written) plan where "list_all2 (planned_for w t files_allowed protected) (ps_files patch) plan"
      "write_plan plan t \<lparr>ap_written = [], ap_deleted = []\<rparr> = (r, t')"
proof -
  have ops: "\<forall>f \<in> set (ps_files patch). fp_operations f \<noteq> []"
    using assms(2) by (auto simp: patch_schema_def file_schema_def list_all_iff)
  show thesis
  proof (cases "foldE (plan_patch w t files_allowed protected) (ps_files patch) ([], [])")
    case (Inl e)
    then show thesis using assms(1) refused by (auto simp: apply_patchset_def bindE_def guardE_def split: if_splits)
  next
    case (Inr acc)
    then show thesis
      using plan_patches_planned [OF Inr ops] assms(1) refused written
      by (cases acc) (auto simp: apply_patchset_def bindE_def guardE_def split: if_splits)
  qed
qed

lemma in_scope_target:
  assumes "in_scope w t files_allowed protected rel target"
  shows "target \<noteq> []" "exists t target \<Longrightarrow> \<not> is_symlink t target"
  using assms contained_path_Inr [of t "ws_path w" rel target] by (auto simp: in_scope_def)

lemma planned_member:
  assumes "list_all2 (planned_for w t files_allowed protected) files plan" "pf \<in> set plan"
  obtains f where "f \<in> set files" "planned_for w t files_allowed protected f pf"
  using assms by (metis in_set_conv_nth list_all2_conv_all_nth)

lemma planned_scope:
  "planned_for w t files_allowed protected f pf \<Longrightarrow> in_scope w t files_allowed protected (fp_path f) (fst pf)"
  by (auto simp: planned_for_def)

lemma planned_writable:
  assumes "list_all2 (planned_for w t files_allowed protected) files plan"
  shows "writable_plan t plan"
  unfolding writable_plan_def
proof
  fix pf assume "pf \<in> set plan"
  then obtain f where f: "planned_for w t files_allowed protected f pf" using planned_member [OF assms] by metis
  obtain target rel v where pf: "pf = (target, rel, v)" by (cases pf)
  have "v = None \<longrightarrow> is_file t target" using f pf by (auto simp: planned_for_def outcome_of_def split: if_splits)
  then have "v = None \<longrightarrow> exists t target" by (auto simp: is_file_def exists_def split: option.splits)
  then show "fst pf \<noteq> [] \<and> (snd (snd pf) = None \<longrightarrow> \<not> is_symlink t (fst pf))"
    using in_scope_target [of w t files_allowed protected rel target] f pf by (auto simp: planned_for_def)
qed

lemma planned_inside:
  assumes "rooted t" "no_dangling t" "in_scope w t files_allowed protected rel target"
  shows "inside (resolve t (ws_path w)) (resolve t target)"
    and "t (resolve t (take k target)) = None \<Longrightarrow> k \<le> length target \<Longrightarrow> length (resolve t (ws_path w)) \<le> k \<Longrightarrow>
      inside (resolve t (ws_path w)) (resolve t (take k target))"
proof -
  define base where "base = resolve t (ws_path w)"
  have c: "contained_path t (ws_path w) rel = Inr target" using assms(3) by (simp add: in_scope_def)
  have tgt: "target = base @ path_parts rel" using contained_path_Inr(1) [OF c] by (simp add: base_def)
  show "inside (resolve t (ws_path w)) (resolve t target)"
    using contained_path_inside [OF assms(1,2) c, of "length (path_parts rel)"] tgt by (simp add: base_def)
  assume none: "t (resolve t (take k target)) = None" "k \<le> length target" "length (resolve t (ws_path w)) \<le> k"
  have cut: "take k target = base @ take (k - length base) (path_parts rel)" using none(3) tgt by (simp add: base_def)
  show "inside (resolve t (ws_path w)) (resolve t (take k target))"
    using contained_path_inside [OF assms(1,2) c, of "k - length base"] none cut tgt by (simp add: base_def)
qed

definition scoped_plan :: "workspace \<Rightarrow> tree \<Rightarrow> string list \<Rightarrow> string list \<Rightarrow> string set \<Rightarrow> planned_file list \<Rightarrow> bool" where
  "scoped_plan w t files_allowed protected paths plan \<longleftrightarrow>
    (\<forall>pf \<in> set plan. fst (snd pf) \<in> paths \<and> in_scope w t files_allowed protected (fst (snd pf)) (fst pf))"

lemma planned_scoped:
  assumes "list_all2 (planned_for w t files_allowed protected) files plan"
  shows "scoped_plan w t files_allowed protected (fp_path ` set files) plan"
  unfolding scoped_plan_def
proof
  fix pf assume "pf \<in> set plan"
  with assms obtain f where "f \<in> set files" "planned_for w t files_allowed protected f pf" by (rule planned_member)
  then show "fst (snd pf) \<in> fp_path ` set files \<and> in_scope w t files_allowed protected (fst (snd pf)) (fst pf)"
    by (auto simp: planned_for_def)
qed

lemma scoped_plan_inside:
  assumes "rooted t" "no_dangling t" "exists t (resolve t (ws_path w))"
    and "scoped_plan w t files_allowed protected paths plan"
    and "only_changes (targets_of t plan) (parents_of t plan) t t'" and "t' q \<noteq> t q"
  shows "inside (resolve t (ws_path w)) q \<and>
    ((\<exists>rel \<in> paths. \<exists>target. in_scope w t files_allowed protected rel target \<and> q = resolve t target) \<or>
     t q = None \<and> t' q = Some Dir)"
proof -
  have "q \<in> targets_of t plan \<or> q \<in> parents_of t plan \<and> t q = None \<and> t' q = Some Dir"
    using assms(5,6) unfolding only_changes_def by blast
  then consider pf where "pf \<in> set plan" "q = resolve t (fst pf)"
    | k pf where "pf \<in> set plan" "q = resolve t (take k (butlast (fst pf)))" "t q = None" "t' q = Some Dir"
    by (auto simp: targets_of_def parents_of_def)
  then show ?thesis
  proof cases
    case (1 pf)
    then have "fst (snd pf) \<in> paths" "in_scope w t files_allowed protected (fst (snd pf)) (fst pf)"
      using assms(4) by (auto simp: scoped_plan_def)
    then show ?thesis using planned_inside(1) [OF assms(1,2)] 1 by blast
  next
    case (2 k pf)
    have f: "in_scope w t files_allowed protected (fst (snd pf)) (fst pf)"
      using assms(4) 2(1) by (auto simp: scoped_plan_def)
    define j where "j = min k (length (butlast (fst pf)))"
    have q: "q = resolve t (take j (fst pf))" using 2(2) by (simp add: j_def butlast_conv_take)
    have tgt: "fst pf = resolve t (ws_path w) @ path_parts (fst (snd pf))"
      using f contained_path_Inr(1) by (auto simp: in_scope_def)
    have "length (resolve t (ws_path w)) \<le> j"
    proof (rule ccontr)
      assume short: "\<not> length (resolve t (ws_path w)) \<le> j"
      then have "take j (fst pf) = take j (resolve t (ws_path w))" using tgt by simp
      moreover have "exists t (take j (resolve t (ws_path w)))"
        by (rule exists_prefix [OF assms(1,2), of _ "drop j (resolve t (ws_path w))"]) (simp add: assms(3))
      ultimately show False using q 2(3) by (simp add: exists_def)
    qed
    then show ?thesis using planned_inside(2) [OF assms(1,2) f, of j] q 2(3,4) by (simp add: j_def)
  qed
qed

text \<open>
  C12: Applying a patch set is contained. If it is refused, nothing changed. Whatever else happens, a
  failure of the operating system in the middle included, the only locations that differ lie inside the
  worktree, and each is the location of a listed file that the plan allows and no pattern protects, or
  a directory that had to be created. A link that leads out of the worktree is no way around this, as
  long as every link leads somewhere.
\<close>

theorem patch_contained:
  assumes "rooted t" "no_dangling t" "exists t (resolve t (ws_path w))" and "patch_schema patch"
    and "apply_patchset w t patch files_allowed protected = (r, t')"
  shows "(case r of Inl (PatchError c) \<Rightarrow> t' = t | _ \<Rightarrow> True) \<and>
    (\<forall>q. t' q \<noteq> t q \<longrightarrow> inside (resolve t (ws_path w)) q \<and>
      ((\<exists>f \<in> set (ps_files patch). \<exists>target. in_scope w t files_allowed protected (fp_path f) target \<and> q = resolve t target) \<or>
       t q = None \<and> t' q = Some Dir))"
  using assms(5,4)
proof (cases rule: apply_patchset_cases)
  case (refused e)
  then show ?thesis by (auto split: sum.splits patch_failure.splits)
next
  case (written plan)
  have r: "r \<noteq> Inl (PatchError c)" for c
  proof -
    have "write_plan pfs u out \<noteq> (Inl (PatchError c), u')" for pfs u out u'
      by (induction pfs u out rule: write_plan.induct) (auto split: option.splits)
    then show ?thesis using written(2) by auto
  qed
  have "only_changes (targets_of t plan) (parents_of t plan) t t'"
    using write_plan_changes [OF written(2) planned_writable [OF written(1)]] .
  from scoped_plan_inside [OF assms(1-3) planned_scoped [OF written(1)] this] show ?thesis
    using r by (fastforce split: sum.splits patch_failure.splits)
qed


text \<open>The edits of a submission are contained in the same way.\<close>

lemma slashes_contained: "contained_path t ws_root rel = Inr target \<Longrightarrow> slashes rel = rel"
proof -
  assume "contained_path t ws_root rel = Inr target"
  then have "CHR 0x5C \<notin> set rel" by (auto simp: contained_path_def bad_start_def split: if_splits)
  then show ?thesis unfolding slashes_def by (intro map_idI) auto
qed

lemma plan_edits_scoped:
  assumes "foldE (plan_edit w t allowed) es acc = Inr acc'" and "scoped_plan w t allowed [] paths (snd acc)"
    and "fe_path ` set es \<subseteq> paths"
  shows "scoped_plan w t allowed [] paths (snd acc') \<and> (\<forall>pf \<in> set (snd acc'). pf \<in> set (snd acc) \<or> snd (snd pf) \<noteq> None)"
  using assms
proof (induction es arbitrary: acc)
  case (Cons e es)
  obtain acc1 where step: "plan_edit w t allowed e acc = Inr acc1" and rest: "foldE (plan_edit w t allowed) es acc1 = Inr acc'"
    using Cons.prems(1) by (auto simp: bindE_Inr)
  obtain target s where t: "contained_path t (ws_path w) (fe_path e) = Inr target" "fe_path e \<in> set allowed" "\<not> is_protected (fe_path e)"
      "snd acc1 = snd acc @ [(target, fe_path e, Some s)]"
    using step by (auto simp: plan_edit_def Let_def bindE_Inr)
  have "in_scope w t allowed [] (fe_path e) target"
    using t slashes_contained [OF t(1)] by (force simp: in_scope_def in_protected_def)
  then have "scoped_plan w t allowed [] paths (snd acc1)" using Cons.prems(2,3) t(4) by (auto simp: scoped_plan_def)
  then show ?case using Cons.IH [OF rest] Cons.prems(3) t(4) by auto
qed simp

lemma apply_edits_contained:
  assumes "rooted t" "no_dangling t" "exists t (resolve t (ws_path w))" and "apply_edits w t es allowed = (r, t')" and "t' q \<noteq> t q"
  shows "inside (resolve t (ws_path w)) q \<and>
    ((\<exists>rel \<in> fe_path ` set es. \<exists>target. in_scope w t allowed [] rel target \<and> q = resolve t target) \<or>
     t q = None \<and> t' q = Some Dir)"
proof (cases "foldE (plan_edit w t allowed) es ([], [])")
  case (Inl e)
  then show ?thesis using assms(4,5) by (simp add: apply_edits_def)
next
  case (Inr acc)
  have plan: "scoped_plan w t allowed [] (fe_path ` set es) (snd acc)" "\<forall>pf \<in> set (snd acc). snd (snd pf) \<noteq> None"
    using plan_edits_scoped [OF Inr, of "fe_path ` set es"] by (auto simp: scoped_plan_def)
  then have "writable_plan t (snd acc)"
    using in_scope_target(1) unfolding writable_plan_def scoped_plan_def by blast
  moreover obtain r' where "write_plan (snd acc) t \<lparr>ap_written = [], ap_deleted = []\<rparr> = (r', t')"
    using assms(4) Inr by (auto simp: apply_edits_def split: prod.splits sum.splits)
  ultimately have "only_changes (targets_of t (snd acc)) (parents_of t (snd acc)) t t'"
    by (intro write_plan_changes)
  from scoped_plan_inside [where q = q, OF assms(1-3) plan(1) this] show ?thesis using assms(5) by blast
qed

section \<open>Concrete patches\<close>

definition demo_files :: "(loc \<times> node) list" where
  "demo_files =
   [([], Dir), ([''w''], Dir), ([''w'', ''app''], Dir), ([''w'', ''app'', ''a.py''], File ''x = 1''),
    ([''w'', ''here''], Link [''w'', ''app'']), ([''etc''], Dir), ([''etc'', ''passwd''], File ''root''),
    ([''w'', ''out''], Link [''etc''])]"

definition demo_workspace :: workspace where
  "demo_workspace = \<lparr>ws_path = [''w''], ws_base_sha = ''0123456789'', ws_at_base = (\<lambda>p. p = ''app/a.py'')\<rparr>"

definition plain_op :: "op_kind \<Rightarrow> string option \<Rightarrow> string option \<Rightarrow> string option \<Rightarrow> string option \<Rightarrow> patch_op" where
  "plain_op k old new anchor s = \<lparr>po_op = k, po_old = old, po_new = new, po_anchor = anchor, po_text = s\<rparr>"

definition demo_patch :: patch_set where
  "demo_patch = \<lparr>ps_base_sha = ''0123456'', ps_files =
    [\<lparr>fp_path = ''here/a.py'', fp_operations =
        [plain_op ReplaceExact (Some ''1'') (Some ''2'') None None, plain_op InsertBefore None None (Some ''x'') (Some ''y '')]\<rparr>,
     \<lparr>fp_path = ''new/b.py'', fp_operations = [plain_op Create None None None (Some ''z'')]\<rparr>]\<rparr>"

definition demo_allowed :: "string list" where
  "demo_allowed = [''here/a.py'', ''new/b.py'', ''out/cron'', ''new'']"

lemma rooted_map_of: "list_all (\<lambda>(p, n). p = [] \<or> butlast p \<in> fst ` set kvs) kvs \<Longrightarrow> rooted (map_of kvs)"
  unfolding rooted_def list_all_iff
proof (intro allI impI)
  fix p x
  assume a: "\<forall>kv \<in> set kvs. case kv of (p, n) \<Rightarrow> p = [] \<or> butlast p \<in> fst ` set kvs" and "map_of kvs (p @ [x]) \<noteq> None"
  then obtain n where "(p @ [x], n) \<in> set kvs" by (meson map_of_SomeD not_None_eq)
  then have "butlast (p @ [x]) \<in> fst ` set kvs" using a by fastforce
  then show "map_of kvs p \<noteq> None" by (simp add: map_of_eq_None_iff)
qed

lemma no_dangling_map_of:
  assumes "list_all (\<lambda>(p, n). case n of Link d \<Rightarrow> d \<in> fst ` set kvs | _ \<Rightarrow> True) kvs"
  shows "no_dangling (map_of kvs)"
  unfolding no_dangling_def
proof (intro allI impI)
  fix p d assume "map_of kvs p = Some (Link d)"
  then have "(p, Link d) \<in> set kvs" by (rule map_of_SomeD)
  then have "d \<in> fst ` set kvs" using assms by (fastforce simp: list_all_iff)
  then show "map_of kvs d \<noteq> None" by (simp add: map_of_eq_None_iff)
qed

lemma demo_tree_ok: "rooted (map_of demo_files)" "no_dangling (map_of demo_files)"
  by (rule rooted_map_of, simp add: demo_files_def) (rule no_dangling_map_of, simp add: demo_files_def)

lemma bindE_weak_cong: "x = y \<Longrightarrow> bindE x f = bindE y f"
  by simp

lemmas patch_eval = Let_def plan_patch_def guardE_def mapE_def needE_def in_protected_def slashes_def
  current_text_def is_file_def read_text_def resolve_def once_def apply_op_def required_def or_empty_def plain_op_def
  fits_def utf8_length_def max_file_bytes_def apply_patchset_def demo_workspace_def starts_with_def

lemmas write_eval = write_planned_def half_written_def write_text_def resolve_def Let_def

lemma demo_unprotected:
  "\<not> is_protected ''cron''" "\<not> is_protected ''new''" "\<not> is_protected ''new/b.py''" "\<not> is_protected ''here/a.py''"
  by code_simp+

lemma demo_patch_run:
  "apply_patchset demo_workspace (map_of demo_files) demo_patch demo_allowed [] =
    (Inr \<lparr>ap_written = [''here/a.py'', ''new/b.py''], ap_deleted = []\<rparr>,
     (map_of demo_files)([''w'', ''app'', ''a.py''] \<mapsto> File ''y x = 2'', [''w'', ''new''] \<mapsto> Dir,
       [''w'', ''new'', ''b.py''] \<mapsto> File ''z''))"
proof -
  have "contained_path (map_of demo_files) [''w''] ''here/a.py'' = Inr [''w'', ''here'', ''a.py'']"
    "contained_path (map_of demo_files) [''w''] ''new/b.py'' = Inr [''w'', ''new'', ''b.py'']"
    by code_simp+
  then show ?thesis
    using demo_unprotected
    apply (simp add: demo_files_def)
    apply (simp add: demo_patch_def demo_allowed_def patch_eval cong: bindE_weak_cong)
    apply (simp add: write_eval)
    done
qed

lemma demo_schema: "patch_schema demo_patch"
  by (simp add: demo_patch_def patch_schema_def file_schema_def op_schema_def plain_op_def starts_with_def
      max_files_def max_ops_per_file_def max_op_text_def)

theorem patch_contained_witness:
  "inside [''w''] [''w'', ''app'', ''a.py''] \<and> \<not> inside [''w''] [''etc'', ''passwd'']"
proof -
  have base: "resolve (map_of demo_files) (ws_path demo_workspace) = [''w'']"
    "exists (map_of demo_files) (resolve (map_of demo_files) (ws_path demo_workspace))"
    by code_simp+
  show ?thesis
    using patch_contained [OF demo_tree_ok base(2) demo_schema demo_patch_run] base(1)
    by (auto simp: demo_files_def dest!: spec [of _ "[''w'', ''app'', ''a.py'']"]) (simp add: inside_def)
qed


text \<open>
  A link that leads nowhere yet: \<open>exists()\<close> is false for it, so the check for a symbolic link is
  skipped, and creating the file follows the link.
\<close>

definition dangling_files :: "(loc \<times> node) list" where
  "dangling_files = [([], Dir), ([''w''], Dir), ([''etc''], Dir), ([''w'', ''cron''], Link [''etc'', ''cron''])]"

definition create_patch :: "(string \<times> string) list \<Rightarrow> patch_set" where
  "create_patch kvs = \<lparr>ps_base_sha = ''0123456'', ps_files =
    map (\<lambda>(p, s). \<lparr>fp_path = p, fp_operations = [plain_op Create None None None (Some s)]\<rparr>) kvs\<rparr>"

text \<open>
  C39: A patch can write outside the worktree when the tree has a link to a place that does not exist yet:
  the patch is accepted, reports success, and the file appears at the far end of the link.
\<close>

theorem dangling_link_followed:
  "apply_patchset demo_workspace (map_of dangling_files) (create_patch [(''cron'', ''job'')]) [''cron''] [] =
    (Inr \<lparr>ap_written = [''cron''], ap_deleted = []\<rparr>, (map_of dangling_files)([''etc'', ''cron''] \<mapsto> File ''job'')) \<and>
   \<not> inside (ws_path demo_workspace) [''etc'', ''cron'']"
proof -
  have "contained_path (map_of dangling_files) [''w''] ''cron'' = Inr [''w'', ''cron'']" by code_simp
  then show ?thesis
    using demo_unprotected
    apply (simp add: dangling_files_def inside_def)
    apply (simp add: create_patch_def patch_eval cong: bindE_weak_cong)
    apply (simp add: write_eval)
    done
qed

text \<open>One path under another: the first file is written before the second one fails.\<close>

lemma write_interrupted:
  "apply_patchset demo_workspace (map_of demo_files) (create_patch [(''new'', ''z''), (''new/b.py'', ''z'')]) demo_allowed [] =
    (Inl OsError, (map_of demo_files)([''w'', ''new''] \<mapsto> File ''z''))"
proof -
  have "contained_path (map_of demo_files) [''w''] ''new'' = Inr [''w'', ''new'']"
    "contained_path (map_of demo_files) [''w''] ''new/b.py'' = Inr [''w'', ''new'', ''b.py'']"
    by code_simp+
  then show ?thesis
    using demo_unprotected
    apply (simp add: demo_files_def)
    apply (simp add: demo_allowed_def create_patch_def patch_eval cong: bindE_weak_cong)
    apply (simp add: write_eval)
    done
qed

text \<open>A needle that overlaps itself is counted once where it occurs twice.\<close>

lemma ambiguous_needle_accepted: "once ''ababa'' ''aba'' = Inr 0 \<and> occurs_at ''aba'' ''ababa'' 2"
  by code_simp

text \<open>
  The tool says that nothing was written when it refuses Python that does not parse. The directory of a
  created file stays, and a restored file has lost its line endings.
\<close>

definition crlf_files :: "(loc \<times> node) list" where
  "crlf_files = [([], Dir), ([''w''], Dir), ([''w'', ''a.py''], File [CHR ''x'', CHR 0x0D, CHR 0x0A])]"

definition crlf_patch :: patch_set where
  "crlf_patch = \<lparr>ps_base_sha = ''0123456'', ps_files =
    [\<lparr>fp_path = ''a.py'', fp_operations = [plain_op ReplaceExact (Some ''x'') (Some ''('') None None]\<rparr>]\<rparr>"

lemma syntax_error_changes_file:
  "apply_patch_tool (\<lambda>_. []) (\<lambda>s. hd s \<noteq> CHR ''('')
     \<lparr>at_ws = demo_workspace, at_files_allowed = [''a.py''], at_patches_applied = 0, at_patch_digests = []\<rparr>
     (map_of crlf_files) crlf_patch =
   (PatchSyntaxError, \<lparr>at_ws = demo_workspace, at_files_allowed = [''a.py''], at_patches_applied = 0, at_patch_digests = []\<rparr>,
    (map_of crlf_files)([''w'', ''a.py''] \<mapsto> File [CHR ''x'', CHR 0x0A]))"
proof -
  have c: "contained_path (map_of crlf_files) [''w''] ''a.py'' = Inr [''w'', ''a.py'']"
    "contained_path ((map_of crlf_files)([''w'', ''a.py''] \<mapsto> File [CHR ''('', CHR 0x0A])) [''w''] ''a.py'' = Inr [''w'', ''a.py'']"
    by code_simp+
  have p: "\<not> is_protected ''a.py''" by code_simp
  have sch: "patch_schema crlf_patch"
    by (simp add: crlf_patch_def patch_schema_def file_schema_def op_schema_def plain_op_def starts_with_def
        max_files_def max_ops_per_file_def max_op_text_def)
  have snap: "current_text (map_of crlf_files) [''w'', ''a.py''] = Inr (Some [CHR ''x'', CHR 0x0A])" by code_simp
  have run: "apply_patchset demo_workspace (map_of crlf_files) crlf_patch [''a.py''] [] =
      (Inr \<lparr>ap_written = [''a.py''], ap_deleted = []\<rparr>, (map_of crlf_files)([''w'', ''a.py''] \<mapsto> File [CHR ''('', CHR 0x0A]))"
    using c(1) p
    apply (simp add: crlf_files_def)
    apply (simp add: crlf_patch_def patch_eval cong: bindE_weak_cong)
    apply (simp add: write_eval)
    done
  have bad: "python_errors (\<lambda>s. hd s \<noteq> CHR ''('') demo_workspace
      ((map_of crlf_files)([''w'', ''a.py''] \<mapsto> File [CHR ''('', CHR 0x0A])) [''a.py'']"
    by code_simp
  have undo: "restore demo_workspace (''a.py'', Some [CHR ''x'', CHR 0x0A]) ((map_of crlf_files)([''w'', ''a.py''] \<mapsto> File [CHR ''('', CHR 0x0A])) =
      Inr ((map_of crlf_files)([''w'', ''a.py''] \<mapsto> File [CHR ''x'', CHR 0x0A]))"
    using c(2) by (simp add: restore_def demo_workspace_def needE_def write_eval crlf_files_def)
  have files: "map fp_path (ps_files crlf_patch) = [''a.py'']" by (simp add: crlf_patch_def)
  then have before: "foldE (\<lambda>f before. bindE (snapshot demo_workspace (map_of crlf_files) (fp_path f))
      (\<lambda>s. Inr (before @ [(fp_path f, s)]))) (ps_files crlf_patch) [] = Inr [(''a.py'', Some [CHR ''x'', CHR 0x0A])]"
    using c(1) snap by (auto simp: snapshot_def demo_workspace_def)
  show ?thesis
    using sch run bad undo before by (simp add: apply_patch_tool_def restore_all_def)
qed

end
