(* ===== verification/SocietyPolicy.thy ===== *)
theory SocietyPolicy
  imports TaskContract
begin

text \<open>
  The policy engine of the agent society (\<open>society/policy.py\<close> over the vocabulary of
  \<open>society/intents.py\<close>): the model proposes typed intents, and this module decides from the grant of the
  agent, the feature flags and the typed payload. A payload is reduced to the fields the policy reads;
  whether it matches its schema is an input. The clock is an argument.
\<close>

section \<open>The vocabulary of intents\<close>

datatype intent_type =
    SEND_MESSAGE | WRITE_MEMORY | CREATE_GOAL | UPDATE_GOAL | CREATE_IMPROVEMENT | REVIEW_IMPROVEMENT | SLEEP
    | CREATE_OFFER | COUNTER_OFFER | ACCEPT_OFFER | CREATE_TASK | START_TASK | COMPLETE_TASK | FAIL_TASK
    | REQUEST_CODE_CHANGE | SUBMIT_CODE_CANDIDATE | BUILD_CODE_CANDIDATE | REQUEST_QA | DECLINE_CODE_CANDIDATE
    | TICKET_NEEDS_INFO | PROPOSE_DESIGN | REVIEW_DESIGN | DECIDE_DESIGN | PROPOSE_OWNER_ACTION | RESPOND_TO_OWNER
    | PROPOSE_TOOL | REVISE_TOOL | EVALUATE_CODE_CANDIDATE | SECURITY_REVIEW_CANDIDATE | REQUEST_STAGING_DEPLOY
    | LIST_REPO_TREE | SEARCH_REPO | READ_REPO_FILE | READ_REPO_RANGE | READ_DIFF | READ_CANDIDATE_STATE
    | REQUEST_PR_PROMOTION | REQUEST_MERGE_EVALUATION | REQUEST_STAGING_EVALUATION | RECORD_EVALUATION_RECOMMENDATION
    | DISCOVER_A2A_AGENT | REFRESH_A2A_AGENT | REQUEST_A2A_TASK | CHECK_A2A_TASK | REQUEST_PRODUCTION_DEPLOY
    | SHELL_EXEC | GRANT_CAPABILITY | MODIFY_BUDGET | TRANSFER_FUNDS | MODIFY_WALLET | MODIFY_SECRET
    | CHANGE_AUTH_POLICY | DELETE_DATA | OPEN_NETWORK_ACCESS | RUN_MIGRATION

definition all_intent_types :: "intent_type list" where
  "all_intent_types =
   [SEND_MESSAGE, WRITE_MEMORY, CREATE_GOAL, UPDATE_GOAL, CREATE_IMPROVEMENT, REVIEW_IMPROVEMENT, SLEEP, CREATE_OFFER
    , COUNTER_OFFER, ACCEPT_OFFER, CREATE_TASK, START_TASK, COMPLETE_TASK, FAIL_TASK, REQUEST_CODE_CHANGE
    , SUBMIT_CODE_CANDIDATE, BUILD_CODE_CANDIDATE, REQUEST_QA, DECLINE_CODE_CANDIDATE, TICKET_NEEDS_INFO
    , PROPOSE_DESIGN, REVIEW_DESIGN, DECIDE_DESIGN, PROPOSE_OWNER_ACTION, RESPOND_TO_OWNER, PROPOSE_TOOL, REVISE_TOOL
    , EVALUATE_CODE_CANDIDATE, SECURITY_REVIEW_CANDIDATE, REQUEST_STAGING_DEPLOY, LIST_REPO_TREE, SEARCH_REPO
    , READ_REPO_FILE, READ_REPO_RANGE, READ_DIFF, READ_CANDIDATE_STATE, REQUEST_PR_PROMOTION, REQUEST_MERGE_EVALUATION
    , REQUEST_STAGING_EVALUATION, RECORD_EVALUATION_RECOMMENDATION, DISCOVER_A2A_AGENT, REFRESH_A2A_AGENT
    , REQUEST_A2A_TASK, CHECK_A2A_TASK, REQUEST_PRODUCTION_DEPLOY, SHELL_EXEC, GRANT_CAPABILITY, MODIFY_BUDGET
    , TRANSFER_FUNDS, MODIFY_WALLET, MODIFY_SECRET, CHANGE_AUTH_POLICY, DELETE_DATA, OPEN_NETWORK_ACCESS
    , RUN_MIGRATION]"

fun intent_value :: "intent_type \<Rightarrow> string" where
  "intent_value SEND_MESSAGE = ''SEND_MESSAGE''"
| "intent_value WRITE_MEMORY = ''WRITE_MEMORY''"
| "intent_value CREATE_GOAL = ''CREATE_GOAL''"
| "intent_value UPDATE_GOAL = ''UPDATE_GOAL''"
| "intent_value CREATE_IMPROVEMENT = ''CREATE_IMPROVEMENT''"
| "intent_value REVIEW_IMPROVEMENT = ''REVIEW_IMPROVEMENT''"
| "intent_value SLEEP = ''SLEEP''"
| "intent_value CREATE_OFFER = ''CREATE_OFFER''"
| "intent_value COUNTER_OFFER = ''COUNTER_OFFER''"
| "intent_value ACCEPT_OFFER = ''ACCEPT_OFFER''"
| "intent_value CREATE_TASK = ''CREATE_TASK''"
| "intent_value START_TASK = ''START_TASK''"
| "intent_value COMPLETE_TASK = ''COMPLETE_TASK''"
| "intent_value FAIL_TASK = ''FAIL_TASK''"
| "intent_value REQUEST_CODE_CHANGE = ''REQUEST_CODE_CHANGE''"
| "intent_value SUBMIT_CODE_CANDIDATE = ''SUBMIT_CODE_CANDIDATE''"
| "intent_value BUILD_CODE_CANDIDATE = ''BUILD_CODE_CANDIDATE''"
| "intent_value REQUEST_QA = ''REQUEST_QA''"
| "intent_value DECLINE_CODE_CANDIDATE = ''DECLINE_CODE_CANDIDATE''"
| "intent_value TICKET_NEEDS_INFO = ''TICKET_NEEDS_INFO''"
| "intent_value PROPOSE_DESIGN = ''PROPOSE_DESIGN''"
| "intent_value REVIEW_DESIGN = ''REVIEW_DESIGN''"
| "intent_value DECIDE_DESIGN = ''DECIDE_DESIGN''"
| "intent_value PROPOSE_OWNER_ACTION = ''PROPOSE_OWNER_ACTION''"
| "intent_value RESPOND_TO_OWNER = ''RESPOND_TO_OWNER''"
| "intent_value PROPOSE_TOOL = ''PROPOSE_TOOL''"
| "intent_value REVISE_TOOL = ''REVISE_TOOL''"
| "intent_value EVALUATE_CODE_CANDIDATE = ''EVALUATE_CODE_CANDIDATE''"
| "intent_value SECURITY_REVIEW_CANDIDATE = ''SECURITY_REVIEW_CANDIDATE''"
| "intent_value REQUEST_STAGING_DEPLOY = ''REQUEST_STAGING_DEPLOY''"
| "intent_value LIST_REPO_TREE = ''LIST_REPO_TREE''"
| "intent_value SEARCH_REPO = ''SEARCH_REPO''"
| "intent_value READ_REPO_FILE = ''READ_REPO_FILE''"
| "intent_value READ_REPO_RANGE = ''READ_REPO_RANGE''"
| "intent_value READ_DIFF = ''READ_DIFF''"
| "intent_value READ_CANDIDATE_STATE = ''READ_CANDIDATE_STATE''"
| "intent_value REQUEST_PR_PROMOTION = ''REQUEST_PR_PROMOTION''"
| "intent_value REQUEST_MERGE_EVALUATION = ''REQUEST_MERGE_EVALUATION''"
| "intent_value REQUEST_STAGING_EVALUATION = ''REQUEST_STAGING_EVALUATION''"
| "intent_value RECORD_EVALUATION_RECOMMENDATION = ''RECORD_EVALUATION_RECOMMENDATION''"
| "intent_value DISCOVER_A2A_AGENT = ''DISCOVER_A2A_AGENT''"
| "intent_value REFRESH_A2A_AGENT = ''REFRESH_A2A_AGENT''"
| "intent_value REQUEST_A2A_TASK = ''REQUEST_A2A_TASK''"
| "intent_value CHECK_A2A_TASK = ''CHECK_A2A_TASK''"
| "intent_value REQUEST_PRODUCTION_DEPLOY = ''REQUEST_PRODUCTION_DEPLOY''"
| "intent_value SHELL_EXEC = ''SHELL_EXEC''"
| "intent_value GRANT_CAPABILITY = ''GRANT_CAPABILITY''"
| "intent_value MODIFY_BUDGET = ''MODIFY_BUDGET''"
| "intent_value TRANSFER_FUNDS = ''TRANSFER_FUNDS''"
| "intent_value MODIFY_WALLET = ''MODIFY_WALLET''"
| "intent_value MODIFY_SECRET = ''MODIFY_SECRET''"
| "intent_value CHANGE_AUTH_POLICY = ''CHANGE_AUTH_POLICY''"
| "intent_value DELETE_DATA = ''DELETE_DATA''"
| "intent_value OPEN_NETWORK_ACCESS = ''OPEN_NETWORK_ACCESS''"
| "intent_value RUN_MIGRATION = ''RUN_MIGRATION''"

definition forbidden_intent_types :: "intent_type list" where
  "forbidden_intent_types =
   [REQUEST_PRODUCTION_DEPLOY, SHELL_EXEC, GRANT_CAPABILITY, MODIFY_BUDGET, TRANSFER_FUNDS, MODIFY_WALLET
    , MODIFY_SECRET, CHANGE_AUTH_POLICY, DELETE_DATA, OPEN_NETWORK_ACCESS, RUN_MIGRATION]"

definition low_risk_types :: "intent_type list" where
  "low_risk_types =
   [SEND_MESSAGE, WRITE_MEMORY, CREATE_GOAL, UPDATE_GOAL, CREATE_IMPROVEMENT, REVIEW_IMPROVEMENT, SLEEP
    , TICKET_NEEDS_INFO, PROPOSE_DESIGN, REVIEW_DESIGN, DECIDE_DESIGN, PROPOSE_OWNER_ACTION, RESPOND_TO_OWNER
    , PROPOSE_TOOL, REVISE_TOOL, LIST_REPO_TREE, SEARCH_REPO, READ_REPO_FILE, READ_REPO_RANGE, READ_DIFF
    , READ_CANDIDATE_STATE, RECORD_EVALUATION_RECOMMENDATION, REFRESH_A2A_AGENT, CHECK_A2A_TASK]"

definition medium_risk_types :: "intent_type list" where
  "medium_risk_types =
   [CREATE_OFFER, COUNTER_OFFER, ACCEPT_OFFER, CREATE_TASK, START_TASK, COMPLETE_TASK, FAIL_TASK, REQUEST_CODE_CHANGE
    , SUBMIT_CODE_CANDIDATE, BUILD_CODE_CANDIDATE, REQUEST_QA, DECLINE_CODE_CANDIDATE, EVALUATE_CODE_CANDIDATE
    , SECURITY_REVIEW_CANDIDATE, REQUEST_STAGING_DEPLOY, REQUEST_PR_PROMOTION, REQUEST_MERGE_EVALUATION
    , REQUEST_STAGING_EVALUATION, DISCOVER_A2A_AGENT, REQUEST_A2A_TASK]"

definition repo_read_types :: "intent_type list" where
  "repo_read_types =
   [LIST_REPO_TREE, SEARCH_REPO, READ_REPO_FILE, READ_REPO_RANGE, READ_DIFF, READ_CANDIDATE_STATE]"

definition code_intents :: "intent_type list" where
  "code_intents =
   [REQUEST_CODE_CHANGE, SUBMIT_CODE_CANDIDATE, BUILD_CODE_CANDIDATE, REQUEST_QA, DECLINE_CODE_CANDIDATE
    , EVALUATE_CODE_CANDIDATE, SECURITY_REVIEW_CANDIDATE, REQUEST_PR_PROMOTION, REQUEST_MERGE_EVALUATION
    , RECORD_EVALUATION_RECOMMENDATION]"

definition intent_type_of :: "string \<Rightarrow> intent_type option" where
  "intent_type_of s = find (\<lambda>t. intent_value t = s) all_intent_types"

definition a2a_types :: "intent_type list" where
  "a2a_types = [DISCOVER_A2A_AGENT, REFRESH_A2A_AGENT, REQUEST_A2A_TASK, CHECK_A2A_TASK]"

lemma all_intent_types: "t \<in> set all_intent_types"
  by (cases t) (simp_all add: all_intent_types_def)

lemma intent_type_of_Some: "intent_type_of s = Some t \<Longrightarrow> s = intent_value t"
  by (auto simp: intent_type_of_def dest: find_SomeD)

datatype intent_risk = RISK_LOW | RISK_MEDIUM | RISK_HIGH

fun risk_rank :: "intent_risk \<Rightarrow> nat" where
  "risk_rank RISK_LOW = 0"
| "risk_rank RISK_MEDIUM = 1"
| "risk_rank RISK_HIGH = 2"

text \<open>A type that no list names, and an unknown type, count as the worst case.\<close>

definition risk_of :: "intent_type option \<Rightarrow> intent_risk" where
  "risk_of t =
    (case t of
       None \<Rightarrow> RISK_HIGH
     | Some k \<Rightarrow> if k \<in> set forbidden_intent_types then RISK_HIGH
         else if k \<in> set low_risk_types then RISK_LOW
         else if k \<in> set medium_risk_types then RISK_MEDIUM
         else RISK_HIGH)"

definition is_code_intent :: "intent_type \<Rightarrow> bool" where
  "is_code_intent k \<longleftrightarrow> k \<in> set code_intents \<or> k \<in> set repo_read_types"

section \<open>Grants, payloads, settings\<close>

record agent_grant =
  g_agent :: uid
  g_role :: string
  g_allowed :: "string list"
  g_approval_required :: "string list"
  g_memory_scopes :: "string list"
  g_goal_owners :: "string list"
  g_message_targets :: "string list"
  g_risk_ceiling :: intent_risk
  g_max_runs_per_hour :: int
  g_max_intents_per_run :: int
  g_daily_budget :: rat
  g_max_task_escrow :: int
  g_wake_cooldown :: int
  g_enabled :: bool
  g_paused_until :: "instant option"
  g_consecutive_failures :: int

datatype soc_agent_status = AGENT_ACTIVE | AGENT_UNVERIFIED | AGENT_OTHER

record soc_agent =
  sa_id :: uid
  sa_name :: string
  sa_id_text :: string \<comment> \<open>\<open>str(agent.id)\<close>\<close>
  sa_status :: soc_agent_status

record intent_payload =
  pl_max_budget :: "int option"
  pl_price :: "int option"
  pl_callee_agent :: "string option"
  pl_to_agent :: "string option"
  pl_scope :: string
  pl_owner :: string
  pl_card_url :: string
  pl_input :: json

text \<open>\<open>ValidatedIntent\<close>: an invalid one may have no type at all.\<close>

record validated_intent =
  vin_seq :: nat
  vin_type_name :: string
  vin_type :: "intent_type option"
  vin_valid :: bool
  vin_payload :: intent_payload
  vin_key :: string

record soc_settings =
  ss_runtime_enabled :: bool
  ss_autonomous_code :: bool
  ss_staging_deploy :: bool
  ss_toolbox :: bool
  ss_a2a_client :: bool
  ss_a2a_federation :: bool
  ss_a2a_hosts :: "string list"
  ss_max_task_escrow :: int
  ss_max_intents_per_run :: int
  ss_max_repo_reads_per_run :: int
  ss_max_runs_per_hour :: int
  ss_daily_budget :: rat
  ss_owner_reserve :: rat
  ss_max_correlation_cost :: rat
  ss_max_causation_depth :: int
  ss_max_runs_per_correlation :: nat
  ss_max_same_wakes :: nat
  ss_event_ttl :: int
  ss_dispatch_batch :: nat
  ss_run_lease :: int
  ss_run_max_attempts :: int
  ss_retry_backoff_base :: int
  ss_breaker_failures :: int
  ss_breaker_pause :: int
  ss_resume_max_attempts :: int
  ss_model_timeout :: int
  ss_model_retries :: int
  ss_model_backoff :: int
  ss_precheck :: bool

section \<open>Agent-to-agent intents\<close>

text \<open>
  \<open>json.dumps(obj)\<close> with the default separators; every character above ASCII becomes an escape of six.
\<close>

definition ascii_quote :: "string \<Rightarrow> string" where
  "ascii_quote s = CHR 0x22 # concat (map (\<lambda>c. if 126 < (of_char c :: nat)
      then [CHR 0x5C, CHR ''u'', CHR ''0'', CHR ''0'', digit_char (of_char c div 16), digit_char (of_char c mod 16)]
      else esc_char c) s) @ [CHR 0x22]"

fun dumps_default :: "json \<Rightarrow> string"
  and dumps_default_items :: "(string \<times> json) list \<Rightarrow> string list"
  and dumps_default_list :: "json list \<Rightarrow> string list"
where
  "dumps_default JNull = ''null''"
| "dumps_default (JBool b) = (if b then ''true'' else ''false'')"
| "dumps_default (JInt n) = show_int n"
| "dumps_default (JFloat r) = r"
| "dumps_default JNaN = ''NaN''"
| "dumps_default (JInf b) = (if b then ''Infinity'' else ''-Infinity'')"
| "dumps_default (JStr s) = ascii_quote s"
| "dumps_default (JArr xs) = ''['' @ join '', '' (dumps_default_list xs) @ '']''"
| "dumps_default (JObj kvs) = ''{'' @ join '', '' (dumps_default_items kvs) @ ''}''"
| "dumps_default_items [] = []"
| "dumps_default_items ((k, v) # kvs) = (ascii_quote k @ '': '' @ dumps_default v) # dumps_default_items kvs"
| "dumps_default_list [] = []"
| "dumps_default_list (x # xs) = dumps_default x # dumps_default_list xs"

fun has_infix :: "string \<Rightarrow> string \<Rightarrow> bool" where
  "has_infix n [] = (n = [])"
| "has_infix n (c # s) = (starts_with n (c # s) \<or> has_infix n s)"

definition credential_key_hints :: "string list" where
  "credential_key_hints = [''token'', ''secret'', ''password'', ''authorization'', ''api_key'', ''apikey'', ''bearer'', ''cookie'', ''credential'', ''private_key'']"

definition credential_key :: "string \<Rightarrow> bool" where
  "credential_key k \<longleftrightarrow> list_ex (\<lambda>h. has_infix h (lower k)) credential_key_hints"

fun looks_like_credential :: "nat \<Rightarrow> json \<Rightarrow> bool"
  and items_like_credential :: "nat \<Rightarrow> (string \<times> json) list \<Rightarrow> bool"
  and list_like_credential :: "nat \<Rightarrow> json list \<Rightarrow> bool"
where
  "looks_like_credential depth (JObj kvs) = (6 < depth \<or> items_like_credential depth kvs)"
| "looks_like_credential depth (JArr xs) = (6 < depth \<or> list_like_credential depth xs)"
| "looks_like_credential depth v = (6 < depth)"
| "items_like_credential depth [] = False"
| "items_like_credential depth ((k, v) # kvs) =
    (credential_key k \<or> looks_like_credential (Suc depth) v \<or> items_like_credential depth kvs)"
| "list_like_credential depth [] = False"
| "list_like_credential depth (x # xs) = (looks_like_credential (Suc depth) x \<or> list_like_credential depth xs)"

text \<open>
  \<open>urlsplit(url).hostname\<close> of an \<open>https://\<close> URL: what follows the last at sign of the authority, up to a
  port, in lower case; an IPv6 address stands in brackets.
\<close>

definition url_host :: "string \<Rightarrow> string" where
  "url_host url =
    (let netloc = takeWhile (\<lambda>c. c \<noteq> CHR ''/'' \<and> c \<noteq> CHR ''?'' \<and> c \<noteq> CHR ''#'') (drop 8 url);
         info = rev (takeWhile (\<lambda>c. c \<noteq> CHR ''@'') (rev netloc));
         host = (if CHR ''['' \<in> set info
                 then takeWhile (\<lambda>c. c \<noteq> CHR '']'') (drop 1 (dropWhile (\<lambda>c. c \<noteq> CHR ''['') info))
                 else takeWhile (\<lambda>c. c \<noteq> CHR '':'') info)
     in lower host)"

definition rstrip_dot :: "string \<Rightarrow> string" where
  "rstrip_dot s = rev (dropWhile (\<lambda>c. c = CHR ''.'') (rev s))"

definition a2a_refused :: "intent_type \<Rightarrow> intent_payload \<Rightarrow> soc_settings \<Rightarrow> bool" where
  "a2a_refused k pl ss \<longleftrightarrow>
    (if \<not> ss_a2a_client ss then True
     else if k = CHECK_A2A_TASK then False
     else if \<not> ss_a2a_federation ss then True
     else if k = DISCOVER_A2A_AGENT \<and> (let host = rstrip_dot (url_host (pl_card_url pl)) in host = [] \<or> host \<notin> set (ss_a2a_hosts ss)) then True
     else k = REQUEST_A2A_TASK \<and> (4000 < length (dumps_default (pl_input pl)) \<or> looks_like_credential 0 (pl_input pl)))"

section \<open>The verdict on an intent\<close>

datatype policy_decision = POLICY_ALLOW | POLICY_DENY | POLICY_APPROVAL_REQUIRED | POLICY_INVALID

datatype policy_reason =
    InvalidIntent | ForbiddenSurface | NoGrant | GrantDisabled | AgentPaused | NotAllowed | AboveCeiling | CodeOff | StagingOff
  | ToolboxOff | A2aRefusal | OverEscrowCap | SelfDealing | ScopeNotGranted | OwnerNotGranted | TargetOutsideScope
  | SelfMessage | AllowedByApproval | NeedsApproval | AllowedByGrant

record policy_verdict =
  pv_decision :: policy_decision
  pv_risk :: intent_risk
  pv_reason :: policy_reason

definition pv_allowed :: "policy_verdict \<Rightarrow> bool" where
  "pv_allowed v \<longleftrightarrow> pv_decision v = POLICY_ALLOW"

text \<open>Python's \<open>a or b\<close> on an optional number and on an optional name.\<close>

definition or_int :: "int option \<Rightarrow> int option \<Rightarrow> int" where
  "or_int a b = (case a of Some n \<Rightarrow> if n \<noteq> 0 then n else (case b of Some m \<Rightarrow> m | None \<Rightarrow> 0) | None \<Rightarrow> (case b of Some m \<Rightarrow> m | None \<Rightarrow> 0))"

definition named :: "string option \<Rightarrow> bool" where
  "named v \<longleftrightarrow> (case v of Some s \<Rightarrow> s \<noteq> [] | None \<Rightarrow> False)"

definition is_self :: "string option \<Rightarrow> soc_agent \<Rightarrow> bool" where
  "is_self v a \<longleftrightarrow> v = Some (sa_name a) \<or> v = Some (sa_id_text a)"

definition or_default :: "string list \<Rightarrow> string list \<Rightarrow> string list" where
  "or_default xs d = (if xs = [] then d else xs)"

text \<open>The checks on the payload, after the grant and the flags.\<close>

definition scope_refusal :: "intent_type \<Rightarrow> intent_payload \<Rightarrow> agent_grant \<Rightarrow> soc_settings \<Rightarrow> soc_agent \<Rightarrow> policy_reason option" where
  "scope_refusal k pl g ss a =
    (if k \<in> {CREATE_TASK, CREATE_OFFER} \<and>
         (let amount = or_int (pl_max_budget pl) (pl_price pl) in amount \<le> 0 \<or> min (g_max_task_escrow g) (ss_max_task_escrow ss) < amount)
       then Some OverEscrowCap
     else if k \<in> {CREATE_TASK, CREATE_OFFER} \<and>
         (let callee = (if named (pl_callee_agent pl) then pl_callee_agent pl else pl_to_agent pl) in named callee \<and> is_self callee a)
       then Some SelfDealing
     else if k = WRITE_MEMORY \<and> pl_scope pl \<notin> set (or_default (g_memory_scopes g) [''agent'']) then Some ScopeNotGranted
     else if k = CREATE_GOAL \<and> pl_owner pl \<notin> set (or_default (g_goal_owners g) [''agent'']) then Some OwnerNotGranted
     else if k = SEND_MESSAGE \<and> g_message_targets g \<noteq> [] \<and> named (pl_to_agent pl) \<and> the (pl_to_agent pl) \<notin> set (g_message_targets g)
       then Some TargetOutsideScope
     else if k = SEND_MESSAGE \<and> named (pl_to_agent pl) \<and> is_self (pl_to_agent pl) a then Some SelfMessage
     else None)"

text \<open>The global flags.\<close>

definition flag_refusal :: "intent_type \<Rightarrow> intent_payload \<Rightarrow> soc_settings \<Rightarrow> policy_reason option" where
  "flag_refusal k pl ss =
    (if is_code_intent k \<and> \<not> ss_autonomous_code ss then Some CodeOff
     else if k \<in> {REQUEST_STAGING_DEPLOY, REQUEST_STAGING_EVALUATION} \<and> \<not> ss_staging_deploy ss then Some StagingOff
     else if k \<in> {PROPOSE_TOOL, REVISE_TOOL} \<and> \<not> ss_toolbox ss then Some ToolboxOff
     else if k \<in> set a2a_types \<and> a2a_refused k pl ss then Some A2aRefusal
     else None)"

definition grant_refusal :: "intent_type \<Rightarrow> agent_grant option \<Rightarrow> instant \<Rightarrow> policy_reason option" where
  "grant_refusal k grant now =
    (case grant of
       None \<Rightarrow> Some NoGrant
     | Some g \<Rightarrow>
         if \<not> g_enabled g then Some GrantDisabled
         else if (case g_paused_until g of Some p \<Rightarrow> now < p | None \<Rightarrow> False) then Some AgentPaused
         else if intent_value k \<notin> set (g_allowed g) then Some NotAllowed
         else if risk_rank (g_risk_ceiling g) < risk_rank (risk_of (Some k)) then Some AboveCeiling
         else None)"

definition evaluate_intent ::
  "validated_intent \<Rightarrow> agent_grant option \<Rightarrow> soc_settings \<Rightarrow> soc_agent \<Rightarrow> bool \<Rightarrow> instant \<Rightarrow> policy_verdict" where
  "evaluate_intent v grant ss a approval_granted now =
    (let risk = risk_of (vin_type v);
         deny = (\<lambda>r. \<lparr>pv_decision = POLICY_DENY, pv_risk = risk, pv_reason = r\<rparr>) in
     if \<not> vin_valid v then \<lparr>pv_decision = POLICY_INVALID, pv_risk = risk, pv_reason = InvalidIntent\<rparr>
     else case vin_type v of
       None \<Rightarrow> \<lparr>pv_decision = POLICY_INVALID, pv_risk = risk, pv_reason = InvalidIntent\<rparr> \<comment> \<open>the assertion: a valid intent has a type\<close>
     | Some k \<Rightarrow>
         if k \<in> set forbidden_intent_types then deny ForbiddenSurface
         else case grant_refusal k grant now of
           Some r \<Rightarrow> deny r
         | None \<Rightarrow>
           (case flag_refusal k (vin_payload v) ss of
              Some r \<Rightarrow> deny r
            | None \<Rightarrow>
              (case scope_refusal k (vin_payload v) (the grant) ss a of
                 Some r \<Rightarrow> deny r
               | None \<Rightarrow>
                   if intent_value k \<in> set (g_approval_required (the grant))
                   then if approval_granted
                        then \<lparr>pv_decision = POLICY_ALLOW, pv_risk = risk, pv_reason = AllowedByApproval\<rparr>
                        else \<lparr>pv_decision = POLICY_APPROVAL_REQUIRED, pv_risk = risk, pv_reason = NeedsApproval\<rparr>
                   else \<lparr>pv_decision = POLICY_ALLOW, pv_risk = risk, pv_reason = AllowedByGrant\<rparr>)))"

end
