(* ===== verification/SocietyPolicyProps.thy ===== *)
theory SocietyPolicyProps
  imports SocietyPolicy
begin

text \<open>
  What the verdict of \<open>society/policy.py\<close> means: exactly when an intent is allowed, and that a human
  approval lifts one condition only.
\<close>

lemma risk_rank_le: "risk_rank r \<le> 2"
  by (cases r) simp_all

text \<open>The conditions under which the grant, the flags and the payload of an intent stand in nobody's way.\<close>

definition grant_admits :: "intent_type \<Rightarrow> agent_grant \<Rightarrow> instant \<Rightarrow> bool" where
  "grant_admits k g now \<longleftrightarrow>
    g_enabled g \<and> (\<forall>p \<in> set_option (g_paused_until g). p \<le> now) \<and> intent_value k \<in> set (g_allowed g) \<and>
    risk_rank (risk_of (Some k)) \<le> risk_rank (g_risk_ceiling g)"

definition flags_admit :: "intent_type \<Rightarrow> intent_payload \<Rightarrow> soc_settings \<Rightarrow> bool" where
  "flags_admit k pl ss \<longleftrightarrow>
    (is_code_intent k \<longrightarrow> ss_autonomous_code ss) \<and>
    (k \<in> {REQUEST_STAGING_DEPLOY, REQUEST_STAGING_EVALUATION} \<longrightarrow> ss_staging_deploy ss) \<and>
    (k \<in> {PROPOSE_TOOL, REVISE_TOOL} \<longrightarrow> ss_toolbox ss) \<and>
    (k \<in> set a2a_types \<longrightarrow> ss_a2a_client ss \<and> (k \<noteq> CHECK_A2A_TASK \<longrightarrow> ss_a2a_federation ss)) \<and>
    (k = DISCOVER_A2A_AGENT \<longrightarrow> rstrip_dot (url_host (pl_card_url pl)) \<in> set (ss_a2a_hosts ss) - {[]}) \<and>
    (k = REQUEST_A2A_TASK \<longrightarrow> length (dumps_default (pl_input pl)) \<le> 4000 \<and> \<not> looks_like_credential 0 (pl_input pl))"

definition scopes_admit :: "intent_type \<Rightarrow> intent_payload \<Rightarrow> agent_grant \<Rightarrow> soc_settings \<Rightarrow> soc_agent \<Rightarrow> bool" where
  "scopes_admit k pl g ss a \<longleftrightarrow>
    (k \<in> {CREATE_TASK, CREATE_OFFER} \<longrightarrow>
      (let amount = or_int (pl_max_budget pl) (pl_price pl) in
         0 < amount \<and> amount \<le> g_max_task_escrow g \<and> amount \<le> ss_max_task_escrow ss) \<and>
      (let callee = (if named (pl_callee_agent pl) then pl_callee_agent pl else pl_to_agent pl) in \<not> (named callee \<and> is_self callee a))) \<and>
    (k = WRITE_MEMORY \<longrightarrow> pl_scope pl \<in> set (or_default (g_memory_scopes g) [''agent''])) \<and>
    (k = CREATE_GOAL \<longrightarrow> pl_owner pl \<in> set (or_default (g_goal_owners g) [''agent''])) \<and>
    (k = SEND_MESSAGE \<and> named (pl_to_agent pl) \<longrightarrow>
      (g_message_targets g = [] \<or> the (pl_to_agent pl) \<in> set (g_message_targets g)) \<and> \<not> is_self (pl_to_agent pl) a)"

lemma grant_refusal_None: "grant_refusal k grant now = None \<longleftrightarrow> (\<exists>g. grant = Some g \<and> grant_admits k g now)"
  by (auto simp: grant_refusal_def grant_admits_def not_less split: option.splits)

lemma a2a_refused_iff:
  "\<not> (k \<in> set a2a_types \<and> a2a_refused k pl ss) \<longleftrightarrow>
    (k \<in> set a2a_types \<longrightarrow> ss_a2a_client ss \<and> (k \<noteq> CHECK_A2A_TASK \<longrightarrow> ss_a2a_federation ss)) \<and>
    (k = DISCOVER_A2A_AGENT \<longrightarrow> rstrip_dot (url_host (pl_card_url pl)) \<in> set (ss_a2a_hosts ss) - {[]}) \<and>
    (k = REQUEST_A2A_TASK \<longrightarrow> length (dumps_default (pl_input pl)) \<le> 4000 \<and> \<not> looks_like_credential 0 (pl_input pl))"
proof -
  consider "k = DISCOVER_A2A_AGENT" | "k = REFRESH_A2A_AGENT" | "k = REQUEST_A2A_TASK" | "k = CHECK_A2A_TASK" | "k \<notin> set a2a_types"
    by (auto simp: a2a_types_def)
  then show ?thesis
  proof cases
    case 5
    then show ?thesis by (auto simp: a2a_types_def)
  qed (simp_all add: a2a_refused_def a2a_types_def Let_def not_less conj_commute)
qed

lemma if_none [simp]: "(if p then Some r else x) = None \<longleftrightarrow> \<not> p \<and> x = None"
  by simp

lemma flag_refusal_None: "flag_refusal k pl ss = None \<longleftrightarrow> flags_admit k pl ss"
  unfolding flag_refusal_def flags_admit_def if_none using a2a_refused_iff [of k pl ss] by blast

lemma scope_refusal_None: "scope_refusal k pl g ss a = None \<longleftrightarrow> scopes_admit k pl g ss a"
  unfolding scope_refusal_def scopes_admit_def Let_def if_none not_less not_le de_Morgan_conj de_Morgan_disj min.bounded_iff
  by blast

section \<open>An example agent\<close>

definition example_settings :: soc_settings where
  "example_settings =
    \<lparr>ss_runtime_enabled = True, ss_autonomous_code = False, ss_staging_deploy = False, ss_toolbox = False, ss_a2a_client = False,
     ss_a2a_federation = False, ss_a2a_hosts = [], ss_max_task_escrow = 100, ss_max_intents_per_run = 8, ss_max_repo_reads_per_run = 4,
     ss_max_runs_per_hour = 60, ss_daily_budget = 10, ss_owner_reserve = 0, ss_max_correlation_cost = 2, ss_max_causation_depth = 12,
     ss_max_runs_per_correlation = 40, ss_max_same_wakes = 3, ss_event_ttl = 3600, ss_dispatch_batch = 50, ss_run_lease = 120,
     ss_run_max_attempts = 3, ss_retry_backoff_base = 5, ss_breaker_failures = 3, ss_breaker_pause = 600, ss_resume_max_attempts = 3,
     ss_model_timeout = 60, ss_model_retries = 1, ss_model_backoff = 1, ss_precheck = False\<rparr>"

definition example_soc_agent :: soc_agent where
  "example_soc_agent = \<lparr>sa_id = 1, sa_name = ''ops'', sa_id_text = ''1'', sa_status = AGENT_ACTIVE\<rparr>"

definition example_grant :: agent_grant where
  "example_grant =
    \<lparr>g_agent = 1, g_role = ''ops'', g_allowed = [''SEND_MESSAGE'', ''CREATE_TASK''], g_approval_required = [''CREATE_TASK''],
     g_memory_scopes = [], g_goal_owners = [], g_message_targets = [], g_risk_ceiling = RISK_MEDIUM, g_max_runs_per_hour = 10,
     g_max_intents_per_run = 5, g_daily_budget = 5, g_max_task_escrow = 50, g_wake_cooldown = 0, g_enabled = True,
     g_paused_until = None, g_consecutive_failures = 0\<rparr>"

definition example_payload :: intent_payload where
  "example_payload = \<lparr>pl_max_budget = Some 20, pl_price = None, pl_callee_agent = Some ''arch'', pl_to_agent = Some ''arch'', pl_scope = ''agent'',
     pl_owner = ''agent'', pl_card_url = [], pl_input = JNull\<rparr>"

definition example_intent :: "intent_type \<Rightarrow> validated_intent" where
  "example_intent k = \<lparr>vin_seq = 0, vin_type_name = intent_value k, vin_type = Some k, vin_valid = True, vin_payload = example_payload, vin_key = ''k0''\<rparr>"

section \<open>The verdict\<close>

text \<open>
  C11: the policy allows an intent exactly when it is valid and of a type that is not on the forbidden list,
  the agent has a grant that is enabled, not paused, names the type and reaches its risk, every feature flag
  the type needs is on, the amounts, owners, scopes and addressees of its payload are within the grant and
  the settings, and - for a type whose grant asks for it - a human has approved it.
\<close>

theorem policy_allows_exactly:
  "pv_allowed (evaluate_intent v grant ss a approval_granted now) \<longleftrightarrow>
    vin_valid v \<and> (\<exists>k g. vin_type v = Some k \<and> grant = Some g \<and> k \<notin> set forbidden_intent_types \<and>
      grant_admits k g now \<and> flags_admit k (vin_payload v) ss \<and> scopes_admit k (vin_payload v) g ss a \<and>
      (approval_granted \<or> intent_value k \<notin> set (g_approval_required g)))"
proof (cases "vin_valid v \<and> (\<exists>k. vin_type v = Some k \<and> k \<notin> set forbidden_intent_types)")
  case True
  then obtain k where k: "vin_valid v" "vin_type v = Some k" "k \<notin> set forbidden_intent_types" by blast
  show ?thesis
  proof (cases "grant_refusal k grant now")
    case None
    then obtain g where g: "grant = Some g" "grant_admits k g now" by (auto simp: grant_refusal_None)
    show ?thesis
      using k g None flag_refusal_None [of k "vin_payload v" ss] scope_refusal_None [of k "vin_payload v" g ss a]
      by (auto simp: evaluate_intent_def pv_allowed_def Let_def split: option.split)
  next
    case (Some r)
    then have "\<not> (\<exists>g. grant = Some g \<and> grant_admits k g now)" using grant_refusal_None [of k grant now] by simp
    then show ?thesis using k Some by (auto simp: evaluate_intent_def pv_allowed_def)
  qed
next
  case False
  then show ?thesis by (auto simp: evaluate_intent_def pv_allowed_def Let_def split: option.split)
qed

lemma policy_allows_exactly_witness:
  "pv_allowed (evaluate_intent (example_intent CREATE_TASK) (Some example_grant) example_settings example_soc_agent True 5) \<and>
   \<not> pv_allowed (evaluate_intent (example_intent CREATE_TASK) (Some example_grant) example_settings example_soc_agent False 5)"
proof -
  have rhs: "vin_valid (example_intent CREATE_TASK)" "vin_type (example_intent CREATE_TASK) = Some CREATE_TASK"
      "CREATE_TASK \<notin> set forbidden_intent_types" "grant_admits CREATE_TASK example_grant 5"
      "flags_admit CREATE_TASK (vin_payload (example_intent CREATE_TASK)) example_settings"
      "scopes_admit CREATE_TASK (vin_payload (example_intent CREATE_TASK)) example_grant example_settings example_soc_agent"
      "intent_value CREATE_TASK \<in> set (g_approval_required example_grant)"
    by (simp_all add: example_intent_def example_payload_def example_grant_def example_settings_def example_soc_agent_def forbidden_intent_types_def
        grant_admits_def flags_admit_def scopes_admit_def risk_of_def low_risk_types_def medium_risk_types_def is_code_intent_def code_intents_def
        repo_read_types_def a2a_types_def or_int_def named_def is_self_def Let_def)
  show ?thesis unfolding policy_allows_exactly using rhs by auto
qed

text \<open>
  C34: a human approval satisfies the approval condition and nothing else: the verdict with an approval is
  the verdict without one, except that \<open>approval_required\<close> becomes \<open>allow\<close>.
\<close>

theorem approval_satisfies_one_condition:
  "evaluate_intent v grant ss a True now =
    (let w = evaluate_intent v grant ss a False now in
     if pv_decision w = POLICY_APPROVAL_REQUIRED then w\<lparr>pv_decision := POLICY_ALLOW, pv_reason := AllowedByApproval\<rparr> else w)"
  by (simp add: evaluate_intent_def Let_def split: option.split)

end
