(* ===== verification/SocietyRuns.thy ===== *)
theory SocietyRuns
  imports SocietyPolicy Incidents
begin

text \<open>
  The run lifecycle of the agent society (\<open>society/runs.py\<close>), the durable events it consumes
  (\<open>society/events.py\<close>) and the budget gate of \<open>society/policy.py\<close>. Every function is one transaction.
  Fresh ids come from a counter of the database. An idempotency key is a value of a datatype: the strings
  of the code are injective in it and always short enough. Dispatch statistics and log lines are left out.
\<close>

section \<open>Events and runs\<close>

datatype soc_event_status = EV_PENDING | EV_DISPATCHED | EV_PROCESSED | EV_IGNORED | EV_EXPIRED

datatype run_status = RUN_QUEUED | RUN_CLAIMED | RUN_RUNNING | RUN_COMPLETED | RUN_FAILED | RUN_DEAD | RUN_SKIPPED

definition run_terminal :: "run_status \<Rightarrow> bool" where
  "run_terminal s \<longleftrightarrow> s \<in> {RUN_COMPLETED, RUN_FAILED, RUN_DEAD, RUN_SKIPPED}"

datatype dispatch_note =
    LoopDepth | LoopRuns | LoopRepeat | TargetUnresolved | NoSubscriber | RunsCreated nat | TtlElapsed

datatype event_key =
    LoopBreakerKey uid | CircuitBreakerKey uid instant | RunDeadKey uid | DeniedKey string | ApprovalKey string
  | ApprovalEventKey string string | ExternalKey string

datatype actor_kind = BySystem | ByAgent | ByUser

record soc_event =
  se_id :: uid
  se_type :: string
  se_actor_kind :: actor_kind
  se_actor :: "uid option"
  se_subject_type :: string
  se_subject :: "uid option"
  se_target :: "uid option" \<comment> \<open>\<open>payload["target_agent_id"]\<close> when it is an id\<close>
  se_correlation :: uid
  se_causation :: "uid option"
  se_depth :: int
  se_key :: "event_key option"
  se_status :: soc_event_status
  se_note :: "dispatch_note option"
  se_created :: instant
  se_dispatched :: "instant option"
  se_processed :: "instant option"

record soc_run =
  sr_id :: uid
  sr_agent :: uid
  sr_event :: uid
  sr_role :: string
  sr_status :: run_status
  sr_worker :: "string option"
  sr_lease :: "instant option"
  sr_attempt :: int
  sr_max_attempts :: int
  sr_not_before :: "instant option"
  sr_started :: "instant option"
  sr_completed :: "instant option"
  sr_cost :: rat
  sr_correlation :: uid
  sr_created :: instant

record soc_db =
  sd_events :: "soc_event list"
  sd_runs :: "soc_run list"
  sd_agents :: "soc_agent list"
  sd_grants :: "agent_grant list"
  sd_next :: uid
  sd_kernel :: kdb

definition owner_event_types :: "string list" where
  "owner_event_types = [''owner.directive_set'', ''owner.task_created'', ''owner.message'', ''owner.rewake'']"

definition owner_event :: "soc_event \<Rightarrow> bool" where
  "owner_event e \<longleftrightarrow> se_type e \<in> set owner_event_types"

definition get_event :: "soc_db \<Rightarrow> uid \<Rightarrow> soc_event option" where
  "get_event d i = find (\<lambda>e. se_id e = i) (sd_events d)"

definition get_run :: "soc_db \<Rightarrow> uid \<Rightarrow> soc_run option" where
  "get_run d i = find (\<lambda>r. sr_id r = i) (sd_runs d)"

definition set_event :: "uid \<Rightarrow> (soc_event \<Rightarrow> soc_event) \<Rightarrow> soc_db \<Rightarrow> soc_db" where
  "set_event i f d = d\<lparr>sd_events := upd_key se_id i f (sd_events d)\<rparr>"

definition set_run :: "uid \<Rightarrow> (soc_run \<Rightarrow> soc_run) \<Rightarrow> soc_db \<Rightarrow> soc_db" where
  "set_run i f d = d\<lparr>sd_runs := upd_key sr_id i f (sd_runs d)\<rparr>"

definition grant_of :: "soc_db \<Rightarrow> uid \<Rightarrow> agent_grant option" where
  "grant_of d a = find (\<lambda>g. g_agent g = a) (sd_grants d)"

definition agent_of :: "soc_db \<Rightarrow> uid \<Rightarrow> soc_agent option" where
  "agent_of d a = find (\<lambda>x. sa_id x = a) (sd_agents d)"

definition set_grant :: "uid \<Rightarrow> (agent_grant \<Rightarrow> agent_grant) \<Rightarrow> soc_db \<Rightarrow> soc_db" where
  "set_grant a f d = d\<lparr>sd_grants := upd_key g_agent a f (sd_grants d)\<rparr>"

section \<open>Emitting events\<close>

record event_draft =
  ed_type :: string
  ed_actor_kind :: actor_kind
  ed_actor :: "uid option"
  ed_subject_type :: string
  ed_subject :: "uid option"
  ed_target :: "uid option"
  ed_correlation :: "uid option"
  ed_causation :: "soc_event option"
  ed_key :: "event_key option"

text \<open>The id of the new event, or of the event that has the key already; the flag marks the latter.\<close>

definition emit_event :: "event_draft \<Rightarrow> instant \<Rightarrow> soc_db \<Rightarrow> (uid \<times> bool) \<times> soc_db" where
  "emit_event ed now d =
    (case (if ed_key ed = None then None else find (\<lambda>e. se_key e = ed_key ed) (sd_events d)) of
       Some e \<Rightarrow> ((se_id e, True), d)
     | None \<Rightarrow>
         let i = sd_next d;
             corr = (case ed_correlation ed of Some c \<Rightarrow> c
               | None \<Rightarrow> (case ed_causation ed of Some e \<Rightarrow> se_correlation e | None \<Rightarrow> i + 1));
             e = \<lparr>se_id = i, se_type = ed_type ed, se_actor_kind = ed_actor_kind ed, se_actor = ed_actor ed,
                  se_subject_type = ed_subject_type ed, se_subject = ed_subject ed, se_target = ed_target ed,
                  se_correlation = corr, se_causation = map_option se_id (ed_causation ed),
                  se_depth = (case ed_causation ed of Some c \<Rightarrow> se_depth c + 1 | None \<Rightarrow> 0),
                  se_key = ed_key ed, se_status = EV_PENDING, se_note = None, se_created = now,
                  se_dispatched = None, se_processed = None\<rparr>
         in ((i, False), d\<lparr>sd_events := sd_events d @ [e], sd_next := i + 2\<rparr>))"

definition system_event :: "string \<Rightarrow> uid \<Rightarrow> event_key \<Rightarrow> event_draft" where
  "system_event ty corr key =
    \<lparr>ed_type = ty, ed_actor_kind = BySystem, ed_actor = None, ed_subject_type = [], ed_subject = None, ed_target = None,
     ed_correlation = Some corr, ed_causation = None, ed_key = Some key\<rparr>"

definition expire_stale_events :: "int \<Rightarrow> instant \<Rightarrow> soc_db \<Rightarrow> soc_db" where
  "expire_stale_events ttl now d =
    d\<lparr>sd_events := upd_where (\<lambda>e. se_status e = EV_PENDING \<and> se_created e < now - seconds ttl)
        (\<lambda>e. e\<lparr>se_status := EV_EXPIRED, se_note := Some TtlElapsed, se_processed := Some now\<rparr>) (sd_events d)\<rparr>"

section \<open>Dispatch\<close>

definition targeted_only_types :: "string list" where
  "targeted_only_types = [''repo.read.result'', ''design_review.requested'', ''design_review.proposed'', ''design_review.ready'']"

definition agents_for_roles :: "soc_db \<Rightarrow> string list \<Rightarrow> (soc_agent \<times> agent_grant) list" where
  "agents_for_roles d roles =
    concat (map (\<lambda>a. map (\<lambda>g. (a, g)) (filter (\<lambda>g. g_agent g = sa_id a \<and> g_role g \<in> set roles \<and> g_enabled g) (sd_grants d)))
      (filter (\<lambda>a. sa_status a \<in> {AGENT_ACTIVE, AGENT_UNVERIFIED}) (sort_key sa_name (sd_agents d))))"

definition target_id :: "soc_event \<Rightarrow> uid option" where
  "target_id e = (case se_target e of Some t \<Rightarrow> Some t | None \<Rightarrow> if se_subject_type e = ''agent'' then se_subject e else None)"

definition targeted_agent :: "soc_db \<Rightarrow> soc_event \<Rightarrow> (soc_agent \<times> agent_grant) option" where
  "targeted_agent d e =
    (case target_id e of
       None \<Rightarrow> None
     | Some t \<Rightarrow>
         (case (agent_of d t, find (\<lambda>g. g_agent g = t \<and> g_enabled g) (sd_grants d)) of
            (Some a, Some g) \<Rightarrow> Some (a, g)
          | _ \<Rightarrow> None))"

definition runs_in_correlation :: "soc_db \<Rightarrow> uid \<Rightarrow> nat" where
  "runs_in_correlation d c = count_rows (\<lambda>r. sr_correlation r = c) (sd_runs d)"

definition same_wakes :: "soc_db \<Rightarrow> soc_event \<Rightarrow> nat" where
  "same_wakes d e =
    count_rows (\<lambda>x. se_correlation x = se_correlation e \<and> se_type x = se_type e \<and> se_id x \<noteq> se_id e \<and>
      se_subject x = se_subject e \<and> list_ex (\<lambda>r. sr_event r = se_id x) (sd_runs d)) (sd_events d)"

definition loop_note :: "soc_settings \<Rightarrow> soc_db \<Rightarrow> soc_event \<Rightarrow> dispatch_note option" where
  "loop_note ss d e =
    (if ss_max_causation_depth ss < se_depth e then Some LoopDepth
     else if ss_max_runs_per_correlation ss \<le> runs_in_correlation d (se_correlation e) then Some LoopRuns
     else if ss_max_same_wakes ss \<le> same_wakes d e then Some LoopRepeat
     else None)"

text \<open>The agents an event wakes: its target, and the subscribers that did not cause it themselves.\<close>

definition selected :: "soc_db \<Rightarrow> (string \<Rightarrow> string list) \<Rightarrow> soc_event \<Rightarrow> (soc_agent \<times> agent_grant) list" where
  "selected d routing e =
    (let targeted = targeted_agent d e;
         subscribers = (if se_type e \<in> set targeted_only_types then [] else routing (se_type e));
         others = filter (\<lambda>(a, g). \<not> (se_actor_kind e = ByAgent \<and> se_actor e = Some (sa_id a) \<and> targeted = None))
           (agents_for_roles d subscribers)
     in foldl (\<lambda>sel ag. if sa_id (fst ag) \<in> set (map (sa_id \<circ> fst) sel) then sel else sel @ [ag])
          (case targeted of None \<Rightarrow> [] | Some ag \<Rightarrow> [ag]) others)"

text \<open>\<open>INSERT \<dots> ON CONFLICT (agent_id, event_id) DO NOTHING\<close>.\<close>

definition new_run :: "soc_settings \<Rightarrow> soc_event \<Rightarrow> instant \<Rightarrow> uid \<Rightarrow> soc_agent \<times> agent_grant \<Rightarrow> soc_run" where
  "new_run ss e now i ag =
    \<lparr>sr_id = i, sr_agent = sa_id (fst ag), sr_event = se_id e, sr_role = g_role (snd ag), sr_status = RUN_QUEUED,
     sr_worker = None, sr_lease = None, sr_attempt = 0, sr_max_attempts = ss_run_max_attempts ss, sr_not_before = None,
     sr_started = None, sr_completed = None, sr_cost = 0, sr_correlation = se_correlation e, sr_created = now\<rparr>"

definition insert_run :: "soc_settings \<Rightarrow> soc_event \<Rightarrow> instant \<Rightarrow> soc_db \<Rightarrow> soc_agent \<times> agent_grant \<Rightarrow> soc_db" where
  "insert_run ss e now d ag =
    (if list_ex (\<lambda>r. sr_agent r = sa_id (fst ag) \<and> sr_event r = se_id e) (sd_runs d) then d
     else d\<lparr>sd_runs := sd_runs d @ [new_run ss e now (sd_next d) ag], sd_next := sd_next d + 1\<rparr>)"

definition dispatch_event :: "soc_settings \<Rightarrow> (string \<Rightarrow> string list) \<Rightarrow> instant \<Rightarrow> soc_event \<Rightarrow> soc_db \<Rightarrow> soc_db" where
  "dispatch_event ss routing now e d =
    (case loop_note ss d e of
       Some note \<Rightarrow>
         snd (emit_event (system_event ''loop_breaker.tripped'' (se_correlation e) (LoopBreakerKey (se_correlation e))) now
           (set_event (se_id e) (\<lambda>x. x\<lparr>se_status := EV_IGNORED, se_note := Some note, se_dispatched := Some now, se_processed := Some now\<rparr>) d))
     | None \<Rightarrow>
         let sel = selected d routing e;
             d' = foldl (insert_run ss e now) d sel;
             created = length (sd_runs d') - length (sd_runs d)
         in set_event (se_id e)
             (if created = 0 \<and> sel = []
              then (\<lambda>x. x\<lparr>se_dispatched := Some now, se_status := EV_IGNORED, se_processed := Some now,
                  se_note := Some (if se_type e \<in> set targeted_only_types then TargetUnresolved else NoSubscriber)\<rparr>)
              else (\<lambda>x. x\<lparr>se_dispatched := Some now, se_status := EV_DISPATCHED, se_note := Some (RunsCreated created)\<rparr>)) d')"

text \<open>
  One batch: the pending events, the owner's first, oldest first; \<open>locked\<close> are the rows another worker
  holds (\<open>SKIP LOCKED\<close>). The batch is read once, before its first event is dispatched.
\<close>

definition dispatch_batch :: "soc_settings \<Rightarrow> uid set \<Rightarrow> bool \<Rightarrow> soc_db \<Rightarrow> soc_event list" where
  "dispatch_batch ss locked owner_only d =
    (let pending = filter (\<lambda>e. se_status e = EV_PENDING \<and> se_id e \<notin> locked \<and> (owner_only \<longrightarrow> owner_event e)) (sd_events d)
     in take (ss_dispatch_batch ss)
       (sort_key se_created (filter owner_event pending) @ sort_key se_created (filter (\<lambda>e. \<not> owner_event e) pending)))"

definition dispatch_pending_events ::
  "soc_settings \<Rightarrow> (string \<Rightarrow> string list) \<Rightarrow> uid set \<Rightarrow> bool \<Rightarrow> instant \<Rightarrow> soc_db \<Rightarrow> soc_db" where
  "dispatch_pending_events ss routing locked owner_only now d =
    (let d0 = expire_stale_events (ss_event_ttl ss) now d
     in foldl (\<lambda>d e. dispatch_event ss routing now e d) d0 (dispatch_batch ss locked owner_only d0))"

section \<open>Claims\<close>

definition owner_run :: "soc_db \<Rightarrow> soc_run \<Rightarrow> bool" where
  "owner_run d r \<longleftrightarrow> list_ex (\<lambda>e. se_id e = sr_event r \<and> owner_event e) (sd_events d)"

definition claimable_run :: "instant \<Rightarrow> soc_run \<Rightarrow> bool" where
  "claimable_run now r \<longleftrightarrow>
    sr_status r = RUN_QUEUED \<and> (case sr_not_before r of None \<Rightarrow> True | Some t \<Rightarrow> t \<le> now) \<or>
    sr_status r \<in> {RUN_CLAIMED, RUN_RUNNING} \<and> (case sr_lease r of None \<Rightarrow> False | Some t \<Rightarrow> t < now)"

definition claim_order :: "soc_db \<Rightarrow> soc_run list \<Rightarrow> soc_run list" where
  "claim_order d rs = sort_key sr_created (filter (owner_run d) rs) @ sort_key sr_created (filter (\<lambda>r. \<not> owner_run d r) rs)"

definition claim_next_run :: "string \<Rightarrow> int \<Rightarrow> uid set \<Rightarrow> bool \<Rightarrow> instant \<Rightarrow> soc_db \<Rightarrow> uid option \<times> soc_db" where
  "claim_next_run worker lease locked owner_only now d =
    (case claim_order d (filter (\<lambda>r. claimable_run now r \<and> sr_id r \<notin> locked \<and> (owner_only \<longrightarrow> owner_run d r)) (sd_runs d)) of
       [] \<Rightarrow> (None, d)
     | r # _ \<Rightarrow> (Some (sr_id r), set_run (sr_id r)
         (\<lambda>x. x\<lparr>sr_status := RUN_CLAIMED, sr_worker := Some worker, sr_lease := Some (now + seconds lease), sr_attempt := sr_attempt x + 1\<rparr>) d))"

definition extend_lease :: "int \<Rightarrow> instant \<Rightarrow> uid \<Rightarrow> soc_db \<Rightarrow> soc_db" where
  "extend_lease lease now i d = set_run i (\<lambda>x. x\<lparr>sr_lease := Some (now + seconds lease)\<rparr>) d"

definition mark_running :: "instant \<Rightarrow> uid \<Rightarrow> soc_db \<Rightarrow> soc_db" where
  "mark_running now i d =
    set_run i (\<lambda>x. x\<lparr>sr_status := RUN_RUNNING, sr_started := (case sr_started x of None \<Rightarrow> Some now | Some t \<Rightarrow> Some t)\<rparr>) d"

section \<open>The end of a run\<close>

definition finalize_event :: "uid \<Rightarrow> instant \<Rightarrow> soc_db \<Rightarrow> soc_db" where
  "finalize_event ev now d =
    (if list_ex (\<lambda>r. sr_event r = ev \<and> \<not> run_terminal (sr_status r)) (sd_runs d) then d
     else set_event ev (\<lambda>e. if se_status e = EV_DISPATCHED then e\<lparr>se_status := EV_PROCESSED, se_processed := Some now\<rparr> else e) d)"

text \<open>What the run-health incident needs from the environment: digests, ids, the maintenance settings.\<close>

record health_env =
  he_sha :: "string \<Rightarrow> string"
  he_dig :: "json \<Rightarrow> string"
  he_incident_id :: uid
  he_freeze_id :: uid
  he_raced :: "incident option"
  he_target :: string
  he_recovery_streak :: nat

definition dead_streak_alert :: int where
  "dead_streak_alert = 3"

definition dead_streak :: "health_env \<Rightarrow> agent_grant \<Rightarrow> string \<Rightarrow> violation" where
  "dead_streak he g error_class =
    \<lparr>vi_target = he_target he, vi_class = CONTROL_PLANE, vi_ref = ''society_runs:'' @ g_role g, vi_failure = ''dead_streak'',
     vi_severity = MAJOR, vi_base = P1, vi_source = ''society_run_health'', vi_sli = ''society_runs'', vi_path = None,
     vi_trust = TRUSTED_DB,
     vi_payload = [(''role'', JStr (g_role g)), (''consecutive_dead'', JInt (g_consecutive_failures g)), (''error_class'', JStr error_class)]\<rparr>"

definition run_health :: "health_env \<Rightarrow> agent_grant option \<Rightarrow> bool \<Rightarrow> string \<Rightarrow> instant \<Rightarrow> soc_db \<Rightarrow> soc_db" where
  "run_health he grant dead error_class now d =
    (case grant of
       None \<Rightarrow> d
     | Some g \<Rightarrow>
         if dead
         then if g_consecutive_failures g < dead_streak_alert then d
           else (case ingest_violation (he_sha he) (he_dig he) (he_incident_id he) (he_freeze_id he) (he_raced he)
                   (dead_streak he g error_class) now (sd_kernel d) of
               Inl e \<Rightarrow> d
             | Inr (k, _) \<Rightarrow> d\<lparr>sd_kernel := k\<rparr>)
         else d\<lparr>sd_kernel := fst (observe_healthy (he_dig he) (he_recovery_streak he) (he_target he) (''society_runs:'' @ g_role g)
             ''society_runs'' ''society_run_health'' now False (sd_kernel d))\<rparr>)"

definition complete_run :: "health_env \<Rightarrow> instant \<Rightarrow> soc_run \<Rightarrow> soc_db \<Rightarrow> soc_db" where
  "complete_run he now r d =
    (let d1 = set_run (sr_id r) (\<lambda>x. x\<lparr>sr_status := RUN_COMPLETED, sr_completed := Some now, sr_lease := None\<rparr>) d;
         d2 = set_grant (sr_agent r) (\<lambda>g. g\<lparr>g_consecutive_failures := 0\<rparr>) d1
     in finalize_event (sr_event r) now (run_health he (grant_of d2 (sr_agent r)) False [] now d2))"

definition skip_run :: "instant \<Rightarrow> soc_run \<Rightarrow> soc_db \<Rightarrow> soc_db" where
  "skip_run now r d =
    finalize_event (sr_event r) now
      (set_run (sr_id r) (\<lambda>x. x\<lparr>sr_status := RUN_SKIPPED, sr_completed := Some now, sr_lease := None\<rparr>) d)"

definition defer_run :: "int \<Rightarrow> instant \<Rightarrow> soc_run \<Rightarrow> soc_db \<Rightarrow> soc_db" where
  "defer_run retry_after now r d =
    set_run (sr_id r) (\<lambda>x. x\<lparr>sr_status := RUN_QUEUED, sr_worker := None, sr_lease := None,
      sr_not_before := Some (now + seconds (max 1 retry_after)), sr_attempt := max 0 (sr_attempt x - 1)\<rparr>) d"

definition backoff_seconds :: "soc_settings \<Rightarrow> int \<Rightarrow> int" where
  "backoff_seconds ss attempt = ss_retry_backoff_base ss * 2 ^ nat (max 0 (attempt - 1))"

text \<open>The failure of a run that is not retried: the counter of the agent, the breaker, the alert.\<close>

definition trip_breaker :: "soc_settings \<Rightarrow> instant \<Rightarrow> soc_run \<Rightarrow> soc_db \<Rightarrow> soc_db" where
  "trip_breaker ss now r d =
    (case grant_of d (sr_agent r) of
       None \<Rightarrow> d
     | Some g \<Rightarrow>
         let n = g_consecutive_failures g + 1; until = now + seconds (ss_breaker_pause ss);
             d1 = set_grant (sr_agent r) (\<lambda>g. g\<lparr>g_consecutive_failures := n\<rparr>) d
         in if ss_breaker_failures ss \<le> n
            then snd (emit_event (system_event ''loop_breaker.tripped'' (sr_correlation r) (CircuitBreakerKey (sr_agent r) until)) now
              (set_grant (sr_agent r) (\<lambda>g. g\<lparr>g_paused_until := Some until\<rparr>) d1))
            else d1)"

definition fail_run :: "soc_settings \<Rightarrow> health_env \<Rightarrow> bool \<Rightarrow> string \<Rightarrow> instant \<Rightarrow> soc_run \<Rightarrow> soc_db \<Rightarrow> run_status \<times> soc_db" where
  "fail_run ss he retryable error_class now r d =
    (if retryable \<and> sr_attempt r < sr_max_attempts r
     then (RUN_QUEUED, set_run (sr_id r) (\<lambda>x. x\<lparr>sr_status := RUN_QUEUED, sr_worker := None, sr_lease := None,
       sr_not_before := Some (now + seconds (backoff_seconds ss (sr_attempt r)))\<rparr>) d)
     else
       let d1 = set_run (sr_id r) (\<lambda>x. x\<lparr>sr_status := RUN_DEAD, sr_completed := Some now, sr_lease := None\<rparr>) d;
           d2 = trip_breaker ss now r d1;
           d3 = run_health he (grant_of d2 (sr_agent r)) True error_class now d2;
           d4 = snd (emit_event (system_event ''run.dead'' (sr_correlation r) (RunDeadKey (sr_id r))) now d3)
       in (RUN_DEAD, finalize_event (sr_event r) now d4))"

section \<open>The budget gate\<close>

datatype gate_reason =
    RuntimeOff | NoGrantRow | GrantOff | BreakerOpen | GlobalRunsLimit | AgentRunsLimit | DailyBudget | OwnerReserve | ReserveHeld
  | AgentBudget | CorrelationBudget | WakeCooldown

text \<open>A refusal may carry the seconds after which the run is to be tried again.\<close>

datatype run_gate = GateOpen | GateClosed gate_reason "int option"

definition runs_last_hour :: "soc_db \<Rightarrow> uid option \<Rightarrow> instant \<Rightarrow> int" where
  "runs_last_hour d a now =
    int (count_rows (\<lambda>r. (case sr_started r of None \<Rightarrow> False | Some t \<Rightarrow> now - hours 1 \<le> t) \<and>
      sr_status r \<in> {RUN_RUNNING, RUN_COMPLETED, RUN_FAILED, RUN_DEAD} \<and> (a = None \<or> a = Some (sr_agent r))) (sd_runs d))"

definition spend_where :: "(soc_run \<Rightarrow> bool) \<Rightarrow> soc_db \<Rightarrow> rat" where
  "spend_where p d = sum_list (map sr_cost (filter p (sd_runs d)))"

definition soc_spend_today :: "soc_db \<Rightarrow> uid option \<Rightarrow> instant \<Rightarrow> rat" where
  "soc_spend_today d a now = spend_where (\<lambda>r. day_start now \<le> sr_created r \<and> (a = None \<or> a = Some (sr_agent r))) d"

definition owner_spend_today :: "soc_db \<Rightarrow> instant \<Rightarrow> rat" where
  "owner_spend_today d now = spend_where (\<lambda>r. day_start now \<le> sr_created r \<and> owner_run d r) d"

definition last_started :: "soc_db \<Rightarrow> uid \<Rightarrow> uid \<Rightarrow> instant option" where
  "last_started d a except =
    (case List.map_filter sr_started (filter (\<lambda>r. sr_agent r = a \<and> sr_id r \<noteq> except) (sd_runs d)) of
       [] \<Rightarrow> None | t # ts \<Rightarrow> Some (foldl max t ts))"

text \<open>\<open>math.ceil\<close> of a number of microseconds in seconds.\<close>

definition ceil_seconds :: "duration \<Rightarrow> int" where
  "ceil_seconds u = - ((- u) div seconds 1)"

definition check_run_budget :: "soc_settings \<Rightarrow> soc_db \<Rightarrow> soc_run \<Rightarrow> bool \<Rightarrow> instant \<Rightarrow> run_gate" where
  "check_run_budget ss d r owner now =
    (if \<not> ss_runtime_enabled ss then GateClosed RuntimeOff None
     else case grant_of d (sr_agent r) of
       None \<Rightarrow> GateClosed NoGrantRow None
     | Some g \<Rightarrow>
       if \<not> g_enabled g then GateClosed GrantOff None
       else if (case g_paused_until g of None \<Rightarrow> False | Some t \<Rightarrow> now < t) then GateClosed BreakerOpen None
       else if ss_max_runs_per_hour ss \<le> runs_last_hour d None now then GateClosed GlobalRunsLimit None
       else if g_max_runs_per_hour g \<le> runs_last_hour d (Some (sr_agent r)) now then GateClosed AgentRunsLimit None
       else if ss_daily_budget ss \<le> soc_spend_today d None now then GateClosed DailyBudget None
       else let reserve = ss_owner_reserve ss;
                owner_spent = (if 0 < reserve then owner_spend_today d now else 0);
                held = max 0 (reserve - owner_spent) in
       if owner \<and> 0 < reserve \<and> reserve \<le> owner_spent then GateClosed OwnerReserve None
       else if \<not> (owner \<and> 0 < reserve) \<and> 0 < held \<and> ss_daily_budget ss - held \<le> soc_spend_today d None now then GateClosed ReserveHeld None
       else if \<not> (owner \<and> 0 < reserve) \<and> g_daily_budget g \<le> soc_spend_today d (Some (sr_agent r)) now then GateClosed AgentBudget None
       else if ss_max_correlation_cost ss \<le> spend_where (\<lambda>x. sr_correlation x = sr_correlation r) d then GateClosed CorrelationBudget None
       else let cooldown = (if owner then 0 else g_wake_cooldown g) in
         (case last_started d (sr_agent r) (sr_id r) of
            None \<Rightarrow> GateOpen
          | Some t \<Rightarrow>
              if 0 < cooldown \<and> now - t < seconds cooldown
              then GateClosed WakeCooldown (Some (max 1 (ceil_seconds (seconds cooldown - (now - t)))))
              else GateOpen))"

section \<open>Admission of a claimed run\<close>

datatype run_outcome = OutMissing | OutSkipped | OutDead | OutDeferred | OutRequeued | OutCompleted | OutError

definition review_wake_types :: "string list" where
  "review_wake_types = [''design_review.requested'', ''design_review.proposed'', ''design_review.ready'']"

text \<open>An hourly limit delays a meeting turn and an answer to the owner, it does not drop them.\<close>

definition soften :: "soc_event \<Rightarrow> run_gate \<Rightarrow> run_gate" where
  "soften e g =
    (case g of
       GateClosed why None \<Rightarrow>
         if why \<in> {GlobalRunsLimit, AgentRunsLimit} \<and> se_type e \<in> set review_wake_types then GateClosed why (Some 300)
         else if why \<in> {GlobalRunsLimit, AgentRunsLimit} \<and> owner_event e then GateClosed why (Some 60)
         else g
     | _ \<Rightarrow> g)"

text \<open>
  The part of \<open>process_run\<close> before the model is called: \<open>None\<close> means that the run is running now. \<open>busy\<close>
  is the answer of the heartbeat precheck.
\<close>

definition admit_run :: "soc_settings \<Rightarrow> health_env \<Rightarrow> bool \<Rightarrow> instant \<Rightarrow> soc_run \<Rightarrow> soc_db \<Rightarrow> run_outcome option \<times> soc_db" where
  "admit_run ss he busy now r d =
    (case (agent_of d (sr_agent r), get_event d (sr_event r)) of
       (Some a, Some e) \<Rightarrow>
         if sr_max_attempts r < sr_attempt r then (Some OutDead, snd (fail_run ss he False ''unknown'' now r d))
         else (case soften e (check_run_budget ss d r (owner_event e) now) of
           GateClosed why retry \<Rightarrow>
             (case retry of
                Some n \<Rightarrow> if n \<noteq> 0 \<and> now - sr_created r \<le> seconds (ss_event_ttl ss) then (Some OutDeferred, defer_run n now r d)
                   else (Some OutSkipped, skip_run now r d)
              | None \<Rightarrow> (Some OutSkipped, skip_run now r d))
         | GateOpen \<Rightarrow>
             if ss_precheck ss \<and> se_type e = ''society.heartbeat'' \<and> \<not> busy then (Some OutSkipped, skip_run now r d)
             else (None, mark_running now (sr_id r) d))
     | _ \<Rightarrow> (Some OutSkipped, skip_run now r d))"

end
