(* ===== verification/SocietyRunProps.thy ===== *)
theory SocietyRunProps
  imports SocietyRuns
begin

text \<open>
  The run lifecycle as a system of workers, and what every interleaving of them keeps: one run per agent
  and event, an event is processed only when its runs have ended, the retry budget of queued runs, and the
  loop breaker's bound on the runs of a story. A worker acts on a run it has claimed and nobody has claimed
  since; the end of the theory shows what happens otherwise.
\<close>

section \<open>The system\<close>

definition holds :: "string \<Rightarrow> soc_db \<Rightarrow> soc_run \<Rightarrow> bool" where
  "holds w d r \<longleftrightarrow> get_run d (sr_id r) = Some r \<and> sr_worker r = Some w \<and> sr_status r \<in> {RUN_CLAIMED, RUN_RUNNING}"

text \<open>The retry budget is at least 1 and the priority of owners fixed; \<open>n\<close> bounds the number of agents.\<close>

inductive soc_step :: "soc_settings \<Rightarrow> nat \<Rightarrow> soc_db \<Rightarrow> soc_db \<Rightarrow> bool" for ss n where
  emits: "soc_step ss n d (snd (emit_event ed now d))"
| dispatches: "soc_step ss n d (dispatch_pending_events ss routing locked owner_only now d)"
| claims: "soc_step ss n d (snd (claim_next_run w lease locked owner_only now d))"
| admits: "holds w d r \<Longrightarrow> soc_step ss n d (snd (admit_run ss he busy now r d))"
| extends_lease: "holds w d r \<Longrightarrow> soc_step ss n d (extend_lease lease now (sr_id r) d)"
| completes: "holds w d r \<Longrightarrow> soc_step ss n d (complete_run he now r d)"
| fails: "holds w d r \<Longrightarrow> soc_step ss n d (snd (fail_run ss he retryable err now r d))"
| administers: "length ags \<le> n \<Longrightarrow> soc_step ss n d (d\<lparr>sd_agents := ags, sd_grants := grants, sd_kernel := k\<rparr>)"

section \<open>The invariant\<close>

definition run_fits :: "soc_event list \<Rightarrow> soc_run \<Rightarrow> bool" where
  "run_fits es r \<longleftrightarrow> 0 \<le> sr_attempt r \<and> 1 \<le> sr_max_attempts r \<and> (sr_status r = RUN_QUEUED \<longrightarrow> sr_attempt r < sr_max_attempts r) \<and>
    (\<exists>e \<in> set es. se_id e = sr_event r \<and> se_correlation e = sr_correlation r \<and>
      (se_status e = EV_DISPATCHED \<or> se_status e = EV_PROCESSED \<and> run_terminal (sr_status r)))"

definition runs_ok :: "soc_settings \<Rightarrow> nat \<Rightarrow> soc_db \<Rightarrow> bool" where
  "runs_ok ss n d \<longleftrightarrow>
    length (sd_agents d) \<le> n \<and>
    distinct (map se_id (sd_events d)) \<and> (\<forall>e \<in> set (sd_events d). se_id e < sd_next d) \<and>
    distinct (map sr_id (sd_runs d)) \<and> (\<forall>r \<in> set (sd_runs d). sr_id r < sd_next d) \<and>
    distinct (map (\<lambda>r. (sr_agent r, sr_event r)) (sd_runs d)) \<and>
    (\<forall>r \<in> set (sd_runs d). run_fits (sd_events d) r) \<and>
    (\<forall>c. runs_in_correlation d c \<le> ss_max_runs_per_correlation ss - 1 + n)"

lemma runs_okD:
  assumes "runs_ok ss n d"
  shows "length (sd_agents d) \<le> n" "distinct (map se_id (sd_events d))" "\<And>e. e \<in> set (sd_events d) \<Longrightarrow> se_id e < sd_next d"
    "distinct (map sr_id (sd_runs d))" "\<And>r. r \<in> set (sd_runs d) \<Longrightarrow> sr_id r < sd_next d"
    "distinct (map (\<lambda>r. (sr_agent r, sr_event r)) (sd_runs d))" "\<And>r. r \<in> set (sd_runs d) \<Longrightarrow> run_fits (sd_events d) r"
    "runs_in_correlation d c \<le> ss_max_runs_per_correlation ss - 1 + n"
  using assms unfolding runs_ok_def by auto

lemma distinct_key: "distinct (map key xs) \<Longrightarrow> x \<in> set xs \<Longrightarrow> y \<in> set xs \<Longrightarrow> key x = key y \<Longrightarrow> x = y"
  by (metis (full_types) distinct_map inj_onD)

text \<open>Grants and the kernel do not matter.\<close>

lemma runs_ok_cong:
  assumes "sd_events d' = sd_events d" "sd_runs d' = sd_runs d" "sd_agents d' = sd_agents d" "sd_next d' = sd_next d"
  shows "runs_ok ss n d' = runs_ok ss n d"
  using assms by (simp add: runs_ok_def runs_in_correlation_def)

lemma runs_ok_set_grant [simp]: "runs_ok ss n (set_grant a f d) = runs_ok ss n d"
  by (rule runs_ok_cong) (simp_all add: set_grant_def)

lemma runs_ok_run_health [simp]: "runs_ok ss n (run_health he g dead err now d) = runs_ok ss n d"
  by (rule runs_ok_cong) (auto simp: run_health_def split: option.splits sum.splits)

text \<open>A run that has not ended may be changed in any way that keeps its key and its retry budget.\<close>

definition keeps_key :: "(soc_run \<Rightarrow> soc_run) \<Rightarrow> bool" where
  "keeps_key f \<longleftrightarrow> (\<forall>r. sr_id (f r) = sr_id r \<and> sr_agent (f r) = sr_agent r \<and> sr_event (f r) = sr_event r \<and>
    sr_correlation (f r) = sr_correlation r \<and> sr_max_attempts (f r) = sr_max_attempts r)"

lemma count_upd_key: "(\<And>x. key x = k \<Longrightarrow> p (f x) = p x) \<Longrightarrow> count_rows p (upd_key key k f xs) = count_rows p xs"
  unfolding count_rows_def by (induction xs) auto

lemma runs_ok_set_run:
  assumes ok: "runs_ok ss n d" and r: "r \<in> set (sd_runs d)" and live: "\<not> run_terminal (sr_status r)"
    and f: "keeps_key f" "0 \<le> sr_attempt (f r)" "sr_status (f r) = RUN_QUEUED \<longrightarrow> sr_attempt (f r) < sr_max_attempts (f r)"
  shows "runs_ok ss n (set_run (sr_id r) f d)"
proof -
  have key: "\<And>x. sr_id (f x) = sr_id x" "\<And>x. sr_agent (f x) = sr_agent x" "\<And>x. sr_event (f x) = sr_event x"
    "\<And>x. sr_correlation (f x) = sr_correlation x" "\<And>x. sr_max_attempts (f x) = sr_max_attempts x"
    using f(1) by (simp_all add: keeps_key_def)
  have fit: "run_fits (sd_events d) (f r)"
    using runs_okD(7) [OF ok r] live f(2,3) by (auto simp: run_fits_def key)
  have "run_fits (sd_events d) x" if "x \<in> set (upd_key sr_id (sr_id r) f (sd_runs d))" for x
  proof -
    obtain y where y: "y \<in> set (sd_runs d)" "x = (if sr_id y = sr_id r then f y else y)" using \<open>x \<in> _\<close> by (auto simp: set_upd_key)
    show ?thesis
    proof (cases "sr_id y = sr_id r")
      case True
      then have "y = r" using distinct_key [OF runs_okD(4) [OF ok]] r y(1) by blast
      then show ?thesis using fit y by simp
    qed (use y runs_okD(7) [OF ok] in simp)
  qed
  moreover have "map (\<lambda>x. (sr_agent x, sr_event x)) (upd_key sr_id (sr_id r) f (sd_runs d)) = map (\<lambda>x. (sr_agent x, sr_event x)) (sd_runs d)"
    "map sr_id (upd_key sr_id (sr_id r) f (sd_runs d)) = map sr_id (sd_runs d)"
    by (rule map_key_upd_key; simp add: key)+
  moreover have "sr_id x < sd_next d" if "x \<in> set (upd_key sr_id (sr_id r) f (sd_runs d))" for x
    using that runs_okD(5) [OF ok] by (fastforce simp: set_upd_key key)
  ultimately show ?thesis
    using ok unfolding runs_ok_def set_run_def runs_in_correlation_def
    by (simp add: count_upd_key key)
qed

text \<open>An event whose status is not that of a live story may change; a processed one has only ended runs.\<close>

lemma runs_ok_set_event:
  assumes ok: "runs_ok ss n d"
    and f: "\<And>e. se_id (f e) = se_id e" "\<And>e. se_correlation (f e) = se_correlation e"
    and status: "\<And>e r. e \<in> set (sd_events d) \<Longrightarrow> se_id e = i \<Longrightarrow> r \<in> set (sd_runs d) \<Longrightarrow> sr_event r = i \<Longrightarrow>
      se_status (f e) = EV_DISPATCHED \<or> se_status (f e) = EV_PROCESSED \<and> run_terminal (sr_status r)"
  shows "runs_ok ss n (set_event i f d)"
proof -
  have "run_fits (upd_key se_id i f (sd_events d)) r" if r: "r \<in> set (sd_runs d)" for r
  proof -
    obtain e where e: "e \<in> set (sd_events d)" "se_id e = sr_event r" "se_correlation e = sr_correlation r"
        "se_status e = EV_DISPATCHED \<or> se_status e = EV_PROCESSED \<and> run_terminal (sr_status r)"
      using runs_okD(7) [OF ok r] by (auto simp: run_fits_def)
    define e' where "e' = (if se_id e = i then f e else e)"
    have "e' \<in> set (upd_key se_id i f (sd_events d))" using e(1) by (auto simp: set_upd_key e'_def)
    moreover have "se_id e' = sr_event r" "se_correlation e' = sr_correlation r" using e f by (simp_all add: e'_def)
    moreover have "se_status e' = EV_DISPATCHED \<or> se_status e' = EV_PROCESSED \<and> run_terminal (sr_status r)"
      using e status [OF e(1) _ r] by (auto simp: e'_def)
    ultimately show ?thesis using runs_okD(7) [OF ok r] by (auto simp: run_fits_def)
  qed
  moreover have "map se_id (upd_key se_id i f (sd_events d)) = map se_id (sd_events d)"
    by (rule map_key_upd_key) (simp add: f)
  moreover have "se_id x < sd_next d" if "x \<in> set (upd_key se_id i f (sd_events d))" for x
    using that runs_okD(3) [OF ok] by (fastforce simp: set_upd_key f)
  ultimately show ?thesis
    using ok unfolding runs_ok_def set_event_def runs_in_correlation_def by simp
qed

lemma runs_ok_finalize:
  assumes "runs_ok ss n d"
  shows "runs_ok ss n (finalize_event ev now d)"
proof (cases "list_ex (\<lambda>r. sr_event r = ev \<and> \<not> run_terminal (sr_status r)) (sd_runs d)")
  case True
  then show ?thesis using assms by (simp add: finalize_event_def)
next
  case False
  have ended: "run_terminal (sr_status r)" if "r \<in> set (sd_runs d)" "sr_event r = ev" for r
    using False that by (auto simp: list_ex_iff)
  have "runs_ok ss n (set_event ev (\<lambda>e. if se_status e = EV_DISPATCHED then e\<lparr>se_status := EV_PROCESSED, se_processed := Some now\<rparr> else e) d)"
  proof (rule runs_ok_set_event [OF assms])
    fix e r assume a: "e \<in> set (sd_events d)" "se_id e = ev" "r \<in> set (sd_runs d)" "sr_event r = ev"
    obtain e' where e': "e' \<in> set (sd_events d)" "se_id e' = sr_event r" "se_status e' = EV_DISPATCHED \<or> se_status e' = EV_PROCESSED"
      using runs_okD(7) [OF assms a(3)] by (auto simp: run_fits_def)
    have "e' = e" by (rule distinct_key [OF runs_okD(2) [OF assms] e'(1) a(1)]) (simp add: a e'(2))
    then show "se_status (if se_status e = EV_DISPATCHED then e\<lparr>se_status := EV_PROCESSED, se_processed := Some now\<rparr> else e) = EV_DISPATCHED \<or>
        se_status (if se_status e = EV_DISPATCHED then e\<lparr>se_status := EV_PROCESSED, se_processed := Some now\<rparr> else e) = EV_PROCESSED \<and> run_terminal (sr_status r)"
      using ended [OF a(3,4)] e'(3) by auto
  qed simp_all
  then show ?thesis using False by (simp add: finalize_event_def)
qed

lemma run_fits_more: "run_fits es r \<Longrightarrow> run_fits (es @ es') r"
  by (auto simp: run_fits_def)

lemma runs_ok_emit:
  assumes "runs_ok ss n d"
  shows "runs_ok ss n (snd (emit_event ed now d))"
proof (cases "if ed_key ed = None then None else find (\<lambda>e. se_key e = ed_key ed) (sd_events d)")
  case None
  have "sd_next d \<notin> se_id ` set (sd_events d)" using runs_okD(3) [OF assms] by fastforce
  then show ?thesis
    using assms unfolding emit_event_def None Let_def runs_ok_def
    by (auto simp: runs_in_correlation_def run_fits_more less_Suc_eq intro: less_trans)
next
  case (Some e)
  then show ?thesis using assms unfolding emit_event_def Some by simp
qed

lemma runs_ok_expire:
  assumes ok: "runs_ok ss n d"
  shows "runs_ok ss n (expire_stale_events ttl now d)"
proof -
  let ?p = "\<lambda>e. se_status e = EV_PENDING \<and> se_created e < now - seconds ttl"
  let ?f = "\<lambda>e. e\<lparr>se_status := EV_EXPIRED, se_note := Some TtlElapsed, se_processed := Some now\<rparr>"
  have "run_fits (upd_where ?p ?f (sd_events d)) r" if r: "r \<in> set (sd_runs d)" for r
  proof -
    obtain e where e: "e \<in> set (sd_events d)" "se_id e = sr_event r" "se_correlation e = sr_correlation r"
        "se_status e = EV_DISPATCHED \<or> se_status e = EV_PROCESSED \<and> run_terminal (sr_status r)"
      using runs_okD(7) [OF ok r] by (auto simp: run_fits_def)
    then have "e \<in> set (upd_where ?p ?f (sd_events d))" by (auto simp: set_upd_where intro!: bexI [of _ e])
    then show ?thesis using e runs_okD(7) [OF ok r] by (auto simp: run_fits_def)
  qed
  moreover have "map se_id (upd_where ?p ?f (sd_events d)) = map se_id (sd_events d)" by (simp add: upd_where_def)
  moreover have "se_id x < sd_next d" if "x \<in> set (upd_where ?p ?f (sd_events d))" for x
    using that runs_okD(3) [OF ok] by (fastforce simp: set_upd_where)
  ultimately show ?thesis
    using ok unfolding runs_ok_def expire_stale_events_def runs_in_correlation_def by simp
qed

section \<open>Dispatch\<close>

text \<open>The selection names each agent once, and only agents of the table.\<close>

lemma selected_fold:
  fixes sel :: "(soc_agent \<times> agent_grant) list"
  assumes "distinct (map (sa_id \<circ> fst) sel)"
  shows "distinct (map (sa_id \<circ> fst) (foldl (\<lambda>sel ag. if sa_id (fst ag) \<in> set (map (sa_id \<circ> fst) sel) then sel else sel @ [ag]) sel ags))
    \<and> set (foldl (\<lambda>sel ag. if sa_id (fst ag) \<in> set (map (sa_id \<circ> fst) sel) then sel else sel @ [ag]) sel ags) \<subseteq> set sel \<union> set ags"
  using assms
proof (induction ags arbitrary: sel)
  case (Cons ag ags)
  let ?s = "\<lambda>sel ag. if sa_id (fst ag) \<in> set (map (sa_id \<circ> fst) sel) then sel else sel @ [ag]"
  define sel' where "sel' = ?s sel ag"
  have fold: "foldl ?s sel (ag # ags) = foldl ?s sel' ags" by (simp only: foldl.simps sel'_def)
  have d: "distinct (map (sa_id \<circ> fst) sel')" using Cons.prems by (simp add: sel'_def comp_def)
  have "set sel' \<subseteq> set sel \<union> {ag}" by (auto simp: sel'_def)
  moreover have "set sel \<union> set (ag # ags) = set sel \<union> {ag} \<union> set ags" by simp
  ultimately show ?case unfolding fold using Cons.IH [OF d] by blast
qed simp

lemma targeted_agent_Some:
  assumes "targeted_agent d e = Some (a, g)"
  shows "a \<in> set (sd_agents d)" "target_id e = Some (sa_id a)" "g \<in> set (sd_grants d)" "g_agent g = sa_id a" "g_enabled g"
  using assms by (auto simp: targeted_agent_def agent_of_def split: option.splits dest: find_SomeD)

lemma agents_for_roles_in:
  "(a, g) \<in> set (agents_for_roles d roles) \<longleftrightarrow>
    a \<in> set (sd_agents d) \<and> sa_status a \<in> {AGENT_ACTIVE, AGENT_UNVERIFIED} \<and>
    g \<in> set (sd_grants d) \<and> g_agent g = sa_id a \<and> g_role g \<in> set roles \<and> g_enabled g"
  by (auto simp: agents_for_roles_def)

definition wakes :: "soc_db \<Rightarrow> (string \<Rightarrow> string list) \<Rightarrow> soc_event \<Rightarrow> soc_agent \<Rightarrow> agent_grant \<Rightarrow> bool" where
  "wakes d routing e a g \<longleftrightarrow>
    a \<in> set (sd_agents d) \<and> g \<in> set (sd_grants d) \<and> g_agent g = sa_id a \<and> g_enabled g \<and>
    (target_id e = Some (sa_id a) \<or>
     se_type e \<notin> set targeted_only_types \<and> g_role g \<in> set (routing (se_type e)) \<and>
     sa_status a \<in> {AGENT_ACTIVE, AGENT_UNVERIFIED} \<and>
     (se_actor_kind e = ByAgent \<and> se_actor e = Some (sa_id a) \<longrightarrow> targeted_agent d e \<noteq> None))"

lemma selected_wakes:
  "distinct (map (sa_id \<circ> fst) (selected d routing e)) \<and> (\<forall>(a, g) \<in> set (selected d routing e). wakes d routing e a g)"
proof -
  define others where "others = filter (\<lambda>(a, g). \<not> (se_actor_kind e = ByAgent \<and> se_actor e = Some (sa_id a) \<and> targeted_agent d e = None))
    (agents_for_roles d (if se_type e \<in> set targeted_only_types then [] else routing (se_type e)))"
  define sel where "sel = (case targeted_agent d e of None \<Rightarrow> [] | Some ag \<Rightarrow> [ag])"
  have dist: "distinct (map (sa_id \<circ> fst) sel)" by (simp add: sel_def split: option.split)
  have w: "wakes d routing e a g" if "(a, g) \<in> set sel \<union> set others" for a g
  proof (cases "(a, g) \<in> set sel")
    case True
    then have "targeted_agent d e = Some (a, g)" by (simp add: sel_def split: option.splits)
    then show ?thesis using targeted_agent_Some by (simp add: wakes_def)
  next
    case False
    then have "(a, g) \<in> set others" using that by blast
    then show ?thesis by (auto simp: others_def wakes_def agents_for_roles_in split: if_splits)
  qed
  have "selected d routing e = foldl (\<lambda>sel ag. if sa_id (fst ag) \<in> set (map (sa_id \<circ> fst) sel) then sel else sel @ [ag]) sel others"
    by (simp add: selected_def sel_def others_def Let_def)
  then show ?thesis using selected_fold [OF dist, of others] w by fastforce
qed

lemma selected_length: "length (selected d routing e) \<le> length (sd_agents d)"
proof -
  let ?ids = "map (sa_id \<circ> fst) (selected d routing e)"
  have "set ?ids \<subseteq> sa_id ` set (sd_agents d)" using selected_wakes [of d routing e] by (auto simp: wakes_def)
  then have "card (set ?ids) \<le> length (sd_agents d)"
    by (metis card_length card_mono finite_imageI list.set_finite length_map list.set_map order_trans)
  then show ?thesis using selected_wakes [of d routing e] distinct_card [of ?ids] by simp
qed

lemma insert_run_frame [simp]:
  "sd_events (insert_run ss e now d ag) = sd_events d" "sd_agents (insert_run ss e now d ag) = sd_agents d"
  "insert_run ss e now (set_event i f d) ag = set_event i f (insert_run ss e now d ag)"
  by (simp_all add: insert_run_def set_event_def)

lemma insert_runs_set_event:
  "foldl (insert_run ss e now) (set_event i f d) sel = set_event i f (foldl (insert_run ss e now) d sel)"
  by (induction sel arbitrary: d) simp_all

lemma runs_ok_insert:
  assumes ok: "runs_ok ss n d" and max: "1 \<le> ss_run_max_attempts ss"
    and e: "\<exists>x \<in> set (sd_events d). se_id x = se_id e \<and> se_correlation x = se_correlation e \<and> se_status x = EV_DISPATCHED"
    and room: "runs_in_correlation d (se_correlation e) < ss_max_runs_per_correlation ss - 1 + n"
  shows "runs_ok ss n (insert_run ss e now d ag)"
proof (cases "list_ex (\<lambda>r. sr_agent r = sa_id (fst ag) \<and> sr_event r = se_id e) (sd_runs d)")
  case True
  then show ?thesis using ok by (simp add: insert_run_def)
next
  case False
  let ?r = "new_run ss e now (sd_next d) ag"
  have "run_fits (sd_events d) ?r" using e max by (auto simp: run_fits_def new_run_def)
  moreover have "(sr_agent ?r, sr_event ?r) \<notin> (\<lambda>r. (sr_agent r, sr_event r)) ` set (sd_runs d)"
    using False by (auto simp: list_ex_iff new_run_def)
  moreover have "sr_id ?r \<notin> sr_id ` set (sd_runs d)" using runs_okD(5) [OF ok] by (fastforce simp: new_run_def)
  moreover have "sr_id ?r < sd_next d + 1" by (simp add: new_run_def)
  moreover have "runs_in_correlation (insert_run ss e now d ag) c \<le> ss_max_runs_per_correlation ss - 1 + n" for c
    using runs_okD(8) [OF ok, of c] room False by (auto simp: insert_run_def runs_in_correlation_def count_rows_def new_run_def)
  ultimately show ?thesis
    using ok False unfolding runs_ok_def by (auto simp: insert_run_def less_Suc_eq)
qed

lemma count_insert_run:
  "runs_in_correlation (insert_run ss e now d ag) c \<le> runs_in_correlation d c + 1"
  by (simp add: insert_run_def runs_in_correlation_def count_rows_def)

lemma runs_ok_inserts:
  assumes "runs_ok ss n d" and max: "1 \<le> ss_run_max_attempts ss"
    and "\<exists>x \<in> set (sd_events d). se_id x = se_id e \<and> se_correlation x = se_correlation e \<and> se_status x = EV_DISPATCHED"
    and "runs_in_correlation d (se_correlation e) + length sel \<le> ss_max_runs_per_correlation ss - 1 + n"
  shows "runs_ok ss n (foldl (insert_run ss e now) d sel)"
  using assms(1,3,4)
proof (induction sel arbitrary: d)
  case (Cons ag sel)
  have "runs_ok ss n (insert_run ss e now d ag)" using Cons.prems by (intro runs_ok_insert max) auto
  then show ?case
    using Cons.prems count_insert_run [of ss e now d ag "se_correlation e"] by (auto intro!: Cons.IH)
qed simp

lemma runs_ok_dispatch_event:
  assumes ok: "runs_ok ss n d" and max: "1 \<le> ss_run_max_attempts ss"
    and e: "e \<in> set (sd_events d)" "se_status e = EV_PENDING"
  shows "runs_ok ss n (dispatch_event ss routing now e d)"
proof -
  have no_run: "sr_event r \<noteq> se_id e" if r: "r \<in> set (sd_runs d)" for r
  proof
    assume "sr_event r = se_id e"
    then obtain x where "x \<in> set (sd_events d)" "se_id x = se_id e" "se_status x \<noteq> EV_PENDING"
      using runs_okD(7) [OF ok r] by (auto simp: run_fits_def)
    then show False using distinct_key [OF runs_okD(2) [OF ok] _ e(1)] e(2) by blast
  qed
  have others: "runs_ok ss n (set_event (se_id e) f d)"
    if "\<And>x. se_id (f x) = se_id x" "\<And>x. se_correlation (f x) = se_correlation x" for f
    using no_run by (intro runs_ok_set_event [OF ok that]) blast
  show ?thesis
  proof (cases "loop_note ss d e")
    case (Some why)
    then show ?thesis unfolding dispatch_event_def by (simp add: runs_ok_emit others)
  next
    case None
    let ?sel = "selected d routing e"
    show ?thesis
    proof (cases "?sel = []")
      case True
      then show ?thesis using None by (simp add: dispatch_event_def Let_def others)
    next
      case False
      define created where "created = length (sd_runs (foldl (insert_run ss e now) d ?sel)) - length (sd_runs d)"
      let ?f = "\<lambda>x. x\<lparr>se_dispatched := Some now, se_status := EV_DISPATCHED, se_note := Some (RunsCreated created)\<rparr>"
      have eq: "dispatch_event ss routing now e d = foldl (insert_run ss e now) (set_event (se_id e) ?f d) ?sel"
        using None False by (simp add: dispatch_event_def Let_def insert_runs_set_event created_def)
      have here: "?f e \<in> set (sd_events (set_event (se_id e) ?f d))" using e(1) by (auto simp: set_event_def set_upd_key)
      have count: "runs_in_correlation d (se_correlation e) < ss_max_runs_per_correlation ss"
        using None by (auto simp: loop_note_def split: if_splits)
      have "runs_in_correlation (set_event (se_id e) ?f d) (se_correlation e) + length ?sel \<le> ss_max_runs_per_correlation ss - 1 + n"
        using count selected_length [of d routing e] runs_okD(1) [OF ok] by (simp add: set_event_def runs_in_correlation_def)
      then show ?thesis unfolding eq using here by (intro runs_ok_inserts others max) (auto intro!: bexI [OF _ here])
    qed
  qed
qed

subsection \<open>A whole batch\<close>

lemma get_event_set: "get_event d i = Some e \<Longrightarrow> e \<in> set (sd_events d) \<and> se_id e = i"
  by (auto simp: get_event_def dest: find_SomeD)

lemma insert_runs_events [simp]: "sd_events (foldl (insert_run ss e now) d sel) = sd_events d"
  by (induction sel arbitrary: d) simp_all

text \<open>Dispatching one event leaves the rows of the others where they are.\<close>

lemma dispatch_keeps_others:
  assumes "x \<in> set (sd_events d)" "se_id x \<noteq> se_id e"
  shows "x \<in> set (sd_events (dispatch_event ss routing now e d))"
proof -
  have "x \<in> set (upd_key se_id (se_id e) f (sd_events d))" for f using assms by (auto simp: set_upd_key)
  then show ?thesis
    by (auto simp: dispatch_event_def Let_def set_event_def emit_event_def split: option.split)
qed

lemma runs_ok_dispatch_events:
  assumes "runs_ok ss n d" and max: "1 \<le> ss_run_max_attempts ss"
    and "\<forall>e \<in> set es. e \<in> set (sd_events d) \<and> se_status e = EV_PENDING" "distinct (map se_id es)"
  shows "runs_ok ss n (foldl (\<lambda>d e. dispatch_event ss routing now e d) d es)"
  using assms(1,3,4)
proof (induction es arbitrary: d)
  case (Cons e es)
  have "runs_ok ss n (dispatch_event ss routing now e d)" using Cons.prems by (intro runs_ok_dispatch_event max) auto
  moreover have "\<forall>x \<in> set es. x \<in> set (sd_events (dispatch_event ss routing now e d)) \<and> se_status x = EV_PENDING"
  proof
    fix x assume x: "x \<in> set es"
    then have "se_id x \<noteq> se_id e" using Cons.prems(3) by auto (metis image_eqI)
    then show "x \<in> set (sd_events (dispatch_event ss routing now e d)) \<and> se_status x = EV_PENDING"
      using x Cons.prems(2) by (simp add: dispatch_keeps_others)
  qed
  ultimately show ?case using Cons by simp
qed simp

lemma distinct_split_sort:
  assumes "distinct (map key xs)"
  shows "distinct (map key (take k (sort_key f (filter p xs) @ sort_key f (filter (\<lambda>x. \<not> p x) xs))))"
proof -
  let ?l = "sort_key f (filter p xs) @ sort_key f (filter (\<lambda>x. \<not> p x) xs)"
  have x: "distinct xs" "inj_on key (set xs)" using assms by (simp_all add: distinct_map)
  have "distinct ?l" using x(1) by auto
  moreover have "inj_on key (set ?l)" by (rule inj_on_subset [OF x(2)]) auto
  ultimately have "distinct (map key ?l)" by (simp only: distinct_map)
  then show ?thesis unfolding take_map [symmetric] by (rule distinct_take)
qed

lemma dispatch_batch_rows:
  assumes "runs_ok ss n d"
  shows "\<forall>e \<in> set (dispatch_batch ss locked owner_only d). e \<in> set (sd_events d) \<and> se_status e = EV_PENDING"
    "distinct (map se_id (dispatch_batch ss locked owner_only d))"
proof -
  let ?p = "filter (\<lambda>e. se_status e = EV_PENDING \<and> se_id e \<notin> locked \<and> (owner_only \<longrightarrow> owner_event e)) (sd_events d)"
  have "distinct (map se_id ?p)" using runs_okD(2) [OF assms] by (simp add: distinct_map_filter)
  then show "distinct (map se_id (dispatch_batch ss locked owner_only d))"
    unfolding dispatch_batch_def Let_def by (rule distinct_split_sort)
  show "\<forall>e \<in> set (dispatch_batch ss locked owner_only d). e \<in> set (sd_events d) \<and> se_status e = EV_PENDING"
    by (auto simp: dispatch_batch_def Let_def dest!: in_set_takeD)
qed

lemma runs_ok_dispatch_pending:
  assumes "runs_ok ss n d" "1 \<le> ss_run_max_attempts ss"
  shows "runs_ok ss n (dispatch_pending_events ss routing locked owner_only now d)"
proof -
  have "runs_ok ss n (expire_stale_events (ss_event_ttl ss) now d)" by (rule runs_ok_expire [OF assms(1)])
  then show ?thesis
    unfolding dispatch_pending_events_def Let_def
    by (intro runs_ok_dispatch_events assms dispatch_batch_rows)
qed

section \<open>Claims and the end of a run\<close>

lemma get_run_set: "get_run d i = Some r \<Longrightarrow> r \<in> set (sd_runs d) \<and> sr_id r = i"
  by (auto simp: get_run_def dest: find_SomeD)

lemma claim_order_set [simp]: "set (claim_order d rs) = set rs"
  by (auto simp: claim_order_def)

text \<open>What is claimed has not ended: it was waiting, or the lease of its worker has run out.\<close>

lemma claimed_run:
  assumes "claim_next_run w lease locked owner_only now d = (Some i, d')"
  obtains r where "r \<in> set (sd_runs d)" "sr_id r = i" "claimable_run now r" "i \<notin> locked"
    "d' = set_run i (\<lambda>x. x\<lparr>sr_status := RUN_CLAIMED, sr_worker := Some w, sr_lease := Some (now + seconds lease), sr_attempt := sr_attempt x + 1\<rparr>) d"
proof -
  let ?c = "claim_order d (filter (\<lambda>r. claimable_run now r \<and> sr_id r \<notin> locked \<and> (owner_only \<longrightarrow> owner_run d r)) (sd_runs d))"
  obtain r rs where c: "?c = r # rs" using assms by (cases ?c) (simp_all add: claim_next_run_def)
  have "r \<in> set ?c" unfolding c by simp
  then have "r \<in> set (sd_runs d)" "claimable_run now r" "sr_id r \<notin> locked" by auto
  moreover have "sr_id r = i" "d' = set_run (sr_id r) (\<lambda>x. x\<lparr>sr_status := RUN_CLAIMED, sr_worker := Some w, sr_lease := Some (now + seconds lease), sr_attempt := sr_attempt x + 1\<rparr>) d"
    using assms by (auto simp: claim_next_run_def c)
  ultimately show ?thesis using that [of r] by simp
qed

lemma claimable_live: "claimable_run now r \<Longrightarrow> \<not> run_terminal (sr_status r)"
  by (auto simp: claimable_run_def run_terminal_def)

lemma runs_ok_claim:
  assumes ok: "runs_ok ss n d"
  shows "runs_ok ss n (snd (claim_next_run w lease locked owner_only now d))"
proof (cases "claim_next_run w lease locked owner_only now d")
  case (Pair i d')
  show ?thesis
  proof (cases i)
    case None
    then have "d' = d" using Pair by (auto simp: claim_next_run_def split: list.splits)
    then show ?thesis using ok Pair by simp
  next
    case (Some j)
    obtain r where r: "r \<in> set (sd_runs d)" "sr_id r = j" "claimable_run now r" "j \<notin> locked"
      and d': "d' = set_run j (\<lambda>x. x\<lparr>sr_status := RUN_CLAIMED, sr_worker := Some w, sr_lease := Some (now + seconds lease), sr_attempt := sr_attempt x + 1\<rparr>) d"
      by (rule claimed_run [OF Pair [unfolded Some]])
    have "0 \<le> sr_attempt r" using runs_okD(7) [OF ok r(1)] by (simp add: run_fits_def)
    then show ?thesis
      unfolding Pair snd_conv d' r(2) [symmetric]
      by (intro runs_ok_set_run [OF ok r(1) claimable_live [OF r(3)]]) (simp_all add: keeps_key_def)
  qed
qed

lemma holdsD:
  assumes "holds w d r"
  shows "r \<in> set (sd_runs d)" "\<not> run_terminal (sr_status r)"
  using assms get_run_set by (auto simp: holds_def run_terminal_def)

lemma runs_ok_own:
  assumes ok: "runs_ok ss n d" and "holds w d r" and f: "keeps_key f" "0 \<le> sr_attempt (f r)"
    "sr_status (f r) = RUN_QUEUED \<longrightarrow> sr_attempt (f r) < sr_max_attempts (f r)"
  shows "runs_ok ss n (set_run (sr_id r) f d)"
  using runs_ok_set_run [OF ok holdsD [OF assms(2)] f] .

lemma attempt_nonneg: "runs_ok ss n d \<Longrightarrow> holds w d r \<Longrightarrow> 0 \<le> sr_attempt r"
  using runs_okD(7) holdsD(1) by (auto simp: run_fits_def)

lemma runs_ok_skip: "runs_ok ss n d \<Longrightarrow> holds w d r \<Longrightarrow> runs_ok ss n (skip_run now r d)"
  unfolding skip_run_def
  by (intro runs_ok_finalize runs_ok_own) (auto simp: keeps_key_def attempt_nonneg)

lemma runs_ok_complete: "runs_ok ss n d \<Longrightarrow> holds w d r \<Longrightarrow> runs_ok ss n (complete_run he now r d)"
  unfolding complete_run_def Let_def
  by (intro runs_ok_finalize) (simp add: runs_ok_own keeps_key_def attempt_nonneg)

lemma runs_ok_trip: "runs_ok ss n d \<Longrightarrow> runs_ok ss n (trip_breaker ss now r d)"
  by (auto simp: trip_breaker_def Let_def runs_ok_emit split: option.split)

lemma runs_ok_fail:
  assumes "runs_ok ss n d" "holds w d r"
  shows "runs_ok ss n (snd (fail_run ss he retryable err now r d))"
proof (cases "retryable \<and> sr_attempt r < sr_max_attempts r")
  case True
  then show ?thesis
    unfolding fail_run_def if_P [OF True] snd_conv
    by (intro runs_ok_own [OF assms]) (auto simp: keeps_key_def attempt_nonneg [OF assms])
next
  case False
  have "runs_ok ss n (set_run (sr_id r) (\<lambda>x. x\<lparr>sr_status := RUN_DEAD, sr_completed := Some now, sr_lease := None\<rparr>) d)"
    by (intro runs_ok_own [OF assms]) (auto simp: keeps_key_def attempt_nonneg [OF assms])
  then show ?thesis
    unfolding fail_run_def if_not_P [OF False] Let_def snd_conv
    by (intro runs_ok_finalize runs_ok_emit) (simp add: runs_ok_trip)
qed

lemma runs_ok_defer:
  assumes "runs_ok ss n d" "holds w d r" "sr_attempt r \<le> sr_max_attempts r"
  shows "runs_ok ss n (defer_run retry now r d)"
proof -
  have "1 \<le> sr_max_attempts r" using runs_okD(7) [OF assms(1) holdsD(1) [OF assms(2)]] by (simp add: run_fits_def)
  then show ?thesis
    unfolding defer_run_def using assms(3)
    by (intro runs_ok_own [OF assms(1,2)]) (auto simp: keeps_key_def)
qed

lemma runs_ok_admit:
  assumes "runs_ok ss n d" "holds w d r"
  shows "runs_ok ss n (snd (admit_run ss he busy now r d))"
proof -
  have run: "runs_ok ss n (mark_running now (sr_id r) d)"
    unfolding mark_running_def
    by (intro runs_ok_own [OF assms]) (auto simp: keeps_key_def attempt_nonneg [OF assms])
  have put_off: "\<not> sr_max_attempts r < sr_attempt r \<Longrightarrow> runs_ok ss n (defer_run k now r d)" for k
    using runs_ok_defer [OF assms] by simp
  show ?thesis
    unfolding admit_run_def
    using run put_off runs_ok_skip [OF assms] runs_ok_fail [OF assms]
    by (auto split: option.split run_gate.split)
qed

lemma runs_ok_step:
  assumes "soc_step ss n d d'" "1 \<le> ss_run_max_attempts ss" "runs_ok ss n d"
  shows "runs_ok ss n d'"
  using assms
proof (induction rule: soc_step.induct)
  case (extends_lease w d r lease now)
  have "sr_status r \<noteq> RUN_QUEUED" using extends_lease.hyps by (auto simp: holds_def)
  with extends_lease show ?case
    unfolding extend_lease_def
    by (intro runs_ok_own) (auto simp: keeps_key_def attempt_nonneg)
next
  case (administers ags d grants k)
  then show ?case by (simp add: runs_ok_def runs_in_correlation_def)
qed (simp_all add: runs_ok_emit runs_ok_dispatch_pending runs_ok_claim runs_ok_admit runs_ok_complete runs_ok_fail)

end
