(* ===== verification/SocietyRunClaims.thy ===== *)
theory SocietyRunClaims
  imports SocietyRunProps SocietyPolicyProps
begin

text \<open>
  What the run lifecycle guarantees, over every interleaving of workers (\<open>soc_step\<close>), which agents an event
  wakes, and what a worker does that has lost its lease.
\<close>

section \<open>The invariant of every interleaving\<close>

interpretation society_runs: invariant_system
  "\<lambda>d. sd_events d = [] \<and> sd_runs d = [] \<and> length (sd_agents d) \<le> n"
  "\<lambda>d d'. 1 \<le> ss_run_max_attempts ss \<and> soc_step ss n d d'" "runs_ok ss n"
proof
  show "runs_ok ss n d" if "sd_events d = [] \<and> sd_runs d = [] \<and> length (sd_agents d) \<le> n" for d
    using that by (simp add: runs_ok_def runs_in_correlation_def count_rows_def)
qed (use runs_ok_step in blast)

lemma soc_run_ok:
  assumes "(soc_step ss n)\<^sup>*\<^sup>* d d'" "1 \<le> ss_run_max_attempts ss" "runs_ok ss n d"
  shows "runs_ok ss n d'"
proof -
  have "(\<lambda>d d'. 1 \<le> ss_run_max_attempts ss \<and> soc_step ss n d d')\<^sup>*\<^sup>* d d'"
    using assms(1) by (rule rtranclp_mono [THEN predicate2D, rotated]) (use assms(2) in blast)
  then show ?thesis using assms(3) by (rule society_runs.run_inv)
qed

lemma soc_start_ok:
  "sd_events d = [] \<Longrightarrow> sd_runs d = [] \<Longrightarrow> length (sd_agents d) \<le> n \<Longrightarrow> runs_ok ss n d"
  by (rule society_runs.init_inv) simp

section \<open>An example system\<close>

definition example_society :: "kdb \<Rightarrow> soc_db" where
  "example_society k =
    \<lparr>sd_events = [], sd_runs = [], sd_agents = [example_soc_agent], sd_grants = [example_grant], sd_next = 10, sd_kernel = k\<rparr>"

definition owner_message :: event_draft where
  "owner_message = \<lparr>ed_type = ''owner.message'', ed_actor_kind = ByUser, ed_actor = None, ed_subject_type = ''agent'', ed_subject = Some 1,
     ed_target = None, ed_correlation = None, ed_causation = None, ed_key = Some (ExternalKey ''m1'')\<rparr>"

definition society_at_work :: "kdb \<Rightarrow> soc_db" where
  "society_at_work k =
    snd (claim_next_run ''w1'' 120 {} False 2
      (dispatch_pending_events example_settings (\<lambda>_. []) {} False 1 (snd (emit_event owner_message 0 (example_society k)))))"

lemmas example_defs = example_settings_def example_soc_agent_def example_grant_def example_society_def owner_message_def

lemmas dispatch_defs = emit_event_def dispatch_pending_events_def dispatch_event_def dispatch_batch_def expire_stale_events_def
  loop_note_def selected_def targeted_agent_def target_id_def agent_of_def agents_for_roles_def insert_run_def new_run_def
  set_event_def set_run_def runs_in_correlation_def same_wakes_def count_rows_def owner_event_def owner_event_types_def
  targeted_only_types_def upd_where_def

lemmas claim_defs = claim_next_run_def claim_order_def claimable_run_def owner_run_def set_run_def owner_event_def owner_event_types_def

definition example_run :: "run_status \<Rightarrow> string option \<Rightarrow> instant option \<Rightarrow> int \<Rightarrow> soc_run" where
  "example_run s w l k =
    \<lparr>sr_id = 12, sr_agent = 1, sr_event = 10, sr_role = ''ops'', sr_status = s, sr_worker = w, sr_lease = l, sr_attempt = k,
     sr_max_attempts = 3, sr_not_before = None, sr_started = None, sr_completed = None, sr_cost = 0, sr_correlation = 11, sr_created = 1\<rparr>"

lemma society_at_work_runs:
  "sd_runs (society_at_work k) = [example_run RUN_CLAIMED (Some ''w1'') (Some (2 + seconds 120)) 1]"
  "map se_status (sd_events (society_at_work k)) = [EV_DISPATCHED]"
  by (simp_all add: society_at_work_def example_defs dispatch_defs claim_defs example_run_def seconds_def Let_def)

text \<open>The path to that state, for the claims about reachable states.\<close>

lemma society_at_work_steps: "(soc_step example_settings 1)\<^sup>*\<^sup>* (example_society k) (society_at_work k)"
  unfolding society_at_work_def
  by (rule rtranclp.rtrancl_into_rtrancl [OF rtranclp.rtrancl_into_rtrancl [OF r_into_rtranclp]]) (rule emits dispatches claims)+



section \<open>Whom an event wakes\<close>

lemma insert_runs_agents:
  "sr_agent ` {r \<in> set (sd_runs (foldl (insert_run ss e now) d sel)). sr_event r = se_id e} =
    sr_agent ` {r \<in> set (sd_runs d). sr_event r = se_id e} \<union> (sa_id \<circ> fst) ` set sel"
proof (induction sel arbitrary: d)
  case (Cons ag sel)
  have "sr_agent ` {r \<in> set (sd_runs (insert_run ss e now d ag)). sr_event r = se_id e} =
      insert (sa_id (fst ag)) (sr_agent ` {r \<in> set (sd_runs d). sr_event r = se_id e})"
  proof (cases "list_ex (\<lambda>r. sr_agent r = sa_id (fst ag) \<and> sr_event r = se_id e) (sd_runs d)")
    case True
    then obtain r where "r \<in> set (sd_runs d)" "sr_agent r = sa_id (fst ag)" "sr_event r = se_id e" by (auto simp: list_ex_iff)
    then show ?thesis using True by (force simp: insert_run_def)
  next
    case False
    then have "{r \<in> set (sd_runs (insert_run ss e now d ag)). sr_event r = se_id e} =
        insert (new_run ss e now (sd_next d) ag) {r \<in> set (sd_runs d). sr_event r = se_id e}"
      by (auto simp: insert_run_def new_run_def)
    then show ?thesis by (simp add: new_run_def)
  qed
  then show ?case by (simp add: Cons.IH)
qed simp

text \<open>Every agent that is to be woken is in the selection.\<close>

lemma selected_fold_ids:
  fixes sel :: "(soc_agent \<times> agent_grant) list"
  shows "(sa_id \<circ> fst) ` set (foldl (\<lambda>sel ag. if sa_id (fst ag) \<in> set (map (sa_id \<circ> fst) sel) then sel else sel @ [ag]) sel ags) =
    (sa_id \<circ> fst) ` (set sel \<union> set ags)"
proof (induction ags arbitrary: sel)
  case (Cons ag ags)
  let ?s = "\<lambda>sel ag. if sa_id (fst ag) \<in> set (map (sa_id \<circ> fst) sel) then sel else sel @ [ag]"
  have "(sa_id \<circ> fst) ` (set (?s sel ag)) = (sa_id \<circ> fst) ` (set sel \<union> {ag})" by (auto simp: image_iff)
  then have "(sa_id \<circ> fst) ` (set (?s sel ag) \<union> set ags) = (sa_id \<circ> fst) ` (set sel \<union> set (ag # ags))"
    by (simp only: image_Un list.set) blast
  then show ?case using Cons.IH [of "?s sel ag"] by (simp only: foldl.simps)
qed simp

lemma wakes_selected:
  assumes "wakes d routing e a g"
  shows "sa_id a \<in> (sa_id \<circ> fst) ` set (selected d routing e)"
proof -
  define others where "others = filter (\<lambda>(a, g). \<not> (se_actor_kind e = ByAgent \<and> se_actor e = Some (sa_id a) \<and> targeted_agent d e = None))
    (agents_for_roles d (if se_type e \<in> set targeted_only_types then [] else routing (se_type e)))"
  define sel where "sel = (case targeted_agent d e of None \<Rightarrow> [] | Some ag \<Rightarrow> [ag])"
  have "selected d routing e = foldl (\<lambda>sel ag. if sa_id (fst ag) \<in> set (map (sa_id \<circ> fst) sel) then sel else sel @ [ag]) sel others"
    by (simp add: selected_def sel_def others_def Let_def)
  then have ids: "(sa_id \<circ> fst) ` set (selected d routing e) = (sa_id \<circ> fst) ` (set sel \<union> set others)"
    by (simp only: selected_fold_ids)
  show ?thesis
  proof (cases "target_id e = Some (sa_id a)")
    case True
    have "find (\<lambda>x. sa_id x = sa_id a) (sd_agents d) \<noteq> None" "find (\<lambda>g. g_agent g = sa_id a \<and> g_enabled g) (sd_grants d) \<noteq> None"
      using assms by (auto simp: wakes_def find_None_iff)
    then obtain a' g' where "targeted_agent d e = Some (a', g')" by (auto simp: targeted_agent_def True agent_of_def)
    moreover from this have "sa_id a' = sa_id a" using targeted_agent_Some(2) True by fastforce
    ultimately show ?thesis unfolding ids by (force simp: sel_def)
  next
    case False
    then have "(a, g) \<in> set others" using assms by (auto simp: wakes_def others_def agents_for_roles_in)
    then show ?thesis unfolding ids by force
  qed
qed

lemma selected_ids: "(sa_id \<circ> fst) ` set (selected d routing e) = {sa_id a | a g. wakes d routing e a g}"
  using selected_wakes [of d routing e] wakes_selected by fastforce


definition example_event :: soc_event where
  "example_event =
    \<lparr>se_id = 10, se_type = ''goal.created'', se_actor_kind = ByAgent, se_actor = Some 1, se_subject_type = ''goal'', se_subject = None,
     se_target = None, se_correlation = 11, se_causation = None, se_depth = 0, se_key = None, se_status = EV_PENDING, se_note = None,
     se_created = 0, se_dispatched = None, se_processed = None\<rparr>"

text \<open>An agent is not woken by its own event, and is woken by the same event of another.\<close>

definition woken_by :: "soc_event \<Rightarrow> uid set" where
  "woken_by e = {sr_agent r | r. r \<in> set (sd_runs (dispatch_event example_settings (\<lambda>_. [''ops'']) 1 e
     (example_society empty_kdb\<lparr>sd_events := [e]\<rparr>))) \<and> sr_event r = se_id e}"


section \<open>A worker that has lost its lease\<close>

text \<open>The states of the story below differ in one event and one run.\<close>

definition message_event :: "soc_event_status \<Rightarrow> instant option \<Rightarrow> soc_event" where
  "message_event s t =
    \<lparr>se_id = 10, se_type = ''owner.message'', se_actor_kind = ByUser, se_actor = None, se_subject_type = ''agent'', se_subject = Some 1,
     se_target = None, se_correlation = 11, se_causation = None, se_depth = 0, se_key = Some (ExternalKey ''m1''), se_status = s,
     se_note = Some (RunsCreated 1), se_created = 0, se_dispatched = Some 1, se_processed = t\<rparr>"

definition example_rows :: "kdb \<Rightarrow> soc_event \<Rightarrow> soc_run \<Rightarrow> soc_db" where
  "example_rows k e r =
    \<lparr>sd_events = [e], sd_runs = [r], sd_agents = [example_soc_agent], sd_grants = [example_grant], sd_next = 13, sd_kernel = k\<rparr>"

lemma story_claimed:
  "society_at_work k = example_rows k (message_event EV_DISPATCHED None) (example_run RUN_CLAIMED (Some ''w1'') (Some (2 + seconds 120)) 1)"
  by (simp add: society_at_work_def example_defs dispatch_defs claim_defs example_run_def seconds_def Let_def example_rows_def message_event_def)

lemma story_admitted:
  "snd (admit_run example_settings he False 3 (example_run RUN_CLAIMED (Some ''w1'') (Some l) 1)
      (example_rows k (message_event EV_DISPATCHED None) (example_run RUN_CLAIMED (Some ''w1'') (Some l) 1))) =
    example_rows k (message_event EV_DISPATCHED None) (example_run RUN_RUNNING (Some ''w1'') (Some l) 1\<lparr>sr_started := Some 3\<rparr>)"
  by (simp add: admit_run_def example_rows_def agent_of_def get_event_def message_event_def example_run_def check_run_budget_def
      grant_of_def soften_def runs_last_hour_def soc_spend_today_def spend_where_def last_started_def mark_running_def set_run_def
      example_settings_def example_soc_agent_def example_grant_def count_rows_def Let_def List.map_filter_def owner_event_def owner_event_types_def)

lemma story_reclaimed:
  "snd (claim_next_run ''w2'' 120 {} False (seconds 200) (example_rows k (message_event EV_DISPATCHED None)
      (example_run RUN_RUNNING (Some ''w1'') (Some (2 + seconds 120)) 1\<lparr>sr_started := Some 3\<rparr>))) =
    example_rows k (message_event EV_DISPATCHED None) (example_run RUN_CLAIMED (Some ''w2'') (Some (seconds 320)) 2\<lparr>sr_started := Some 3\<rparr>)"
  by (simp add: claim_defs example_rows_def example_run_def message_event_def seconds_def)

lemma story_completed:
  "complete_run he (seconds 210) (example_run RUN_CLAIMED (Some ''w2'') (Some (seconds 320)) 2\<lparr>sr_started := Some 3\<rparr>)
      (example_rows k (message_event EV_DISPATCHED None) (example_run RUN_CLAIMED (Some ''w2'') (Some (seconds 320)) 2\<lparr>sr_started := Some 3\<rparr>)) =
    example_rows (sd_kernel (run_health he (Some example_grant) False [] (seconds 210) (example_rows k (message_event EV_DISPATCHED None) (example_run RUN_COMPLETED None None 2))))
      (message_event EV_PROCESSED (Some (seconds 210)))
      (example_run RUN_COMPLETED (Some ''w2'') None 2\<lparr>sr_started := Some 3, sr_completed := Some (seconds 210)\<rparr>)"
  by (simp add: complete_run_def example_rows_def example_run_def message_event_def set_run_def set_event_def set_grant_def run_health_def
      grant_of_def finalize_event_def run_terminal_def example_grant_def Let_def)

lemma story_failed:
  "fail_run example_settings he True err (seconds 220) (example_run RUN_COMPLETED (Some ''w2'') None 2\<lparr>sr_started := Some 3, sr_completed := t\<rparr>)
      (example_rows k e (example_run RUN_COMPLETED (Some ''w2'') None 2\<lparr>sr_started := Some 3, sr_completed := t\<rparr>)) =
    (RUN_QUEUED, example_rows k e (example_run RUN_QUEUED None None 2\<lparr>sr_started := Some 3, sr_completed := t, sr_not_before := Some (seconds 230)\<rparr>))"
  by (simp add: fail_run_def example_rows_def example_run_def set_run_def backoff_seconds_def example_settings_def seconds_def)

text \<open>
  C40: a run whose lease ran out is claimed by a second worker, which completes it; when the first worker
  then reports its model's timeout, \<open>fail_run\<close> does not look whose run it is: the completed run is queued
  again, its event stays processed, and a third worker can claim it and execute it once more.
\<close>

theorem lost_lease_requeues_completed_run:
  "(let d1 = snd (admit_run example_settings he False 3 (example_run RUN_CLAIMED (Some ''w1'') (Some (2 + seconds 120)) 1) (society_at_work k));
        d2 = snd (claim_next_run ''w2'' 120 {} False (seconds 200) d1);
        d3 = complete_run he (seconds 210) (the (get_run d2 12)) d2;
        (s, d4) = fail_run example_settings he True err (seconds 220) (the (get_run d3 12)) d3
    in map sr_status (sd_runs d1) = [RUN_RUNNING] \<and> map sr_worker (sd_runs d2) = [Some ''w2''] \<and>
       map sr_status (sd_runs d3) = [RUN_COMPLETED] \<and> map se_status (sd_events d3) = [EV_PROCESSED] \<and>
       s = RUN_QUEUED \<and> map sr_status (sd_runs d4) = [RUN_QUEUED] \<and> map se_status (sd_events d4) = [EV_PROCESSED] \<and>
       fst (claim_next_run ''w3'' 120 {} False (seconds 300) d4) = Some 12)"
proof -
  have run: "get_run (example_rows k e r) 12 = Some r" if "sr_id r = 12" for k e r by (simp add: get_run_def example_rows_def that)
  have ids: "sr_id (example_run s w l m) = 12" for s w l m by (simp add: example_run_def)
  show ?thesis
    unfolding Let_def story_claimed story_admitted story_reclaimed
    by (simp add: run ids story_completed story_failed)
      (simp add: example_rows_def example_run_def message_event_def claim_defs seconds_def)
qed

end
