(* ===== verification/SocietyIntents.thy ===== *)
theory SocietyIntents
  imports SocietyRuns
begin

text \<open>
  The life of an intent: what a decision of the model becomes (\<open>society/intents.py\<close>,
  \<open>_persist_decision\<close> of \<open>society/worker.py\<close>), its execution (\<open>_execute_pending_intents\<close>,
  \<open>society/executor.py: execute\<close>), the admission of memories (\<open>society/memory_grounding.py\<close>) and the human
  gate (\<open>society/approvals.py\<close>). The payload schemas, the redaction of secrets and the handlers themselves
  are parameters: a handler may change the database of the society and the rest of the world \<open>'w\<close>.
\<close>

section \<open>Rows\<close>

datatype intent_status =
    I_PENDING | I_EXECUTED | I_FAILED | I_DENIED | I_SKIPPED | I_AWAITING_APPROVAL | I_APPROVED | I_REJECTED

record intent_row =
  ai_id :: uid
  ai_run :: uid
  ai_agent :: uid
  ai_seq :: nat
  ai_type :: string
  ai_payload :: json
  ai_key :: string
  ai_risk :: intent_risk
  ai_decision :: policy_decision
  ai_status :: intent_status
  ai_created :: instant
  ai_executed :: "instant option"
  ai_worker :: "string option"
  ai_lease :: "instant option"
  ai_attempt :: int

datatype approval_decision = DECISION_APPROVED | DECISION_REJECTED

record intent_approval =
  iap_intent :: uid
  iap_by :: uid
  iap_decision :: approval_decision
  iap_decided :: instant
  iap_resumed :: "instant option"
  iap_executed :: "instant option"
  iap_final :: "intent_status option"

record 'w iworld =
  iw_soc :: soc_db
  iw_intents :: "intent_row list"
  iw_approvals :: "intent_approval list"
  iw_rest :: 'w

text \<open>A handler that fails leaves what it had committed before, with its failure noted on a ticket.\<close>

datatype 'w exec_result = ExecDone "soc_db \<times> 'w" | ExecFailed "soc_db \<times> 'w"

text \<open>
  \<open>ie_parse\<close> is \<open>normalize_payload\<close> and the model of \<open>PAYLOAD_MODELS\<close>: the typed payload and its dump.
\<close>

record 'w intent_env =
  ie_parse :: "intent_type \<Rightarrow> json \<Rightarrow> (intent_payload \<times> json) option"
  ie_redact :: "json \<Rightarrow> json"
  ie_sha :: "string \<Rightarrow> string"
  ie_show :: "uid \<Rightarrow> string"
  ie_handler :: "validated_intent \<Rightarrow> soc_agent \<Rightarrow> agent_grant \<Rightarrow> soc_run \<Rightarrow> soc_event \<Rightarrow> 'w iworld \<Rightarrow> 'w exec_result"

definition get_intent :: "'w iworld \<Rightarrow> uid \<Rightarrow> intent_row option" where
  "get_intent w i = find (\<lambda>r. ai_id r = i) (iw_intents w)"

definition set_intent :: "uid \<Rightarrow> (intent_row \<Rightarrow> intent_row) \<Rightarrow> 'w iworld \<Rightarrow> 'w iworld" where
  "set_intent i f w = w\<lparr>iw_intents := upd_key ai_id i f (iw_intents w)\<rparr>"

definition get_intent_approval :: "'w iworld \<Rightarrow> uid \<Rightarrow> intent_approval option" where
  "get_intent_approval w i = find (\<lambda>p. iap_intent p = i) (iw_approvals w)"

definition set_intent_approval :: "uid \<Rightarrow> (intent_approval \<Rightarrow> intent_approval) \<Rightarrow> 'w iworld \<Rightarrow> 'w iworld" where
  "set_intent_approval i f w = w\<lparr>iw_approvals := upd_key iap_intent i f (iw_approvals w)\<rparr>"

section \<open>Validation of a decision\<close>

record intent_spec =
  is_type :: string
  is_payload :: json
  is_key :: "string option"

definition derive_idempotency_key ::
  "(string \<Rightarrow> string) \<Rightarrow> (uid \<Rightarrow> string) \<Rightarrow> uid \<Rightarrow> nat \<Rightarrow> string \<Rightarrow> json \<Rightarrow> string option \<Rightarrow> string" where
  "derive_idempotency_key sha show_id run seq ty payload explicit =
    (if named explicit then show_id run @ '':'' @ take 24 (sha (the explicit))
     else show_id run @ '':'' @ take 24 (sha (show_id run @ '':'' @ show_nat seq @ '':'' @ ty @ '':'' @ dumps_json payload)))"

definition no_payload :: intent_payload where
  "no_payload = \<lparr>pl_max_budget = None, pl_price = None, pl_callee_agent = None, pl_to_agent = None, pl_scope = [], pl_owner = [],
     pl_card_url = [], pl_input = JNull\<rparr>"

text \<open>A validated intent and the payload that is stored with it.\<close>

definition validate_spec :: "'w intent_env \<Rightarrow> uid \<Rightarrow> nat \<Rightarrow> intent_spec \<Rightarrow> validated_intent \<times> json" where
  "validate_spec env run seq s =
    (let key = derive_idempotency_key (ie_sha env) (ie_show env) run seq (is_type s) (is_payload s) (is_key s) in
     case intent_type_of (is_type s) of
       None \<Rightarrow> (\<lparr>vin_seq = seq, vin_type_name = take 64 (is_type s), vin_type = None, vin_valid = False, vin_payload = no_payload,
           vin_key = key\<rparr>, is_payload s)
     | Some k \<Rightarrow>
         (case ie_parse env k (is_payload s) of
            None \<Rightarrow> (\<lparr>vin_seq = seq, vin_type_name = intent_value k, vin_type = Some k, vin_valid = False, vin_payload = no_payload,
                vin_key = key\<rparr>, is_payload s)
          | Some (p, dumped) \<Rightarrow> (\<lparr>vin_seq = seq, vin_type_name = intent_value k, vin_type = Some k, vin_valid = True, vin_payload = p,
                vin_key = key\<rparr>, dumped)))"

definition validate_intents :: "'w intent_env \<Rightarrow> uid \<Rightarrow> intent_spec list \<Rightarrow> (validated_intent \<times> json) list" where
  "validate_intents env run specs = map (\<lambda>(n, s). validate_spec env run n s) (enumerate 0 specs)"

section \<open>Persisting a decision\<close>

text \<open>
  The verdict on an intent as it is stored: the policy's, then the story's list, the number of intents and
  the number of repository reads, each of which can only turn an allowance into a denial.
\<close>

definition stored_decision ::
  "soc_settings \<Rightarrow> agent_grant \<Rightarrow> soc_agent \<Rightarrow> string list option \<Rightarrow> instant \<Rightarrow> nat \<Rightarrow> validated_intent \<Rightarrow> policy_decision \<times> nat" where
  "stored_decision ss g a story now reads v =
    (let d0 = pv_decision (evaluate_intent v (Some g) ss a False now);
         d1 = (if d0 = POLICY_ALLOW \<and> (case story of None \<Rightarrow> False | Some ok \<Rightarrow> vin_type_name v \<notin> set ok) then POLICY_DENY else d0);
         d2 = (if min (g_max_intents_per_run g) (ss_max_intents_per_run ss) \<le> int (vin_seq v) \<and> d1 = POLICY_ALLOW then POLICY_DENY else d1);
         read = (d2 = POLICY_ALLOW \<and> (case vin_type v of None \<Rightarrow> False | Some k \<Rightarrow> k \<in> set repo_read_types));
         reads' = (if read then reads + 1 else reads)
     in (if read \<and> ss_max_repo_reads_per_run ss < int reads' then POLICY_DENY else d2, reads'))"

fun initial_status :: "policy_decision \<Rightarrow> intent_status" where
  "initial_status POLICY_ALLOW = I_PENDING"
| "initial_status POLICY_DENY = I_DENIED"
| "initial_status POLICY_INVALID = I_DENIED"
| "initial_status POLICY_APPROVAL_REQUIRED = I_AWAITING_APPROVAL"

definition agent_event :: "string \<Rightarrow> soc_agent \<Rightarrow> soc_run \<Rightarrow> event_key \<Rightarrow> event_draft" where
  "agent_event ty a r key =
    \<lparr>ed_type = ty, ed_actor_kind = ByAgent, ed_actor = Some (sa_id a), ed_subject_type = [], ed_subject = None, ed_target = None,
     ed_correlation = Some (sr_correlation r), ed_causation = None, ed_key = Some key\<rparr>"

definition persist_one ::
  "'w intent_env \<Rightarrow> soc_settings \<Rightarrow> agent_grant \<Rightarrow> soc_agent \<Rightarrow> string list option \<Rightarrow> instant \<Rightarrow> (nat \<Rightarrow> uid) \<Rightarrow> soc_run \<Rightarrow>
    nat \<times> intent_row list \<times> soc_db \<Rightarrow> validated_intent \<times> json \<Rightarrow> nat \<times> intent_row list \<times> soc_db" where
  "persist_one env ss g a story now ids r st vj =
    (let (reads, rows, d) = st; (v, stored) = vj;
         (decision, reads') = stored_decision ss g a story now reads v;
         irow = \<lparr>ai_id = ids (vin_seq v), ai_run = sr_id r, ai_agent = sa_id a, ai_seq = vin_seq v, ai_type = vin_type_name v,
                ai_payload = ie_redact env stored, ai_key = vin_key v, ai_risk = risk_of (vin_type v), ai_decision = decision,
                ai_status = initial_status decision, ai_created = now, ai_executed = None, ai_worker = None, ai_lease = None, ai_attempt = 0\<rparr>;
         d' = (if decision \<in> {POLICY_DENY, POLICY_INVALID}
               then snd (emit_event (agent_event ''intent.denied'' a r (DeniedKey (vin_key v))) now d)
               else if decision = POLICY_APPROVAL_REQUIRED
               then snd (emit_event (agent_event ''intent.approval_required'' a r (ApprovalKey (vin_key v))) now d)
               else d)
     in (reads', rows @ [irow], d'))"

text \<open>
  \<open>None\<close>: a unique constraint (the idempotency key, or run and number) is violated, the transaction is rolled
  back and the run fails. \<open>ids\<close> are the fresh ids of the rows.
\<close>

definition persist_decision ::
  "'w intent_env \<Rightarrow> soc_settings \<Rightarrow> agent_grant \<Rightarrow> soc_agent \<Rightarrow> string list option \<Rightarrow> instant \<Rightarrow> (nat \<Rightarrow> uid) \<Rightarrow> soc_run \<Rightarrow> rat \<Rightarrow>
    intent_spec list \<Rightarrow> 'w iworld \<Rightarrow> 'w iworld option" where
  "persist_decision env ss g a story now ids r cost specs w =
    (let d0 = set_run (sr_id r) (\<lambda>x. x\<lparr>sr_cost := sr_cost x + cost\<rparr>) (iw_soc w);
         (_, rows, d) = foldl (persist_one env ss g a story now ids r) (0, [], d0) (validate_intents env (sr_id r) specs);
         all_rows = iw_intents w @ rows
     in if distinct (map ai_key all_rows) \<and> distinct (map (\<lambda>i. (ai_run i, ai_seq i)) all_rows)
        then Some (w\<lparr>iw_soc := d, iw_intents := all_rows\<rparr>) else None)"

section \<open>Execution\<close>

definition revalidate :: "'w intent_env \<Rightarrow> intent_row \<Rightarrow> validated_intent" where
  "revalidate env irow =
    (case intent_type_of (ai_type irow) of
       None \<Rightarrow> \<lparr>vin_seq = ai_seq irow, vin_type_name = ai_type irow, vin_type = None, vin_valid = False, vin_payload = no_payload, vin_key = ai_key irow\<rparr>
     | Some k \<Rightarrow>
         (case ie_parse env k (ai_payload irow) of
            None \<Rightarrow> \<lparr>vin_seq = ai_seq irow, vin_type_name = ai_type irow, vin_type = None, vin_valid = False, vin_payload = no_payload, vin_key = ai_key irow\<rparr>
          | Some (p, _) \<Rightarrow> \<lparr>vin_seq = ai_seq irow, vin_type_name = ai_type irow, vin_type = Some k, vin_valid = True, vin_payload = p, vin_key = ai_key irow\<rparr>))"

text \<open>The admission of a memory: every side effect of the same decision has executed.\<close>

definition non_side_effect_types :: "string list" where
  "non_side_effect_types = map intent_value ([WRITE_MEMORY, SLEEP] @ repo_read_types)"

definition side_effecting :: "string \<Rightarrow> bool" where
  "side_effecting t \<longleftrightarrow> t \<notin> set non_side_effect_types"

definition memory_admitted :: "nat \<Rightarrow> intent_row list \<Rightarrow> bool" where
  "memory_admitted seq siblings \<longleftrightarrow>
    list_all (\<lambda>s. ai_seq s \<noteq> seq \<and> side_effecting (ai_type s) \<longrightarrow> ai_status s = I_EXECUTED) siblings"

definition memory_check :: "'w iworld \<Rightarrow> intent_row \<Rightarrow> soc_run \<Rightarrow> bool" where
  "memory_check w irow r \<longleftrightarrow>
    memory_admitted (ai_seq irow) (filter (\<lambda>s. ai_run s = sr_id r \<and> ai_id s \<noteq> ai_id irow) (iw_intents w))"

text \<open>\<open>execute\<close>: the forbidden types have no handler, the handler of memories checks the siblings first.\<close>

definition execute_intent ::
  "'w intent_env \<Rightarrow> validated_intent \<Rightarrow> soc_agent \<Rightarrow> agent_grant \<Rightarrow> soc_run \<Rightarrow> soc_event \<Rightarrow> intent_row \<Rightarrow> 'w iworld \<Rightarrow> 'w exec_result" where
  "execute_intent env v a g r e irow w =
    (case vin_type v of
       None \<Rightarrow> ExecFailed (iw_soc w, iw_rest w)
     | Some k \<Rightarrow>
         if k \<in> set forbidden_intent_types then ExecFailed (iw_soc w, iw_rest w)
         else if k = WRITE_MEMORY \<and> \<not> memory_check w irow r then ExecFailed (iw_soc w, iw_rest w)
         else ie_handler env v a g r e w)"

definition execution_order :: "intent_row \<Rightarrow> nat" where
  "execution_order irow =
    (if ai_type irow = intent_value WRITE_MEMORY then 2 else if ai_type irow = intent_value RESPOND_TO_OWNER then 1 else 0)"

definition pending_rows :: "'w iworld \<Rightarrow> uid \<Rightarrow> intent_row list" where
  "pending_rows w run =
    sort_key execution_order (sort_key ai_seq (filter (\<lambda>i. ai_run i = run \<and> ai_status i = I_PENDING) (iw_intents w)))"

definition execute_one ::
  "'w intent_env \<Rightarrow> soc_settings \<Rightarrow> agent_grant \<Rightarrow> soc_agent \<Rightarrow> soc_run \<Rightarrow> soc_event \<Rightarrow> instant \<Rightarrow> intent_row \<Rightarrow> 'w iworld \<Rightarrow> 'w iworld" where
  "execute_one env ss g a r e now irow w =
    (let v = revalidate env irow; verdict = evaluate_intent v (Some g) ss a False now;
         lease = (\<lambda>w. w\<lparr>iw_soc := extend_lease (ss_run_lease ss) now (sr_id r) (iw_soc w)\<rparr>) in
     if \<not> pv_allowed verdict then set_intent (ai_id irow) (\<lambda>x. x\<lparr>ai_status := I_DENIED, ai_decision := pv_decision verdict\<rparr>) w
     else (case execute_intent env v a g r e irow w of
         ExecDone (d, x) \<Rightarrow> lease (set_intent (ai_id irow) (\<lambda>i. i\<lparr>ai_status := I_EXECUTED, ai_executed := Some now,
             ai_payload := ie_redact env (ai_payload i)\<rparr>) (w\<lparr>iw_soc := d, iw_rest := x\<rparr>))
       | ExecFailed (d, x) \<Rightarrow> lease (set_intent (ai_id irow) (\<lambda>i. i\<lparr>ai_status := I_FAILED, ai_executed := Some now,
             ai_payload := ie_redact env (ai_payload i)\<rparr>) (w\<lparr>iw_soc := d, iw_rest := x\<rparr>))))"

definition execute_pending ::
  "'w intent_env \<Rightarrow> soc_settings \<Rightarrow> agent_grant \<Rightarrow> soc_agent \<Rightarrow> soc_run \<Rightarrow> soc_event \<Rightarrow> (nat \<Rightarrow> instant) \<Rightarrow> 'w iworld \<Rightarrow> 'w iworld" where
  "execute_pending env ss g a r e clock w =
    foldl (\<lambda>w (n, irow). execute_one env ss g a r e (clock n) irow w) w (enumerate 0 (pending_rows w (sr_id r)))"

section \<open>The human gate\<close>

datatype decide_error = ApprovalNotFound | ApprovalConflict

definition approval_event :: "string \<Rightarrow> actor_kind \<Rightarrow> uid option \<Rightarrow> intent_row \<Rightarrow> soc_run \<Rightarrow> soc_event option \<Rightarrow> event_draft" where
  "approval_event ty kind who irow r e =
    \<lparr>ed_type = ty, ed_actor_kind = kind, ed_actor = who, ed_subject_type = ''intent'', ed_subject = Some (ai_id irow), ed_target = None,
     ed_correlation = Some (sr_correlation r), ed_causation = e, ed_key = Some (ApprovalEventKey (ai_key irow) ty)\<rparr>"

text \<open>The flag says that the same decision had been made already.\<close>

definition decide_intent :: "uid \<Rightarrow> uid \<Rightarrow> approval_decision \<Rightarrow> instant \<Rightarrow> 'w iworld \<Rightarrow> decide_error + bool \<times> 'w iworld" where
  "decide_intent i user decision now w =
    (case get_intent w i of
       None \<Rightarrow> Inl ApprovalNotFound
     | Some irow \<Rightarrow>
       (case get_intent_approval w i of
          Some p \<Rightarrow> if iap_decision p = decision then Inr (True, w) else Inl ApprovalConflict
        | None \<Rightarrow>
          if ai_status irow \<noteq> I_AWAITING_APPROVAL then Inl ApprovalConflict
          else (case intent_type_of (ai_type irow) of
            None \<Rightarrow> Inl ApprovalConflict
          | Some k \<Rightarrow>
            if decision = DECISION_APPROVED \<and> k \<in> set forbidden_intent_types then Inl ApprovalConflict
            else
              let approved = (decision = DECISION_APPROVED);
                  p = \<lparr>iap_intent = i, iap_by = user, iap_decision = decision, iap_decided = now, iap_resumed = None, iap_executed = None,
                       iap_final = (if approved then None else Some I_REJECTED)\<rparr>;
                  w1 = set_intent i (\<lambda>x. if approved then x\<lparr>ai_status := I_APPROVED\<rparr>
                         else x\<lparr>ai_status := I_REJECTED, ai_executed := Some now\<rparr>) (w\<lparr>iw_approvals := iw_approvals w @ [p]\<rparr>);
                  w2 = (case get_run (iw_soc w) (ai_run irow) of
                     None \<Rightarrow> w1
                   | Some r \<Rightarrow> w1\<lparr>iw_soc := snd (emit_event (approval_event (if approved then ''intent.approved'' else ''intent.rejected'')
                        ByUser (Some user) irow r (get_event (iw_soc w) (sr_event r))) now (iw_soc w))\<rparr>)
              in Inr (False, w2))))"

definition claimable_intent :: "instant \<Rightarrow> intent_row \<Rightarrow> bool" where
  "claimable_intent now i \<longleftrightarrow> ai_status i = I_APPROVED \<and> (case ai_lease i of None \<Rightarrow> True | Some t \<Rightarrow> t < now)"

definition claim_next_approved_intent :: "string \<Rightarrow> int \<Rightarrow> uid set \<Rightarrow> instant \<Rightarrow> 'w iworld \<Rightarrow> uid option \<times> 'w iworld" where
  "claim_next_approved_intent worker lease locked now w =
    (case sort_key ai_created (sort_key (\<lambda>i. if ai_type i = intent_value WRITE_MEMORY then 1 else 0 :: nat) (sort_key ai_seq
        (filter (\<lambda>i. claimable_intent now i \<and> ai_id i \<notin> locked) (iw_intents w)))) of
       [] \<Rightarrow> (None, w)
     | i # _ \<Rightarrow> (Some (ai_id i), set_intent (ai_id i) (\<lambda>x. x\<lparr>ai_worker := Some worker, ai_lease := Some (now + seconds lease),
         ai_attempt := ai_attempt x + 1\<rparr>) w))"

definition finish_intent :: "'w intent_env \<Rightarrow> uid \<Rightarrow> intent_status \<Rightarrow> instant \<Rightarrow> 'w iworld \<Rightarrow> 'w iworld" where
  "finish_intent env i s now w =
    set_intent_approval i (\<lambda>p. p\<lparr>iap_final := Some s, iap_executed := Some now\<rparr>)
      (set_intent i (\<lambda>x. x\<lparr>ai_status := s, ai_executed := Some now, ai_lease := None, ai_payload := ie_redact env (ai_payload x)\<rparr>) w)"

definition execute_approved_intent :: "'w intent_env \<Rightarrow> soc_settings \<Rightarrow> instant \<Rightarrow> uid \<Rightarrow> 'w iworld \<Rightarrow> intent_status option \<times> 'w iworld" where
  "execute_approved_intent env ss now i w =
    (case get_intent w i of
       None \<Rightarrow> (None, w)
     | Some irow \<Rightarrow>
       if ai_status irow \<noteq> I_APPROVED then (Some (ai_status irow), w)
       else if ss_resume_max_attempts ss < ai_attempt irow then (Some I_FAILED, finish_intent env i I_FAILED now w)
       else case get_run (iw_soc w) (ai_run irow) of
         None \<Rightarrow> (Some I_FAILED, finish_intent env i I_FAILED now w)
       | Some r \<Rightarrow>
       (case (agent_of (iw_soc w) (ai_agent irow), get_event (iw_soc w) (sr_event r)) of
          (Some a, Some e) \<Rightarrow>
            if \<not> ss_runtime_enabled ss
            then (Some I_APPROVED, set_intent i (\<lambda>x. x\<lparr>ai_lease := None, ai_attempt := max 0 (ai_attempt x - 1)\<rparr>) w)
            else
              let grant = grant_of (iw_soc w) (ai_agent irow);
                  emit = (\<lambda>ty w. w\<lparr>iw_soc := snd (emit_event (approval_event ty BySystem None irow r (Some e)) now (iw_soc w))\<rparr>);
                  w1 = emit ''intent.resumed'' (set_intent_approval i (\<lambda>p. p\<lparr>iap_resumed := (case iap_resumed p of None \<Rightarrow> Some now | t \<Rightarrow> t)\<rparr>) w);
                  v = revalidate env irow;
                  verdict = evaluate_intent v grant ss a True now
              in if pv_decision verdict \<noteq> POLICY_ALLOW
                 then (Some I_DENIED, emit ''intent.denied'' (finish_intent env i I_DENIED now
                   (set_intent i (\<lambda>x. x\<lparr>ai_decision := pv_decision verdict\<rparr>) w1)))
                 else (case execute_intent env v a (the grant) r e irow w1 of
                     ExecDone (d, x) \<Rightarrow> (Some I_EXECUTED, emit ''intent.executed'' (finish_intent env i I_EXECUTED now (w1\<lparr>iw_soc := d, iw_rest := x\<rparr>)))
                   | ExecFailed (d, x) \<Rightarrow> (Some I_FAILED, finish_intent env i I_FAILED now (w1\<lparr>iw_soc := d, iw_rest := x\<rparr>)))
        | _ \<Rightarrow> (Some I_FAILED, finish_intent env i I_FAILED now w)))"

end
