(* ===== verification/SocietyIntentProps.thy ===== *)
theory SocietyIntentProps
  imports SocietyIntents SocietyRunClaims
begin

text \<open>
  The intents as a system: decisions are persisted, pending intents executed, approvals decided, claimed and
  resumed by any number of workers and operators in any order, while the rest of the world changes freely.
  What executes was allowed, approved where the grant asks for it, and a memory executes only after the side
  effects it speaks about.
\<close>

section \<open>The system\<close>

text \<open>The ids of new rows are fresh; a run that has intents already resumes them instead of deciding again.\<close>

inductive intent_step :: "'w intent_env \<Rightarrow> 'w iworld \<Rightarrow> 'w iworld \<Rightarrow> bool" for env where
  persists: "persist_decision env ss g a story now ids r cost specs w = Some w' \<Longrightarrow>
    (\<forall>x \<in> set (iw_intents w). ai_run x \<noteq> sr_id r) \<Longrightarrow> inj ids \<Longrightarrow> (\<forall>n. ids n \<notin> ai_id ` set (iw_intents w)) \<Longrightarrow> intent_step env w w'"
| executes: "intent_step env w (execute_pending env ss g a r e clock w)"
| decides: "decide_intent i user dec now w = Inr (b, w') \<Longrightarrow> intent_step env w w'"
| claims_intent: "intent_step env w (snd (claim_next_approved_intent worker lease locked now w))"
| resumes: "intent_step env w (snd (execute_approved_intent env ss now i w))"
| elsewhere: "intent_step env w (w\<lparr>iw_soc := d, iw_rest := x\<rparr>)"

section \<open>The invariant\<close>

definition approval_of :: "'w iworld \<Rightarrow> uid \<Rightarrow> approval_decision option" where
  "approval_of w i = map_option iap_decision (get_intent_approval w i)"

definition lawful :: "policy_decision \<Rightarrow> approval_decision option \<Rightarrow> bool" where
  "lawful d ap \<longleftrightarrow> d = POLICY_ALLOW \<and> ap = None \<or> d = POLICY_APPROVAL_REQUIRED \<and> ap = Some DECISION_APPROVED"

fun gate_state :: "intent_status \<Rightarrow> string \<Rightarrow> policy_decision \<Rightarrow> approval_decision option \<Rightarrow> bool" where
  "gate_state I_PENDING t d ap = (d = POLICY_ALLOW \<and> ap = None)"
| "gate_state I_AWAITING_APPROVAL t d ap = (d = POLICY_APPROVAL_REQUIRED \<and> ap = None)"
| "gate_state I_APPROVED t d ap = (d = POLICY_APPROVAL_REQUIRED \<and> ap = Some DECISION_APPROVED)"
| "gate_state I_REJECTED t d ap = (ap = Some DECISION_REJECTED)"
| "gate_state I_EXECUTED t d ap = (lawful d ap \<and> (\<exists>k. intent_type_of t = Some k \<and> k \<notin> set forbidden_intent_types))"
| "gate_state I_FAILED t d ap = lawful d ap"
| "gate_state I_DENIED t d ap = (ap \<noteq> Some DECISION_REJECTED)"
| "gate_state I_SKIPPED t d ap = False"

definition siblings_done :: "intent_row list \<Rightarrow> intent_row \<Rightarrow> bool" where
  "siblings_done rows i \<longleftrightarrow>
    (\<forall>s \<in> set rows. ai_run s = ai_run i \<and> ai_id s \<noteq> ai_id i \<and> side_effecting (ai_type s) \<longrightarrow> ai_status s = I_EXECUTED)"

definition gate_ok :: "'w iworld \<Rightarrow> bool" where
  "gate_ok w \<longleftrightarrow>
    distinct (map ai_id (iw_intents w)) \<and> distinct (map (\<lambda>i. (ai_run i, ai_seq i)) (iw_intents w)) \<and>
    (\<forall>p \<in> set (iw_approvals w). iap_intent p \<in> ai_id ` set (iw_intents w)) \<and>
    (\<forall>i \<in> set (iw_intents w). gate_state (ai_status i) (ai_type i) (ai_decision i) (approval_of w (ai_id i)) \<and>
      (ai_status i = I_EXECUTED \<and> ai_type i = intent_value WRITE_MEMORY \<longrightarrow> siblings_done (iw_intents w) i))"

lemma gate_okD:
  assumes "gate_ok w"
  shows "distinct (map ai_id (iw_intents w))" "distinct (map (\<lambda>i. (ai_run i, ai_seq i)) (iw_intents w))"
    "\<And>p. p \<in> set (iw_approvals w) \<Longrightarrow> iap_intent p \<in> ai_id ` set (iw_intents w)"
    "\<And>i. i \<in> set (iw_intents w) \<Longrightarrow> gate_state (ai_status i) (ai_type i) (ai_decision i) (approval_of w (ai_id i))"
    "\<And>i. i \<in> set (iw_intents w) \<Longrightarrow> ai_status i = I_EXECUTED \<Longrightarrow> ai_type i = intent_value WRITE_MEMORY \<Longrightarrow> siblings_done (iw_intents w) i"
  using assms unfolding gate_ok_def by auto

text \<open>Only the intents and the approvals matter.\<close>

lemma gate_ok_cong:
  "iw_intents w' = iw_intents w \<Longrightarrow> iw_approvals w' = iw_approvals w \<Longrightarrow> gate_ok w' = gate_ok w"
  by (simp add: gate_ok_def approval_of_def get_intent_approval_def)

lemma gate_ok_soc [simp]: "gate_ok (w\<lparr>iw_soc := d\<rparr>) = gate_ok w" "gate_ok (w\<lparr>iw_rest := x\<rparr>) = gate_ok w"
  by (rule gate_ok_cong; simp)+

lemma approval_of_soc [simp]: "approval_of (w\<lparr>iw_soc := d\<rparr>) i = approval_of w i" "approval_of (w\<lparr>iw_rest := x\<rparr>) i = approval_of w i"
  by (simp_all add: approval_of_def get_intent_approval_def)

lemma approval_of_set_intent [simp]: "approval_of (set_intent i f w) j = approval_of w j"
  by (simp add: approval_of_def get_intent_approval_def set_intent_def)

lemma approval_of_set_approval:
  assumes "\<And>p. iap_intent (f p) = iap_intent p" "\<And>p. iap_decision (f p) = iap_decision p"
  shows "approval_of (set_intent_approval i f w) j = approval_of w j"
proof -
  have "map_option iap_decision (find (\<lambda>p. iap_intent p = j) (upd_key iap_intent i f xs)) = map_option iap_decision (find (\<lambda>p. iap_intent p = j) xs)" for xs
    by (induction xs) (auto simp: assms)
  then show ?thesis by (simp add: approval_of_def get_intent_approval_def set_intent_approval_def)
qed

lemma gate_ok_set_approval:
  assumes "gate_ok w" "\<And>p. iap_intent (f p) = iap_intent p" "\<And>p. iap_decision (f p) = iap_decision p"
  shows "gate_ok (set_intent_approval i f w)"
proof -
  have "iw_intents (set_intent_approval i f w) = iw_intents w" by (simp add: set_intent_approval_def)
  moreover have "iap_intent p \<in> ai_id ` set (iw_intents w)" if "p \<in> set (iw_approvals (set_intent_approval i f w))" for p
    using that gate_okD(3) [OF assms(1)] assms(2) by (auto simp: set_intent_approval_def set_upd_key)
  ultimately show ?thesis
    using assms(1) unfolding gate_ok_def by (simp add: approval_of_set_approval [OF assms(2,3)])
qed

text \<open>An intent that has not executed may change, when its new state is lawful and a memory's siblings are done.\<close>

definition keeps_row :: "(intent_row \<Rightarrow> intent_row) \<Rightarrow> bool" where
  "keeps_row f \<longleftrightarrow> (\<forall>x. ai_id (f x) = ai_id x \<and> ai_run (f x) = ai_run x \<and> ai_seq (f x) = ai_seq x \<and> ai_type (f x) = ai_type x)"

lemma gate_ok_set_intent:
  assumes ok: "gate_ok w" and i: "i \<in> set (iw_intents w)" "ai_status i \<noteq> I_EXECUTED" and f: "keeps_row f"
    and new: "gate_state (ai_status (f i)) (ai_type i) (ai_decision (f i)) (approval_of w (ai_id i))"
    and memory: "ai_status (f i) = I_EXECUTED \<Longrightarrow> ai_type i = intent_value WRITE_MEMORY \<Longrightarrow> siblings_done (iw_intents w) i"
  shows "gate_ok (set_intent (ai_id i) f w)"
proof -
  have key: "\<And>x. ai_id (f x) = ai_id x" "\<And>x. ai_run (f x) = ai_run x" "\<And>x. ai_seq (f x) = ai_seq x" "\<And>x. ai_type (f x) = ai_type x"
    using f by (simp_all add: keeps_row_def)
  let ?rows = "upd_key ai_id (ai_id i) f (iw_intents w)"
  have maps: "map ai_id ?rows = map ai_id (iw_intents w)"
    "map (\<lambda>i. (ai_run i, ai_seq i)) ?rows = map (\<lambda>i. (ai_run i, ai_seq i)) (iw_intents w)"
    by (rule map_key_upd_key; simp add: key)+
  have same: "y = i" if "y \<in> set (iw_intents w)" "ai_id y = ai_id i" for y
    using distinct_key [OF gate_okD(1) [OF ok] that(1) i(1) that(2)] .
  have kept: "siblings_done ?rows x" if "siblings_done (iw_intents w) y" "ai_id x = ai_id y" "ai_run x = ai_run y" for x y
    unfolding siblings_done_def
  proof (intro ballI impI)
    fix s assume s: "s \<in> set ?rows" "ai_run s = ai_run x \<and> ai_id s \<noteq> ai_id x \<and> side_effecting (ai_type s)"
    obtain s0 where s0: "s0 \<in> set (iw_intents w)" "s = (if ai_id s0 = ai_id i then f s0 else s0)" using s(1) by (auto simp: set_upd_key)
    have "ai_run s0 = ai_run y \<and> ai_id s0 \<noteq> ai_id y \<and> side_effecting (ai_type s0)" using s(2) s0(2) that(2,3) by (auto simp: key split: if_splits)
    then have "ai_status s0 = I_EXECUTED" using that(1) s0(1) unfolding siblings_done_def by blast
    then show "ai_status s = I_EXECUTED" using s0 same i(2) by auto
  qed
  have rows: "gate_state (ai_status x) (ai_type x) (ai_decision x) (approval_of w (ai_id x)) \<and>
      (ai_status x = I_EXECUTED \<and> ai_type x = intent_value WRITE_MEMORY \<longrightarrow> siblings_done ?rows x)" if x: "x \<in> set ?rows" for x
  proof -
    obtain y where y: "y \<in> set (iw_intents w)" "x = (if ai_id y = ai_id i then f y else y)" using x by (auto simp: set_upd_key)
    show ?thesis
    proof (cases "ai_id y = ai_id i")
      case True
      then have "y = i" by (rule same [OF y(1)])
      then have "x = f i" using y(2) by simp
      then show ?thesis using new memory kept [of i "f i"] by (simp add: key)
    next
      case False
      then show ?thesis using y gate_okD(4,5) [OF ok] kept [of y x] by simp
    qed
  qed
  have "\<forall>p \<in> set (iw_approvals w). iap_intent p \<in> ai_id ` set ?rows"
    using gate_okD(3) [OF ok] maps(1) by (metis list.set_map)
  then show ?thesis
    using gate_okD(1,2) [OF ok] rows unfolding gate_ok_def by (simp add: maps set_intent_def [of "ai_id i"] approval_of_def get_intent_approval_def)
qed

lemma get_intent_row: "get_intent w i = Some x \<Longrightarrow> x \<in> set (iw_intents w) \<and> ai_id x = i"
  by (auto simp: get_intent_def dest: find_SomeD)

section \<open>Persisting\<close>

lemma stored_decision_ALLOW: "fst (stored_decision ss g a story now n v) = POLICY_ALLOW \<Longrightarrow>
    pv_allowed (evaluate_intent v (Some g) ss a False now)"
  by (auto simp: stored_decision_def pv_allowed_def Let_def split: if_splits)

lemma initial_gate: "gate_state (initial_status d) t d None"
  by (cases d) simp_all

lemma initial_status_not_executed: "initial_status d \<noteq> I_EXECUTED"
  by (cases d) simp_all

lemma persist_fold_rows:
  "\<exists>rows'. fst (snd (foldl (persist_one env ss g a story now ids r) (n, rows, d) vs)) = rows @ rows' \<and>
    (\<forall>x \<in> set rows'. ai_run x = sr_id r \<and> ai_status x = initial_status (ai_decision x)) \<and>
    map ai_id rows' = map (\<lambda>vj. ids (vin_seq (fst vj))) vs"
proof (induction vs arbitrary: n rows d)
  case (Cons v vs)
  obtain dec reads' where dec: "stored_decision ss g a story now n (fst v) = (dec, reads')" by (metis surj_pair)
  obtain n' row' d' where step: "persist_one env ss g a story now ids r (n, rows, d) v = (n', rows @ [row'], d')"
      "ai_run row' = sr_id r" "ai_status row' = initial_status (ai_decision row')" "ai_id row' = ids (vin_seq (fst v))"
    using dec by (cases v) (auto simp: persist_one_def Let_def)
  obtain rows' where rows': "fst (snd (foldl (persist_one env ss g a story now ids r) (n', rows @ [row'], d') vs)) = (rows @ [row']) @ rows'"
      "\<forall>x \<in> set rows'. ai_run x = sr_id r \<and> ai_status x = initial_status (ai_decision x)" "map ai_id rows' = map (\<lambda>vj. ids (vin_seq (fst vj))) vs"
    using Cons.IH by blast
  show ?case
    by (rule exI [of _ "row' # rows'"]) (use step rows' in simp)
qed simp

lemma validate_seq: "map (\<lambda>vj. vin_seq (fst vj)) (validate_intents env run specs) = [0..<length specs]"
proof -
  have "vin_seq (fst (validate_spec env run n s)) = n" for n s
    by (simp add: validate_spec_def Let_def split: option.split)
  then show ?thesis by (simp add: validate_intents_def comp_def case_prod_beta enumerate_eq_zip)
qed

lemma gate_ok_persist:
  assumes ok: "gate_ok w" and p: "persist_decision env ss g a story now ids r cost specs w = Some w'"
    and new: "\<forall>x \<in> set (iw_intents w). ai_run x \<noteq> sr_id r" and ids: "inj ids" "\<forall>n. ids n \<notin> ai_id ` set (iw_intents w)"
  shows "gate_ok w'"
proof -
  let ?d0 = "set_run (sr_id r) (\<lambda>x. x\<lparr>sr_cost := sr_cost x + cost\<rparr>) (iw_soc w)"
  let ?vs = "validate_intents env (sr_id r) specs"
  obtain n rows d where fold: "foldl (persist_one env ss g a story now ids r) (0, [], ?d0) ?vs = (n, rows, d)" by (rule prod_cases3)
  have rows: "\<forall>x \<in> set rows. ai_run x = sr_id r \<and> ai_status x = initial_status (ai_decision x)"
    "map ai_id rows = map ids [0..<length specs]"
  proof -
    have "map (\<lambda>vj. ids (vin_seq (fst vj))) ?vs = map ids [0..<length specs]"
      unfolding validate_seq [of env "sr_id r" specs, symmetric] map_map comp_def ..
    then show "\<forall>x \<in> set rows. ai_run x = sr_id r \<and> ai_status x = initial_status (ai_decision x)" "map ai_id rows = map ids [0..<length specs]"
      using persist_fold_rows [of env ss g a story now ids r 0 "[]" ?d0 ?vs] unfolding fold by simp_all
  qed
  have w': "w' = w\<lparr>iw_soc := d, iw_intents := iw_intents w @ rows\<rparr>" and dist: "distinct (map (\<lambda>i. (ai_run i, ai_seq i)) (iw_intents w @ rows))"
    using p by (auto simp: persist_decision_def Let_def fold split: if_splits)
  have "distinct (map ai_id rows)" unfolding rows(2) using inj_on_subset [OF ids(1) subset_UNIV] by (simp add: distinct_map)
  moreover have "set (map ai_id rows) \<inter> ai_id ` set (iw_intents w) = {}" unfolding rows(2) using ids(2) by auto
  ultimately have 1: "distinct (map ai_id (iw_intents w @ rows))" using gate_okD(1) [OF ok] by auto
  have none: "approval_of w (ai_id x) = None" if "x \<in> set rows" for x
  proof -
    have "ai_id x \<in> set (map ai_id rows)" using that by simp
    then have "ai_id x \<in> range ids" unfolding rows(2) by auto
    then have "\<forall>p \<in> set (iw_approvals w). iap_intent p \<noteq> ai_id x" using gate_okD(3) [OF ok] ids(2) by force
    then show ?thesis by (auto simp: approval_of_def get_intent_approval_def find_None_iff)
  qed
  have rows_ok: "gate_state (ai_status i) (ai_type i) (ai_decision i) (approval_of w (ai_id i)) \<and>
      (ai_status i = I_EXECUTED \<and> ai_type i = intent_value WRITE_MEMORY \<longrightarrow> siblings_done (iw_intents w @ rows) i)"
    if i: "i \<in> set (iw_intents w @ rows)" for i
  proof (cases "i \<in> set rows")
    case True
    then show ?thesis using rows(1) none by (simp add: initial_gate initial_status_not_executed)
  next
    case False
    then have old: "i \<in> set (iw_intents w)" using i by simp
    have "s \<notin> set rows" if "ai_run s = ai_run i" for s using that old new rows(1) by metis
    then have "siblings_done (iw_intents w) i \<Longrightarrow> siblings_done (iw_intents w @ rows) i"
      unfolding siblings_done_def set_append by blast
    then show ?thesis using gate_okD(4,5) [OF ok old] by blast
  qed
  have same: "approval_of w' = approval_of w" "iw_intents w' = iw_intents w @ rows" "iw_approvals w' = iw_approvals w"
    by (simp_all add: w' approval_of_def get_intent_approval_def fun_eq_iff)
  have "\<forall>p \<in> set (iw_approvals w). iap_intent p \<in> ai_id ` set (iw_intents w @ rows)" using gate_okD(3) [OF ok] by (simp add: image_Un)
  then show ?thesis unfolding gate_ok_def same using 1 dist rows_ok by blast
qed

section \<open>Execution\<close>

lemma allowed_type:
  assumes "pv_allowed (evaluate_intent v grant ss a ap now)"
  shows "\<exists>k. vin_type v = Some k \<and> k \<notin> set forbidden_intent_types" "grant \<noteq> None"
  using assms by (auto simp: evaluate_intent_def pv_allowed_def Let_def grant_refusal_def split: option.splits if_splits)

lemma revalidate_type: "vin_type (revalidate env i) = Some k \<Longrightarrow> intent_type_of (ai_type i) = Some k"
  by (auto simp: revalidate_def split: option.splits)

lemma executed_memory:
  assumes "execute_intent env (revalidate env i) a g r e i w = ExecDone x" "ai_type i = intent_value WRITE_MEMORY" "ai_run i = sr_id r"
    and "distinct (map (\<lambda>i. (ai_run i, ai_seq i)) (iw_intents w))" "distinct (map ai_id (iw_intents w))" "i \<in> set (iw_intents w)"
  shows "siblings_done (iw_intents w) i"
proof -
  have "intent_type_of (ai_type i) = Some WRITE_MEMORY" unfolding assms(2) by code_simp
  then have "vin_type (revalidate env i) = Some WRITE_MEMORY" if "vin_type (revalidate env i) \<noteq> None"
    using that revalidate_type by fastforce
  then have "memory_check w i r" using assms(1) by (auto simp: execute_intent_def split: option.splits if_splits)
  then have m: "ai_seq s \<noteq> ai_seq i \<and> side_effecting (ai_type s) \<longrightarrow> ai_status s = I_EXECUTED"
    if "s \<in> set (iw_intents w)" "ai_run s = ai_run i" "ai_id s \<noteq> ai_id i" for s
    using that assms(3) by (auto simp: memory_check_def memory_admitted_def list_all_iff)
  show ?thesis
    unfolding siblings_done_def
  proof (intro ballI impI)
    fix s assume s: "s \<in> set (iw_intents w)" "ai_run s = ai_run i \<and> ai_id s \<noteq> ai_id i \<and> side_effecting (ai_type s)"
    have "ai_seq s \<noteq> ai_seq i" using distinct_key [OF assms(4) s(1) assms(6)] s(2) by auto
    then show "ai_status s = I_EXECUTED" using m s by blast
  qed
qed

text \<open>A pending intent of the run that is executed, and the others of the run that stay as they were.\<close>

lemma gate_ok_execute_one:
  assumes ok: "gate_ok w" and i: "i \<in> set (iw_intents w)" "ai_status i = I_PENDING" "ai_run i = sr_id r"
  shows "gate_ok (execute_one env ss g a r e now i w) \<and>
    (\<forall>x \<in> set (iw_intents w). ai_id x \<noteq> ai_id i \<longrightarrow> x \<in> set (iw_intents (execute_one env ss g a r e now i w)))"
proof -
  let ?v = "revalidate env i"
  have ap: "ai_decision i = POLICY_ALLOW" "approval_of w (ai_id i) = None" using gate_okD(4) [OF ok i(1)] i(2) by simp_all
  have others: "x \<in> set (iw_intents (set_intent (ai_id i) f w'))"
    if "x \<in> set (iw_intents w)" "ai_id x \<noteq> ai_id i" "iw_intents w' = iw_intents w" for x f and w' :: "'a iworld"
    using that by (auto simp: set_intent_def set_upd_key)
  show ?thesis
  proof (cases "pv_allowed (evaluate_intent ?v (Some g) ss a False now)")
    case False
    let ?f = "\<lambda>x. x\<lparr>ai_status := I_DENIED, ai_decision := pv_decision (evaluate_intent ?v (Some g) ss a False now)\<rparr>"
    have "gate_ok (set_intent (ai_id i) ?f w)"
      by (rule gate_ok_set_intent [OF ok i(1)]) (simp_all add: i(2) keeps_row_def ap)
    then show ?thesis using False others by (simp add: execute_one_def Let_def)
  next
    case True
    obtain k where k: "intent_type_of (ai_type i) = Some k" "k \<notin> set forbidden_intent_types"
      using allowed_type(1) [OF True] revalidate_type by blast
    show ?thesis
    proof (cases "execute_intent env ?v a g r e i w")
      case (ExecDone dx)
      obtain d x where dx: "dx = (d, x)" by (cases dx)
      let ?f = "\<lambda>i. i\<lparr>ai_status := I_EXECUTED, ai_executed := Some now, ai_payload := ie_redact env (ai_payload i)\<rparr>"
      have "gate_ok (set_intent (ai_id i) ?f (w\<lparr>iw_soc := d, iw_rest := x\<rparr>))"
        by (rule gate_ok_set_intent)
          (use ok i ap k executed_memory [OF ExecDone _ i(3) gate_okD(2,1) [OF ok] i(1)] in \<open>auto simp: keeps_row_def lawful_def\<close>)
      then show ?thesis using True others by (simp add: execute_one_def Let_def ExecDone dx)
    next
      case (ExecFailed dx)
      obtain d x where dx: "dx = (d, x)" by (cases dx)
      let ?f = "\<lambda>i. i\<lparr>ai_status := I_FAILED, ai_executed := Some now, ai_payload := ie_redact env (ai_payload i)\<rparr>"
      have "gate_ok (set_intent (ai_id i) ?f (w\<lparr>iw_soc := d, iw_rest := x\<rparr>))"
        by (rule gate_ok_set_intent) (use ok i ap in \<open>auto simp: keeps_row_def lawful_def\<close>)
      then show ?thesis using True others by (simp add: execute_one_def Let_def ExecFailed dx)
    qed
  qed
qed

lemma gate_ok_execute_rows:
  assumes "gate_ok w" "\<forall>(n, i) \<in> set rows. i \<in> set (iw_intents w) \<and> ai_status i = I_PENDING \<and> ai_run i = sr_id r" "distinct (map (ai_id \<circ> snd) rows)"
  shows "gate_ok (foldl (\<lambda>w (n, row). execute_one env ss g a r e (clock n) row w) w rows)"
  using assms
proof (induction rows arbitrary: w)
  case (Cons ni rows)
  obtain n i where ni: "ni = (n, i)" by (cases ni)
  note one = gate_ok_execute_one [of w i r env ss g a e "clock n"]
  have i: "i \<in> set (iw_intents w)" "ai_status i = I_PENDING" "ai_run i = sr_id r" using Cons.prems(2) by (auto simp: ni)
  show ?case
    unfolding ni foldl.simps prod.case
  proof (rule Cons.IH)
    show "gate_ok (execute_one env ss g a r e (clock n) i w)" using one Cons.prems(1) i by blast
    show "\<forall>(m, x) \<in> set rows. x \<in> set (iw_intents (execute_one env ss g a r e (clock n) i w)) \<and> ai_status x = I_PENDING \<and> ai_run x = sr_id r"
    proof (clarify)
      fix m x assume x: "(m, x) \<in> set rows"
      have "ai_id x \<noteq> ai_id i" using Cons.prems(3) x by (force simp: ni)
      then show "x \<in> set (iw_intents (execute_one env ss g a r e (clock n) i w)) \<and> ai_status x = I_PENDING \<and> ai_run x = sr_id r"
        using one Cons.prems(1,2) i x by auto
    qed
    show "distinct (map (ai_id \<circ> snd) rows)" using Cons.prems(3) by (simp add: comp_def)
  qed
qed simp

lemma gate_ok_execute_pending:
  assumes "gate_ok w"
  shows "gate_ok (execute_pending env ss g a r e clock w)"
proof -
  let ?rows = "pending_rows w (sr_id r)"
  have "map (ai_id \<circ> snd) (enumerate 0 ?rows) = map ai_id ?rows" by (simp only: map_map [symmetric] map_snd_enumerate)
  moreover have "distinct (map ai_id ?rows)"
  proof -
    have d: "distinct (iw_intents w)" "inj_on ai_id (set (iw_intents w))" using gate_okD(1) [OF assms] by (simp_all add: distinct_map)
    have "set ?rows \<subseteq> set (iw_intents w)" by (auto simp: pending_rows_def)
    then have "inj_on ai_id (set ?rows)" by (rule inj_on_subset [OF d(2)])
    moreover have "distinct ?rows" using d(1) by (simp add: pending_rows_def)
    ultimately show ?thesis by (simp add: distinct_map)
  qed
  moreover have "\<forall>(n, i) \<in> set (enumerate 0 ?rows). i \<in> set (iw_intents w) \<and> ai_status i = I_PENDING \<and> ai_run i = sr_id r"
  proof (clarify)
    fix n i assume "(n, i) \<in> set (enumerate 0 ?rows)"
    then have "i \<in> set ?rows" by (auto simp: in_set_enumerate_eq)
    then show "i \<in> set (iw_intents w) \<and> ai_status i = I_PENDING \<and> ai_run i = sr_id r" by (simp add: pending_rows_def)
  qed
  ultimately show ?thesis unfolding execute_pending_def by (intro gate_ok_execute_rows assms) simp_all
qed

section \<open>The human gate\<close>

lemma gate_ok_decide:
  assumes ok: "gate_ok w" and d: "decide_intent i user dec now w = Inr (b, w')"
  shows "gate_ok w'"
proof (cases "get_intent_approval w i")
  case (Some p)
  then show ?thesis using assms by (auto simp: decide_intent_def split: option.splits if_splits)
next
  case None
  obtain row where row: "get_intent w i = Some row" "ai_status row = I_AWAITING_APPROVAL"
    using d None by (auto simp: decide_intent_def split: option.splits if_splits)
  have i: "row \<in> set (iw_intents w)" "ai_id row = i" using get_intent_row [OF row(1)] by simp_all
  obtain k where k: "intent_type_of (ai_type row) = Some k"
    using d None row by (auto simp: decide_intent_def split: option.splits if_splits)
  define p where "p = \<lparr>iap_intent = i, iap_by = user, iap_decision = dec, iap_decided = now, iap_resumed = None, iap_executed = None,
      iap_final = (if dec = DECISION_APPROVED then None else Some I_REJECTED)\<rparr>"
  define f :: "intent_row \<Rightarrow> intent_row" where "f = (\<lambda>x. if dec = DECISION_APPROVED then x\<lparr>ai_status := I_APPROVED\<rparr> else x\<lparr>ai_status := I_REJECTED, ai_executed := Some now\<rparr>)"
  define w1 where "w1 = set_intent i f (w\<lparr>iw_approvals := iw_approvals w @ [p]\<rparr>)"
  have w': "iw_intents w' = iw_intents w1" "iw_approvals w' = iw_approvals w1"
    using d None row k by (auto simp: decide_intent_def Let_def w1_def f_def p_def set_intent_def split: option.splits if_splits)
  have req: "ai_decision row = POLICY_APPROVAL_REQUIRED" using gate_okD(4) [OF ok i(1)] row(2) by simp
  have here: "approval_of (w\<lparr>iw_approvals := iw_approvals w @ [p]\<rparr>) j = (if j = i then Some dec else approval_of w j)" for j
    using None by (auto simp: approval_of_def get_intent_approval_def find_append p_def split: option.split)
  let ?rows = "upd_key ai_id i f (iw_intents w)"
  have keep: "keeps_row f" by (simp add: keeps_row_def f_def)
  have maps: "map ai_id ?rows = map ai_id (iw_intents w)"
    "map (\<lambda>i. (ai_run i, ai_seq i)) ?rows = map (\<lambda>i. (ai_run i, ai_seq i)) (iw_intents w)"
    using keep by (auto intro!: map_key_upd_key simp: keeps_row_def)
  have same: "y = row" if "y \<in> set (iw_intents w)" "ai_id y = i" for y
    using distinct_key [OF gate_okD(1) [OF ok] that(1) i(1)] that(2) i(2) by simp
  have kept: "siblings_done ?rows x" if "siblings_done (iw_intents w) x" "ai_id x \<noteq> i" for x
    unfolding siblings_done_def
  proof (intro ballI impI)
    fix s assume s: "s \<in> set ?rows" "ai_run s = ai_run x \<and> ai_id s \<noteq> ai_id x \<and> side_effecting (ai_type s)"
    obtain s0 where s0: "s0 \<in> set (iw_intents w)" "s = (if ai_id s0 = i then f s0 else s0)" using s(1) by (auto simp: set_upd_key)
    have "ai_run s0 = ai_run x \<and> ai_id s0 \<noteq> ai_id x \<and> side_effecting (ai_type s0)" using s(2) s0(2) by (auto simp: f_def split: if_splits)
    then have "ai_status s0 = I_EXECUTED" using that(1) s0(1) unfolding siblings_done_def by blast
    then show "ai_status s = I_EXECUTED" using s0 same row(2) by (auto split: if_splits)
  qed
  have rows: "gate_state (ai_status x) (ai_type x) (ai_decision x) (approval_of w1 (ai_id x)) \<and>
      (ai_status x = I_EXECUTED \<and> ai_type x = intent_value WRITE_MEMORY \<longrightarrow> siblings_done ?rows x)" if x: "x \<in> set ?rows" for x
  proof -
    obtain y where y: "y \<in> set (iw_intents w)" "x = (if ai_id y = i then f y else y)" using x by (auto simp: set_upd_key)
    show ?thesis
    proof (cases "ai_id y = i")
      case True
      have "y = row" by (rule same [OF y(1) True])
      then have "x = f row" using y(2) True by simp
      moreover have "dec = DECISION_APPROVED \<or> dec = DECISION_REJECTED" by (cases dec) simp_all
      ultimately show ?thesis using req i(2) by (auto simp: w1_def here f_def)
    next
      case False
      then have "x = y" using y(2) by simp
      then show ?thesis using gate_okD(4,5) [OF ok y(1)] kept [of y] False by (simp add: w1_def here)
    qed
  qed
  have "\<forall>q \<in> set (iw_approvals w @ [p]). iap_intent q \<in> ai_id ` set ?rows"
  proof -
    have "ai_id ` set ?rows = ai_id ` set (iw_intents w)" by (metis list.set_map maps(1))
    moreover have "i \<in> ai_id ` set (iw_intents w)" using i by blast
    ultimately show ?thesis using gate_okD(3) [OF ok] by (auto simp: p_def)
  qed
  then have "gate_ok w1"
    using gate_okD(1,2) [OF ok] rows unfolding gate_ok_def by (simp add: maps w1_def set_intent_def)
  then show ?thesis using gate_ok_cong [OF w'] by simp
qed

lemma gate_ok_claim:
  assumes ok: "gate_ok w"
  shows "gate_ok (snd (claim_next_approved_intent worker lease locked now w))"
proof -
  let ?c = "sort_key ai_created (sort_key (\<lambda>i. if ai_type i = intent_value WRITE_MEMORY then 1 else 0 :: nat) (sort_key ai_seq
        (filter (\<lambda>i. claimable_intent now i \<and> ai_id i \<notin> locked) (iw_intents w))))"
  show ?thesis
  proof (cases ?c)
    case Nil
    then show ?thesis using ok by (simp add: claim_next_approved_intent_def)
  next
    case (Cons i more)
    have "i \<in> set ?c" unfolding Cons by simp
    then have i: "i \<in> set (iw_intents w)" "ai_status i = I_APPROVED" by (auto simp: claimable_intent_def)
    let ?f = "\<lambda>x. x\<lparr>ai_worker := Some worker, ai_lease := Some (now + seconds lease), ai_attempt := ai_attempt x + 1\<rparr>"
    have "gate_ok (set_intent (ai_id i) ?f w)"
      by (rule gate_ok_set_intent [OF ok i(1)]) (use gate_okD(4) [OF ok i(1)] i(2) in \<open>simp_all add: keeps_row_def\<close>)
    then show ?thesis unfolding claim_next_approved_intent_def Cons list.case snd_conv .
  qed
qed

lemma gate_ok_finish:
  assumes ok: "gate_ok w" and i: "i \<in> set (iw_intents w)" "ai_status i \<noteq> I_EXECUTED"
    and new: "gate_state s (ai_type i) (ai_decision i) (approval_of w (ai_id i))"
    and memory: "s = I_EXECUTED \<Longrightarrow> ai_type i = intent_value WRITE_MEMORY \<Longrightarrow> siblings_done (iw_intents w) i"
  shows "gate_ok (finish_intent env (ai_id i) s now w)"
proof -
  have "gate_ok (set_intent (ai_id i) (\<lambda>x. x\<lparr>ai_status := s, ai_executed := Some now, ai_lease := None, ai_payload := ie_redact env (ai_payload x)\<rparr>) w)"
    by (rule gate_ok_set_intent [OF ok i]) (use new memory in \<open>simp_all add: keeps_row_def\<close>)
  then show ?thesis unfolding finish_intent_def by (rule gate_ok_set_approval) simp_all
qed

lemma gate_ok_resume:
  assumes ok: "gate_ok w"
  shows "gate_ok (snd (execute_approved_intent env ss now j w))"
proof (cases "get_intent w j")
  case None
  then show ?thesis using ok by (simp add: execute_approved_intent_def)
next
  case (Some i)
  have i: "i \<in> set (iw_intents w)" "ai_id i = j" using get_intent_row [OF Some] by simp_all
  show ?thesis
  proof (cases "ai_status i = I_APPROVED")
    case False
    then show ?thesis using ok Some by (simp add: execute_approved_intent_def)
  next
    case True
    have st: "ai_decision i = POLICY_APPROVAL_REQUIRED" "approval_of w (ai_id i) = Some DECISION_APPROVED"
      using gate_okD(4) [OF ok i(1)] True by simp_all
    have failed: "gate_ok (finish_intent env j I_FAILED now w')"
      if "iw_intents w' = iw_intents w" "\<And>x. approval_of w' x = approval_of w x" "gate_ok w'" for w'
      unfolding i(2) [symmetric] by (rule gate_ok_finish) (use that i True st in \<open>simp_all add: lawful_def\<close>)
    let ?resume = "\<lambda>p. p\<lparr>iap_resumed := (case iap_resumed p of None \<Rightarrow> Some now | t \<Rightarrow> t)\<rparr>"
    define w1 where "w1 d = (set_intent_approval j ?resume w)\<lparr>iw_soc := d\<rparr>" for d
    have w1: "gate_ok (w1 d)" "iw_intents (w1 d) = iw_intents w" "approval_of (w1 d) x = approval_of w x" for d x
      by (simp_all add: w1_def gate_ok_set_approval [OF ok] approval_of_set_approval) (simp add: set_intent_approval_def)
    have put_back: "gate_ok (set_intent j (\<lambda>x. x\<lparr>ai_lease := None, ai_attempt := max 0 (ai_attempt x - 1)\<rparr>) w)"
      unfolding i(2) [symmetric] by (rule gate_ok_set_intent [OF ok i(1)]) (use True st in \<open>simp_all add: keeps_row_def\<close>)
    have denied: "gate_ok (finish_intent env j I_DENIED now (set_intent j (\<lambda>x. x\<lparr>ai_decision := d\<rparr>) (w1 s)))" for d s
    proof -
      let ?f = "\<lambda>x. x\<lparr>ai_decision := d, ai_status := I_DENIED, ai_executed := Some now, ai_lease := None, ai_payload := ie_redact env (ai_payload x)\<rparr>"
      have eq: "finish_intent env j I_DENIED now (set_intent j (\<lambda>x. x\<lparr>ai_decision := d\<rparr>) (w1 s)) =
          set_intent_approval j (\<lambda>p. p\<lparr>iap_final := Some I_DENIED, iap_executed := Some now\<rparr>) (set_intent j ?f (w1 s))"
        by (simp add: finish_intent_def set_intent_def upd_key_twice comp_def)
      have "gate_ok (set_intent j ?f (w1 s))"
        unfolding i(2) [symmetric] by (rule gate_ok_set_intent) (use w1 i True st in \<open>simp_all add: keeps_row_def\<close>)
      then show ?thesis unfolding eq by (rule gate_ok_set_approval) simp_all
    qed
    have executed: "gate_ok (finish_intent env j I_EXECUTED now ((w1 s)\<lparr>iw_soc := d, iw_rest := x\<rparr>))"
      if "execute_intent env (revalidate env i) a g r e i (w1 s) = ExecDone (d, x)" "sr_id r = ai_run i"
        "pv_decision (evaluate_intent (revalidate env i) grant ss a True now) = POLICY_ALLOW" for a g r e s d x grant
    proof -
      have "\<exists>k. intent_type_of (ai_type i) = Some k \<and> k \<notin> set forbidden_intent_types"
        using allowed_type(1) [of "revalidate env i" grant ss a True now] that(3) revalidate_type by (auto simp: pv_allowed_def)
      moreover have "siblings_done (iw_intents w) i" if "ai_type i = intent_value WRITE_MEMORY"
        using executed_memory [OF \<open>execute_intent env (revalidate env i) a g r e i (w1 s) = ExecDone (d, x)\<close> that] gate_okD(1,2) [OF ok] i(1)
          \<open>sr_id r = ai_run i\<close> by (simp add: w1)
      ultimately show ?thesis
        unfolding i(2) [symmetric] by (intro gate_ok_finish) (use w1 i True st in \<open>simp_all add: lawful_def\<close>)
    qed
    have run: "sr_id r = ai_run i" if "get_run (iw_soc w) (ai_run i) = Some r" for r using that by (auto simp: get_run_def dest: find_SomeD)
    show ?thesis
      unfolding execute_approved_intent_def Some option.case if_not_P [OF not_not [THEN iffD2, OF True]]
      using failed [of w] failed [of "(w1 s)\<lparr>iw_soc := d, iw_rest := x\<rparr>" for s d x] put_back denied executed run ok w1
      by (auto simp: Let_def w1_def split: option.split exec_result.split)
  qed
qed

lemma gate_ok_step: "intent_step env w w' \<Longrightarrow> gate_ok w \<Longrightarrow> gate_ok w'"
proof (induction rule: intent_step.induct)
  case (persists ss g a story now ids r cost specs w w')
  then show ?case using gate_ok_persist by blast
next
  case (decides i user dec now w b w')
  then show ?case using gate_ok_decide by blast
qed (simp_all add: gate_ok_execute_pending gate_ok_claim gate_ok_resume)

interpretation intent_gate: invariant_system "\<lambda>w. iw_intents w = [] \<and> iw_approvals w = []" "intent_step env" gate_ok
proof
  show "gate_ok w" if "iw_intents w = [] \<and> iw_approvals w = []" for w :: "'a iworld"
    using that by (simp add: gate_ok_def)
qed (rule gate_ok_step)

section \<open>What executes\<close>

text \<open>Every terminal state of an intent is final: it runs at most once.\<close>

lemma human_gate_ok:
  assumes "(intent_step env)\<^sup>*\<^sup>* w0 w" "iw_intents w0 = []" "iw_approvals w0 = []"
  shows "gate_ok w"
  using assms by (intro intent_gate.reachable_inv [where s = w0]) simp_all

text \<open>
  C4: whatever models, operators and workers do and in whatever order, an intent that has executed is of a
  known type that is not on the forbidden list, and it was either allowed by the policy when it was decided
  or held for approval and approved by a human; an intent a human has rejected never executes; and no
  intent has more than one approval.
\<close>

theorem human_gate:
  assumes "(intent_step env)\<^sup>*\<^sup>* w0 w" "iw_intents w0 = []" "iw_approvals w0 = []" "i \<in> set (iw_intents w)"
  shows "(ai_status i = I_EXECUTED \<longrightarrow>
      (\<exists>k. intent_type_of (ai_type i) = Some k \<and> k \<notin> set forbidden_intent_types) \<and>
      (ai_decision i = POLICY_ALLOW \<and> get_intent_approval w (ai_id i) = None \<or>
       ai_decision i = POLICY_APPROVAL_REQUIRED \<and> (\<exists>p. get_intent_approval w (ai_id i) = Some p \<and> iap_decision p = DECISION_APPROVED))) \<and>
    (\<forall>p. get_intent_approval w (ai_id i) = Some p \<and> iap_decision p = DECISION_REJECTED \<longrightarrow> ai_status i = I_REJECTED)"
proof -
  have gate: "gate_state (ai_status i) (ai_type i) (ai_decision i) (approval_of w (ai_id i))"
    by (rule gate_okD(4) [OF human_gate_ok [OF assms(1-3)] assms(4)])
  show ?thesis
  proof (intro conjI impI allI)
    assume "ai_status i = I_EXECUTED"
    then show "\<exists>k. intent_type_of (ai_type i) = Some k \<and> k \<notin> set forbidden_intent_types"
      "ai_decision i = POLICY_ALLOW \<and> get_intent_approval w (ai_id i) = None \<or>
       ai_decision i = POLICY_APPROVAL_REQUIRED \<and> (\<exists>p. get_intent_approval w (ai_id i) = Some p \<and> iap_decision p = DECISION_APPROVED)"
      using gate by (auto simp: lawful_def approval_of_def)
  next
    fix p assume "get_intent_approval w (ai_id i) = Some p \<and> iap_decision p = DECISION_REJECTED"
    then have "approval_of w (ai_id i) = Some DECISION_REJECTED" by (simp add: approval_of_def)
    then show "ai_status i = I_REJECTED" using gate by (cases "ai_status i") (simp_all add: lawful_def)
  qed
qed

text \<open>The story of the examples: a task that needs approval and a memory about it.\<close>

definition example_env :: "unit intent_env" where
  "example_env = \<lparr>ie_parse = (\<lambda>k j. Some (example_payload, j)), ie_redact = id, ie_sha = id, ie_show = (\<lambda>_. ''r''),
     ie_handler = (\<lambda>v a g r e w. ExecDone (iw_soc w, ()))\<rparr>"

definition note_grant :: agent_grant where
  "note_grant = example_grant\<lparr>g_allowed := [''CREATE_TASK'', ''WRITE_MEMORY'', ''SEND_MESSAGE'']\<rparr>"

definition gate_start :: "unit iworld" where
  "gate_start = \<lparr>iw_soc = (example_rows empty_kdb (message_event EV_DISPATCHED None) (example_run RUN_RUNNING (Some ''w1'') None 1))\<lparr>sd_grants := [note_grant]\<rparr>,
     iw_intents = [], iw_approvals = [], iw_rest = ()\<rparr>"

definition gate_specs :: "string \<Rightarrow> intent_spec list" where
  "gate_specs t = [\<lparr>is_type = t, is_payload = JNull, is_key = Some ''a''\<rparr>, \<lparr>is_type = ''WRITE_MEMORY'', is_payload = JNull, is_key = Some ''b''\<rparr>]"

definition gate_row :: "nat \<Rightarrow> intent_type \<Rightarrow> string \<Rightarrow> policy_decision \<Rightarrow> intent_status \<Rightarrow> instant option \<Rightarrow> intent_row" where
  "gate_row n k key d s t = \<lparr>ai_id = 20 + n, ai_run = 12, ai_agent = 1, ai_seq = n, ai_type = intent_value k, ai_payload = JNull, ai_key = key,
     ai_risk = risk_of (Some k), ai_decision = d, ai_status = s, ai_created = 5, ai_executed = t, ai_worker = None, ai_lease = None, ai_attempt = 0\<rparr>"

lemmas gate_defs = gate_start_def gate_specs_def gate_row_def example_env_def note_grant_def example_rows_def example_run_def message_event_def
  example_grant_def example_settings_def example_soc_agent_def example_payload_def

lemmas verdict_defs = evaluate_intent_def grant_refusal_def flag_refusal_def scope_refusal_def pv_allowed_def forbidden_intent_types_def
  risk_of_def low_risk_types_def medium_risk_types_def is_code_intent_def code_intents_def repo_read_types_def a2a_types_def or_int_def
  named_def is_self_def or_default_def Let_def

lemma types_known:
  "intent_type_of ''CREATE_TASK'' = Some CREATE_TASK" "intent_type_of ''WRITE_MEMORY'' = Some WRITE_MEMORY"
  "intent_type_of ''SEND_MESSAGE'' = Some SEND_MESSAGE"
  by code_simp+

definition gate_held :: "unit iworld" where
  "gate_held = gate_start\<lparr>iw_soc := snd (emit_event (agent_event ''intent.approval_required'' example_soc_agent (example_run RUN_RUNNING (Some ''w1'') None 1)
        (ApprovalKey ''r:a'')) 5 (set_run 12 (\<lambda>x. x\<lparr>sr_cost := sr_cost x + 0\<rparr>) (iw_soc gate_start))),
     iw_intents := [gate_row 0 CREATE_TASK ''r:a'' POLICY_APPROVAL_REQUIRED I_AWAITING_APPROVAL None, gate_row 1 WRITE_MEMORY ''r:b'' POLICY_ALLOW I_PENDING None]\<rparr>"

lemma gate_held:
  "persist_decision example_env example_settings note_grant example_soc_agent None 5 (\<lambda>n. 20 + n) (example_run RUN_RUNNING (Some ''w1'') None 1) 0
     (gate_specs ''CREATE_TASK'') gate_start = Some gate_held"
  by (simp add: persist_decision_def validate_intents_def validate_spec_def derive_idempotency_key_def persist_one_def stored_decision_def
      gate_held_def gate_defs verdict_defs types_known)

definition gate_approved :: "unit iworld" where
  "gate_approved = (case decide_intent 20 99 DECISION_APPROVED 6 gate_held of Inr (_, w) \<Rightarrow> w | Inl _ \<Rightarrow> gate_held)"

definition gate_done :: "unit iworld" where
  "gate_done = snd (execute_approved_intent example_env example_settings 7 20 gate_approved)"

lemma gate_approved_step: "decide_intent 20 99 DECISION_APPROVED 6 gate_held = Inr (False, gate_approved)"
  by (simp add: gate_approved_def decide_intent_def gate_held_def gate_defs get_intent_def get_intent_approval_def types_known forbidden_intent_types_def Let_def
      get_run_def emit_event_def agent_event_def set_run_def)

lemma gate_approved_rows:
  "iw_intents gate_approved = [gate_row 0 CREATE_TASK ''r:a'' POLICY_APPROVAL_REQUIRED I_APPROVED None, gate_row 1 WRITE_MEMORY ''r:b'' POLICY_ALLOW I_PENDING None]"
  "sd_runs (iw_soc gate_approved) = [example_run RUN_RUNNING (Some ''w1'') None 1]"
  "sd_agents (iw_soc gate_approved) = [example_soc_agent]" "sd_grants (iw_soc gate_approved) = [note_grant]"
  "get_event (iw_soc gate_approved) 10 = Some (message_event EV_DISPATCHED None)"
  by (simp_all add: gate_approved_def decide_intent_def gate_held_def gate_defs get_intent_def get_intent_approval_def types_known forbidden_intent_types_def Let_def
      get_run_def emit_event_def agent_event_def approval_event_def set_run_def set_intent_def get_event_def)

lemma gate_done_rows:
  "iw_intents gate_done = [gate_row 0 CREATE_TASK ''r:a'' POLICY_APPROVAL_REQUIRED I_EXECUTED (Some 7), gate_row 1 WRITE_MEMORY ''r:b'' POLICY_ALLOW I_PENDING None]"
proof -
  have row: "get_intent gate_approved 20 = Some (gate_row 0 CREATE_TASK ''r:a'' POLICY_APPROVAL_REQUIRED I_APPROVED None)"
    by (simp add: get_intent_def gate_approved_rows gate_row_def)
  have run: "get_run (iw_soc gate_approved) 12 = Some (example_run RUN_RUNNING (Some ''w1'') None 1)"
    by (simp add: get_run_def gate_approved_rows example_run_def)
  have v: "revalidate example_env (gate_row 0 CREATE_TASK ''r:a'' POLICY_APPROVAL_REQUIRED I_APPROVED None) =
      \<lparr>vin_seq = 0, vin_type_name = ''CREATE_TASK'', vin_type = Some CREATE_TASK, vin_valid = True, vin_payload = example_payload, vin_key = ''r:a''\<rparr>"
    by (simp add: revalidate_def gate_row_def types_known example_env_def)
  have pol: "pv_decision (evaluate_intent \<lparr>vin_seq = 0, vin_type_name = ''CREATE_TASK'', vin_type = Some CREATE_TASK, vin_valid = True,
      vin_payload = example_payload, vin_key = ''r:a''\<rparr> (Some note_grant) example_settings example_soc_agent True 7) = POLICY_ALLOW"
    by (simp add: verdict_defs gate_defs)
  have more: "ss_resume_max_attempts example_settings = 3" "ss_runtime_enabled example_settings" "ai_attempt (gate_row n k key d s t) = 0"
    "ai_status (gate_row n k key d s t) = s" "ai_run (gate_row n k key d s t) = 12" "ai_agent (gate_row n k key d s t) = Suc 0"
    "sr_event (example_run s' w l m) = 10" "ie_handler example_env = (\<lambda>v a g r e w. ExecDone (iw_soc w, ()))" "ie_redact example_env = id"
    for n k key d s t s' w l m
    by (simp_all add: example_settings_def gate_row_def example_run_def example_env_def)
  have grant: "grant_of (iw_soc gate_approved) (Suc 0) = Some note_grant" "agent_of (iw_soc gate_approved) (Suc 0) = Some example_soc_agent"
    by (simp_all add: grant_of_def agent_of_def gate_approved_rows gate_defs)
  show ?thesis
    unfolding gate_done_def execute_approved_intent_def row
    by (simp add: more run grant gate_approved_rows v pol Let_def execute_intent_def forbidden_intent_types_def finish_intent_def set_intent_def set_intent_approval_def)
      (simp add: gate_row_def)
qed

lemma gate_done_steps: "(intent_step example_env)\<^sup>*\<^sup>* gate_start gate_done"
proof (rule rtranclp.rtrancl_into_rtrancl [OF rtranclp.rtrancl_into_rtrancl [OF r_into_rtranclp]])
  show "intent_step example_env gate_start gate_held"
    by (rule persists [OF gate_held]) (simp_all add: gate_start_def inj_on_def)
  show "intent_step example_env gate_held gate_approved" by (rule decides [OF gate_approved_step])
  show "intent_step example_env gate_approved gate_done" unfolding gate_done_def by (rule resumes)
qed

lemma human_gate_witness: "\<exists>p. get_intent_approval gate_done 20 = Some p \<and> iap_decision p = DECISION_APPROVED"
proof -
  have "gate_row 0 CREATE_TASK ''r:a'' POLICY_APPROVAL_REQUIRED I_EXECUTED (Some 7) \<in> set (iw_intents gate_done)" by (simp add: gate_done_rows)
  from human_gate [OF gate_done_steps _ _ this] show ?thesis by (simp add: gate_start_def) (simp add: gate_row_def)
qed

text \<open>
  C18: a memory that a model wrote in a decision is executed only when every intent of the same decision
  that has a side effect has executed: no memory of an outcome that did not happen.
\<close>

theorem memories_are_grounded:
  assumes "(intent_step env)\<^sup>*\<^sup>* w0 w" "iw_intents w0 = []" "iw_approvals w0 = []"
    and "m \<in> set (iw_intents w)" "ai_type m = ''WRITE_MEMORY''" "ai_status m = I_EXECUTED"
    and "s \<in> set (iw_intents w)" "ai_run s = ai_run m" "s \<noteq> m" "side_effecting (ai_type s)"
  shows "ai_status s = I_EXECUTED"
proof -
  note ok = human_gate_ok [OF assms(1-3)]
  have "siblings_done (iw_intents w) m" using gate_okD(5) [OF ok assms(4)] assms(5,6) by simp
  moreover have "ai_id s \<noteq> ai_id m" using distinct_key [OF gate_okD(1) [OF ok] assms(7,4)] assms(9) by blast
  ultimately show ?thesis using assms(7,8,10) unfolding siblings_done_def by blast
qed


definition gate_sent :: "unit iworld" where
  "gate_sent = gate_start\<lparr>iw_soc := set_run 12 (\<lambda>x. x\<lparr>sr_cost := sr_cost x + 0\<rparr>) (iw_soc gate_start),
     iw_intents := [gate_row 0 SEND_MESSAGE ''r:a'' POLICY_ALLOW I_PENDING None, gate_row 1 WRITE_MEMORY ''r:b'' POLICY_ALLOW I_PENDING None]\<rparr>"

lemma gate_sent:
  "persist_decision example_env example_settings note_grant example_soc_agent None 5 (\<lambda>n. 20 + n) (example_run RUN_RUNNING (Some ''w1'') None 1) 0
     (gate_specs ''SEND_MESSAGE'') gate_start = Some gate_sent"
  by (simp add: persist_decision_def validate_intents_def validate_spec_def derive_idempotency_key_def persist_one_def stored_decision_def
      gate_sent_def gate_defs verdict_defs types_known)

definition gate_told :: "unit iworld" where
  "gate_told = execute_pending example_env example_settings note_grant example_soc_agent (example_run RUN_RUNNING (Some ''w1'') None 1)
     (message_event EV_DISPATCHED None) (\<lambda>n. 6) gate_sent"

lemma gate_told_rows:
  "iw_intents gate_told = [gate_row 0 SEND_MESSAGE ''r:a'' POLICY_ALLOW I_EXECUTED (Some 6), gate_row 1 WRITE_MEMORY ''r:b'' POLICY_ALLOW I_EXECUTED (Some 6)]"
  by (simp add: gate_told_def execute_pending_def pending_rows_def execution_order_def gate_sent_def execute_one_def gate_defs revalidate_def types_known
      verdict_defs execute_intent_def memory_check_def memory_admitted_def side_effecting_def set_intent_def extend_lease_def)

lemma memories_are_grounded_witness:
  "ai_status (gate_row 0 SEND_MESSAGE ''r:a'' POLICY_ALLOW I_EXECUTED (Some 6)) = I_EXECUTED"
proof (rule memories_are_grounded [where m = "gate_row 1 WRITE_MEMORY ''r:b'' POLICY_ALLOW I_EXECUTED (Some 6)" and w = gate_told and w0 = gate_start
      and env = example_env])
  have "intent_step example_env gate_start gate_sent"
    by (rule persists [OF gate_sent]) (simp_all add: gate_start_def inj_on_def)
  moreover have "intent_step example_env gate_sent gate_told" unfolding gate_told_def by (rule executes)
  ultimately show "(intent_step example_env)\<^sup>*\<^sup>* gate_start gate_told" by (meson r_into_rtranclp rtranclp.rtrancl_into_rtrancl)
  show "side_effecting (ai_type (gate_row 0 SEND_MESSAGE ''r:a'' POLICY_ALLOW I_EXECUTED (Some 6)))"
    by (simp add: side_effecting_def non_side_effect_types_def repo_read_types_def gate_row_def)
qed (simp_all add: gate_told_rows gate_start_def gate_row_def)

end
