(* ===== verification/Promotion.thy ===== *)
theory Promotion
  imports SocietyPolicy MaintPolicy Worktree
begin

text \<open>
  The promotion controller (\<open>society/promotion.py\<close>): how a READY candidate becomes a branch, a pull
  request and a merge on main. One call of \<open>advance\<close> is one poll. The git checkout, the provider's answers
  and the fitness engine's verdicts are inputs; the provider calls a poll makes are recorded, for they are
  not undone when the transaction is. Events, log lines and the text of the pull request are left out.
\<close>

section \<open>Rows\<close>

fun promo_transitions :: "promotion_status \<Rightarrow> promotion_status list" where
  "promo_transitions PM_REQUESTED = [PM_VALIDATING, PM_REJECTED, PM_SUPERSEDED]"
| "promo_transitions PM_VALIDATING = [PM_BRANCH_READY, PM_BLOCKED_EXTERNAL, PM_REJECTED, PM_SUPERSEDED]"
| "promo_transitions PM_BLOCKED_EXTERNAL = [PM_VALIDATING, PM_REJECTED, PM_SUPERSEDED]"
| "promo_transitions PM_BRANCH_READY = [PM_PR_OPEN, PM_REJECTED, PM_SUPERSEDED]"
| "promo_transitions PM_PR_OPEN = [PM_CI_PENDING, PM_CI_PASSED, PM_CI_FAILED, PM_REJECTED, PM_SUPERSEDED, PM_MERGED]"
| "promo_transitions PM_CI_PENDING = [PM_CI_PASSED, PM_CI_FAILED, PM_REJECTED, PM_SUPERSEDED, PM_MERGED]"
| "promo_transitions PM_CI_PASSED =
    [PM_AWAITING_APPROVAL, PM_MERGE_ELIGIBLE, PM_CI_PENDING, PM_CI_FAILED, PM_REJECTED, PM_SUPERSEDED, PM_MERGED]"
| "promo_transitions PM_CI_FAILED = [PM_REJECTED, PM_SUPERSEDED, PM_MERGED, PM_CI_PENDING]"
| "promo_transitions PM_AWAITING_APPROVAL = [PM_MERGE_ELIGIBLE, PM_MERGED, PM_CI_PENDING, PM_REJECTED, PM_SUPERSEDED, PM_CI_FAILED]"
| "promo_transitions PM_MERGE_ELIGIBLE = [PM_MERGED, PM_REJECTED, PM_SUPERSEDED, PM_AWAITING_APPROVAL, PM_CI_PENDING, PM_CI_FAILED]"
| "promo_transitions PM_MERGED = []"
| "promo_transitions PM_REJECTED = []"
| "promo_transitions PM_SUPERSEDED = [PM_CI_PENDING]"

definition active_promo_statuses :: "promotion_status list" where
  "active_promo_statuses =
    [PM_REQUESTED, PM_VALIDATING, PM_BRANCH_READY, PM_PR_OPEN, PM_CI_PENDING, PM_CI_PASSED, PM_AWAITING_APPROVAL, PM_MERGE_ELIGIBLE,
     PM_BLOCKED_EXTERNAL]"

definition open_pr_statuses :: "promotion_status list" where
  "open_pr_statuses = [PM_PR_OPEN, PM_CI_PENDING, PM_CI_PASSED, PM_CI_FAILED, PM_AWAITING_APPROVAL, PM_MERGE_ELIGIBLE]"

datatype cand_status =
    CC_REQUESTED | CC_BUILDING | CC_BUILT | CC_QA_RUNNING | CC_QA_PASSED | CC_QA_FAILED | CC_SECURITY_REVIEW | CC_READY | CC_MERGED
  | CC_REJECTED | CC_FAILED | CC_ABANDONED

record qa_report =
  qa_verdict :: "string option"
  qa_head :: "string option"
  qa_secrets_clean :: bool

record sec_report =
  sec_verdict :: "string option"
  sec_head :: "string option"
  sec_findings :: "string list"
  sec_static :: "string list"

record code_cand =
  cc_id :: uid
  cc_status :: cand_status
  cc_branch :: string
  cc_base :: string
  cc_head :: string
  cc_changed :: "string list"
  cc_diff_lines :: int
  cc_kind :: string
  cc_case :: "uid option" \<comment> \<open>\<open>spec.maintenance.case_id\<close>\<close>
  cc_requester :: "uid option"
  cc_builder :: "uid option"
  cc_qa_agent :: "uid option"
  cc_sec_agent :: "uid option"
  cc_tier :: "tier option"
  cc_requires_security :: bool
  cc_qa :: qa_report
  cc_sec :: sec_report

datatype gate_fact = GateTrue | GateFalse | GateUnset

text \<open>\<open>merge_freeze_reasons\<close> and \<open>autonomous_merge_scope\<close>.\<close>

datatype freeze_note =
    DailyMergeCap int | FailedEvaluation nat | SecurityFindings | SecretScanFailed | NoRollbackPoint | IncidentFreeze nat
  | Innovation freeze_reason

datatype scope_note = AutoMergeDisabled | TierNever | TierAbove tier tier | OwnerCore "string list"

record merge_gates =
  gt_tier :: tier
  gt_blocking :: "string list"
  gt_eligible :: bool
  gt_scope :: "scope_note list"
  gt_freeze :: "freeze_note list"
  gt_not_draft :: bool
  gt_approvals :: "string list"
  gt_auto :: bool

record promo_evidence =
  pe_auto_merged :: bool
  pe_reconciles :: nat
  pe_pending :: "string option" \<comment> \<open>\<open>base_reconcile_pending.from\<close>\<close>
  pe_error :: "string option" \<comment> \<open>\<open>base_reconcile_error\<close>\<close>
  pe_transient :: nat
  pe_revived_from :: "uid option"
  pe_revivals :: nat

record promo =
  cp_id :: uid
  cp_cand :: uid
  cp_status :: promotion_status
  cp_tier :: tier
  cp_sha :: string
  cp_good :: string
  cp_branch :: string
  cp_number :: "nat option"
  cp_ci :: string
  cp_merge_state :: string
  cp_merged_sha :: string
  cp_reason :: string
  cp_no_critical :: gate_fact
  cp_paths :: "string list" \<comment> \<open>\<open>eligibility.changed_files\<close>\<close>
  cp_gates :: "merge_gates option"
  cp_evidence :: promo_evidence
  cp_worker :: "string option"
  cp_lease :: "instant option"
  cp_attempt :: int
  cp_created :: instant
  cp_updated :: instant

datatype exp_status = EXP_PLANNED | EXP_BASELINE | EXP_CANDIDATE | EXP_EVALUATING | EXP_PASS | EXP_FAIL | EXP_INCONCLUSIVE

record fit_exp =
  ex_promo :: uid
  ex_sha :: string
  ex_status :: exp_status
  ex_current :: bool \<comment> \<open>judged by the current version of the criteria\<close>
  ex_gates :: "bool list"
  ex_regression :: bool
  ex_confidence :: string
  ex_rollback :: bool
  ex_created :: instant

record promo_settings =
  po_base_branch :: string
  po_prefix :: string \<comment> \<open>with its slash\<close>
  po_max_files :: nat
  po_max_diff_lines :: int
  po_max_per_day :: int
  po_max_open :: int
  po_max_merges :: int
  po_auto_merge :: bool
  po_max_tier :: string
  po_lease :: int
  po_max_attempts :: nat

section \<open>The provider\<close>

datatype promo_exc = XTransient string | XConflict string | XRefused string | XUnavailable string | XIllegal

record pr_state =
  ps_ci :: string
  ps_head :: string
  ps_base_moved :: bool
  ps_merged :: bool
  ps_merged_sha :: string
  ps_approvals :: "string list"
  ps_unresolved :: nat
  ps_closed :: bool
  ps_draft :: bool
  ps_detail :: string

text \<open>What the provider answers during one poll; each call is made at most once in it.\<close>

record provider =
  pv_disabled :: bool
  pv_publish :: "promo_exc + string"
  pv_open_pr :: "promo_exc + nat"
  pv_state :: "promo_exc + pr_state"
  pv_update :: "promo_exc + string"
  pv_parents :: "string \<Rightarrow> promo_exc + string list"
  pv_ready :: "promo_exc + bool"
  pv_merge :: "promo_exc + string" \<comment> \<open>the answer to the merge request\<close>

datatype provider_call = CallPublish | CallOpenPr | CallUpdateBranch string | CallReady | CallMerge string

text \<open>What git says about the candidate's worktree and the trusted base.\<close>

record ws_facts =
  wf_available :: bool
  wf_head :: string
  wf_changed :: "string list"
  wf_diff :: string
  wf_static :: "string list"
  wf_base_is_ancestor :: bool

record promo_ctx =
  px_settings :: promo_settings
  px_now :: instant
  px_others :: "promo list" \<comment> \<open>the other promotions\<close>
  px_other_exps :: "fit_exp list"
  px_kernel :: kstate
  px_target :: string
  px_ws :: ws_facts

text \<open>The rows one poll works on.\<close>

record promo_rows =
  pw_promo :: promo
  pw_cand :: code_cand
  pw_exps :: "fit_exp list"

section \<open>Counting\<close>

definition promotions_today :: "instant \<Rightarrow> promo list \<Rightarrow> int" where
  "promotions_today now ps = int (count_rows (\<lambda>p. day_start now \<le> cp_created p \<and> pe_revived_from (cp_evidence p) = None) ps)"

definition autonomous_merges_today :: "instant \<Rightarrow> promo list \<Rightarrow> int" where
  "autonomous_merges_today now ps =
    int (count_rows (\<lambda>p. cp_status p = PM_MERGED \<and> day_start now \<le> cp_updated p \<and> pe_auto_merged (cp_evidence p)) ps)"

definition open_prs :: "promo list \<Rightarrow> int" where
  "open_prs ps = int (count_rows (\<lambda>p. cp_status p \<in> set open_pr_statuses) ps)"

definition reconcile_origin :: "promo \<Rightarrow> string" where
  "reconcile_origin p =
    (case pe_pending (cp_evidence p) of
       Some o' \<Rightarrow> if o' \<noteq> [] then o' else if pe_error (cp_evidence p) \<in> {None, Some []} then [] else cp_sha p
     | None \<Rightarrow> if pe_error (cp_evidence p) \<in> {None, Some []} then [] else cp_sha p)"

text \<open>A superseded promotion that may still prove its head its own keeps the candidate's branch.\<close>

definition active_promotion_for :: "promo list \<Rightarrow> uid \<Rightarrow> promo option" where
  "active_promotion_for ps c =
    (case find (\<lambda>p. cp_cand p = c \<and> cp_status p \<in> set active_promo_statuses) ps of
       Some p \<Rightarrow> Some p
     | None \<Rightarrow> find (\<lambda>p. cp_cand p = c \<and> cp_status p = PM_SUPERSEDED \<and> reconcile_origin p \<noteq> []) ps)"

datatype request_refusal = NotReady | PromotionsPerDay | OpenPrs

definition fresh_evidence :: promo_evidence where
  "fresh_evidence = \<lparr>pe_auto_merged = False, pe_reconciles = 0, pe_pending = None, pe_error = None, pe_transient = 0,
     pe_revived_from = None, pe_revivals = 0\<rparr>"

definition new_promotion :: "uid \<Rightarrow> instant \<Rightarrow> code_cand \<Rightarrow> promo" where
  "new_promotion i now c =
    \<lparr>cp_id = i, cp_cand = cc_id c, cp_status = PM_REQUESTED, cp_tier = (case cc_tier c of None \<Rightarrow> TIER_AMBER | Some t \<Rightarrow> t),
     cp_sha = cc_head c, cp_good = [], cp_branch = [], cp_number = None, cp_ci = [], cp_merge_state = [], cp_merged_sha = [], cp_reason = [],
     cp_no_critical = GateUnset, cp_paths = [], cp_gates = None, cp_evidence = fresh_evidence, cp_worker = None, cp_lease = None,
     cp_attempt = 0, cp_created = now, cp_updated = now\<rparr>"

definition request_promotion ::
  "promo_settings \<Rightarrow> uid \<Rightarrow> instant \<Rightarrow> code_cand \<Rightarrow> promo list \<Rightarrow> request_refusal + (promo \<times> bool) \<times> promo list" where
  "request_promotion po i now c ps =
    (if cc_status c \<noteq> CC_READY then Inl NotReady
     else case active_promotion_for ps (cc_id c) of
       Some p \<Rightarrow> Inr ((p, False), ps)
     | None \<Rightarrow>
         if po_max_per_day po \<le> promotions_today now ps then Inl PromotionsPerDay
         else if po_max_open po \<le> open_prs ps then Inl OpenPrs
         else Inr ((new_promotion i now c, True), ps @ [new_promotion i now c]))"

text \<open>The claim: \<open>newest\<close> (\<open>:not_after\<close>) is the last change a waiting promotion may have to be polled again.\<close>

definition claimable_promo :: "instant \<Rightarrow> instant \<Rightarrow> promo \<Rightarrow> bool" where
  "claimable_promo now newest p \<longleftrightarrow>
    (cp_status p \<notin> {PM_MERGED, PM_REJECTED, PM_SUPERSEDED} \<or>
     cp_status p = PM_SUPERSEDED \<and> (pe_pending (cp_evidence p) \<noteq> None \<or> pe_error (cp_evidence p) \<noteq> None)) \<and>
    (case cp_lease p of None \<Rightarrow> True | Some t \<Rightarrow> t < now) \<and>
    (cp_status p \<in> {PM_PR_OPEN, PM_CI_PENDING, PM_CI_FAILED, PM_AWAITING_APPROVAL, PM_MERGE_ELIGIBLE, PM_BLOCKED_EXTERNAL, PM_SUPERSEDED}
      \<longrightarrow> cp_updated p \<le> newest)"

definition claim_next_promotion :: "string \<Rightarrow> int \<Rightarrow> int \<Rightarrow> uid set \<Rightarrow> instant \<Rightarrow> promo list \<Rightarrow> promo option \<times> promo list" where
  "claim_next_promotion worker lease min_age locked now ps =
    (case sort_key cp_updated (filter (\<lambda>p. claimable_promo now (now - seconds min_age) p \<and> cp_id p \<notin> locked) ps) of
       [] \<Rightarrow> (None, ps)
     | p # _ \<Rightarrow>
         let f = (\<lambda>x. x\<lparr>cp_worker := Some worker, cp_lease := Some (now + seconds lease), cp_attempt := cp_attempt x + 1\<rparr>)
         in (Some (f p), upd_key cp_id (cp_id p) f ps))"

section \<open>Moves\<close>

definition closed_by_owner :: string where
  "closed_by_owner = ''closed_by_owner''"

definition settle_candidate :: "promotion_status \<Rightarrow> string \<Rightarrow> code_cand \<Rightarrow> code_cand" where
  "settle_candidate new reason c =
    (if cc_status c \<noteq> CC_READY then c
     else if new = PM_MERGED then c\<lparr>cc_status := CC_MERGED\<rparr>
     else if new = PM_REJECTED \<and> starts_with closed_by_owner reason then c\<lparr>cc_status := CC_REJECTED\<rparr>
     else c)"

definition move_promo :: "instant \<Rightarrow> promotion_status \<Rightarrow> string \<Rightarrow> promo_rows \<Rightarrow> promo_exc + promo_rows" where
  "move_promo now new reason w =
    (let p = pw_promo w in
     if new = cp_status p then Inr w
     else if new \<notin> set (promo_transitions (cp_status p)) then Inl XIllegal
     else Inr (w\<lparr>pw_promo := p\<lparr>cp_status := new, cp_reason := (if reason = [] then cp_reason p else reason), cp_updated := now\<rparr>,
                 pw_cand := settle_candidate new reason (pw_cand w)\<rparr>))"

definition set_promo :: "(promo \<Rightarrow> promo) \<Rightarrow> promo_rows \<Rightarrow> promo_rows" where
  "set_promo f w = w\<lparr>pw_promo := f (pw_promo w)\<rparr>"

definition set_evidence :: "(promo_evidence \<Rightarrow> promo_evidence) \<Rightarrow> promo_rows \<Rightarrow> promo_rows" where
  "set_evidence f = set_promo (\<lambda>p. p\<lparr>cp_evidence := f (cp_evidence p)\<rparr>)"

definition release_promo :: "instant \<Rightarrow> promo_rows \<Rightarrow> promo_rows" where
  "release_promo now = set_promo (\<lambda>p. p\<lparr>cp_evidence := (cp_evidence p)\<lparr>pe_transient := 0\<rparr>, cp_worker := None, cp_lease := None, cp_updated := now\<rparr>)"

definition move_release :: "instant \<Rightarrow> promotion_status \<Rightarrow> string \<Rightarrow> promo_rows \<Rightarrow> promo_exc + promo_rows" where
  "move_release now new reason w = map_sum id (release_promo now) (move_promo now new reason w)"

section \<open>The merge gates\<close>

text \<open>The newest experiment of the promotion; of two created at one instant, the one added last.\<close>

definition newer_experiment :: "fit_exp option \<Rightarrow> fit_exp \<Rightarrow> fit_exp option" where
  "newer_experiment b x = (case b of Some y \<Rightarrow> if ex_created y \<le> ex_created x then Some x else b | None \<Rightarrow> Some x)"

definition latest_experiment :: "fit_exp list \<Rightarrow> uid \<Rightarrow> fit_exp option" where
  "latest_experiment xs i = foldl newer_experiment None (filter (\<lambda>x. ex_promo x = i) xs)"

definition all_experiments :: "promo_ctx \<Rightarrow> promo_rows \<Rightarrow> fit_exp list" where
  "all_experiments px w = px_other_exps px @ pw_exps w"

definition security_findings_block :: "sec_report \<Rightarrow> bool" where
  "security_findings_block s \<longleftrightarrow> sec_static s \<noteq> [] \<or> sec_findings s \<noteq> [] \<and> sec_verdict s \<noteq> Some ''pass''"

definition failed_after_merge :: "promo list \<Rightarrow> fit_exp list \<Rightarrow> nat" where
  "failed_after_merge ps xs =
    count_rows (\<lambda>x. (ex_rollback x \<or> ex_status x = EXP_FAIL) \<and> list_ex (\<lambda>p. cp_id p = ex_promo x \<and> cp_status p = PM_MERGED) ps) xs"

definition blocking_freezes :: "kstate \<Rightarrow> code_cand \<Rightarrow> freeze list" where
  "blocking_freezes k c =
    filter (\<lambda>z. \<not> fz_lifted z \<and> \<not> repair_exception k (cc_id c) (cc_case c) (cc_changed c) z) (kd_freezes (k_db k))"

definition merge_freeze_reasons :: "promo_ctx \<Rightarrow> promo_rows \<Rightarrow> freeze_note list" where
  "merge_freeze_reasons px w =
    (let po = px_settings px; c = pw_cand w; ps = pw_promo w # px_others px;
         bad = failed_after_merge ps (all_experiments px w); z = blocking_freezes (px_kernel px) c in
     (if po_max_merges po \<le> autonomous_merges_today (px_now px) ps then [DailyMergeCap (po_max_merges po)] else []) @
     (if 0 < bad then [FailedEvaluation bad] else []) @
     (if security_findings_block (cc_sec c) then [SecurityFindings] else []) @
     (if \<not> qa_secrets_clean (cc_qa c) then [SecretScanFailed] else []) @
     (if cp_good (pw_promo w) = [] then [NoRollbackPoint] else []) @
     (if z \<noteq> [] then [IncidentFreeze (length z)] else []) @
     map Innovation (innovation_freeze_reasons (px_kernel px) (px_target px) (cc_case c \<noteq> None) (px_now px)))"

definition fitness_satisfied :: "fit_exp option \<Rightarrow> bool" where
  "fitness_satisfied x =
    (case x of
       None \<Rightarrow> False
     | Some e \<Rightarrow>
         if ex_status e = EXP_PASS then True
         else if ex_status e \<noteq> EXP_INCONCLUSIVE then False
         else if ex_gates e = [] \<or> \<not> list_all id (ex_gates e) then False
         else if ex_regression e then False
         else ex_confidence e = ''high'')"

definition promotion_paths :: "promo_rows \<Rightarrow> string list" where
  "promotion_paths w = dedup (cc_changed (pw_cand w) @ cp_paths (pw_promo w))"

definition tier_named :: "string \<Rightarrow> tier option" where
  "tier_named s = find (\<lambda>t. tier_value t = s) [TIER_GREEN, TIER_AMBER, TIER_RED, TIER_NEVER]"

definition merge_ceiling :: "promo_settings \<Rightarrow> tier" where
  "merge_ceiling po = (case tier_named (po_max_tier po) of None \<Rightarrow> TIER_GREEN | Some t \<Rightarrow> t)"

definition autonomous_merge_scope :: "promo_settings \<Rightarrow> tier \<Rightarrow> string list \<Rightarrow> scope_note list" where
  "autonomous_merge_scope po t paths =
    (let ceiling = merge_ceiling po; core = owner_merge_paths paths in
     (if po_auto_merge po then [] else [AutoMergeDisabled]) @
     (if t = TIER_NEVER then [TierNever]
      else if ceiling = TIER_NEVER \<or> t \<noteq> ceiling \<and> tier_at_least t ceiling then [TierAbove t ceiling] else []) @
     (if core = [] then [] else [OwnerCore (take 5 core)]))"

text \<open>The hard gates with their names, in the order of the code.\<close>

definition hard_gates :: "promo_ctx \<Rightarrow> promo_rows \<Rightarrow> pr_state \<Rightarrow> (string \<times> bool) list" where
  "hard_gates px w st =
    (let p = pw_promo w; c = pw_cand w; t = cp_tier p; scope = autonomous_merge_scope (px_settings px) t (promotion_paths w) in
     [(''risk_promotable'', t \<noteq> TIER_NEVER),
      (''ci_passed'', ps_ci st = ''passed''),
      (''branch_up_to_date'', \<not> ps_base_moved st),
      (''head_unchanged'', ps_head st = [] \<or> ps_head st = cp_sha p),
      (''qa_pass'', qa_verdict (cc_qa c) = Some ''pass''),
      (''security_pass'', sec_verdict (cc_sec c) = Some ''pass'' \<or> \<not> (cc_requires_security c \<or> t \<noteq> TIER_GREEN)),
      (''no_critical_findings'', cp_no_critical p \<noteq> GateFalse),
      (''fitness_precheck'', fitness_satisfied (latest_experiment (all_experiments px w) (cp_id p))),
      (''no_unresolved_review'', ps_unresolved st = 0),
      (''human_approval_satisfied'', scope = [] \<or> ps_approvals st \<noteq> [])])"

definition compute_eligibility :: "promo_ctx \<Rightarrow> promo_rows \<Rightarrow> pr_state \<Rightarrow> merge_gates" where
  "compute_eligibility px w st =
    (let t = cp_tier (pw_promo w); scope = autonomous_merge_scope (px_settings px) t (promotion_paths w);
         blocking = map fst (filter (\<lambda>g. \<not> snd g) (hard_gates px w st)); eligible = (blocking = []); frozen = merge_freeze_reasons px w
     in \<lparr>gt_tier = t, gt_blocking = blocking, gt_eligible = eligible, gt_scope = scope, gt_freeze = frozen, gt_not_draft = (\<not> ps_draft st),
         gt_approvals = ps_approvals st, gt_auto = (eligible \<and> scope = [] \<and> \<not> ps_draft st \<and> frozen = [])\<rparr>)"

text \<open>
  The second layer, \<open>GitHubPromotionProvider.merge\<close>: the flag says whether the request is sent at all. A
  provider that has no such checks of its own is the one with \<open>guarded = False\<close>.
\<close>

definition github_merge :: "promo_settings \<Rightarrow> promo \<Rightarrow> string \<Rightarrow> (promo_exc + string) \<Rightarrow> bool \<times> (promo_exc + string)" where
  "github_merge po p sha answer =
    (if \<not> po_auto_merge po then (False, Inl (XRefused ''auto-merge is disabled''))
     else case cp_gates p of
       None \<Rightarrow> (False, Inl (XRefused ''not authorised''))
     | Some g \<Rightarrow>
         if \<not> gt_auto g then (False, Inl (XRefused ''not authorised''))
         else if (let tiers = [TIER_GREEN, TIER_AMBER, TIER_RED]; m = tier_named (po_max_tier po) in
               \<not> (case m of Some t \<Rightarrow> if t \<in> set tiers then tier_order (gt_tier g) \<le> tier_order t else gt_tier g = TIER_GREEN
                  | None \<Rightarrow> gt_tier g = TIER_GREEN))
           then (False, Inl (XRefused ''tier''))
         else if gt_scope g \<noteq> [] then (False, Inl (XRefused ''owner merges''))
         else if gt_freeze g \<noteq> [] then (False, Inl (XRefused ''frozen''))
         else if sha = [] then (False, Inl (XRefused ''no expected head''))
         else (True, answer))"

section \<open>Validation\<close>

datatype validation = Rejected string | Superseded string | Validated "string list"

text \<open>The tier that validation records, when it gets that far, and its outcome.\<close>

definition validate_promo :: "promo_settings \<Rightarrow> ws_facts \<Rightarrow> code_cand \<Rightarrow> tier option \<times> validation" where
  "validate_promo po ff c =
    (let last = rev (takeWhile (\<lambda>x. x \<noteq> CHR ''/'') (rev (cc_branch c))) in
     if cc_status c \<noteq> CC_READY then (None, Rejected ''candidate is not READY'')
     else if cc_branch c = [] \<or> last \<in> {''main'', ''master''} \<or> cc_branch c \<in> {po_base_branch po, ''main'', ''master''}
       then (None, Rejected ''refusing to promote a branch that names the protected base branch'')
     else if \<not> starts_with (po_prefix po) (cc_branch c) then (None, Rejected ''branch is outside the autonomous prefix'')
     else if \<not> wf_available ff then (None, Rejected ''candidate workspace unavailable'')
     else if wf_head ff \<noteq> cc_head c then (None, Superseded ''candidate sha changed since QA'')
     else if \<not> wf_base_is_ancestor ff then (None, Superseded ''candidate base is no longer an ancestor'')
     else
       let risk = assess (wf_changed ff) (wf_diff ff) (cc_kind c); t = as_tier risk; qa = cc_qa c; sec = cc_sec c;
           needs = (cc_requires_security c \<or> t \<in> {TIER_AMBER, TIER_RED} \<or> wf_static ff \<noteq> []) in
       (Some t,
        if t = TIER_NEVER then Rejected ''NEVER tier''
        else if list_ex is_protected (wf_changed ff) then Rejected ''prohibited files changed''
        else if \<not> (length (wf_changed ff) \<le> po_max_files po \<and> cc_diff_lines c \<le> po_max_diff_lines po) then Rejected ''change exceeds the budget''
        else if \<not> (qa_verdict qa = Some ''pass'' \<and> qa_head qa = Some (cc_head c)) then Rejected ''QA PASS for this exact head is required''
        else if needs \<and> \<not> (sec_verdict sec = Some ''pass'' \<and> sec_head sec = Some (cc_head c))
          then Rejected ''independent Security PASS for this exact head is required''
        else if list_ex (has_infix ''secret'') (wf_static ff) then Rejected ''static scan reports a possible secret''
        else if t = TIER_RED \<and> (cc_sec_agent c = None \<or> cc_sec_agent c \<in> {cc_builder c, cc_qa_agent c, cc_requester c})
          then Rejected ''RED tier requires an INDEPENDENT Security reviewer''
        else Validated (take 50 (wf_changed ff))))"

section \<open>Base reconciliation\<close>

definition max_base_reconciles :: nat where
  "max_base_reconciles = 12"

definition record_reconciled_head :: "string \<Rightarrow> promo \<Rightarrow> promo" where
  "record_reconciled_head new p = p\<lparr>cp_sha := new, cp_evidence := (cp_evidence p)\<lparr>pe_pending := None, pe_error := None\<rparr>\<rparr>"

definition back_to_ci :: "promo \<Rightarrow> promo" where
  "back_to_ci p = p\<lparr>cp_ci := ''pending'', cp_merge_state := ''reconciling''\<rparr>"

type_synonym poll = "provider_call list \<times> ((promo_exc \<times> promo_rows) + promo_rows)"

text \<open>\<open>Some True\<close>: adopted; \<open>Some False\<close>: not the controller's; \<open>None\<close>: could not tell.\<close>

definition adopt_reconciled_head :: "instant \<Rightarrow> provider \<Rightarrow> pr_state \<Rightarrow> promo_rows \<Rightarrow> promo_exc + bool option \<times> promo_rows" where
  "adopt_reconciled_head now pv st w =
    (let o' = reconcile_origin (pw_promo w) in
     if o' = [] \<or> ps_head st = [] then Inr (Some False, w)
     else case pv_parents pv (ps_head st) of
       Inl e \<Rightarrow> Inr (None, w)
     | Inr parents \<Rightarrow>
         if length parents \<noteq> 2 \<or> hd parents \<noteq> o' then Inr (Some False, w)
         else map_sum id (Pair (Some True))
           (move_promo now PM_CI_PENDING ''reconciled head verified'' (set_promo (back_to_ci \<circ> record_reconciled_head (ps_head st)) w)))"

definition decline_recovery :: "promo_rows \<Rightarrow> promo_rows" where
  "decline_recovery = set_evidence (\<lambda>e. e\<lparr>pe_pending := None, pe_error := None\<rparr>)"

text \<open>\<open>committed\<close>: the rows as last committed, to which an exception returns.\<close>

definition or_back :: "promo_rows \<Rightarrow> promo_exc + promo_rows \<Rightarrow> (promo_exc \<times> promo_rows) + promo_rows" where
  "or_back committed r = mapE (\<lambda>e. (e, committed)) r"

definition reconciled_rows :: "instant \<Rightarrow> string \<Rightarrow> promo_rows \<Rightarrow> (promo_exc \<times> promo_rows) + promo_rows" where
  "reconciled_rows now new w =
    or_back w (move_promo now PM_CI_PENDING ''base moved: branch reconciled, required checks must re-run''
      (set_promo (\<lambda>p. (if new = [] then id else record_reconciled_head new) (back_to_ci p)) w))"

text \<open>The request is recorded and committed before it is sent: a fault leaves the rows as they were then.\<close>

definition reconcile_base :: "instant \<Rightarrow> provider \<Rightarrow> pr_state \<Rightarrow> promo_rows \<Rightarrow> poll" where
  "reconcile_base now pv st w =
    (let p = pw_promo w; tries = pe_reconciles (cp_evidence p) in
     if max_base_reconciles \<le> tries then ([], Inr w)
     else if ps_head st \<noteq> [] \<and> cp_sha p \<noteq> [] \<and> ps_head st \<noteq> cp_sha p then ([], Inr w)
     else
       let o' = (if cp_sha p \<noteq> [] then cp_sha p else ps_head st);
           w1 = set_evidence (\<lambda>e. e\<lparr>pe_reconciles := tries + 1, pe_pending := Some o'\<rparr>) w;
           failed = (\<lambda>m. Inr (set_evidence (\<lambda>e. e\<lparr>pe_error := Some m\<rparr>) w1)) in
       ([CallUpdateBranch o'],
        case pv_update pv of
          Inl (XTransient m) \<Rightarrow> Inl (XTransient m, w1)
        | Inl XIllegal \<Rightarrow> Inl (XIllegal, w1)
        | Inl (XConflict m) \<Rightarrow> failed m
        | Inl (XRefused m) \<Rightarrow> failed m
        | Inl (XUnavailable m) \<Rightarrow> failed m
        | Inr new \<Rightarrow> reconciled_rows now new w1))"

section \<open>Fitness and review\<close>

text \<open>\<open>request_experiment\<close>: one experiment per head until the criteria change.\<close>

definition exp_active :: "exp_status \<Rightarrow> bool" where
  "exp_active s \<longleftrightarrow> s \<in> {EXP_PLANNED, EXP_BASELINE, EXP_CANDIDATE, EXP_EVALUATING}"

definition request_experiment :: "promo_ctx \<Rightarrow> promo_rows \<Rightarrow> promo_rows" where
  "request_experiment px w =
    (let i = cp_id (pw_promo w); h = cc_head (pw_cand w);
         new = \<lparr>ex_promo = i, ex_sha = h, ex_status = EXP_PLANNED, ex_current = True, ex_gates = [], ex_regression = False,
           ex_confidence = [], ex_rollback = False, ex_created = px_now px\<rparr>
     in case latest_experiment (filter (\<lambda>x. ex_sha x = h) (all_experiments px w)) i of
          Some e \<Rightarrow> if ex_current e \<or> exp_active (ex_status e) then w else w\<lparr>pw_exps := pw_exps w @ [new]\<rparr>
        | None \<Rightarrow> w\<lparr>pw_exps := pw_exps w @ [new]\<rparr>)"

definition ensure_fitness_requested :: "promo_ctx \<Rightarrow> promo_rows \<Rightarrow> promo_rows" where
  "ensure_fitness_requested px w =
    (case latest_experiment (all_experiments px w) (cp_id (pw_promo w)) of
       Some e \<Rightarrow>
         if fitness_satisfied (Some e) \<or> ex_current e then w
         else if ex_status e \<notin> {EXP_PASS, EXP_FAIL, EXP_INCONCLUSIVE} then w
         else request_experiment px w
     | None \<Rightarrow> request_experiment px w)"

definition ready_blockers :: "promo_settings \<Rightarrow> promo_rows \<Rightarrow> pr_state \<Rightarrow> string list" where
  "ready_blockers po w st =
    (let p = pw_promo w; c = pw_cand w in
     (if cc_status c \<noteq> CC_READY then [''candidate_not_ready''] else []) @
     (if qa_verdict (cc_qa c) \<noteq> Some ''pass'' then [''qa_not_passed''] else []) @
     (if cc_requires_security c \<and> sec_verdict (cc_sec c) \<noteq> Some ''pass'' then [''security_not_passed''] else []) @
     (if security_findings_block (cc_sec c) then [''security_findings_present''] else []) @
     (if cp_tier p \<noteq> TIER_GREEN \<and> autonomous_merge_scope po (cp_tier p) (promotion_paths w) \<noteq> []
      then [''risk_tier_'' @ tier_value (cp_tier p)] else []) @
     (if ps_head st \<noteq> [] \<and> cp_sha p \<noteq> [] \<and> ps_head st \<noteq> cp_sha p then [''head_moved''] else []))"

text \<open>Takes a fully gated draft out of draft; the state the poll reasons from says so at once.\<close>

definition offer_for_review :: "promo_settings \<Rightarrow> provider \<Rightarrow> promo_rows \<Rightarrow> pr_state \<Rightarrow> provider_call list \<times> (promo_exc + pr_state)" where
  "offer_for_review po pv w st =
    (if \<not> ps_draft st \<or> ready_blockers po w st \<noteq> [] then ([], Inr st)
     else ([CallReady],
       case pv_ready pv of
         Inl (XTransient m) \<Rightarrow> Inl (XTransient m)
       | Inl XIllegal \<Rightarrow> Inl XIllegal
       | Inl _ \<Rightarrow> Inr st
       | Inr changed \<Rightarrow> Inr (if changed then st\<lparr>ps_draft := False\<rparr> else st)))"

section \<open>One poll\<close>

definition retier :: "tier \<Rightarrow> promo_rows \<Rightarrow> promo_rows" where
  "retier t w = w\<lparr>pw_promo := (pw_promo w)\<lparr>cp_tier := t\<rparr>, pw_cand := (pw_cand w)\<lparr>cc_tier := Some t\<rparr>\<rparr>"

definition poll_validating :: "promo_ctx \<Rightarrow> provider \<Rightarrow> promo_rows \<Rightarrow> poll" where
  "poll_validating px pv w =
    (let now = px_now px; v = validate_promo (px_settings px) (px_ws px) (pw_cand w);
         w1 = (case fst v of None \<Rightarrow> w | Some t \<Rightarrow> retier t w) in
     case snd v of
       Superseded m \<Rightarrow> ([], or_back w (move_release now PM_SUPERSEDED m w1))
     | Rejected m \<Rightarrow> ([], or_back w (move_release now PM_REJECTED m w1))
     | Validated files \<Rightarrow>
         let w2 = set_promo (\<lambda>p. p\<lparr>cp_no_critical := GateTrue, cp_paths := files, cp_gates := None,
               cp_good := (if cp_good p = [] then cc_base (pw_cand w) else cp_good p)\<rparr>) w1
         in ([CallPublish],
             case pv_publish pv of
               Inl (XUnavailable m) \<Rightarrow> or_back w2 (move_release now PM_BLOCKED_EXTERNAL m w2)
             | Inl e \<Rightarrow> Inl (e, w2)
             | Inr name \<Rightarrow> or_back w2 (move_release now PM_BRANCH_READY [] (set_promo (\<lambda>p. p\<lparr>cp_branch := name\<rparr>) w2))))"

definition poll_branch_ready :: "promo_ctx \<Rightarrow> provider \<Rightarrow> promo_rows \<Rightarrow> poll" where
  "poll_branch_ready px pv w =
    ([CallOpenPr],
     case pv_open_pr pv of
       Inl e \<Rightarrow> Inl (e, w)
     | Inr n \<Rightarrow> or_back w (move_release (px_now px) PM_PR_OPEN [] (set_promo (\<lambda>p. p\<lparr>cp_number := Some n\<rparr>) w)))"

definition poll_superseded :: "promo_ctx \<Rightarrow> provider \<Rightarrow> promo_rows \<Rightarrow> poll" where
  "poll_superseded px pv w =
    ([],
     case pv_state pv of
       Inl e \<Rightarrow> Inl (e, w)
     | Inr st \<Rightarrow>
         (case adopt_reconciled_head (px_now px) pv st w of
            Inl e \<Rightarrow> Inl (e, w)
          | Inr (verdict, w1) \<Rightarrow> Inr (release_promo (px_now px) (if verdict = Some False then decline_recovery w1 else w1))))"

text \<open>The checks are green: fitness, the offer for review, the gates and, when the machine may, the merge.\<close>

definition record_gates :: "merge_gates \<Rightarrow> promo_rows \<Rightarrow> promo_rows" where
  "record_gates g = set_promo (\<lambda>p. p\<lparr>cp_gates := Some g, cp_merge_state := (if gt_eligible g then ''eligible'' else ''blocked'')\<rparr>)"

definition mark_auto_merged :: "promo_rows \<Rightarrow> promo_rows" where
  "mark_auto_merged = set_evidence (\<lambda>e. e\<lparr>pe_auto_merged := True\<rparr>)"

definition record_merge :: "string \<Rightarrow> promo_rows \<Rightarrow> promo_rows" where
  "record_merge sha = set_promo (\<lambda>p. p\<lparr>cp_merged_sha := sha, cp_merge_state := ''merged''\<rparr>)"

definition poll_merge :: "promo_ctx \<Rightarrow> provider \<Rightarrow> promo_rows \<Rightarrow> merge_gates \<Rightarrow> promo_rows \<Rightarrow> poll" where
  "poll_merge px pv w0 g w =
    (case move_promo (px_now px) PM_MERGE_ELIGIBLE [] w of
       Inl e \<Rightarrow> ([], Inl (e, w0))
     | Inr w1 \<Rightarrow>
         if \<not> gt_auto g then ([], Inr (release_promo (px_now px) w1))
         else
           let w2 = mark_auto_merged w1; sha = cp_sha (pw_promo w2); r = github_merge (px_settings px) (pw_promo w2) sha (pv_merge pv)
           in (if fst r then [CallMerge sha] else [],
               case snd r of
                 Inl e \<Rightarrow> Inl (e, w0)
               | Inr merged \<Rightarrow> or_back w0 (move_release (px_now px) PM_MERGED [] (record_merge merged w2))))"

definition poll_green :: "promo_ctx \<Rightarrow> provider \<Rightarrow> promo_rows \<Rightarrow> pr_state \<Rightarrow> promo_rows \<Rightarrow> poll" where
  "poll_green px pv w0 st w =
    (let now = px_now px; s = cp_status (pw_promo w); w1 = ensure_fitness_requested px w in
     if s \<in> {PM_PR_OPEN, PM_CI_PENDING} then ([], or_back w0 (move_release now PM_CI_PASSED [] w1))
     else case offer_for_review (px_settings px) pv w1 st of
       (calls, Inl e) \<Rightarrow> (calls, Inl (e, w0))
     | (calls, Inr st') \<Rightarrow>
         let g = compute_eligibility px w1 st'; w2 = record_gates g w1 in
         if gt_eligible g then (case poll_merge px pv w0 g w2 of (sent, r) \<Rightarrow> (calls @ sent, r))
         else (calls, or_back w0 (move_release now PM_AWAITING_APPROVAL
           (if s = PM_MERGE_ELIGIBLE then ''eligibility lost'' else []) w2)))"

definition poll_stale :: "promo_ctx \<Rightarrow> provider \<Rightarrow> promo_rows \<Rightarrow> pr_state \<Rightarrow> promo_rows \<Rightarrow> poll" where
  "poll_stale px pv w0 st w =
    (let now = px_now px; w1 = set_promo (\<lambda>p. p\<lparr>cp_merge_state := ''stale''\<rparr>) w in
     case (if cp_status (pw_promo w) = PM_MERGE_ELIGIBLE
           then move_promo now PM_AWAITING_APPROVAL ''base moved: CI must re-run on an up-to-date branch'' w1 else Inr w1) of
       Inl e \<Rightarrow> ([], Inl (e, w0))
     | Inr w2 \<Rightarrow> (case reconcile_base now pv st w2 of (calls, r) \<Rightarrow> (calls, map_sum id (release_promo now) r)))"

definition poll_moved_head :: "promo_ctx \<Rightarrow> provider \<Rightarrow> promo_rows \<Rightarrow> pr_state \<Rightarrow> promo_rows \<Rightarrow> poll" where
  "poll_moved_head px pv w0 st w =
    ([],
     case adopt_reconciled_head (px_now px) pv st w of
       Inl e \<Rightarrow> Inl (e, w0)
     | Inr (verdict, w1) \<Rightarrow>
         if verdict = Some False
         then or_back w0 (move_release (px_now px) PM_SUPERSEDED ''PR head moved away from the validated candidate sha'' w1)
         else Inr (release_promo (px_now px) w1))"

definition see_ci :: "string \<Rightarrow> promo_rows \<Rightarrow> promo_rows" where
  "see_ci ci = set_promo (\<lambda>p. p\<lparr>cp_ci := ci\<rparr>)"

definition see_merged :: "string \<Rightarrow> promo_rows \<Rightarrow> promo_rows" where
  "see_merged sha = set_promo (\<lambda>p. p\<lparr>cp_merged_sha := (if sha = [] then cp_merged_sha p else sha), cp_merge_state := ''merged''\<rparr>)"

definition poll_open :: "promo_ctx \<Rightarrow> provider \<Rightarrow> promo_rows \<Rightarrow> poll" where
  "poll_open px pv w0 =
    (case pv_state pv of
       Inl e \<Rightarrow> ([], Inl (e, w0))
     | Inr st \<Rightarrow>
         let now = px_now px; s = cp_status (pw_promo w0); w = see_ci (ps_ci st) w0; mv = (\<lambda>new m w'. ([], or_back w0 (move_release now new m w'))) in
         if ps_merged st then mv PM_MERGED [] (see_merged (ps_merged_sha st) w)
         else if ps_closed st then mv PM_REJECTED (closed_by_owner @ '': pull request closed without merge'') w
         else if ps_head st \<noteq> [] \<and> ps_head st \<noteq> cp_sha (pw_promo w) then poll_moved_head px pv w0 st w
         else if ps_base_moved st \<and> s \<in> {PM_CI_PASSED, PM_CI_FAILED, PM_AWAITING_APPROVAL, PM_MERGE_ELIGIBLE} then poll_stale px pv w0 st w
         else if ps_ci st = ''failed'' then mv PM_CI_FAILED (if ps_detail st = [] then ''CI failed'' else ps_detail st) w
         else if ps_ci st \<in> {''pending'', ''unknown''} \<or> s = PM_CI_FAILED then
           (if s \<in> {PM_PR_OPEN, PM_CI_FAILED} then mv PM_CI_PENDING (if s = PM_PR_OPEN then [] else ''checks re-run: '' @ ps_ci st) w
            else ([], Inr (release_promo now w)))
         else poll_green px pv w0 st w)"

definition advance :: "promo_ctx \<Rightarrow> provider \<Rightarrow> promo_rows \<Rightarrow> poll" where
  "advance px pv w =
    (let s = cp_status (pw_promo w); now = px_now px in
     if s = PM_BLOCKED_EXTERNAL \<and> pv_disabled pv then ([], Inr (release_promo now w))
     else if s \<in> {PM_REQUESTED, PM_BLOCKED_EXTERNAL} then
       (case move_promo now PM_VALIDATING [] w of Inl e \<Rightarrow> ([], Inl (e, w)) | Inr w1 \<Rightarrow> poll_validating px pv w1)
     else if s = PM_VALIDATING then poll_validating px pv w
     else if s = PM_BRANCH_READY then poll_branch_ready px pv w
     else if s = PM_SUPERSEDED then poll_superseded px pv w
     else if s \<in> set open_pr_statuses then poll_open px pv w
     else ([], Inr (release_promo now w)))"

text \<open>
  The handlers of the exceptions, from the rows as committed: \<open>advance\<close>'s own and, for an illegal move (one
  made in a handler included), the one of \<open>process_promotions\<close>.
\<close>

definition fail_reason :: "string \<Rightarrow> promo_rows \<Rightarrow> promo_rows" where
  "fail_reason m = set_promo (\<lambda>p. p\<lparr>cp_reason := m\<rparr>)"

definition provider_fault_reason :: string where
  "provider_fault_reason = ''provider kept failing after''"

definition backoff_lease :: "promo_settings \<Rightarrow> nat \<Rightarrow> duration" where
  "backoff_lease po faults = seconds (min (po_lease po) (5 * 2 ^ min 10 (faults - 1)))"

definition handle_exc :: "promo_ctx \<Rightarrow> promo_exc \<Rightarrow> promo_rows \<Rightarrow> promo_exc + promo_rows" where
  "handle_exc px e w =
    (let now = px_now px; p = pw_promo w in
     case e of
       XTransient m \<Rightarrow>
         let faults = pe_transient (cp_evidence p) + 1; w1 = set_evidence (\<lambda>x. x\<lparr>pe_transient := faults\<rparr>) w in
         if po_max_attempts (px_settings px) \<le> faults \<and> cp_number p = None
         then move_release now PM_REJECTED (provider_fault_reason @ '': '' @ m) w1
         else Inr (set_promo (\<lambda>q. q\<lparr>cp_reason := ''transient: '' @ m, cp_lease := Some (now + backoff_lease (px_settings px) faults),
                cp_updated := now\<rparr>) w1)
     | XConflict m \<Rightarrow> move_release now PM_SUPERSEDED (''conflict: '' @ m) w
     | XRefused m \<Rightarrow> move_release now PM_REJECTED (''refused: '' @ m) w
     | XUnavailable m \<Rightarrow>
         (case move_promo now PM_BLOCKED_EXTERNAL m w of
            Inl _ \<Rightarrow> Inr (release_promo now (fail_reason (''blocked: '' @ m) w))
          | Inr w1 \<Rightarrow> Inr (release_promo now w1))
     | XIllegal \<Rightarrow> Inl XIllegal)"

definition settle_poll :: "promo_ctx \<Rightarrow> (promo_exc \<times> promo_rows) + promo_rows \<Rightarrow> promo_rows" where
  "settle_poll px r =
    (case r of
       Inr w \<Rightarrow> w
     | Inl (e, w) \<Rightarrow>
         (case handle_exc px e w of
            Inr w1 \<Rightarrow> w1
          | Inl _ \<Rightarrow> release_promo (px_now px) (fail_reason ''not a legal transition'' w)))"

definition run_poll :: "promo_ctx \<Rightarrow> provider \<Rightarrow> promo_rows \<Rightarrow> provider_call list \<times> promo_rows" where
  "run_poll px pv w = map_prod id (settle_poll px) (advance px pv w)"

section \<open>Revival and abandonment\<close>

definition max_revivals :: nat where
  "max_revivals = 3"

definition fault_reasons :: "string list" where
  "fault_reasons = [provider_fault_reason, ''refused: GitHub error 409 for GET'', ''refused: GitHub error 422 for GET'']"

text \<open>What \<open>revive_faulted_promotions\<close> makes of one faulted row, if anything.\<close>

definition revived :: "uid \<Rightarrow> instant \<Rightarrow> promo \<Rightarrow> promo" where
  "revived i now old =
    old\<lparr>cp_id := i, cp_status := PM_PR_OPEN, cp_ci := [], cp_merge_state := [], cp_merged_sha := [], cp_reason := [],
      cp_no_critical := GateUnset, cp_gates := None, cp_worker := None, cp_lease := None, cp_attempt := 0, cp_created := now,
      cp_updated := now,
      cp_evidence := fresh_evidence\<lparr>pe_reconciles := pe_reconciles (cp_evidence old), pe_revived_from := Some (cp_id old),
        pe_revivals := pe_revivals (cp_evidence old) + 1\<rparr>\<rparr>"

definition may_revive :: "code_cand list \<Rightarrow> promo list \<Rightarrow> promo \<Rightarrow> bool" where
  "may_revive cs ps old \<longleftrightarrow>
    cp_status old = PM_REJECTED \<and> cp_number old \<noteq> None \<and>
    list_ex (\<lambda>c. cc_id c = cp_cand old \<and> cc_status c = CC_READY) cs \<and>
    list_ex (\<lambda>r. starts_with r (cp_reason old)) fault_reasons \<and> active_promotion_for ps (cp_cand old) = None \<and>
    pe_revivals (cp_evidence old) + 1 \<le> max_revivals \<and>
    \<not> list_ex (\<lambda>p. cp_cand p = cp_cand old \<and> cp_created old < cp_created p) ps"

definition revive_step :: "(promo \<Rightarrow> uid) \<Rightarrow> instant \<Rightarrow> code_cand list \<Rightarrow> nat \<Rightarrow> promo \<Rightarrow> nat \<times> promo list \<Rightarrow> nat \<times> promo list" where
  "revive_step new_id now cs limit old nps =
    (case nps of (n, ps) \<Rightarrow>
       if n < limit \<and> may_revive cs ps old then (n + 1, ps @ [revived (new_id old) now old]) else (n, ps))"

definition revive_faulted_promotions :: "(promo \<Rightarrow> uid) \<Rightarrow> instant \<Rightarrow> code_cand list \<Rightarrow> nat \<Rightarrow> promo list \<Rightarrow> nat \<times> promo list" where
  "revive_faulted_promotions new_id now cs limit ps =
    fold (revive_step new_id now cs limit)
      (take 200 (sort_key cp_updated (filter (\<lambda>p. cp_status p = PM_REJECTED \<and> cp_number p \<noteq> None \<and>
        list_ex (\<lambda>c. cc_id c = cp_cand p \<and> cc_status c = CC_READY) cs) ps))) (0, ps)"

text \<open>The operator's \<open>abandon\<close>; the refund of the implementation task is \<open>fail_task_with_refund\<close> of \<open>TaskService\<close>.\<close>

datatype abandon_refusal = NoReason | ReasonTooLong | AlreadyClosed | WasMerged

definition abandon :: "promo list \<Rightarrow> string \<Rightarrow> code_cand \<Rightarrow> abandon_refusal + code_cand" where
  "abandon ps reason c =
    (if strip reason = [] then Inl NoReason
     else if 1000 < length (strip reason) then Inl ReasonTooLong
     else if cc_status c = CC_ABANDONED then Inr c
     else if cc_status c \<in> {CC_REJECTED, CC_FAILED, CC_MERGED} then Inl AlreadyClosed
     else if list_ex (\<lambda>p. cp_cand p = cc_id c \<and> cp_status p = PM_MERGED) ps then Inl WasMerged
     else Inr (c\<lparr>cc_status := CC_ABANDONED\<rparr>))"

end
