(* ===== verification/PromotionProps.thy ===== *)
theory PromotionProps
  imports Promotion
begin

text \<open>
  What a poll of the promotion controller guarantees: which moves it makes and how the candidate follows, and
  what holds whenever it asks the provider to merge.
\<close>

section \<open>Moves of one poll\<close>

abbreviation promo_move :: "promotion_status \<Rightarrow> promotion_status \<Rightarrow> bool" where
  "promo_move a b \<equiv> b \<in> set (promo_transitions a)"

definition follows :: "promo_rows \<Rightarrow> promo_rows \<Rightarrow> bool" where
  "follows w w' \<longleftrightarrow>
    (let s = cp_status (pw_promo w); s' = cp_status (pw_promo w'); c = cc_status (pw_cand w); c' = cc_status (pw_cand w') in
     promo_move\<^sup>*\<^sup>* s s' \<and>
     (c' = c \<or> c = CC_READY \<and> (s' = PM_MERGED \<and> c' = CC_MERGED \<or> s' = PM_REJECTED \<and> c' = CC_REJECTED)) \<and>
     (c = CC_READY \<and> s' = PM_MERGED \<and> s \<noteq> PM_MERGED \<longrightarrow> c' = CC_MERGED))"

lemma stuck: "promo_move\<^sup>*\<^sup>* s s' \<Longrightarrow> promo_transitions s = [] \<Longrightarrow> s' = s"
  by (induction rule: converse_rtranclp_induct) auto

lemma follows_refl [intro, simp]: "follows w w"
  by (auto simp: follows_def)

lemma follows_trans:
  assumes "follows u v" "follows v w"
  shows "follows u w"
proof -
  have steps: "promo_move\<^sup>*\<^sup>* (cp_status (pw_promo u)) (cp_status (pw_promo v))"
    "promo_move\<^sup>*\<^sup>* (cp_status (pw_promo v)) (cp_status (pw_promo w))"
    using assms by (simp_all add: follows_def Let_def)
  have final: "cp_status (pw_promo v) = PM_MERGED \<Longrightarrow> cp_status (pw_promo w) = PM_MERGED"
    "cp_status (pw_promo v) = PM_REJECTED \<Longrightarrow> cp_status (pw_promo w) = PM_REJECTED"
    using stuck [OF steps(2)] by auto
  show ?thesis
    using assms rtranclp_trans [OF steps] final by (auto simp: follows_def Let_def)
qed

lemma follows_same:
  "follows u v \<Longrightarrow> cp_status (pw_promo w) = cp_status (pw_promo v) \<Longrightarrow> cc_status (pw_cand w) = cc_status (pw_cand v) \<Longrightarrow> follows u w"
  by (simp add: follows_def)

lemma starts_not_empty: "starts_with closed_by_owner [] = False"
  by (simp add: starts_with_def closed_by_owner_def)

lemma move_follows: "move_promo now new m w = Inr w' \<Longrightarrow> follows w w'"
  by (auto simp: move_promo_def follows_def settle_candidate_def Let_def split: if_splits)

lemma move_keeps:
  "move_promo now new m w = Inr w' \<Longrightarrow>
    cp_sha (pw_promo w') = cp_sha (pw_promo w) \<and> cp_gates (pw_promo w') = cp_gates (pw_promo w) \<and> cp_status (pw_promo w') = new"
  by (auto simp: move_promo_def Let_def split: if_splits)

lemma quiet_updates [simp]:
  "pw_cand (set_promo f w) = pw_cand w" "pw_promo (set_promo f w) = f (pw_promo w)" "pw_exps (set_promo f w) = pw_exps w"
  "cp_status (pw_promo (set_evidence g w)) = cp_status (pw_promo w)" "pw_cand (set_evidence g w) = pw_cand w"
  "cp_status (pw_promo (release_promo now w)) = cp_status (pw_promo w)" "pw_cand (release_promo now w) = pw_cand w"
  "cp_status (pw_promo (fail_reason m w)) = cp_status (pw_promo w)" "pw_cand (fail_reason m w) = pw_cand w"
  "cp_status (pw_promo (retier t w)) = cp_status (pw_promo w)" "cc_status (pw_cand (retier t w)) = cc_status (pw_cand w)"
  "cp_status (pw_promo (decline_recovery w)) = cp_status (pw_promo w)" "pw_cand (decline_recovery w) = pw_cand w"
  "cp_status (pw_promo (record_gates g' w)) = cp_status (pw_promo w)" "pw_cand (record_gates g' w) = pw_cand w"
  "cp_status (pw_promo (mark_auto_merged w)) = cp_status (pw_promo w)" "pw_cand (mark_auto_merged w) = pw_cand w"
  "cp_status (pw_promo (record_merge sha w)) = cp_status (pw_promo w)" "pw_cand (record_merge sha w) = pw_cand w"
  "cp_status (pw_promo (see_ci ci w)) = cp_status (pw_promo w)" "pw_cand (see_ci ci w) = pw_cand w"
  "cp_status (pw_promo (see_merged sha w)) = cp_status (pw_promo w)" "pw_cand (see_merged sha w) = pw_cand w"
  "cp_status (back_to_ci p) = cp_status p" "cp_status (record_reconciled_head h p) = cp_status p"
  by (simp_all add: set_evidence_def set_promo_def release_promo_def fail_reason_def retier_def decline_recovery_def record_gates_def
      mark_auto_merged_def record_merge_def see_ci_def see_merged_def back_to_ci_def record_reconciled_head_def)

lemma ensure_quiet [simp]:
  "pw_promo (ensure_fitness_requested px w) = pw_promo w" "pw_cand (ensure_fitness_requested px w) = pw_cand w"
  by (simp_all add: ensure_fitness_requested_def request_experiment_def Let_def split: option.split)

text \<open>A poll's rows, committed or not, follow those it began with.\<close>

definition poll_follows :: "promo_rows \<Rightarrow> (promo_exc \<times> promo_rows) + promo_rows \<Rightarrow> bool" where
  "poll_follows w r = (case r of Inl (e, w') \<Rightarrow> follows w w' | Inr w' \<Rightarrow> follows w w')"

lemma poll_follows_simps [simp]:
  "poll_follows w (Inl (e, w')) = follows w w'" "poll_follows w (Inr w') = follows w w'"
  by (simp_all add: poll_follows_def)

lemma poll_follows_move:
  assumes "follows w u" "follows w v"
  shows "poll_follows w (or_back u (move_release now new m v))"
  using assms follows_same [OF follows_trans [OF assms(2) move_follows]]
  by (cases "move_promo now new m v") (auto simp: or_back_def move_release_def)

lemma follows_quiet:
  "follows u (set_promo f w) \<longleftrightarrow> follows u w" if "\<And>p. cp_status (f p) = cp_status p"
  using that by (simp add: follows_def)

lemma follows_adjusted [simp]:
  "follows u (release_promo now w) = follows u w" "follows u (fail_reason m w) = follows u w" "follows u (retier t w) = follows u w"
  "follows u (decline_recovery w) = follows u w" "follows u (record_gates g w) = follows u w"
  "follows u (mark_auto_merged w) = follows u w" "follows u (record_merge sha w) = follows u w" "follows u (see_ci ci w) = follows u w"
  "follows u (see_merged sha w) = follows u w" "follows u (set_evidence f w) = follows u w"
  "follows u (ensure_fitness_requested px w) = follows u w"
  by (simp_all add: follows_def)

lemma validating_follows:
  assumes "follows w0 w"
  shows "poll_follows w0 (snd (poll_validating px pv w))"
proof -
  let ?w1 = "case fst (validate_promo (px_settings px) (px_ws px) (pw_cand w)) of None \<Rightarrow> w | Some t \<Rightarrow> retier t w"
  have w1: "follows w0 ?w1"
    using assms by (auto split: option.split)
  show ?thesis
    using assms w1
    by (auto simp: poll_validating_def Let_def follows_quiet intro!: poll_follows_move split: validation.split sum.split promo_exc.split)
qed

lemma adopt_follows:
  "adopt_reconciled_head now pv st w = Inr (v, w') \<Longrightarrow> follows w w'"
  using move_follows [of now PM_CI_PENDING _ "set_promo (back_to_ci \<circ> record_reconciled_head (ps_head st)) w"]
  by (auto simp: adopt_reconciled_head_def Let_def follows_def map_sum_def split: if_splits sum.splits)

lemma reconciled_rows_follow:
  assumes "follows w0 w"
  shows "poll_follows w0 (reconciled_rows now new w)"
proof -
  have status: "cp_status ((if new = [] then id else record_reconciled_head new) (back_to_ci p)) = cp_status p" for p
    by simp
  show ?thesis
    using assms follows_trans [OF _ move_follows, of w0 "set_promo (\<lambda>p. (if new = [] then id else record_reconciled_head new) (back_to_ci p)) w"]
    unfolding reconciled_rows_def or_back_def follows_quiet [OF status]
    by (auto simp: poll_follows_def mapE_def split: sum.split)
qed

lemma reconcile_follows: "follows w0 w \<Longrightarrow> poll_follows w0 (snd (reconcile_base now pv st w))"
  unfolding reconcile_base_def Let_def by (simp add: reconciled_rows_follow split: sum.split promo_exc.split)

lemma merge_follows:
  assumes "follows u w0" "follows u w"
  shows "poll_follows u (snd (poll_merge px pv w0 g w))"
proof (cases "move_promo (px_now px) PM_MERGE_ELIGIBLE [] w")
  case (Inl e)
  then show ?thesis
    using assms(1) by (simp add: poll_merge_def)
next
  case (Inr w1)
  have w1: "follows u w1"
    by (rule follows_trans [OF assms(2) move_follows [OF Inr]])
  have "poll_follows u (or_back w0 (move_release (px_now px) PM_MERGED [] (record_merge sha (mark_auto_merged w1))))" for sha
    using assms(1) w1 by (intro poll_follows_move) simp_all
  then show ?thesis
    using assms(1) w1 Inr by (simp add: poll_merge_def Let_def split: sum.split)
qed

lemma green_follows:
  assumes "follows u w0" "follows u w"
  shows "poll_follows u (snd (poll_green px pv w0 st w))"
proof -
  have merge: "poll_follows u r" if "poll_merge px pv w0 g (record_gates g (ensure_fitness_requested px w)) = (calls, r)" for g calls r
    using merge_follows [of u w0 "record_gates g (ensure_fitness_requested px w)" px pv g] assms that by simp
  show ?thesis
    using assms
    by (auto simp: poll_green_def Let_def intro!: poll_follows_move dest: merge split: sum.split prod.split)
qed

lemma stale_follows:
  assumes "follows u w0" "follows u w"
  shows "poll_follows u (snd (poll_stale px pv w0 st w))"
proof -
  have w1: "follows u (set_promo (\<lambda>p. p\<lparr>cp_merge_state := ''stale''\<rparr>) w)"
    using assms(2) by (simp add: follows_quiet)
  have rel: "poll_follows u (snd (case reconcile_base now pv st v of (calls, r) \<Rightarrow> (calls, map_sum id (release_promo now) r)))"
    if "follows u v" for now v
    using reconcile_follows [OF that, of now pv st]
    by (cases "reconcile_base now pv st v"; cases "snd (reconcile_base now pv st v)") auto
  show ?thesis
    unfolding poll_stale_def Let_def
    using assms(1) w1 rel [OF w1] rel [OF follows_trans [OF w1 move_follows]] by (auto split: sum.split simp del: split_paired_All)
qed

lemma moved_head_follows:
  assumes "follows u w0" "follows u w"
  shows "poll_follows u (snd (poll_moved_head px pv w0 st w))"
proof (cases "adopt_reconciled_head (px_now px) pv st w")
  case (Inl e)
  then show ?thesis
    using assms(1) by (simp add: poll_moved_head_def)
next
  case (Inr r)
  then obtain v w1 where r: "adopt_reconciled_head (px_now px) pv st w = Inr (v, w1)"
    by (cases r) auto
  have w1: "follows u w1"
    by (rule follows_trans [OF assms(2) adopt_follows [OF r]])
  show ?thesis
    using assms(1) w1 r by (simp add: poll_moved_head_def poll_follows_move)
qed

lemma open_follows: "poll_follows w (snd (poll_open px pv w))"
proof -
  have mv: "poll_follows w (or_back w (move_release (px_now px) new m v))" if "follows w v" for new m v
    using that by (rule poll_follows_move [OF follows_refl])
  have see: "follows w (see_ci ci w)" "follows w (see_merged sha (see_ci ci w))" for ci sha
    by simp_all
  show ?thesis
    unfolding poll_open_def Let_def
    by (simp add: mv moved_head_follows stale_follows green_follows split: sum.split)
qed

lemma advance_follows: "poll_follows w (snd (advance px pv w))"
proof -
  have sup: "poll_follows w (snd (poll_superseded px pv w))"
    using adopt_follows by (auto simp: poll_superseded_def split: sum.split)
  have br: "poll_follows w (snd (poll_branch_ready px pv w))"
    by (auto simp: poll_branch_ready_def follows_quiet intro!: poll_follows_move split: sum.split)
  have val: "poll_follows w (snd (case move_promo (px_now px) PM_VALIDATING [] w of Inl e \<Rightarrow> ([], Inl (e, w)) | Inr v \<Rightarrow> poll_validating px pv v))"
    using validating_follows [OF move_follows] by (simp split: sum.split)
  show ?thesis
    using sup br val open_follows [of w px pv] validating_follows [OF follows_refl, of w px pv] by (simp add: advance_def Let_def)
qed

lemma release_follows: "move_release now new m w = Inr w' \<Longrightarrow> follows u w \<Longrightarrow> follows u w'"
  using follows_trans [OF _ move_follows] by (auto simp: move_release_def map_sum_def split: sum.splits)

lemma handled_follows:
  assumes "handle_exc px e w = Inr w'"
  shows "follows w w'"
proof (cases e)
  case (XTransient m)
  then show ?thesis
    using assms
    by (auto simp: handle_exc_def Let_def follows_quiet split: if_splits elim!: release_follows)
next
  case (XUnavailable m)
  then show ?thesis
    using assms move_follows by (auto simp: handle_exc_def Let_def split: sum.splits)
qed (use assms in \<open>auto simp: handle_exc_def Let_def elim!: release_follows\<close>)

lemma run_poll_follows: "follows w (snd (run_poll px pv w))"
  using advance_follows [of w px pv] handled_follows follows_trans
  by (auto simp: run_poll_def settle_poll_def split: sum.split prod.split)

section \<open>The merge law\<close>

lemma latest_append:
  "latest_experiment (xs @ [e]) i = (if ex_promo e = i then newer_experiment (latest_experiment xs i) e else latest_experiment xs i)"
  by (simp add: latest_experiment_def)

text \<open>An experiment that has just been asked for satisfies nothing, nor did the one it follows.\<close>

lemma ensure_satisfied:
  assumes "fitness_satisfied (latest_experiment (all_experiments px (ensure_fitness_requested px w)) (cp_id (pw_promo w)))"
  shows "ensure_fitness_requested px w = w"
proof -
  let ?i = "cp_id (pw_promo w)" and ?e = "\<lparr>ex_promo = cp_id (pw_promo w), ex_sha = cc_head (pw_cand w), ex_status = EXP_PLANNED,
    ex_current = True, ex_gates = [], ex_regression = False, ex_confidence = [], ex_rollback = False, ex_created = px_now px\<rparr>"
  let ?w = "w\<lparr>pw_exps := pw_exps w @ [?e]\<rparr>"
  have all: "all_experiments px ?w = all_experiments px w @ [?e]"
    by (simp add: all_experiments_def)
  have planned: "\<not> fitness_satisfied (Some ?e)"
    by (simp add: fitness_satisfied_def)
  have added: "\<not> fitness_satisfied (latest_experiment (all_experiments px ?w) ?i)"
    if "\<not> fitness_satisfied (latest_experiment (all_experiments px w) ?i)"
    using that planned by (auto simp: all latest_append newer_experiment_def split: option.split)
  have request: "request_experiment px w = w \<or> request_experiment px w = ?w"
    by (simp add: request_experiment_def Let_def split: option.split)
  have none: "\<not> fitness_satisfied None"
    by (simp add: fitness_satisfied_def)
  show ?thesis
    using assms request added none
    by (auto simp: ensure_fitness_requested_def split: option.splits if_splits)
qed

lemma github_sends:
  "fst (github_merge po p sha answer) \<Longrightarrow> po_auto_merge po \<and> sha \<noteq> []"
  by (auto simp: github_merge_def Let_def split: if_splits option.splits)

lemma merge_calls:
  assumes "CallMerge sha \<in> set (fst (poll_merge px pv w0 g w))"
  shows "gt_auto g \<and> sha = cp_sha (pw_promo w) \<and> sha \<noteq> []"
proof -
  have quiet: "cp_sha (pw_promo (mark_auto_merged v)) = cp_sha (pw_promo v)" for v
    by (simp add: mark_auto_merged_def set_evidence_def)
  show ?thesis
    using assms
    by (auto simp: poll_merge_def Let_def quiet dest!: github_sends dest: move_keeps split: sum.splits if_splits)
qed

lemma offered:
  "offer_for_review po pv w st = (calls, Inr st') \<Longrightarrow>
    CallMerge sha \<notin> set calls \<and> (\<exists>d. st' = st\<lparr>ps_draft := d\<rparr> \<and> (d = ps_draft st \<or> \<not> d \<and> pv_ready pv = Inr True \<and> ready_blockers po w st = []))"
  by (cases st) (auto simp: offer_for_review_def split: if_splits sum.splits promo_exc.splits)

lemma offer_no_merge: "CallMerge sha \<notin> set (fst (offer_for_review po pv w st))"
  by (simp add: offer_for_review_def)

text \<open>The gates, read off.\<close>

lemma scope_empty:
  "autonomous_merge_scope po t paths = [] \<longleftrightarrow>
    po_auto_merge po \<and> t \<noteq> TIER_NEVER \<and> merge_ceiling po \<noteq> TIER_NEVER \<and> tier_order t \<le> tier_order (merge_ceiling po) \<and>
    owner_merge_paths paths = []"
  by (cases t; cases "merge_ceiling po") (auto simp: autonomous_merge_scope_def Let_def tier_at_least_def)

lemma freeze_empty:
  "merge_freeze_reasons px w = [] \<longleftrightarrow>
    autonomous_merges_today (px_now px) (pw_promo w # px_others px) < po_max_merges (px_settings px) \<and>
    failed_after_merge (pw_promo w # px_others px) (all_experiments px w) = 0 \<and> \<not> security_findings_block (cc_sec (pw_cand w)) \<and>
    qa_secrets_clean (cc_qa (pw_cand w)) \<and> cp_good (pw_promo w) \<noteq> [] \<and> blocking_freezes (px_kernel px) (pw_cand w) = [] \<and>
    innovation_freeze_reasons (px_kernel px) (px_target px) (cc_case (pw_cand w) \<noteq> None) (px_now px) = []"
  by (auto simp: merge_freeze_reasons_def Let_def)

lemma auto_gate:
  "gt_auto (compute_eligibility px w st) \<longleftrightarrow>
    list_all snd (hard_gates px w st) \<and> autonomous_merge_scope (px_settings px) (cp_tier (pw_promo w)) (promotion_paths w) = [] \<and>
    \<not> ps_draft st \<and> merge_freeze_reasons px w = []"
  by (auto simp: compute_eligibility_def Let_def list_all_iff filter_empty_conv)

lemma green_calls:
  assumes "CallMerge sha \<in> set (fst (poll_green px pv w0 st w))"
  shows "cp_status (pw_promo w) \<notin> {PM_PR_OPEN, PM_CI_PENDING} \<and> sha = cp_sha (pw_promo w) \<and> sha \<noteq> [] \<and>
    (\<exists>d. gt_auto (compute_eligibility px w (st\<lparr>ps_draft := d\<rparr>)) \<and>
      (d = ps_draft st \<or> pv_ready pv = Inr True \<and> ready_blockers (px_settings px) w st = []))"
proof -
  let ?v = "ensure_fitness_requested px w"
  obtain calls r where offer: "offer_for_review (px_settings px) pv ?v st = (calls, r)"
    by fastforce
  have quiet: "CallMerge sha \<notin> set calls"
    using offer_no_merge [of sha "px_settings px" pv ?v st] offer by simp
  have early: "cp_status (pw_promo w) \<notin> {PM_PR_OPEN, PM_CI_PENDING}"
    using assms by (auto simp: poll_green_def Let_def)
  then obtain st' where r: "r = Inr st'"
    using assms offer quiet by (cases r) (auto simp: poll_green_def Let_def)
  let ?g = "compute_eligibility px ?v st'"
  have "CallMerge sha \<in> set (fst (poll_merge px pv w0 ?g (record_gates ?g ?v)))"
    using assms offer r early quiet by (auto simp: poll_green_def Let_def split: if_splits prod.splits)
  from merge_calls [OF this] have g: "gt_auto ?g" "sha = cp_sha (pw_promo w)" "sha \<noteq> []"
    by (auto simp: record_gates_def)
  have "ensure_fitness_requested px w = w"
    using g(1) by (intro ensure_satisfied) (simp add: auto_gate hard_gates_def Let_def)
  then show ?thesis
    using early g offered [OF offer [unfolded r]] by auto
qed

lemma adopt_calls: "fst (poll_moved_head px pv w0 st w) = []"
  by (simp add: poll_moved_head_def)

lemma stale_calls: "CallMerge sha \<notin> set (fst (poll_stale px pv w0 st w))"
  by (auto simp: poll_stale_def reconcile_base_def Let_def split: sum.splits if_splits prod.splits)

lemma open_calls:
  assumes "CallMerge sha \<in> set (fst (poll_open px pv w))"
  shows "\<exists>st. pv_state pv = Inr st \<and> \<not> ps_merged st \<and> \<not> ps_closed st \<and> cp_status (pw_promo w) \<noteq> PM_CI_FAILED \<and>
    CallMerge sha \<in> set (fst (poll_green px pv w st (see_ci (ps_ci st) w)))"
  using assms by (auto simp: poll_open_def Let_def adopt_calls stale_calls split: sum.splits if_splits)

lemma advance_calls:
  assumes "CallMerge sha \<in> set (fst (advance px pv w))"
  shows "cp_status (pw_promo w) \<in> set open_pr_statuses \<and> CallMerge sha \<in> set (fst (poll_open px pv w))"
proof -
  have "CallMerge sha \<notin> set (fst (poll_validating px pv v))" for v
    by (simp add: poll_validating_def Let_def split: validation.split)
  then show ?thesis
    using assms
    by (auto simp: advance_def Let_def poll_branch_ready_def poll_superseded_def split: if_splits sum.splits)
qed

lemma see_ci_counts [simp]:
  "all_experiments px (see_ci ci w) = all_experiments px w" "promotion_paths (see_ci ci w) = promotion_paths w"
  "ready_blockers po (see_ci ci w) st = ready_blockers po w st"
  "autonomous_merges_today now (pw_promo (see_ci ci w) # ps) = autonomous_merges_today now (pw_promo w # ps)"
  "failed_after_merge (pw_promo (see_ci ci w) # ps) xs = failed_after_merge (pw_promo w # ps) xs"
  by (simp_all add: see_ci_def set_promo_def all_experiments_def promotion_paths_def ready_blockers_def autonomous_merges_today_def
      failed_after_merge_def count_rows_def Let_def)

lemma see_ci_fields [simp]:
  "cp_sha (pw_promo (see_ci ci w)) = cp_sha (pw_promo w)" "cp_tier (pw_promo (see_ci ci w)) = cp_tier (pw_promo w)"
  "cp_good (pw_promo (see_ci ci w)) = cp_good (pw_promo w)" "cp_id (pw_promo (see_ci ci w)) = cp_id (pw_promo w)"
  by (simp_all add: see_ci_def)

text \<open>
  C3: whenever a poll sends the provider a merge request, it is for the sha on the promotion, which is the
  head of the pull request when the provider names one, and: the switch for autonomous merges is on; the trusted tier is not NEVER and
  is at most the ceiling of the settings; no changed path is in the owner-only core; the promotion is past CI and the
  provider reports its checks passed, its base not moved, no unresolved review and no draft (or the poll has just taken
  a fully gated draft out of draft); QA passed, and Security did where it is required; no security finding blocks,
  the secret scan was clean and the last fitness experiment satisfies the gate; the day's cap is not reached, no
  earlier merge stands under a failed evaluation, a rollback point is recorded, and no freeze of an incident, an error
  budget or a P0 repair holds it.
\<close>

theorem merge_law:
  assumes "CallMerge sha \<in> set (fst (run_poll px pv w))"
  shows "\<exists>st. pv_state pv = Inr st \<and> sha = cp_sha (pw_promo w) \<and> sha \<noteq> [] \<and> ps_head st \<in> {[], sha} \<and>
    \<not> ps_merged st \<and> \<not> ps_closed st \<and> ps_ci st = ''passed'' \<and> \<not> ps_base_moved st \<and> ps_unresolved st = 0 \<and>
    (ps_draft st \<longrightarrow> pv_ready pv = Inr True \<and> ready_blockers (px_settings px) w st = []) \<and>
    cp_status (pw_promo w) \<in> {PM_CI_PASSED, PM_AWAITING_APPROVAL, PM_MERGE_ELIGIBLE} \<and>
    po_auto_merge (px_settings px) \<and> cp_tier (pw_promo w) \<noteq> TIER_NEVER \<and> merge_ceiling (px_settings px) \<noteq> TIER_NEVER \<and>
    tier_order (cp_tier (pw_promo w)) \<le> tier_order (merge_ceiling (px_settings px)) \<and> owner_merge_paths (promotion_paths w) = [] \<and>
    qa_verdict (cc_qa (pw_cand w)) = Some ''pass'' \<and> qa_secrets_clean (cc_qa (pw_cand w)) \<and>
    (cc_requires_security (pw_cand w) \<or> cp_tier (pw_promo w) \<noteq> TIER_GREEN \<longrightarrow> sec_verdict (cc_sec (pw_cand w)) = Some ''pass'') \<and>
    \<not> security_findings_block (cc_sec (pw_cand w)) \<and>
    fitness_satisfied (latest_experiment (all_experiments px w) (cp_id (pw_promo w))) \<and>
    autonomous_merges_today (px_now px) (pw_promo w # px_others px) < po_max_merges (px_settings px) \<and>
    failed_after_merge (pw_promo w # px_others px) (all_experiments px w) = 0 \<and> cp_good (pw_promo w) \<noteq> [] \<and>
    blocking_freezes (px_kernel px) (pw_cand w) = [] \<and>
    innovation_freeze_reasons (px_kernel px) (px_target px) (cc_case (pw_cand w) \<noteq> None) (px_now px) = []"
proof -
  have "CallMerge sha \<in> set (fst (advance px pv w))"
    using assms by (simp add: run_poll_def)
  from advance_calls [OF this] have s: "cp_status (pw_promo w) \<in> set open_pr_statuses" and "CallMerge sha \<in> set (fst (poll_open px pv w))"
    by simp_all
  from open_calls [OF this(2)] obtain st where st: "pv_state pv = Inr st" "\<not> ps_merged st" "\<not> ps_closed st"
    "cp_status (pw_promo w) \<noteq> PM_CI_FAILED" "CallMerge sha \<in> set (fst (poll_green px pv w st (see_ci (ps_ci st) w)))"
    by blast
  from green_calls [OF st(5)] obtain d where g: "gt_auto (compute_eligibility px (see_ci (ps_ci st) w) (st\<lparr>ps_draft := d\<rparr>))"
    "d = ps_draft st \<or> pv_ready pv = Inr True \<and> ready_blockers (px_settings px) w st = []"
    "cp_status (pw_promo w) \<notin> {PM_PR_OPEN, PM_CI_PENDING}" "sha = cp_sha (pw_promo w)" "sha \<noteq> []"
    by auto
  have status: "cp_status (pw_promo w) \<in> {PM_CI_PASSED, PM_AWAITING_APPROVAL, PM_MERGE_ELIGIBLE}"
    using s st(4) g(3) by (auto simp: open_pr_statuses_def)
  show ?thesis
    using st(1-3) g(2,4,5) status g(1) [unfolded auto_gate scope_empty freeze_empty]
    by (intro exI [of _ st]) (auto simp: hard_gates_def Let_def scope_empty)
qed

text \<open>
  C19: whatever the provider answers, one poll takes a promotion along legal moves only, so a merged or rejected
  one keeps its status for good; and the candidate's status changes only with the promotion's end: a READY
  candidate becomes MERGED exactly when its promotion does, may become REJECTED when its promotion does, and stays
  as it is otherwise.
\<close>

theorem poll_moves_legal:
  "let w' = snd (run_poll px pv w); s = cp_status (pw_promo w); s' = cp_status (pw_promo w');
       c = cc_status (pw_cand w); c' = cc_status (pw_cand w')
   in (\<lambda>a b. b \<in> set (promo_transitions a))\<^sup>*\<^sup>* s s' \<and>
      (c' = c \<or> c = CC_READY \<and> (s' = PM_MERGED \<and> c' = CC_MERGED \<or> s' = PM_REJECTED \<and> c' = CC_REJECTED)) \<and>
      (c = CC_READY \<and> s' = PM_MERGED \<and> s \<noteq> PM_MERGED \<longrightarrow> c' = CC_MERGED) \<and>
      (s \<in> {PM_MERGED, PM_REJECTED} \<longrightarrow> s' = s)"
  using run_poll_follows [of w px pv] stuck [of "cp_status (pw_promo w)" "cp_status (pw_promo (snd (run_poll px pv w)))"]
  by (auto simp: follows_def Let_def)

text \<open>
  C35: the two layers agree. Given the verdict the controller computed and stored, the provider sends a merge request
  for a non-empty head exactly when the controller allowed an autonomous merge.
\<close>

theorem merge_layers_agree:
  "fst (github_merge (px_settings px) (p\<lparr>cp_gates := Some (compute_eligibility px w st)\<rparr>) sha answer) \<longleftrightarrow>
    gt_auto (compute_eligibility px w st) \<and> sha \<noteq> []"
proof (cases "gt_auto (compute_eligibility px w st)")
  case True
  then have scope: "autonomous_merge_scope (px_settings px) (cp_tier (pw_promo w)) (promotion_paths w) = []"
    and "merge_freeze_reasons px w = []"
    by (simp_all add: auto_gate)
  then show ?thesis
    using True scope [unfolded scope_empty]
    by (cases "tier_named (po_max_tier (px_settings px))"; cases "cp_tier (pw_promo w)"; cases "merge_ceiling (px_settings px)")
      (auto simp: github_merge_def compute_eligibility_def merge_ceiling_def Let_def split: if_splits)
qed (simp add: github_merge_def)

end
