(* ===== verification/PromotionClaims.thy ===== *)
theory PromotionClaims
  imports PromotionProps
begin

text \<open>
  Runs of the promotion controller on concrete rows: the merge it exists for, and three it should not have made or
  should have counted.
\<close>

section \<open>A candidate with every gate open\<close>

definition demo_promo_settings :: promo_settings where
  "demo_promo_settings = \<lparr>po_base_branch = ''main'', po_prefix = ''auto/'', po_max_files = 8, po_max_diff_lines = 400, po_max_per_day = 4,
    po_max_open = 8, po_max_merges = 2, po_auto_merge = True, po_max_tier = ''green'', po_lease = 300, po_max_attempts = 5\<rparr>"

definition demo_candidate :: code_cand where
  "demo_candidate = \<lparr>cc_id = 1, cc_status = CC_READY, cc_branch = ''auto/x'', cc_base = ''b0'', cc_head = ''h0'', cc_changed = [''docs/a.md''],
    cc_diff_lines = 3, cc_kind = ''docs'', cc_case = None, cc_requester = Some 11, cc_builder = Some 12, cc_qa_agent = Some 13,
    cc_sec_agent = None, cc_tier = Some TIER_GREEN, cc_requires_security = False,
    cc_qa = \<lparr>qa_verdict = Some ''pass'', qa_head = Some ''h0'', qa_secrets_clean = True\<rparr>,
    cc_sec = \<lparr>sec_verdict = None, sec_head = None, sec_findings = [], sec_static = []\<rparr>\<rparr>"

definition demo_promotion :: promo where
  "demo_promotion = (new_promotion 1 0 demo_candidate)\<lparr>cp_status := PM_AWAITING_APPROVAL, cp_good := ''b0'', cp_number := Some 7,
    cp_no_critical := GateTrue, cp_paths := [''docs/a.md'']\<rparr>"

definition demo_rows :: promo_rows where
  "demo_rows = \<lparr>pw_promo = demo_promotion, pw_cand = demo_candidate,
    pw_exps = [\<lparr>ex_promo = 1, ex_sha = ''h0'', ex_status = EXP_PASS, ex_current = True, ex_gates = [True], ex_regression = False,
      ex_confidence = ''high'', ex_rollback = False, ex_created = 0\<rparr>]\<rparr>"

definition demo_px :: promo_ctx where
  "demo_px = \<lparr>px_settings = demo_promo_settings, px_now = 60, px_others = [], px_other_exps = [],
    px_kernel = \<lparr>k_db = empty_kdb, k_plans = [], k_attempts = [], k_activities = [], k_releases = [], k_promotions = [], k_beat = None\<rparr>,
    px_target = ''production'',
    px_ws = \<lparr>wf_available = True, wf_head = ''h0'', wf_changed = [''docs/a.md''], wf_diff = [], wf_static = [], wf_base_is_ancestor = True\<rparr>\<rparr>"

definition demo_state :: pr_state where
  "demo_state = \<lparr>ps_ci = ''passed'', ps_head = ''h0'', ps_base_moved = False, ps_merged = False, ps_merged_sha = [], ps_approvals = [],
    ps_unresolved = 0, ps_closed = False, ps_draft = False, ps_detail = []\<rparr>"

definition demo_pv :: provider where
  "demo_pv = \<lparr>pv_disabled = False, pv_publish = Inr ''auto/x'', pv_open_pr = Inr 7, pv_state = Inr demo_state, pv_update = Inr [],
    pv_parents = (\<lambda>_. Inr []), pv_ready = Inr True, pv_merge = Inr ''m1''\<rparr>"

lemmas demo_defs = demo_promo_settings_def demo_candidate_def demo_promotion_def demo_rows_def demo_px_def demo_state_def demo_pv_def

lemma demo_core: "owner_merge_paths [''docs/a.md''] = []"
  by code_simp

lemma demo_freezes:
  "innovation_freeze_reasons \<lparr>k_db = empty_kdb, k_plans = [], k_attempts = [], k_activities = [], k_releases = [], k_promotions = [], k_beat = None\<rparr>
    target False now = []"
  by (simp add: innovation_freeze_reasons_def error_budget_exhausted_def budgets_def slos_def mk_slo_def budget_for_def samples_def Let_def
      empty_kdb_def)

lemmas poll_defs = run_poll_def advance_def poll_open_def poll_green_def poll_merge_def poll_moved_head_def poll_superseded_def
  open_pr_statuses_def ensure_fitness_requested_def latest_experiment_def newer_experiment_def all_experiments_def fitness_satisfied_def
  offer_for_review_def adopt_reconciled_head_def reconcile_origin_def record_reconciled_head_def back_to_ci_def
  see_ci_def see_merged_def record_gates_def mark_auto_merged_def record_merge_def set_promo_def set_evidence_def release_promo_def
  move_promo_def move_release_def settle_candidate_def settle_poll_def handle_exc_def or_back_def new_promotion_def fresh_evidence_def

lemmas gate_defs = compute_eligibility_def hard_gates_def autonomous_merge_scope_def merge_ceiling_def tier_named_def promotion_paths_def dedup_def
  merge_freeze_reasons_def autonomous_merges_today_def failed_after_merge_def blocking_freezes_def security_findings_block_def
  count_rows_def demo_core demo_freezes github_merge_def

lemmas poll_eval = poll_defs gate_defs demo_defs Let_def

text \<open>The merge law at a poll that does merge.\<close>

lemma merge_law_witness:
  "\<exists>st. pv_state demo_pv = Inr st \<and> ps_ci st = ''passed'' \<and> fitness_satisfied (latest_experiment (all_experiments demo_px demo_rows) 1)"
proof -
  have "CallMerge ''h0'' \<in> set (fst (run_poll demo_px demo_pv demo_rows))"
    by (simp add: poll_eval) (simp add: empty_kdb_def)
  from merge_law [OF this] show ?thesis
    by (auto simp: demo_rows_def demo_promotion_def new_promotion_def)
qed

text \<open>The poll that merges settles the candidate, and the next poll leaves the merged promotion alone.\<close>

lemma demo_merged:
  "cp_status (pw_promo (snd (run_poll demo_px demo_pv demo_rows))) = PM_MERGED"
  by (simp add: poll_eval) (simp add: empty_kdb_def)

lemma demo_ready: "cp_status (pw_promo demo_rows) = PM_AWAITING_APPROVAL" "cc_status (pw_cand demo_rows) = CC_READY"
  by (simp_all add: demo_defs)

lemma poll_moves_legal_witness:
  "let w = snd (run_poll demo_px demo_pv demo_rows)
   in cc_status (pw_cand w) = CC_MERGED \<and> cp_status (pw_promo (snd (run_poll demo_px demo_pv w))) = PM_MERGED"
  using poll_moves_legal [where w = demo_rows and px = demo_px and pv = demo_pv]
    poll_moves_legal [where w = "snd (run_poll demo_px demo_pv demo_rows)" and px = demo_px and pv = demo_pv]
  by (simp add: Let_def demo_merged demo_ready)

section \<open>Somebody else's merge is adopted\<close>

text \<open>The controller has asked for an update of the branch and was told it is under way.\<close>

definition reconciling_rows :: promo_rows where
  "reconciling_rows = set_promo (\<lambda>p. p\<lparr>cp_status := PM_CI_PENDING, cp_sha := ''h0'',
     cp_evidence := fresh_evidence\<lparr>pe_reconciles := 1, pe_pending := Some ''h0''\<rparr>\<rparr>) demo_rows"

text \<open>The head is now \<open>m\<close>, a merge of \<open>other\<close> into the validated head.\<close>

definition merged_by_hand :: "string \<Rightarrow> provider" where
  "merged_by_hand other = demo_pv\<lparr>pv_state := Inr (demo_state\<lparr>ps_head := ''m''\<rparr>), pv_parents := (\<lambda>_. Inr [''h0'', other])\<rparr>"

definition adopted_rows :: "promotion_status \<Rightarrow> string \<Rightarrow> promo_rows" where
  "adopted_rows s ci = set_promo (\<lambda>p. p\<lparr>cp_status := s, cp_sha := ''m'', cp_ci := ci, cp_merge_state := ''reconciling'', cp_updated := 60,
     cp_evidence := fresh_evidence\<lparr>pe_reconciles := 1\<rparr>\<rparr>) demo_rows"

lemma adoption: "run_poll demo_px (merged_by_hand other) reconciling_rows = ([], adopted_rows PM_CI_PENDING ''pending'')"
  by (simp add: poll_defs demo_defs Let_def reconciling_rows_def merged_by_hand_def adopted_rows_def)

lemma adopted_passes:
  "run_poll demo_px (merged_by_hand other) (adopted_rows PM_CI_PENDING ''pending'') = ([], adopted_rows PM_CI_PASSED ''passed'')"
  by (simp add: poll_defs demo_defs Let_def merged_by_hand_def adopted_rows_def)

lemma adopted_merges:
  "let poll = run_poll demo_px (merged_by_hand other) (adopted_rows PM_CI_PASSED ''passed'')
   in CallMerge ''m'' \<in> set (fst poll) \<and> cp_status (pw_promo (snd poll)) = PM_MERGED \<and> qa_head (cc_qa (pw_cand (snd poll))) = Some ''h0''"
  by (simp add: poll_eval merged_by_hand_def adopted_rows_def) (simp add: empty_kdb_def)

text \<open>
  C36: while a base update is pending, a two-parent commit on the branch is taken for the controller's own whenever its
  first parent is the validated head: the second parent, which would be the base, is never looked at. Whatever
  \<open>other\<close> is, the third poll merges \<open>m\<close> into main, though QA passed \<open>h0\<close> only.
\<close>

theorem foreign_merge_adopted:
  "let pv = merged_by_hand other; w1 = snd (run_poll demo_px pv reconciling_rows); w2 = snd (run_poll demo_px pv w1);
       poll = run_poll demo_px pv w2
   in cp_sha (pw_promo w1) = ''m'' \<and> CallMerge ''m'' \<in> set (fst poll) \<and> cp_status (pw_promo (snd poll)) = PM_MERGED \<and>
      qa_head (cc_qa (pw_cand (snd poll))) = Some ''h0''"
  using adopted_merges [of other]
  by (simp add: Let_def adoption adopted_passes) (simp add: adopted_rows_def set_promo_def)

section \<open>A merge that is not counted\<close>

definition timed_out_rows :: "string \<Rightarrow> promo_rows" where
  "timed_out_rows m = set_promo (\<lambda>p. p\<lparr>cp_reason := ''transient: '' @ m, cp_lease := Some (60 + seconds 5), cp_updated := 60,
     cp_evidence := fresh_evidence\<lparr>pe_transient := 1\<rparr>\<rparr>) demo_rows"

lemma timed_out: "run_poll demo_px (demo_pv\<lparr>pv_merge := Inl (XTransient m)\<rparr>) demo_rows = ([CallMerge ''h0''], timed_out_rows m)"
proof -
  have "backoff_lease demo_promo_settings (Suc 0) = seconds 5"
    by (simp add: backoff_lease_def demo_promo_settings_def)
  then show ?thesis
    by (simp add: poll_eval timed_out_rows_def) (simp add: empty_kdb_def demo_promo_settings_def)
qed

lemma found_merged:
  "let w = snd (run_poll demo_px (demo_pv\<lparr>pv_state := Inr (demo_state\<lparr>ps_merged := True, ps_merged_sha := ''m1''\<rparr>)\<rparr>) (timed_out_rows m))
   in cp_status (pw_promo w) = PM_MERGED \<and> cp_merged_sha (pw_promo w) = ''m1'' \<and> \<not> pe_auto_merged (cp_evidence (pw_promo w))"
  by (simp add: poll_defs demo_defs Let_def timed_out_rows_def)

text \<open>
  C37: when the answer to the merge request is lost (the provider has merged, the request times out), the rollback
  takes the record of the controller's decision with it. The next poll finds the pull request merged and ends the
  promotion as MERGED, but the day's count of autonomous merges does not include it, so the cap is not spent.
\<close>

theorem merge_timeout_uncounted:
  "let poll = run_poll demo_px (demo_pv\<lparr>pv_merge := Inl (XTransient m)\<rparr>) demo_rows;
       w = snd (run_poll demo_px (demo_pv\<lparr>pv_state := Inr (demo_state\<lparr>ps_merged := True, ps_merged_sha := ''m1''\<rparr>)\<rparr>) (snd poll))
   in CallMerge ''h0'' \<in> set (fst poll) \<and> cp_status (pw_promo w) = PM_MERGED \<and> cp_merged_sha (pw_promo w) = ''m1'' \<and>
      autonomous_merges_today (px_now demo_px) [pw_promo w] = 0"
  using found_merged [of m] by (simp add: Let_def timed_out autonomous_merges_today_def count_rows_def)

section \<open>An abandoned candidate is merged\<close>

text \<open>
  C38: the gates never look at the candidate's status. An operator abandons a READY candidate whose pull request is
  out of draft; nothing ends the promotion, and the next poll merges the candidate's branch into main, leaving a
  merged promotion of an abandoned candidate.
\<close>

theorem abandoned_candidate_merges:
  "case abandon [demo_promotion] ''no longer wanted'' demo_candidate of
     Inl _ \<Rightarrow> False
   | Inr c \<Rightarrow>
       let poll = run_poll demo_px demo_pv (demo_rows\<lparr>pw_cand := c\<rparr>)
       in cc_status c = CC_ABANDONED \<and> CallMerge ''h0'' \<in> set (fst poll) \<and> cp_status (pw_promo (snd poll)) = PM_MERGED \<and>
          cc_status (pw_cand (snd poll)) = CC_ABANDONED"
proof -
  have "strip ''no longer wanted'' = ''no longer wanted''"
    by code_simp
  then have "abandon [demo_promotion] ''no longer wanted'' demo_candidate = Inr (demo_candidate\<lparr>cc_status := CC_ABANDONED\<rparr>)"
    by (simp add: abandon_def demo_candidate_def demo_promotion_def new_promotion_def)
  then show ?thesis
    by (simp add: poll_eval) (simp add: empty_kdb_def)
qed

end
