(* ===== verification/Spec2Isabelle.thy ===== *)
theory Spec2Isabelle
  imports MoneyProps TaskRoute Reputation Offers KernelFaults PlanRules ReleaseProps PatchProps SocietyPolicyProps SocietyRunClaims
    SocietyIntentProps PromotionClaims
begin

text \<open>
  AgentNet is a market in which agents publish capabilities and pay each other for tasks, with an
  autonomous maintenance system that repairs and redeploys the platform itself. Paths below are
  relative to \<open>src/\<close>; \<open>R/\<close> is \<open>services/registry/app/\<close>, \<open>M/\<close> is \<open>R/maintenance/\<close> and \<open>S/\<close> is
  \<open>R/society/\<close>. The development has three parts. The money path shares only the prelude with the others;
  the society reports its dead runs as incidents of the maintenance system, and its merges stop at the
  freezes and error budgets of that system.

  \<^bold>\<open>The money path.\<close> Agents own wallets. The registry creates a task by reserving its price in the
  caller's wallet (escrow), and later settles it to the agent that did the work, net of a platform
  fee, or releases it. The payment service, the background worker and the approval routes touch the
  same rows from other processes.
    \<^item> \<open>Prelude\<close>: instants, tables as lists of rows with lookups and keyed updates, JSON values, string
      helpers, the locales \<open>invariant_system\<close> and \<open>simulation\<close> for reachable states and refinement.
    \<^item> \<open>TaskContract\<close> (\<open>R/task_contract.py\<close>): statuses and their table, canonical JSON, the idempotency
      key, price and deadline rules, behind the locale \<open>status_machine\<close>.
    \<^item> \<open>MoneyDb\<close> (\<open>services/payment/app/models.py\<close>, \<open>init-db/*.sql\<close>): wallets, transactions, task rows
      and the triggers that move balances when a transaction completes; \<open>ExampleDb\<close> is a small
      database the witnesses use.
    \<^item> \<open>TaskService\<close> (\<open>R/task_service.py\<close>): creation with escrow, start, completion, confirmation,
      failure, cancellation, timeout. \<open>EscrowInvariants\<close> states \<open>escrow_ok\<close>, that a wallet's reservation
      is the sum of its live escrows and that no wallet is overdrawn; \<open>TaskSafety\<close> proves that every
      operation keeps it, \<open>TaskProps\<close> what each operation does on success.
    \<^item> \<open>Payments\<close>, \<open>Approvals\<close> (\<open>services/payment/app/\<close>), \<open>Worker\<close> (\<open>services/worker/app/worker.py\<close>): the
      other writers of those rows.
    \<^item> \<open>EscrowBook\<close> is the abstract specification, a book of balances and holds. \<open>MoneySystem\<close> puts all
      writers into one step relation and proves that it keeps the accounts, never reopens a finished
      task, and refines the book. \<open>MoneyProps\<close> has the properties of the whole and of the two
      operations that break it.
    \<^item> \<open>Authz\<close>, \<open>TaskRoute\<close> (\<open>R/authz.py\<close>, \<open>R/api/routes/tasks.py\<close>): scoped tokens and their spending
      caps. \<open>Offers\<close> (\<open>R/api/routes/offers.py\<close>): negotiation. \<open>Float64\<close>, \<open>Reputation\<close>
      (\<open>R/reputation.py\<close>): scores and tiers as the IEEE doubles the code computes with.

  \<^bold>\<open>The maintenance system.\<close> Monitors write observations, observations become incidents, an incident
  opens a repair case, a reconciler moves the case through the table of a state machine while models
  design, build and review a repair, and a release controller merges and deploys it.
    \<^item> \<open>Taxonomy\<close>, \<open>CaseMachine\<close>, \<open>Fingerprint\<close>, \<open>Slo\<close> (\<open>M/taxonomy.py\<close>, \<open>M/state_machine.py\<close>,
      \<open>M/fingerprint.py\<close>, \<open>M/slo.py\<close>): vocabularies, the table of moves and its start-up check,
      structural fingerprints of failures, error budgets.
    \<^item> \<open>Ledger\<close>, \<open>Incidents\<close>, \<open>MaintPolicy\<close> (\<open>M/orm.py\<close>, \<open>M/ledger.py\<close>, \<open>M/incidents.py\<close>,
      \<open>M/policy.py\<close>, \<open>M/config.py\<close>): the durable rows, audited transitions, ingestion and deduplication,
      capacity and budget.
    \<^item> \<open>Kernel\<close>, \<open>Reconcile\<close> (\<open>M/reconciler.py\<close>, \<open>M/owner.py\<close>): the handler of every state and the cycle
      around a step: heartbeat, sweeps, claim, step, retry, deadline. \<open>KernelLaws\<close> is the interface
      between the kernel and an invariant of its database: its locales list the row writes a step can
      make and prove once that every cycle keeps an invariant closed under them; \<open>KernelProps\<close>
      interprets them for five invariants. \<open>KernelMoves\<close> is a second calculus that follows the state of
      the claimed case up to its move. \<open>KernelFaults\<close> has the liveness of deadlines and claims and the
      situations the kernel does not handle.
    \<^item> \<open>Glob\<close>, \<open>Risk\<close> (\<open>S/risk.py\<close> with the \<open>fnmatch\<close> and \<open>re\<close> it uses), \<open>PatchPolicy\<close> (\<open>M/policy.py\<close>,
      \<open>M/contracts.py\<close>): the trusted risk of a change. \<open>PlanRules\<close> (\<open>M/reconciler.py\<close>): the validation
      of a plan a model wrote.
    \<^item> \<open>Attestation\<close>, \<open>Release\<close> (\<open>M/attestation.py\<close>, \<open>M/release.py\<close>, \<open>M/release_providers.py\<close>): signed
      evidence and the release controller. \<open>ReleaseProps\<close> computes weakest preconditions over its
      steps, and proves its properties whatever the providers answer.

    \<^item> \<open>Worktree\<close>, \<open>PatchSet\<close>, \<open>PatchProps\<close> (\<open>S/engineering/workspace.py\<close>, \<open>M/patchset.py\<close>,
      \<open>M/harness.py\<close>): how a model's edits reach a worktree. \<open>Worktree\<close> is a file tree with links, with
      what \<open>pathlib\<close> does on it, and the containment of paths; \<open>PatchSet\<close> is the validation and
      application of a patch, of a submission's edits, and the tool around them; \<open>PatchProps\<close> proves that
      a patch stays inside, that it does what it says, and where it does not.

  \<^bold>\<open>The agent society.\<close> Agents are woken by events, a model decides, and what it decided is validated,
  adjudicated, held for a human where the grant asks for it, and executed. A change that passed QA and
  Security becomes a promotion, which a controller takes through a pull request to a merge.
    \<^item> \<open>SocietyPolicy\<close>, \<open>SocietyPolicyProps\<close> (\<open>S/policy.py\<close>, \<open>S/intents.py\<close>): the vocabulary of intents, risk
      classes, capability grants, feature flags and scopes, and exactly what the policy allows.
    \<^item> \<open>SocietyRuns\<close>, \<open>SocietyRunProps\<close>, \<open>SocietyRunClaims\<close> (\<open>S/runs.py\<close>, \<open>S/events.py\<close>, \<open>S/policy.py\<close>,
      \<open>S/worker.py\<close>): the event log, the dispatch with its loop breaker, claims and leases, the budget
      gate, and the ends of a run. A step relation of all workers keeps the invariant \<open>runs_ok\<close>, an
      interpretation of \<open>invariant_system\<close>.
    \<^item> \<open>SocietyIntents\<close>, \<open>SocietyIntentProps\<close> (\<open>S/worker.py\<close>, \<open>S/approvals.py\<close>, \<open>S/memory_grounding.py\<close>,
      \<open>S/executor.py\<close>): a decision is stored, its intents are executed or wait for a human, and an approved
      one is resumed. A second step relation keeps \<open>gate_ok\<close>, from which the human gate and the
      grounding of memories follow. The handlers are a parameter that may change everything but the
      intents and approvals.
    \<^item> \<open>Promotion\<close>, \<open>PromotionProps\<close>, \<open>PromotionClaims\<close> (\<open>S/promotion.py\<close>, \<open>S/fitness.py\<close>,
      \<open>S/promotion_github.py\<close>, \<open>S/candidate_admin.py\<close>): requests, validation, base reconciliation, the merge
      gates, and one poll as a function from rows and the provider's answers to the calls it makes and
      the rows it leaves, its exception handlers included. \<open>PromotionProps\<close> proves the merge law and the
      table of moves for every answer; \<open>PromotionClaims\<close> has three runs that merge or count wrongly.

  \<^bold>\<open>How the code is modelled.\<close> A table is a list of rows and a query filters it. A handler that holds a
  row lock runs as one step. A database transaction is a pair of the committed and the pending state;
  a raise throws the pending half away. An HTTP or database error is a value of a sum type. Ids and
  clocks are arguments. What a model, a provider or another process answers is an argument as well:
  the reply of every external call is a field of an input record, and the theorems hold for all
  replies. In the kernel the function \<open>in_meanwhile\<close> stands for what the other sessions commit while a
  model call runs; a property with a hypothesis on it says what those sessions have to respect, and
  has a witness in which they do write. SQLAlchemy's in-place changes to a JSON column, which are not
  flushed, are modelled for the release evidence, where they matter.

  \<^bold>\<open>Bounds.\<close> Python integers are \<open>int\<close>; money is in cents or in the rationals a \<open>Decimal\<close> stands for;
  floats are rationals rounded to 53 bits. Loops over rows are structural. The loops of the
  regular expressions and of the release sweep carry a fuel that their callers set to the length of
  the text or the number of rows, which is enough because every round consumes one of them; the
  theories prove this where a property depends on it.

  \<^bold>\<open>Not modelled.\<close> Human-readable reasons with interpolated values are reduced to their constant part or
  left out; no decision reads them, except the prefix by which a faulted promotion is recognised, which is kept.
  Process mains, HTTP clients, DDL, dashboards, the simulation service, the SDK and the deployment scripts are
  I/O around the parts above. Of the society, the prompts, contexts and model calls, the handlers of single
  intents, the boardroom and the ticket board rest on model output or on text; the payload schemas, the
  redaction of secrets, git and the git host are parameters. The resumption of an approved intent is one step,
  though the code commits in the middle of it to show that it has begun. The record of a candidate is the one
  the promotion controller reads; building and judging a candidate end in that record and are not modelled.
  Cryptographic hashes and HMACs are parameters.
\<close>

end
